(* ===== verification/Prelude.thy ===== *)
theory Prelude
  imports Main "HOL-Library.Sublist"
begin

text \<open>
  Shared ground of the development: the error values of
  \<^verbatim>\<open>server/model/validation_error.go\<close>, Go's 64-bit integers, pointer receivers,
  the commit idiom of the domain methods (copy the receiver, change the copy, validate it,
  assign it back), runs of operations, and the interfaces (locales) that the components
  implement.  The component theories interpret these locales on their own operations.
\<close>

named_theorems op_defs \<open>definitions of domain operations\<close>
named_theorems val_defs \<open>definitions of validation routines\<close>

section \<open>Errors\<close>

text \<open>
  An error value is a validation error (its fields are those of the struct
  \<^verbatim>\<open>ValidationError\<close>), a package-level sentinel made by \<^verbatim>\<open>errors.New\<close>, or an error
  of the persistence layer (\<^verbatim>\<open>server/store/errors.go\<close>): its kind, the entity or resource, and the
  field, constraint or identifier it names.
\<close>

datatype store_error_kind =
    ErrInvalidInput
  | ErrNotFound
  | ErrConflict
  | ErrReference
  | ErrInvalidState
  | ErrDriver

datatype go_error =
    ValidationError (err_Code: string) (err_Field: string) (err_Reason: string)
      (err_Details: string) (err_Model: string) (err_cause: "go_error option")
  | Sentinel string
  | StoreError store_error_kind string string

definition invalidModelError ::
    "string \<Rightarrow> string \<Rightarrow> string \<Rightarrow> string \<Rightarrow> string \<Rightarrow> go_error" where
  "invalidModelError whr modelName fld reason details =
     ValidationError
       (if fld = '''' then ''model.'' @ modelName @ ''.is_valid.app_error''
        else ''model.'' @ modelName @ ''.is_valid.'' @ fld @ ''.app_error'')
       fld reason details modelName None"

text \<open>
  The simplifier need not look inside the message strings of an error: two errors are
  compared only after unfolding.
\<close>

lemma invalidModelError_weak_cong [cong]:
  "invalidModelError w m f r d = invalidModelError w m f r d"
  by (rule refl)

definition ErrorCode :: "go_error option \<Rightarrow> string" where
  "ErrorCode e = (case e of Some (ValidationError c f r d m k) \<Rightarrow> c | _ \<Rightarrow> '''')"

definition SafeFields :: "go_error option \<Rightarrow> (string \<times> string) list" where
  "SafeFields e = (case e of
       Some (ValidationError c f r d m k) \<Rightarrow> (if f = '''' then [] else [(''field'', f)])
     | _ \<Rightarrow> [])"

text \<open>
  \<^verbatim>\<open>wrap\<close> records the cause; \<^verbatim>\<open>errors.As\<close> finds the first validation error in the
  chain that starts at the cause, which is the cause itself when it is one.
\<close>

definition wrap_error :: "go_error \<Rightarrow> go_error \<Rightarrow> go_error" where
  "wrap_error e k = (case e of
       ValidationError c f r d m _ \<Rightarrow>
         ValidationError c
           (if f = '''' then
              (case k of ValidationError _ f' _ _ _ _ \<Rightarrow> (if f' \<noteq> '''' then f' else f)
               | _ \<Rightarrow> f)
            else f) r d m (Some k)
     | _ \<Rightarrow> e)"

lemma invalidModelError_field [simp]: "err_Field (invalidModelError w m f r d) = f"
  by (simp add: invalidModelError_def)

text \<open>A validation routine is a chain of guards; it accepts exactly when no guard fires.\<close>

lemma guard_ok:
  "(if c then Some e else r) = None \<longleftrightarrow> \<not> c \<and> r = None"
  "(if c then r else Some e) = None \<longleftrightarrow> c \<and> r = None"
  "(case v of None \<Rightarrow> r | Some x \<Rightarrow> Some x) = None \<longleftrightarrow> v = None \<and> r = None"
  by (simp_all split: option.split)

section \<open>64-bit signed integers\<close>

text \<open>
  Go's \<^verbatim>\<open>int64\<close> and \<^verbatim>\<open>int\<close> (64 bits on every supported platform) are integers
  whose arithmetic wraps around; \<open>wrap64\<close> is that wrap-around.
\<close>

definition maxInt64 :: int where "maxInt64 = 9223372036854775807"
definition minInt64 :: int where "minInt64 = -9223372036854775808"

definition wrap64 :: "int \<Rightarrow> int" where
  "wrap64 x = (x + 9223372036854775808) mod 18446744073709551616 - 9223372036854775808"

definition inc64 :: "int \<Rightarrow> int" where
  "inc64 x = wrap64 (x + 1)"

definition is_int64 :: "int \<Rightarrow> bool" where
  "is_int64 x \<longleftrightarrow> minInt64 \<le> x \<and> x \<le> maxInt64"

lemmas int64_defs = maxInt64_def minInt64_def wrap64_def inc64_def is_int64_def

lemma wrap64_id: "is_int64 x \<Longrightarrow> wrap64 x = x"
  by (simp add: int64_defs)

lemma wrap64_range: "is_int64 (wrap64 x)"
proof -
  have "0 \<le> (x + 9223372036854775808) mod 18446744073709551616"
    and "(x + 9223372036854775808) mod 18446744073709551616 < 18446744073709551616"
    by simp_all
  then show ?thesis by (simp add: int64_defs)
qed

lemma inc64_below_max: "is_int64 x \<Longrightarrow> x < maxInt64 \<Longrightarrow> inc64 x = x + 1"
  by (simp add: int64_defs)

lemma inc64_max: "inc64 maxInt64 = minInt64"
  by (simp add: int64_defs)

lemma inc64_positive_iff:
  assumes "is_int64 x" and "1 \<le> x"
  shows "1 \<le> inc64 x \<longleftrightarrow> x < maxInt64"
proof (cases "x < maxInt64")
  case True
  with assms show ?thesis by (simp add: inc64_below_max)
next
  case False
  with assms have "x = maxInt64" by (simp add: is_int64_def)
  then show ?thesis by (simp add: inc64_max) (simp add: int64_defs)
qed

lemma is_int64_inc64 [simp]: "is_int64 (inc64 x)"
  by (simp add: inc64_def wrap64_range)

lemma valid_inc64:
  "is_int64 r \<Longrightarrow> 1 \<le> r \<Longrightarrow> 1 \<le> inc64 r \<Longrightarrow> inc64 r = r + 1"
  by (simp add: inc64_positive_iff inc64_below_max)

section \<open>Receivers and the commit idiom\<close>

text \<open>
  A method with a pointer receiver takes the pointee or nil (\<open>None\<close>), and returns the
  pointee after the call together with the error it returns.  A mutation that is made
  before a failing check is therefore visible in the model.
\<close>

type_synonym 's outcome = "'s \<times> go_error option"

definition on_receiver ::
    "'s option \<Rightarrow> go_error \<Rightarrow> ('s \<Rightarrow> 's outcome) \<Rightarrow> 's option outcome" where
  "on_receiver p nil_error body = (case p of
       None \<Rightarrow> (None, Some nil_error)
     | Some s \<Rightarrow> (case body s of (s', e) \<Rightarrow> (Some s', e)))"

lemma on_receiver_None [simp]: "on_receiver None e f = (None, Some e)"
  by (simp add: on_receiver_def)

lemma on_receiver_Some [simp]: "on_receiver (Some s) e f = (Some (fst (f s)), snd (f s))"
  by (simp add: on_receiver_def split: prod.split)

text \<open>
  \<^verbatim>\<open>if err := candidate.Validate(); err != nil { return err }; *s = candidate; return nil\<close>
\<close>

definition commit :: "('s option \<Rightarrow> go_error option) \<Rightarrow> 's \<Rightarrow> 's \<Rightarrow> 's outcome" where
  "commit validate s candidate = (case validate (Some candidate) of
       Some e \<Rightarrow> (s, Some e)
     | None \<Rightarrow> (candidate, None))"

lemma commit_ok_iff [simp]:
  "snd (commit v s c) = None \<longleftrightarrow> v (Some c) = None"
  by (simp add: commit_def split: option.split)

lemma commit_fst:
  "fst (commit v s c) = (if v (Some c) = None then c else s)"
  by (simp add: commit_def split: option.split)

lemma commit_error_keeps [simp]: "v (Some c) \<noteq> None \<Longrightarrow> fst (commit v s c) = s"
  by (auto simp: commit_def)

text \<open>
  An outcome that reports an error without having touched the receiver.
\<close>

definition clean :: "'s \<Rightarrow> 's outcome \<Rightarrow> bool" where
  "clean s r \<longleftrightarrow> (snd r \<noteq> None \<longrightarrow> fst r = s)"

lemma clean_simps [simp]:
  "clean s (s, e)"
  "clean s (t, None)"
  "clean s (commit v s c)"
  "clean (Some s) (on_receiver (Some s) n f) \<longleftrightarrow> clean s (f s)"
  by (simp_all add: clean_def commit_def on_receiver_def split: option.split prod.split)

lemma cleanD: "clean s r \<Longrightarrow> snd r \<noteq> None \<Longrightarrow> fst r = s"
  by (simp add: clean_def)

section \<open>Runs\<close>

text \<open>
  A component's operations are the values of an operation datatype; \<open>exec op s\<close> is the
  outcome of one call.  A run applies a list of calls; a call that fails leaves its effect
  (none, where the component is atomic) and the run goes on.
\<close>

fun run :: "('o \<Rightarrow> 's \<Rightarrow> 's outcome) \<Rightarrow> 'o list \<Rightarrow> 's \<Rightarrow> 's" where
  "run exec [] s = s"
| "run exec (c # cs) s = run exec cs (fst (exec c s))"

text \<open>The number of calls of a run that changed the state.\<close>

fun changes :: "('o \<Rightarrow> 's \<Rightarrow> 's outcome) \<Rightarrow> 'o list \<Rightarrow> 's \<Rightarrow> nat" where
  "changes exec [] s = 0"
| "changes exec (c # cs) s =
     (if fst (exec c s) \<noteq> s then 1 else 0) + changes exec cs (fst (exec c s))"

lemma run_append: "run exec (cs @ ds) s = run exec ds (run exec cs s)"
  by (induction cs arbitrary: s) simp_all

inductive step :: "('o \<Rightarrow> 's \<Rightarrow> 's outcome) \<Rightarrow> 's \<Rightarrow> 's \<Rightarrow> bool" for exec where
  call: "snd (exec c s) = None \<Longrightarrow> step exec s (fst (exec c s))"

inductive reaches :: "('o \<Rightarrow> 's \<Rightarrow> 's outcome) \<Rightarrow> 's \<Rightarrow> 's \<Rightarrow> bool" for exec where
  start: "reaches exec s s"
| move: "reaches exec s t \<Longrightarrow> step exec t u \<Longrightarrow> reaches exec s u"

inductive_cases stepE: "step exec s t"

section \<open>Interfaces\<close>

text \<open>
  An aggregate: its operations are atomic (a call that returns an error leaves the
  receiver as it was) and keep a well-formedness invariant.
\<close>

locale aggregate =
  fixes exec :: "'o \<Rightarrow> 's \<Rightarrow> 's outcome"
    and wf :: "'s \<Rightarrow> bool"
  assumes atomic: "snd (exec c s) \<noteq> None \<Longrightarrow> fst (exec c s) = s"
    and keeps_wf: "wf s \<Longrightarrow> snd (exec c s) = None \<Longrightarrow> wf (fst (exec c s))"
begin

lemma exec_wf: "wf s \<Longrightarrow> wf (fst (exec c s))"
  by (cases "snd (exec c s) = None") (auto simp: keeps_wf atomic)

lemma run_wf: "wf s \<Longrightarrow> wf (run exec cs s)"
  by (induction cs arbitrary: s) (auto intro: exec_wf)

lemma step_wf: "step exec s t \<Longrightarrow> wf s \<Longrightarrow> wf t"
  by (auto elim!: stepE intro: keeps_wf)

lemma reaches_wf: "reaches exec s t \<Longrightarrow> wf s \<Longrightarrow> wf t"
  by (induction rule: reaches.induct) (auto intro: step_wf)

lemma reaches_run: "reaches exec s (run exec cs s)"
proof (induction cs rule: rev_induct)
  case Nil
  show ?case by (simp add: reaches.start)
next
  case (snoc c cs)
  let ?t = "run exec cs s"
  show ?case
  proof (cases "snd (exec c ?t) = None")
    case True
    then have "step exec ?t (fst (exec c ?t))" by (rule step.call)
    with snoc show ?thesis by (auto simp: run_append intro: reaches.move)
  next
    case False
    with snoc show ?thesis by (simp add: run_append atomic)
  qed
qed

text \<open>A relation that every successful call respects holds between the ends of a run.\<close>

lemma run_relation:
  assumes refl: "\<And>s. R s s"
    and trans: "\<And>s t u. R s t \<Longrightarrow> R t u \<Longrightarrow> R s u"
    and call: "\<And>c s. wf s \<Longrightarrow> snd (exec c s) = None \<Longrightarrow> R s (fst (exec c s))"
    and wf: "wf s"
  shows "R s (run exec cs s)"
  using wf
proof (induction cs arbitrary: s)
  case Nil
  show ?case by (simp add: refl)
next
  case (Cons c cs)
  have "R s (fst (exec c s))"
    by (cases "snd (exec c s) = None") (use Cons.prems in \<open>auto simp: call atomic refl\<close>)
  moreover have "R (fst (exec c s)) (run exec cs (fst (exec c s)))"
    by (rule Cons.IH) (rule exec_wf [OF Cons.prems])
  ultimately show ?case by (auto intro: trans)
qed

end

text \<open>
  A versioned aggregate: every call that changes the state advances the revision by exactly
  one, so the revision counts the accepted changes and serves as an optimistic-concurrency
  stamp.
\<close>

locale versioned_aggregate = aggregate exec wf
  for exec :: "'o \<Rightarrow> 's \<Rightarrow> 's outcome" and wf :: "'s \<Rightarrow> bool" +
  fixes revision :: "'s \<Rightarrow> int"
  assumes bumps: "wf s \<Longrightarrow> fst (exec c s) \<noteq> s \<Longrightarrow> revision (fst (exec c s)) = revision s + 1"
begin

lemma run_revision:
  "wf s \<Longrightarrow> revision (run exec cs s) = revision s + int (changes exec cs s)"
proof (induction cs arbitrary: s)
  case Nil
  show ?case by simp
next
  case (Cons c cs)
  from Cons.prems have "wf (fst (exec c s))" by (rule exec_wf)
  with Cons.IH Cons.prems show ?case
    by (cases "fst (exec c s) = s") (auto simp: bumps)
qed

lemma same_revision_same_state:
  assumes "wf s" and "revision (run exec cs s) = revision s"
  shows "run exec cs s = s"
proof -
  from assms have "changes exec cs s = 0" by (simp add: run_revision)
  then show ?thesis
    by (induction cs arbitrary: s) (auto split: if_splits)
qed

end

text \<open>
  A lifecycle: the control state of an aggregate moves only along the edges of a graph.
\<close>

locale lifecycle = aggregate exec wf
  for exec :: "'o \<Rightarrow> 's \<Rightarrow> 's outcome" and wf :: "'s \<Rightarrow> bool" +
  fixes control :: "'s \<Rightarrow> 'q"
    and edge :: "'q \<Rightarrow> 'q \<Rightarrow> bool"
  assumes moves_along: "wf s \<Longrightarrow> snd (exec c s) = None \<Longrightarrow> edge (control s) (control (fst (exec c s)))"
begin

lemma run_edges: "wf s \<Longrightarrow> edge\<^sup>*\<^sup>* (control s) (control (run exec cs s))"
proof (induction cs arbitrary: s)
  case Nil
  show ?case by simp
next
  case (Cons c cs)
  have "edge\<^sup>*\<^sup>* (control s) (control (fst (exec c s)))"
    by (cases "snd (exec c s) = None") (use Cons.prems in \<open>auto dest: moves_along simp: atomic\<close>)
  moreover have "edge\<^sup>*\<^sup>* (control (fst (exec c s))) (control (run exec (c # cs) s))"
    using Cons.IH [OF exec_wf [OF Cons.prems, of c]] by simp
  ultimately show ?case by (rule rtranclp_trans)
qed

text \<open>A control state without outgoing edges is final: every later call fails.\<close>

lemma final_stays:
  assumes "wf s" and "\<And>q. \<not> edge (control s) q"
  shows "snd (exec c s) \<noteq> None" and "run exec cs s = s"
proof -
  show fails: "snd (exec c s) \<noteq> None" for c
    using moves_along [OF assms(1), of c] assms(2) by blast
  show "run exec cs s = s"
    by (induction cs) (simp_all add: atomic [OF fails])
qed

end

end
