(* ===== verification/Instants.thy ===== *)
theory Instants
  imports Prelude
begin

text \<open>
  \<^verbatim>\<open>server/model/time.go\<close>.  A Go \<^verbatim>\<open>time.Time\<close> is an instant and a location.
  The instant is counted in nanoseconds from Go's zero time (0001-01-01 00:00:00 UTC), so
  \<open>0\<close> is the zero time and \<^verbatim>\<open>Truncate\<close>, which rounds down to a multiple of its
  argument since the zero time, is \<open>n - n mod d\<close>.  Of the location the code only asks
  whether it is UTC.  \<^verbatim>\<open>Before\<close>, \<^verbatim>\<open>After\<close> and \<^verbatim>\<open>IsZero\<close> look at the instant;
  the operator \<^verbatim>\<open>==\<close> compares both components.  The codecs to RFC 3339 text and JSON
  are not modelled.
\<close>

datatype location = UTC | Zone string

record gtime =
  t_ns :: int
  t_loc :: location

definition zero_time :: gtime where
  "zero_time = \<lparr>t_ns = 0, t_loc = UTC\<rparr>"

definition IsZero :: "gtime \<Rightarrow> bool" where
  "IsZero t \<longleftrightarrow> t_ns t = 0"

definition Before :: "gtime \<Rightarrow> gtime \<Rightarrow> bool" where
  "Before t u \<longleftrightarrow> t_ns t < t_ns u"

definition After :: "gtime \<Rightarrow> gtime \<Rightarrow> bool" where
  "After t u \<longleftrightarrow> t_ns u < t_ns t"

definition Add :: "gtime \<Rightarrow> int \<Rightarrow> gtime" where
  "Add t d = t\<lparr>t_ns := t_ns t + d\<rparr>"

definition in_UTC :: "gtime \<Rightarrow> gtime" where
  "in_UTC t = t\<lparr>t_loc := UTC\<rparr>"

definition Truncate :: "gtime \<Rightarrow> int \<Rightarrow> gtime" where
  "Truncate t d = t\<lparr>t_ns := t_ns t - t_ns t mod d\<rparr>"

lemmas time_ops = IsZero_def Before_def After_def Add_def in_UTC_def Truncate_def zero_time_def

text \<open>Durations are nanosecond counts.\<close>

abbreviation (input) Microsecond :: int where "Microsecond \<equiv> 1000"
abbreviation (input) Millisecond :: int where "Millisecond \<equiv> 1000000"
abbreviation (input) Second :: int where "Second \<equiv> 1000000000"
abbreviation (input) Minute :: int where "Minute \<equiv> 60000000000"
abbreviation (input) Hour :: int where "Hour \<equiv> 3600000000000"

section \<open>TimeUTC\<close>

definition TimeUTC :: "gtime \<Rightarrow> gtime" where
  "TimeUTC value = (if IsZero value then zero_time else Truncate (in_UTC value) Microsecond)"

definition trunc_us :: "int \<Rightarrow> int" where
  "trunc_us n = n - n mod 1000"

text \<open>An instant at domain precision: in UTC and a whole number of microseconds.\<close>

definition canonical :: "gtime \<Rightarrow> bool" where
  "canonical t \<longleftrightarrow> t_loc t = UTC \<and> t_ns t mod 1000 = 0"

lemma TimeUTC_eq: "TimeUTC t = \<lparr>t_ns = trunc_us (t_ns t), t_loc = UTC\<rparr>"
  by (simp add: TimeUTC_def time_ops trunc_us_def)

lemma TimeUTC_loc [simp]: "t_loc (TimeUTC t) = UTC"
  by (simp add: TimeUTC_eq)

lemma TimeUTC_ns [simp]: "t_ns (TimeUTC t) = trunc_us (t_ns t)"
  by (simp add: TimeUTC_eq)

lemma trunc_us_mod [simp]: "trunc_us n mod 1000 = 0"
  by (simp add: trunc_us_def minus_mod_eq_mult_div)

lemma trunc_us_le: "trunc_us n \<le> n"
  by (simp add: trunc_us_def)

lemma trunc_us_gt: "n < trunc_us n + 1000"
proof -
  have "n mod 1000 < 1000" by simp
  then show ?thesis by (simp add: trunc_us_def)
qed

lemma trunc_us_id [simp]: "n mod 1000 = 0 \<Longrightarrow> trunc_us n = n"
  by (simp add: trunc_us_def)

lemma trunc_us_0 [simp]: "trunc_us 0 = 0"
  by (simp add: trunc_us_def)

lemma trunc_us_div: "trunc_us n = 1000 * (n div 1000)"
  by (simp add: trunc_us_def minus_mod_eq_mult_div)

lemma trunc_us_mono: "m \<le> n \<Longrightarrow> trunc_us m \<le> trunc_us n"
  by (simp add: trunc_us_div zdiv_mono1)

lemma trunc_us_greatest: "m mod 1000 = 0 \<Longrightarrow> m \<le> n \<Longrightarrow> m \<le> trunc_us n"
  using trunc_us_mono [of m n] by simp

lemma canonical_TimeUTC [simp]: "canonical (TimeUTC t)"
  by (simp add: canonical_def)

lemma TimeUTC_canonical [simp]: "canonical t \<Longrightarrow> TimeUTC t = t"
  by (simp add: canonical_def TimeUTC_eq)

lemma canonical_zero [simp]: "canonical zero_time"
  by (simp add: canonical_def zero_time_def)

lemma TimeUTC_zero [simp]: "TimeUTC zero_time = zero_time"
  by simp

lemma canonical_Add: "canonical t \<Longrightarrow> d mod 1000 = 0 \<Longrightarrow> canonical (Add t d)"
  by (auto simp: canonical_def Add_def)

section \<open>Millisecond conversions\<close>

definition unix_epoch_ns :: int where
  "unix_epoch_ns = 62135596800000000000"

definition UnixMilli_of :: "gtime \<Rightarrow> int" where
  "UnixMilli_of t = (t_ns t - unix_epoch_ns) div 1000000"

definition time_UnixMilli :: "int \<Rightarrow> gtime" where
  "time_UnixMilli ms = \<lparr>t_ns = unix_epoch_ns + ms * 1000000, t_loc = Zone ''Local''\<rparr>"

definition MillisFromTime :: "gtime \<Rightarrow> int" where
  "MillisFromTime value = (if IsZero value then 0 else UnixMilli_of (in_UTC value))"

definition TimeFromMillis :: "int \<Rightarrow> gtime" where
  "TimeFromMillis millis = (if millis \<le> 0 then zero_time else in_UTC (time_UnixMilli millis))"

section \<open>OptionalTime\<close>

record optional_time =
  ot_Time :: gtime
  ot_Valid :: bool

definition no_time :: optional_time where
  "no_time = \<lparr>ot_Time = zero_time, ot_Valid = False\<rparr>"

definition OptionalTime_IsSet :: "optional_time \<Rightarrow> bool" where
  "OptionalTime_IsSet ov = ot_Valid ov"

definition OptionalTimeFrom :: "gtime \<Rightarrow> optional_time" where
  "OptionalTimeFrom value = \<lparr>ot_Time = TimeUTC value, ot_Valid = True\<rparr>"

definition OptionalTimeFromMillis :: "int \<Rightarrow> optional_time" where
  "OptionalTimeFromMillis millis =
     (if millis \<le> 0 then no_time
      else \<lparr>ot_Time = in_UTC (time_UnixMilli millis), ot_Valid = True\<rparr>)"

definition OptionalTime_Millis :: "optional_time \<Rightarrow> int" where
  "OptionalTime_Millis ov = (if \<not> ot_Valid ov then 0 else UnixMilli_of (in_UTC (ot_Time ov)))"

definition OptionalTime_UTC :: "optional_time \<Rightarrow> optional_time" where
  "OptionalTime_UTC ov = (if \<not> ot_Valid ov then no_time else OptionalTimeFrom (ot_Time ov))"

definition OptionalTime_IsZero :: "optional_time \<Rightarrow> bool" where
  "OptionalTime_IsZero ov \<longleftrightarrow> \<not> ot_Valid ov \<or> IsZero (ot_Time ov)"

definition OptionalTime_Ptr :: "optional_time \<Rightarrow> gtime option" where
  "OptionalTime_Ptr ov = (if \<not> ot_Valid ov then None else Some (TimeUTC (ot_Time ov)))"

definition OptionalTimeFromPtr :: "gtime option \<Rightarrow> optional_time" where
  "OptionalTimeFromPtr value = (case value of None \<Rightarrow> no_time | Some t \<Rightarrow> OptionalTimeFrom t)"

lemma OptionalTimeFrom_sel [simp]:
  "ot_Valid (OptionalTimeFrom t)" "ot_Time (OptionalTimeFrom t) = TimeUTC t"
  by (simp_all add: OptionalTimeFrom_def)

lemma OptionalTimeFrom_TimeUTC [simp]: "OptionalTimeFrom (TimeUTC t) = OptionalTimeFrom t"
  by (simp add: OptionalTimeFrom_def)

lemma no_time_sel [simp]: "\<not> ot_Valid no_time" "ot_Time no_time = zero_time"
  by (simp_all add: no_time_def)

text \<open>A present optional instant at domain precision.\<close>

definition canonical_opt :: "optional_time \<Rightarrow> bool" where
  "canonical_opt ov \<longleftrightarrow> (ot_Valid ov \<longrightarrow> canonical (ot_Time ov)) \<and> (\<not> ot_Valid ov \<longrightarrow> ov = no_time)"

lemma canonical_opt_simps [simp]:
  "canonical_opt no_time" "canonical_opt (OptionalTimeFrom t)"
  by (simp_all add: canonical_opt_def)

lemma OptionalTime_UTC_canonical: "canonical_opt (OptionalTime_UTC ov)"
  by (simp add: OptionalTime_UTC_def)

lemma OptionalTime_UTC_id: "canonical_opt ov \<Longrightarrow> OptionalTime_UTC ov = ov"
  by (cases ov) (auto simp: canonical_opt_def OptionalTime_UTC_def OptionalTimeFrom_def)

section \<open>Properties\<close>

lemma unix_epoch_aligned: "unix_epoch_ns mod 1000 = 0"
  by (simp add: unix_epoch_ns_def)

lemma ms_aligned: "(unix_epoch_ns + ms * 1000000) mod 1000 = 0"
proof -
  have "unix_epoch_ns + ms * 1000000 = 1000 * (62135596800000000 + ms * 1000)"
    by (simp add: unix_epoch_ns_def)
  then show ?thesis by (metis mod_mult_self1_is_0)
qed

lemma canonical_TimeFromMillis: "canonical (TimeFromMillis ms)"
  by (auto simp: TimeFromMillis_def in_UTC_def time_UnixMilli_def canonical_def ms_aligned
      zero_time_def)

section \<open>Sample instants\<close>

definition sample_instant :: "int \<Rightarrow> gtime" where
  "sample_instant n = \<lparr>t_ns = n * 1000, t_loc = UTC\<rparr>"

lemma sample_instant_canonical [simp]: "canonical (sample_instant n)"
  by (simp add: sample_instant_def canonical_def)

lemma sample_instant_ns [simp]: "t_ns (sample_instant n) = n * 1000" "t_loc (sample_instant n) = UTC"
  by (simp_all add: sample_instant_def)

lemma sample_instant_eq [simp]: "sample_instant m = sample_instant n \<longleftrightarrow> m = n"
  by (simp add: sample_instant_def)

end
