(* ===== verification/Utf8.thy ===== *)
theory Utf8
  imports Prelude "HOL-Library.Char_ord" "HOL-Library.List_Lexorder"
begin

text \<open>
  Byte strings as Go reads them: UTF-8 decoding, the iteration of a \<^verbatim>\<open>range\<close> loop, and
  the standard-library text functions that the domain model calls.  A Go string is a
  sequence of bytes, here a list of 8-bit characters; the order of \<^verbatim>\<open>strings.Compare\<close> and of \<^verbatim>\<open><\<close> on
  strings is the lexicographic order by byte value of \<^verbatim>\<open>List_Lexorder\<close> and
  \<^verbatim>\<open>Char_ord\<close>.
\<close>

section \<open>UTF-8\<close>

type_synonym rune = nat

definition RuneError :: rune where "RuneError = 65533"

definition cont_byte :: "nat \<Rightarrow> bool" where
  "cont_byte b \<longleftrightarrow> 128 \<le> b \<and> b \<le> 191"

text \<open>
  \<^verbatim>\<open>utf8.DecodeRune\<close>: the rune and its width in bytes.  An ill-formed or short sequence
  is \<open>RuneError\<close> of width 1, the empty string \<open>RuneError\<close> of width 0.
\<close>

fun decodeRune :: "nat list \<Rightarrow> rune \<times> nat" where
  "decodeRune [] = (RuneError, 0)"
| "decodeRune (b0 # bs) =
     (if b0 < 128 then (b0, 1)
      else if 194 \<le> b0 \<and> b0 \<le> 223 then
        (case bs of
           b1 # _ \<Rightarrow> (if cont_byte b1 then ((b0 mod 32) * 64 + b1 mod 64, 2) else (RuneError, 1))
         | _ \<Rightarrow> (RuneError, 1))
      else if 224 \<le> b0 \<and> b0 \<le> 239 then
        (case bs of
           b1 # b2 # _ \<Rightarrow>
             (if (if b0 = 224 then 160 else 128) \<le> b1 \<and> b1 \<le> (if b0 = 237 then 159 else 191)
                 \<and> cont_byte b2
              then ((b0 mod 16) * 4096 + (b1 mod 64) * 64 + b2 mod 64, 3) else (RuneError, 1))
         | _ \<Rightarrow> (RuneError, 1))
      else if 240 \<le> b0 \<and> b0 \<le> 244 then
        (case bs of
           b1 # b2 # b3 # _ \<Rightarrow>
             (if (if b0 = 240 then 144 else 128) \<le> b1 \<and> b1 \<le> (if b0 = 244 then 143 else 191)
                 \<and> cont_byte b2 \<and> cont_byte b3
              then ((b0 mod 8) * 262144 + (b1 mod 64) * 4096 + (b2 mod 64) * 64 + b3 mod 64, 4)
              else (RuneError, 1))
         | _ \<Rightarrow> (RuneError, 1))
      else (RuneError, 1))"

lemma decodeRune_width: "bs \<noteq> [] \<Longrightarrow> 1 \<le> snd (decodeRune bs) \<and> snd (decodeRune bs) \<le> length bs"
  by (cases bs) (auto split: list.splits)

lemma decodeRune_ascii: "b < 128 \<Longrightarrow> decodeRune (b # bs) = (b, 1)"
  by simp

declare decodeRune.simps(2) [simp del]

text \<open>The iteration of a \<^verbatim>\<open>range\<close> loop over a string: each rune with its bytes.\<close>

function chunks :: "nat list \<Rightarrow> (rune \<times> nat list) list" where
  "chunks [] = []"
| "chunks (b # bs) =
     (let (r, w) = decodeRune (b # bs)
      in (r, take w (b # bs)) # chunks (drop w (b # bs)))"
  by pat_completeness auto
termination
proof (relation "measure length", goal_cases)
  case 1
  show ?case by simp
next
  case (2 b bs x r w)
  then have "1 \<le> w" using decodeRune_width [of "b # bs"] by (metis list.discI snd_conv)
  then show ?case by simp
qed

declare chunks.simps(2) [simp del]

lemma chunks_Cons:
  "chunks (b # bs) = (fst (decodeRune (b # bs)), take (snd (decodeRune (b # bs))) (b # bs))
     # chunks (drop (snd (decodeRune (b # bs))) (b # bs))"
  by (simp add: chunks.simps(2) split: prod.split)

definition bytes_of :: "string \<Rightarrow> nat list" where
  "bytes_of s = map of_char s"

definition RuneCountInString :: "string \<Rightarrow> nat" where
  "RuneCountInString s = length (chunks (bytes_of s))"

definition ValidString :: "string \<Rightarrow> bool" where
  "ValidString s \<longleftrightarrow> (\<forall>(r, bs) \<in> set (chunks (bytes_of s)). \<not> (r = RuneError \<and> length bs = 1))"

definition IsControl :: "rune \<Rightarrow> bool" where
  "IsControl r \<longleftrightarrow> r < 32 \<or> (127 \<le> r \<and> r < 160)"

definition IsSpace :: "rune \<Rightarrow> bool" where
  "IsSpace r \<longleftrightarrow> (9 \<le> r \<and> r \<le> 13) \<or> r = 32 \<or> r = 133 \<or> r = 160 \<or> r = 5760
     \<or> (8192 \<le> r \<and> r \<le> 8202) \<or> r = 8232 \<or> r = 8233 \<or> r = 8239 \<or> r = 8287 \<or> r = 12288"

definition to_string :: "nat list \<Rightarrow> string" where
  "to_string bs = map (char_of :: nat \<Rightarrow> char) bs"

definition TrimSpace :: "string \<Rightarrow> string" where
  "TrimSpace s = to_string (concat (map snd
     (rev (dropWhile (\<lambda>c. IsSpace (fst c))
       (rev (dropWhile (\<lambda>c. IsSpace (fst c)) (chunks (bytes_of s))))))))"

text \<open>
  \<^verbatim>\<open>strings.ToLower\<close> on ASCII.  Its callers compare the result with a hexadecimal digest,
  which no string with a byte above 127 equals before or after case mapping, so bytes above
  127 are left alone here.
\<close>

definition lower_char :: "char \<Rightarrow> char" where
  "lower_char c = (if 65 \<le> (of_char c :: nat) \<and> (of_char c :: nat) \<le> 90
     then char_of ((of_char c :: nat) + 32) else c)"

definition ToLower :: "string \<Rightarrow> string" where
  "ToLower s = map lower_char s"

lemma chunks_bytes: "concat (map snd (chunks bs)) = bs"
proof (induction bs rule: chunks.induct)
  case 1
  show ?case by simp
next
  case (2 b bs)
  have "concat (map snd (chunks (drop (snd (decodeRune (b # bs))) (b # bs))))
      = drop (snd (decodeRune (b # bs))) (b # bs)"
    by (rule 2) (auto simp: prod_eq_iff)
  then show ?case by (simp add: chunks_Cons)
qed

lemma to_string_bytes_of [simp]: "to_string (bytes_of s) = s"
  by (simp add: to_string_def bytes_of_def comp_def)

lemma chunks_nonempty: "(r, cs) \<in> set (chunks bs) \<Longrightarrow> cs \<noteq> []"
proof (induction bs rule: chunks.induct)
  case 1
  then show ?case by simp
next
  case (2 b bs)
  have "take (snd (decodeRune (b # bs))) (b # bs) \<noteq> []"
    using decodeRune_width [of "b # bs"] by auto
  moreover have "(r, cs) \<in> set (chunks (drop (snd (decodeRune (b # bs))) (b # bs))) \<Longrightarrow> cs \<noteq> []"
    by (rule 2(1)) (auto simp: prod_eq_iff)
  ultimately show ?case using 2(2) by (auto simp: chunks_Cons)
qed

lemma chunks_ascii: "\<forall>b \<in> set bs. b < 128 \<Longrightarrow> chunks bs = map (\<lambda>b. (b, [b])) bs"
  by (induction bs) (simp_all add: chunks_Cons decodeRune_ascii)

lemma decodeRune_take:
  assumes "snd (decodeRune bs) \<le> n" and "0 < n"
  shows "decodeRune (take n bs) = decodeRune bs"
proof (cases bs)
  case Nil
  then show ?thesis by simp
next
  case (Cons b0 r)
  obtain m where n: "n = Suc m" using assms(2) gr0_implies_Suc by blast
  have "take m r = r \<or> (\<exists>b1 r1. r = b1 # r1 \<and> m = 0) \<or> (\<exists>b1 b2 r2. r = b1 # b2 # r2 \<and> m = 1)
     \<or> (\<exists>b1 b2 b3 r3. r = b1 # b2 # b3 # r3 \<and> 2 \<le> m)"
    by (cases r; cases "tl r"; cases "tl (tl r)"; cases m; cases "m - 1")
      auto
  then show ?thesis
  proof (elim disjE exE conjE)
    assume "take m r = r" then show ?thesis by (simp add: Cons n)
  next
    fix b1 r1 assume "r = b1 # r1" "m = 0"
    with assms(1) show ?thesis by (auto simp: Cons n decodeRune.simps split: if_splits list.splits)
  next
    fix b1 b2 r2 assume "r = b1 # b2 # r2" "m = 1"
    with assms(1) show ?thesis by (auto simp: Cons n decodeRune.simps split: if_splits list.splits)
  next
    fix b1 b2 b3 r3 assume r: "r = b1 # b2 # b3 # r3" "2 \<le> m"
    then obtain k where "m = Suc (Suc k)" by (metis One_nat_def Suc_1 le_Suc_ex plus_1_eq_Suc add_Suc)
    with r assms(1) show ?thesis by (cases k) (auto simp: Cons n decodeRune.simps split: if_splits list.splits)
  qed
qed

lemma chunks_step:
  assumes "decodeRune (c @ p) = (r, length c)" and "c \<noteq> []"
  shows "chunks (c @ p) = (r, c) # chunks p"
proof -
  obtain x xs where x: "c @ p = x # xs" using assms(2) by (cases c) auto
  have "chunks (x # xs) = (r, take (length c) (x # xs)) # chunks (drop (length c) (x # xs))"
    using assms(1) by (simp add: chunks_Cons x)
  then show ?thesis by (simp add: x [symmetric])
qed

lemma chunks_take: "chunks (concat (map snd (take n (chunks bs)))) = take n (chunks bs)"
proof (induction bs arbitrary: n rule: chunks.induct)
  case 1
  show ?case by simp
next
  case (2 b bs)
  let ?w = "snd (decodeRune (b # bs))" let ?rest = "drop ?w (b # bs)"
  have w: "1 \<le> ?w" "?w \<le> length (b # bs)" using decodeRune_width [of "b # bs"] by auto
  show ?case
  proof (cases n)
    case 0
    then show ?thesis by simp
  next
    case (Suc m)
    let ?p = "concat (map snd (take m (chunks ?rest)))"
    have IH: "chunks ?p = take m (chunks ?rest)"
      by (rule 2) (auto simp: prod_eq_iff)
    have "prefix ?p (concat (map snd (chunks ?rest)))"
      by (metis append_take_drop_id concat_append map_append prefixI)
    then have pre: "prefix ?p ?rest" by (simp only: chunks_bytes)
    then have "prefix (take ?w (b # bs) @ ?p) (take ?w (b # bs) @ ?rest)" by (rule same_prefix_prefix [THEN iffD2])
    then have "prefix (take ?w (b # bs) @ ?p) (b # bs)" by (simp only: append_take_drop_id)
    then obtain k where k: "take ?w (b # bs) @ ?p = take k (b # bs)" "?w \<le> k"
      by (metis append_eq_conv_conj length_append length_take le_add1 min.absorb2 prefix_def w(2))
    then have dec: "decodeRune (take ?w (b # bs) @ ?p) = decodeRune (b # bs)"
      using w by (simp only: k(1)) (rule decodeRune_take, auto)
    have "take ?w (b # bs) \<noteq> []" and "length (take ?w (b # bs)) = ?w" using w by auto
    with dec have "chunks (take ?w (b # bs) @ ?p)
        = (fst (decodeRune (b # bs)), take ?w (b # bs)) # chunks ?p"
      by (intro chunks_step) (simp_all add: prod_eq_iff)
    then show ?thesis by (simp add: Suc chunks_Cons IH del: take_Cons')
  qed
qed

lemma chunks_drop: "chunks (concat (map snd (drop n (chunks bs)))) = drop n (chunks bs)"
proof (induction bs arbitrary: n rule: chunks.induct)
  case 1
  show ?case by simp
next
  case (2 b bs)
  show ?case
  proof (cases n)
    case 0
    then show ?thesis by (simp add: chunks_bytes)
  next
    case (Suc m)
    have "chunks (concat (map snd (drop m (chunks (drop (snd (decodeRune (b # bs))) (b # bs))))))
        = drop m (chunks (drop (snd (decodeRune (b # bs))) (b # bs)))"
      by (rule 2) (auto simp: prod_eq_iff)
    then show ?thesis by (simp add: Suc chunks_Cons)
  qed
qed

definition ill_formed :: "rune \<times> nat list \<Rightarrow> bool" where
  "ill_formed c \<longleftrightarrow> fst c = RuneError \<and> length (snd c) = 1"

lemma chunk_decodes:
  "c \<in> set (chunks bs) \<Longrightarrow> decodeRune (snd c) = (fst c, length (snd c))"
proof (induction bs rule: chunks.induct)
  case 1
  then show ?case by simp
next
  case (2 b bs)
  let ?w = "snd (decodeRune (b # bs))"
  have w: "1 \<le> ?w" "?w \<le> length (b # bs)" using decodeRune_width [of "b # bs"] by auto
  have "decodeRune (take ?w (b # bs)) = decodeRune (b # bs)"
    using w by (intro decodeRune_take) auto
  moreover have "c \<in> set (chunks (drop ?w (b # bs))) \<Longrightarrow> ?case"
    by (rule 2(1)) (auto simp: prod_eq_iff)
  ultimately show ?case using 2(2) w by (auto simp: chunks_Cons prod_eq_iff)
qed

text \<open>A well-formed chunk is decoded whatever follows it.\<close>

lemma decodeRune_append:
  assumes "decodeRune c = (r, length c)" and "\<not> (r = RuneError \<and> length c = 1)" and "c \<noteq> []"
  shows "decodeRune (c @ p) = (r, length c)"
proof -
  obtain b0 bs where c: "c = b0 # bs" using assms(3) by (cases c) auto
  consider "bs = []" | b1 where "bs = [b1]" | b1 b2 where "bs = [b1, b2]"
    | b1 b2 b3 rs where "bs = b1 # b2 # b3 # rs"
    by (cases bs; cases "tl bs"; cases "tl (tl bs)") auto
  then show ?thesis
    using assms(1,2) unfolding c
    by cases (auto simp: decodeRune.simps split: if_splits)
qed

lemma chunks_concat:
  assumes "\<forall>c \<in> set cs. decodeRune (snd c) = (fst c, length (snd c)) \<and> \<not> ill_formed c \<and> snd c \<noteq> []"
  shows "chunks (concat (map snd cs)) = cs"
  using assms
proof (induction cs)
  case Nil
  show ?case by simp
next
  case (Cons c cs)
  then have "decodeRune (snd c @ concat (map snd cs)) = (fst c, length (snd c))"
    by (intro decodeRune_append) (auto simp: ill_formed_def)
  with Cons show ?case by (simp add: chunks_step)
qed

lemma bytes_lt_256: "b \<in> set (bytes_of s) \<Longrightarrow> b < 256"
  by (auto simp: bytes_of_def)

lemma bytes_of_to_string: "\<forall>b \<in> set bs. b < 256 \<Longrightarrow> bytes_of (to_string bs) = bs"
  by (induction bs) (simp_all add: bytes_of_def to_string_def)

lemma chunk_bytes_subset: "c \<in> set (chunks bs) \<Longrightarrow> set (snd c) \<subseteq> set bs"
proof -
  assume "c \<in> set (chunks bs)"
  then have "set (snd c) \<subseteq> set (concat (map snd (chunks bs)))" by auto
  then show ?thesis by (simp only: chunks_bytes)
qed

definition trim_chunks :: "(rune \<times> nat list) list \<Rightarrow> (rune \<times> nat list) list" where
  "trim_chunks cs = rev (dropWhile (\<lambda>c. IsSpace (fst c)) (rev (dropWhile (\<lambda>c. IsSpace (fst c)) cs)))"

lemma trim_chunks_idem: "trim_chunks (trim_chunks cs) = trim_chunks cs"
proof -
  let ?P = "\<lambda>c::rune \<times> nat list. IsSpace (fst c)"
  let ?ds = "dropWhile ?P cs"
  obtain ts where ts: "?ds = trim_chunks cs @ ts"
    unfolding trim_chunks_def by (metis rev_append rev_rev_ident takeWhile_dropWhile_id)
  have "dropWhile ?P (trim_chunks cs) = trim_chunks cs"
  proof (cases "trim_chunks cs")
    case (Cons x xs)
    then have "hd ?ds = x" "?ds \<noteq> []" using ts by auto
    then have "\<not> ?P x" using hd_dropWhile [of ?P cs] by simp
    with Cons show ?thesis by simp
  qed simp
  then show ?thesis
    by (simp add: trim_chunks_def dropWhile_idem)
qed

lemma trim_chunks_segment: "\<exists>m n. trim_chunks cs = take n (drop m cs)"
proof -
  obtain m where "dropWhile (\<lambda>c. IsSpace (fst c)) cs = drop m cs"
    by (metis dropWhile_eq_drop)
  moreover obtain k where "dropWhile (\<lambda>c. IsSpace (fst c)) (rev (drop m cs)) = drop k (rev (drop m cs))"
    by (metis dropWhile_eq_drop)
  ultimately have "trim_chunks cs = rev (drop k (rev (drop m cs)))"
    by (simp only: trim_chunks_def)
  also have "\<dots> = take (length (drop m cs) - k) (drop m cs)"
    using rev_drop [of k "rev (drop m cs)"] by (simp only: rev_rev_ident length_rev)
  finally show ?thesis by blast
qed

lemma chunks_TrimSpace: "chunks (bytes_of (TrimSpace s)) = trim_chunks (chunks (bytes_of s))"
proof -
  let ?cs = "chunks (bytes_of s)"
  obtain m n where mn: "trim_chunks ?cs = take n (drop m ?cs)"
    using trim_chunks_segment by blast
  let ?bs = "concat (map snd (drop m ?cs))"
  have "chunks (concat (map snd (trim_chunks ?cs))) = trim_chunks ?cs"
    using chunks_take [of n ?bs] by (simp add: mn chunks_drop)
  moreover have "\<forall>b \<in> set (concat (map snd (trim_chunks ?cs))). b < 256"
  proof
    fix b assume "b \<in> set (concat (map snd (trim_chunks ?cs)))"
    then obtain c where "c \<in> set ?cs" "b \<in> set (snd c)"
      by (auto simp: mn dest!: in_set_takeD in_set_dropD)
    then show "b < 256" using chunk_bytes_subset bytes_lt_256 by blast
  qed
  ultimately show ?thesis
    by (simp add: TrimSpace_def trim_chunks_def [symmetric] bytes_of_to_string)
qed

lemma TrimSpace_idem [simp]: "TrimSpace (TrimSpace s) = TrimSpace s"
proof -
  have "to_string (concat (map snd (chunks (bytes_of (TrimSpace s))))) = TrimSpace s"
    by (simp add: chunks_bytes)
  then show ?thesis
    by (simp add: TrimSpace_def [of "TrimSpace s"] trim_chunks_def [symmetric] chunks_TrimSpace trim_chunks_idem)
qed

section \<open>Splitting\<close>

text \<open>\<^verbatim>\<open>strings.Split\<close> at a one-byte separator: at least one segment, empty ones included; \<^verbatim>\<open>strings.Join\<close>;
  and \<^verbatim>\<open>strings.Cut\<close>: what is before and after the first separator, and whether there is one.\<close>

fun strings_Split :: "char \<Rightarrow> string \<Rightarrow> string list" where
  "strings_Split sep [] = [[]]"
| "strings_Split sep (c # cs) = (if c = sep then [] # strings_Split sep cs
     else case strings_Split sep cs of [] \<Rightarrow> [[c]] | s # ss \<Rightarrow> (c # s) # ss)"

fun strings_Join :: "char \<Rightarrow> string list \<Rightarrow> string" where
  "strings_Join sep [] = []"
| "strings_Join sep [s] = s"
| "strings_Join sep (s # ss) = s @ sep # strings_Join sep ss"

definition strings_Cut :: "char \<Rightarrow> string \<Rightarrow> string \<times> string \<times> bool" where
  "strings_Cut sep s = (case dropWhile (\<lambda>c. c \<noteq> sep) s of
       [] \<Rightarrow> (s, [], False)
     | _ # after \<Rightarrow> (takeWhile (\<lambda>c. c \<noteq> sep) s, after, True))"

lemma Split_nonempty [simp]: "strings_Split sep v \<noteq> []"
  by (induction v) (auto split: list.split)

lemma Join_Cons: "ss \<noteq> [] \<Longrightarrow> strings_Join sep (s # ss) = s @ sep # strings_Join sep ss"
  by (cases ss) simp_all

lemma Join_Split [simp]: "strings_Join sep (strings_Split sep v) = v"
proof (induction v)
  case (Cons c v)
  show ?case
  proof (cases "strings_Split sep v")
    case (Cons s ss)
    with Cons.IH show ?thesis by (cases ss) (simp_all add: Join_Cons)
  qed simp
qed simp

lemma Split_segments: "s \<in> set (strings_Split sep v) \<Longrightarrow> sep \<notin> set s"
  by (induction v arbitrary: s) (auto split: if_splits list.splits)

lemma Split_append: "sep \<notin> set s \<Longrightarrow> strings_Split sep (s @ sep # v) = s # strings_Split sep v"
  by (induction s) auto

lemma Split_single: "sep \<notin> set s \<Longrightarrow> strings_Split sep s = [s]"
  by (induction s) auto

lemma Split_Join: "ss \<noteq> [] \<Longrightarrow> \<forall>s \<in> set ss. sep \<notin> set s \<Longrightarrow> strings_Split sep (strings_Join sep ss) = ss"
  by (induction sep ss rule: strings_Join.induct) (simp_all add: Split_append Split_single)

end
