(* ===== verification/Text.thy ===== *)
theory Text
  imports Utf8
begin

text \<open>
  The text predicates of \<^verbatim>\<open>server/model\<close>: removal of blocked code points and opaque
  identifiers (\<^verbatim>\<open>utils.go\<close>), names (\<^verbatim>\<open>named.go\<close>), token hashes
  (\<^verbatim>\<open>credential.go\<close>) and content digests (\<^verbatim>\<open>exam_revision.go\<close>).
\<close>

section \<open>SanitizeUnicode\<close>

text \<open>
  \<^verbatim>\<open>strings.Map(filterBlocklist, value)\<close>: a blocked rune is dropped, an ill-formed byte
  (which the loop sees as \<open>RuneError\<close>) becomes the encoding of U+FFFD, any other rune
  keeps its bytes.
\<close>

definition filterBlocklist_drops :: "rune \<Rightarrow> bool" where
  "filterBlocklist_drops v \<longleftrightarrow> v \<in> set [832, 833, 6051, 6099, 8232, 8233,
     8234, 8235, 8236, 8237, 8238, 8294, 8295, 8296, 8297, 65529, 65530, 65531]"

definition sanitize_chunk :: "rune \<times> nat list \<Rightarrow> nat list" where
  "sanitize_chunk c =
     (if filterBlocklist_drops (fst c) then []
      else if ill_formed c then [239, 191, 189]
      else snd c)"

definition SanitizeUnicode :: "string \<Rightarrow> string" where
  "SanitizeUnicode value = to_string (concat (map sanitize_chunk (chunks (bytes_of value))))"

lemma RuneError_chunk: "decodeRune (239 # 191 # 189 # bs) = (RuneError, 3)"
  by (simp add: decodeRune.simps cont_byte_def RuneError_def)

fun sanitize_chunks :: "(rune \<times> nat list) list \<Rightarrow> (rune \<times> nat list) list" where
  "sanitize_chunks [] = []"
| "sanitize_chunks (c # cs) =
     (if filterBlocklist_drops (fst c) then sanitize_chunks cs
      else (if ill_formed c then (RuneError, [239, 191, 189]) else c) # sanitize_chunks cs)"

lemma sanitize_chunks_bytes:
  "concat (map snd (sanitize_chunks cs)) = concat (map sanitize_chunk cs)"
  by (induction cs) (auto simp: sanitize_chunk_def)

lemma sanitize_chunks_set:
  "c \<in> set (sanitize_chunks cs) \<Longrightarrow>
     \<not> filterBlocklist_drops (fst c) \<and> \<not> ill_formed c \<and> (c \<in> set cs \<or> c = (RuneError, [239, 191, 189]))"
  by (induction cs) (auto simp: ill_formed_def RuneError_def filterBlocklist_drops_def split: if_splits)

lemma chunks_SanitizeUnicode:
  "chunks (bytes_of (SanitizeUnicode s)) = sanitize_chunks (chunks (bytes_of s))"
proof -
  let ?ss = "sanitize_chunks (chunks (bytes_of s))"
  have c: "decodeRune (snd c) = (fst c, length (snd c)) \<and> \<not> ill_formed c \<and> snd c \<noteq> []
      \<and> (\<forall>b \<in> set (snd c). b < 256)" if "c \<in> set ?ss" for c
  proof -
    from sanitize_chunks_set [OF that]
    have "\<not> ill_formed c" and "c \<in> set (chunks (bytes_of s)) \<or> c = (RuneError, [239, 191, 189])"
      by auto
    moreover have "\<forall>b \<in> set (snd c). b < 256" if "c \<in> set (chunks (bytes_of s))"
      using chunk_bytes_subset [OF that] bytes_lt_256 by blast
    ultimately show ?thesis
      using chunk_decodes [of c] chunks_nonempty [of "fst c" "snd c"] RuneError_chunk [of "[]"]
      by auto
  qed
  then have "chunks (concat (map snd ?ss)) = ?ss" by (intro chunks_concat) blast
  moreover have "\<forall>b \<in> set (concat (map snd ?ss)). b < 256" using c by auto
  ultimately show ?thesis
    by (simp add: SanitizeUnicode_def sanitize_chunks_bytes [symmetric] bytes_of_to_string)
qed

lemma sanitize_chunks_idem: "sanitize_chunks (sanitize_chunks cs) = sanitize_chunks cs"
proof -
  have id: "sanitize_chunks ds = ds"
    if "\<forall>c \<in> set ds. \<not> filterBlocklist_drops (fst c) \<and> \<not> ill_formed c" for ds
    using that by (induction ds) auto
  show ?thesis by (rule id) (auto dest: sanitize_chunks_set)
qed

lemmas text_eval = SanitizeUnicode_def bytes_of_to_string chunks_Cons decodeRune.simps cont_byte_def
  sanitize_chunk_def filterBlocklist_drops_def ill_formed_def RuneError_def

lemmas ascii_eval = ValidString_def TrimSpace_def RuneCountInString_def bytes_of_def chunks_ascii
  to_string_def ill_formed_def RuneError_def char_of_def IsSpace_def bit_0

text \<open>C22. Sanitised text is well-formed UTF-8 without any blocked code point, and
  sanitising it again changes nothing.\<close>

theorem SanitizeUnicode_clean:
  "ValidString (SanitizeUnicode s)
   \<and> (\<forall>(r, bs) \<in> set (chunks (bytes_of (SanitizeUnicode s))). \<not> filterBlocklist_drops r)
   \<and> SanitizeUnicode (SanitizeUnicode s) = SanitizeUnicode s"
proof (intro conjI)
  show "ValidString (SanitizeUnicode s)"
    by (auto simp: ValidString_def chunks_SanitizeUnicode ill_formed_def dest!: sanitize_chunks_set)
  show "\<forall>(r, bs) \<in> set (chunks (bytes_of (SanitizeUnicode s))). \<not> filterBlocklist_drops r"
    by (auto simp: chunks_SanitizeUnicode dest!: sanitize_chunks_set)
  have "to_string (concat (map snd (chunks (bytes_of (SanitizeUnicode s))))) = SanitizeUnicode s"
    by (simp add: chunks_bytes)
  then show "SanitizeUnicode (SanitizeUnicode s) = SanitizeUnicode s"
    by (simp add: SanitizeUnicode_def [of "SanitizeUnicode s"] sanitize_chunks_bytes [symmetric]
        chunks_SanitizeUnicode sanitize_chunks_idem)
qed

theorem SanitizeUnicode_clean_witness:
  "SanitizeUnicode (to_string [97, 226, 128, 174, 98, 255]) = to_string [97, 98, 239, 191, 189]
   \<and> ValidString (SanitizeUnicode (to_string [97, 226, 128, 174, 98, 255]))"
proof -
  have "SanitizeUnicode (to_string [97, 226, 128, 174, 98, 255]) = to_string [97, 98, 239, 191, 189]"
    by (simp add: text_eval)
  then show ?thesis using SanitizeUnicode_clean by blast
qed

section \<open>Identifiers\<close>

definition IDLength :: nat where "IDLength = 26"

definition IDAlphabet :: string where "IDAlphabet = ''ybndrfg8ejkmcpqxot1uwisza345h769''"

text \<open>
  The loop \<^verbatim>\<open>for index := range value\<close> visits the first byte of each rune only, and asks
  whether the code point with that byte's value occurs in the alphabet.
\<close>

definition IsValidOpaqueID :: "string \<Rightarrow> bool" where
  "IsValidOpaqueID value \<longleftrightarrow>
     length value = IDLength \<and>
     list_all (\<lambda>(r, bs). hd bs \<in> set (bytes_of IDAlphabet)) (chunks (bytes_of value))"

text \<open>
  \<^verbatim>\<open>NewID\<close> on the 16 bytes that the random source delivered: the version and variant
  bits are set, and the 128 bits are written as base 32 digits, most significant first, the
  last group of three bits extended with zeros.
\<close>

definition byte_bits :: "nat \<Rightarrow> bool list" where
  "byte_bits b = map (\<lambda>i. odd (b div 2 ^ i)) [7, 6, 5, 4, 3, 2, 1, 0]"

fun bits_value :: "bool list \<Rightarrow> nat" where
  "bits_value [] = 0"
| "bits_value (b # bs) = (if b then 2 ^ length bs else 0) + bits_value bs"

fun base32_digits :: "bool list \<Rightarrow> nat list" where
  "base32_digits (a # b # c # d # e # bs) = bits_value [a, b, c, d, e] # base32_digits bs"
| "base32_digits [] = []"
| "base32_digits bs = [bits_value (bs @ replicate (5 - length bs) False)]"

definition encodeID :: "nat list \<Rightarrow> string" where
  "encodeID value = map (\<lambda>d. IDAlphabet ! d) (base32_digits (concat (map byte_bits value)))"

definition NewID :: "nat list \<Rightarrow> string" where
  "NewID value =
     encodeID (value[6 := (value ! 6) mod 16 + 64, 8 := (value ! 8) mod 64 + 128])"

lemma IsValidOpaqueID_bytes:
  "IsValidOpaqueID v \<longleftrightarrow> length v = 26 \<and> (\<forall>c \<in> set v. c \<in> set IDAlphabet)"
proof -
  have alpha: "\<forall>b \<in> set (bytes_of IDAlphabet). b < 128" by code_simp
  have inj: "of_char c \<in> set (bytes_of IDAlphabet) \<longleftrightarrow> c \<in> set IDAlphabet" for c
    by (auto simp: bytes_of_def)
  let ?good = "\<lambda>c::rune \<times> nat list. hd (snd c) \<in> set (bytes_of IDAlphabet)"
  have "(\<forall>c \<in> set (chunks bs). ?good c) \<longleftrightarrow> (\<forall>b \<in> set bs. b \<in> set (bytes_of IDAlphabet))" for bs
  proof
    assume g: "\<forall>c \<in> set (chunks bs). ?good c"
    then show "\<forall>b \<in> set bs. b \<in> set (bytes_of IDAlphabet)"
    proof (induction bs rule: length_induct)
      case (1 bs)
      show ?case
      proof (cases bs)
        case (Cons b r)
        let ?w = "snd (decodeRune bs)"
        have w: "1 \<le> ?w" using decodeRune_width [of bs] Cons by auto
        then have "hd (take ?w bs) = b" using Cons by (cases ?w) auto
        with 1(2) Cons have b: "b \<in> set (bytes_of IDAlphabet)" by (simp add: chunks_Cons)
        then have "decodeRune bs = (b, 1)" using alpha Cons decodeRune_ascii by auto
        with 1 b Cons show ?thesis by (auto simp: chunks_Cons)
      qed simp
    qed
  next
    assume "\<forall>b \<in> set bs. b \<in> set (bytes_of IDAlphabet)"
    with alpha show "\<forall>c \<in> set (chunks bs). ?good c"
      by (subst chunks_ascii) auto
  qed
  then show ?thesis
    by (auto simp: IsValidOpaqueID_def IDLength_def list_all_iff case_prod_beta bytes_of_def image_iff inj [unfolded bytes_of_def])
qed

lemma IsValidOpaqueID_repeat [simp]:
  "c \<in> set IDAlphabet \<Longrightarrow> IsValidOpaqueID (replicate 26 c)"
  by (simp add: IsValidOpaqueID_bytes)

lemma length_byte_bits [simp]: "length (byte_bits b) = 8"
  by (simp add: byte_bits_def)

lemma bits_value_lt: "bits_value bs < 2 ^ length bs"
  by (induction bs) auto

lemma bits_value_inj: "length as = length bs \<Longrightarrow> bits_value as = bits_value bs \<Longrightarrow> as = bs"
proof (induction as bs rule: list_induct2)
  case Nil
  show ?case by simp
next
  case (Cons a as b bs)
  have "bits_value as < 2 ^ length bs" "bits_value bs < 2 ^ length bs"
    using bits_value_lt [of as] bits_value_lt [of bs] Cons.hyps by auto
  with Cons show ?case by (auto split: if_splits)
qed

lemma bits_value_zeros [simp]: "bits_value (replicate n False) = 0"
  by (induction n) simp_all

lemma base32_digits_short:
  "0 < length bs \<Longrightarrow> length bs < 5 \<Longrightarrow>
     base32_digits bs = [bits_value (bs @ replicate (5 - length bs) False)]"
  by (cases bs rule: base32_digits.cases) simp_all

lemma base32_digits_bound: "d \<in> set (base32_digits bs) \<Longrightarrow> d < 32"
proof (induction bs rule: base32_digits.induct)
  case (1 a b c d e bs)
  then show ?case using bits_value_lt [of "[a, b, c, d, e]"] by auto
qed (auto split: if_splits)

lemma base32_digits_length: "length (base32_digits bs) = (length bs + 4) div 5"
  by (induction bs rule: base32_digits.induct) simp_all

lemma base32_digits_inj:
  "length as = length bs \<Longrightarrow> base32_digits as = base32_digits bs \<Longrightarrow> as = bs"
proof (induction "length as" arbitrary: as bs rule: less_induct)
  case less
  consider "as = []" | "0 < length as" "length as < 5" | "5 \<le> length as" by fastforce
  then show ?case
  proof cases
    case 1
    with less.prems show ?thesis by simp
  next
    case 2
    with less.prems have "bits_value (as @ replicate (5 - length as) False) =
        bits_value (bs @ replicate (5 - length bs) False)"
      by (simp add: base32_digits_short)
    with less.prems show ?thesis by (auto dest: bits_value_inj [rotated])
  next
    case 3
    then obtain a b c d e as' where as: "as = a # b # c # d # e # as'"
      by (cases as rule: base32_digits.cases) auto
    from 3 less.prems obtain a' b' c' d' e' bs' where bs: "bs = a' # b' # c' # d' # e' # bs'"
      by (cases bs rule: base32_digits.cases) auto
    from less.prems as bs have "bits_value [a, b, c, d, e] = bits_value [a', b', c', d', e']"
      and "base32_digits as' = base32_digits bs'" by simp_all
    with as bs less show ?thesis
      using bits_value_inj [of "[a, b, c, d, e]" "[a', b', c', d', e']"] by simp
  qed
qed

lemma bits_value_binary: "bits_value (map (\<lambda>i. odd (b div 2 ^ i)) (rev [0..<n])) = b mod 2 ^ n"
proof (induction n)
  case (Suc n)
  have "b mod 2 ^ Suc n = 2 ^ n * (b div 2 ^ n mod 2) + b mod 2 ^ n"
    by (simp only: power_Suc2 mod_mult2_eq)
  with Suc show ?case by (cases "odd (b div 2 ^ n)") (simp_all add: odd_iff_mod_2_eq_one)
qed simp

lemma byte_bits_value: "b < 256 \<Longrightarrow> bits_value (byte_bits b) = b"
proof -
  have "[7, 6, 5, 4, 3, 2, 1, 0] = rev [0..<8]" by (simp add: upt_rec)
  then show "b < 256 \<Longrightarrow> ?thesis"
    using bits_value_binary [of b 8] by (simp only: byte_bits_def) simp
qed

lemma concat_byte_bits_inj:
  assumes "length vs = length ws" and "\<forall>b \<in> set vs. b < 256" and "\<forall>b \<in> set ws. b < 256"
    and "concat (map byte_bits vs) = concat (map byte_bits ws)"
  shows "vs = ws"
  using assms
proof (induction vs ws rule: list_induct2)
  case Nil
  show ?case by simp
next
  case (Cons v vs w ws)
  from Cons.prems(3) have "byte_bits v @ concat (map byte_bits vs) = byte_bits w @ concat (map byte_bits ws)"
    by simp
  then have eq: "byte_bits v = byte_bits w" and "concat (map byte_bits vs) = concat (map byte_bits ws)"
    by (simp_all only: append_eq_append_conv length_byte_bits simp_thms)
  then have "vs = ws" using Cons.IH Cons.prems by simp
  moreover from eq have "v = w"
    using byte_bits_value [of v] byte_bits_value [of w] Cons.prems(1,2)
    by (metis list.set_intros(1))
  ultimately show ?case by simp
qed

lemma IDAlphabet_facts: "length IDAlphabet = 32" "distinct IDAlphabet"
  by (simp_all add: IDAlphabet_def)

lemma length_concat_byte_bits: "length (concat (map byte_bits vs)) = 8 * length vs"
  by (induction vs) auto

lemma encodeID_valid: "length vs = 16 \<Longrightarrow> IsValidOpaqueID (encodeID vs)"
  by (auto simp: IsValidOpaqueID_bytes encodeID_def base32_digits_length length_concat_byte_bits
      IDAlphabet_facts dest!: base32_digits_bound intro!: nth_mem)

lemma encodeID_inj:
  assumes "length vs = length ws" and "\<forall>b \<in> set vs. b < 256" and "\<forall>b \<in> set ws. b < 256"
    and "encodeID vs = encodeID ws"
  shows "vs = ws"
proof -
  let ?d = "\<lambda>vs. base32_digits (concat (map byte_bits vs))"
  have "inj_on (\<lambda>d. IDAlphabet ! d) {..<32}"
    using IDAlphabet_facts by (auto simp: inj_on_def nth_eq_iff_index_eq)
  then have "inj_on (\<lambda>d. IDAlphabet ! d) (set (?d vs) \<union> set (?d ws))"
    by (rule inj_on_subset) (auto dest: base32_digits_bound)
  with assms(4) have "?d vs = ?d ws"
    unfolding encodeID_def by (rule map_inj_on)
  with assms(1) have "concat (map byte_bits vs) = concat (map byte_bits ws)"
    by (intro base32_digits_inj) (simp_all add: length_concat_byte_bits)
  with assms show ?thesis by (intro concat_byte_bits_inj)
qed

text \<open>C23. An identifier made from any 16 random bytes is well formed, carries the version and
  variant bits of a random UUID, and determines all its other bits.\<close>

theorem NewID_valid_injective:
  assumes "length vs = 16" and "\<forall>b \<in> set vs. b < 256"
    and "length ws = 16" and "\<forall>b \<in> set ws. b < 256"
  shows "IsValidOpaqueID (NewID vs)
    \<and> (NewID vs = NewID ws \<longleftrightarrow>
        (\<forall>i < 16. i \<noteq> 6 \<longrightarrow> i \<noteq> 8 \<longrightarrow> vs ! i = ws ! i)
        \<and> vs ! 6 mod 16 = ws ! 6 mod 16 \<and> vs ! 8 mod 64 = ws ! 8 mod 64)"
proof -
  let ?m = "\<lambda>v::nat list. v[6 := v ! 6 mod 16 + 64, 8 := v ! 8 mod 64 + 128]"
  have bnd: "\<forall>b \<in> set (?m v). b < 256" if "\<forall>b \<in> set v. b < 256" for v
  proof
    fix b assume "b \<in> set (?m v)"
    moreover have "set (?m v) \<subseteq> insert (v ! 8 mod 64 + 128) (insert (v ! 6 mod 16 + 64) (set v))"
      by (meson insert_mono order_trans set_update_subset_insert)
    moreover have "v ! 8 mod 64 < 64" "v ! 6 mod 16 < 16" by simp_all
    ultimately show "b < 256" using that by fastforce
  qed
  have "NewID vs = NewID ws \<longleftrightarrow> ?m vs = ?m ws"
    unfolding NewID_def using assms bnd by (auto dest: encodeID_inj [rotated 3])
  also have "\<dots> \<longleftrightarrow> (\<forall>i < 16. ?m vs ! i = ?m ws ! i)"
    using assms by (simp add: list_eq_iff_nth_eq)
  also have "\<dots> \<longleftrightarrow> (\<forall>i < 16. i \<noteq> 6 \<longrightarrow> i \<noteq> 8 \<longrightarrow> vs ! i = ws ! i)
        \<and> vs ! 6 mod 16 = ws ! 6 mod 16 \<and> vs ! 8 mod 64 = ws ! 8 mod 64"
    using assms by (auto simp: nth_list_update)
  finally show ?thesis using encodeID_valid [of "?m vs"] assms(1) by (simp add: NewID_def)
qed

theorem NewID_valid_injective_witness:
  "length (replicate 16 (7::nat)) = 16 \<and> IsValidOpaqueID (NewID (replicate 16 7))
    \<and> NewID (replicate 16 7) \<noteq> NewID (replicate 16 8)"
  using NewID_valid_injective [of "replicate 16 7" "replicate 16 8"] by simp

section \<open>Names, hashes\<close>

definition NameMaxLength :: nat where "NameMaxLength = 64"
definition DisplayNameMaxRunes :: nat where "DisplayNameMaxRunes = 128"
definition DescriptionMaxRunes :: nat where "DescriptionMaxRunes = 1024"

definition lower_alnum :: "char \<Rightarrow> bool" where
  "lower_alnum c \<longleftrightarrow> (CHR ''a'' \<le> c \<and> c \<le> CHR ''z'') \<or> (CHR ''0'' \<le> c \<and> c \<le> CHR ''9'')"

text \<open>The regular expression \<^verbatim>\<open>^[a-z0-9][a-z0-9_-]*$\<close>.\<close>

definition validName :: "string \<Rightarrow> bool" where
  "validName s = (case s of [] \<Rightarrow> False
     | c # cs \<Rightarrow> lower_alnum c \<and> list_all (\<lambda>d. lower_alnum d \<or> d = CHR ''_'' \<or> d = CHR ''-'') cs)"

definition validateNamed ::
    "string \<Rightarrow> string \<Rightarrow> string \<Rightarrow> string \<Rightarrow> string \<Rightarrow> string \<Rightarrow> go_error option" where
  "validateNamed whr modelName ident name displayName description =
     (let details = ''id='' @ ident;
          displayNameLength = RuneCountInString displayName
      in if length name = 0 \<or> length name > NameMaxLength \<or> \<not> validName name then
           Some (invalidModelError whr modelName ''name''
             ''must contain only lowercase letters, numbers, hyphens, and underscores'' details)
         else if displayNameLength = 0 \<or> displayNameLength > DisplayNameMaxRunes then
           Some (invalidModelError whr modelName ''display_name'' ''has an invalid length'' details)
         else if RuneCountInString description > DescriptionMaxRunes then
           Some (invalidModelError whr modelName ''description'' ''is too long'' details)
         else None)"

definition is_hex :: "char \<Rightarrow> bool" where
  "is_hex c \<longleftrightarrow> (CHR ''0'' \<le> c \<and> c \<le> CHR ''9'') \<or> (CHR ''a'' \<le> c \<and> c \<le> CHR ''f'')
     \<or> (CHR ''A'' \<le> c \<and> c \<le> CHR ''F'')"

text \<open>\<^verbatim>\<open>hex.DecodeString\<close> succeeds on an even number of hexadecimal digits.\<close>

definition hex_decodes :: "string \<Rightarrow> bool" where
  "hex_decodes s \<longleftrightarrow> even (length s) \<and> list_all is_hex s"

definition TokenHashLength :: nat where "TokenHashLength = 64"

definition IsValidTokenHash :: "string \<Rightarrow> bool" where
  "IsValidTokenHash value \<longleftrightarrow> length value = TokenHashLength \<and> hex_decodes value"

definition validLowerSHA256 :: "string \<Rightarrow> bool" where
  "validLowerSHA256 value \<longleftrightarrow>
     \<not> (length value \<noteq> 64 \<or> ToLower value \<noteq> value) \<and> hex_decodes value"

section \<open>Sample identifiers\<close>

lemma sample_ids [simp]:
  "IsValidOpaqueID (replicate 26 CHR ''a'')" "IsValidOpaqueID (replicate 26 CHR ''b'')"
  "IsValidOpaqueID (replicate 26 CHR ''c'')" "IsValidOpaqueID (replicate 26 CHR ''d'')"
  "IsValidOpaqueID (replicate 26 CHR ''e'')" "IsValidOpaqueID (replicate 26 CHR ''f'')"
  "IsValidOpaqueID (replicate 26 CHR ''g'')" "IsValidOpaqueID (replicate 26 CHR ''h'')"
  by (rule IsValidOpaqueID_repeat, simp add: IDAlphabet_def)+

lemma sample_hash [simp]:
  "IsValidTokenHash (replicate 64 CHR ''a'')" "ToLower (replicate 64 CHR ''a'') = replicate 64 CHR ''a''"
  "validLowerSHA256 (replicate 64 CHR ''a'')"
  by (simp_all add: IsValidTokenHash_def TokenHashLength_def hex_decodes_def list_all_iff is_hex_def
      ToLower_def lower_char_def validLowerSHA256_def)

end
