(* ===== verification/ExamSitting.thy ===== *)
theory ExamSitting
  imports Instants Text
begin

text \<open>
  \<^verbatim>\<open>server/model/exam_sitting.go\<close>: one scheduled delivery of an Exam Revision to a Class.
  The record has the fields of the struct, each operation is one definition that returns the
  receiver after the call and the error, and \<open>sitting_exec\<close> collects the operations so that
  statements can speak about every sequence of calls.  \<open>ApplySchedule\<close> also returns
  whether it changed anything.
\<close>

section \<open>Model\<close>

datatype ExamSittingState =
    ExamSittingScheduled
  | ExamSittingOpen
  | ExamSittingPaused
  | ExamSittingClosing
  | ExamSittingClosed
  | ExamSittingCanceled
  | ExamSittingStateOther string

fun ExamSittingState_IsValid :: "ExamSittingState \<Rightarrow> bool" where
  "ExamSittingState_IsValid (ExamSittingStateOther s) = False"
| "ExamSittingState_IsValid _ = True"

definition AllowsCandidateAdmission :: "ExamSittingState \<Rightarrow> bool" where
  "AllowsCandidateAdmission s \<longleftrightarrow> s = ExamSittingOpen"

definition AllowsCandidateMutation :: "ExamSittingState \<Rightarrow> bool" where
  "AllowsCandidateMutation s \<longleftrightarrow> s = ExamSittingOpen"

definition AllowsProtectedPresentation :: "ExamSittingState \<Rightarrow> bool" where
  "AllowsProtectedPresentation s \<longleftrightarrow> s = ExamSittingOpen \<or> s = ExamSittingPaused"

definition RequiresIntegrityMonitoring :: "ExamSittingState \<Rightarrow> bool" where
  "RequiresIntegrityMonitoring s \<longleftrightarrow> s = ExamSittingOpen \<or> s = ExamSittingPaused"

text \<open>The empty reason is \<open>ExamSittingReasonNone\<close>.\<close>

datatype ExamSittingReasonCode =
    ExamSittingReasonNone
  | ExamSittingReasonManagerCanceled
  | ExamSittingReasonScheduleElapsed
  | ExamSittingReasonAcademicStructureInvalid
  | ExamSittingReasonManagerClosed
  | ExamSittingReasonScheduledEndReached
  | ExamSittingReasonOther string

fun ExamSittingReasonCode_IsValid :: "ExamSittingReasonCode \<Rightarrow> bool" where
  "ExamSittingReasonCode_IsValid ExamSittingReasonNone = False"
| "ExamSittingReasonCode_IsValid (ExamSittingReasonOther s) = False"
| "ExamSittingReasonCode_IsValid _ = True"

definition isCancellation :: "ExamSittingReasonCode \<Rightarrow> bool" where
  "isCancellation r \<longleftrightarrow> r = ExamSittingReasonManagerCanceled
     \<or> r = ExamSittingReasonScheduleElapsed \<or> r = ExamSittingReasonAcademicStructureInvalid"

definition isClosing :: "ExamSittingReasonCode \<Rightarrow> bool" where
  "isClosing r \<longleftrightarrow> r = ExamSittingReasonManagerClosed \<or> r = ExamSittingReasonScheduledEndReached"

record ExamSitting =
  es_ID :: string
  es_ExamID :: string
  es_ExamRevisionID :: string
  es_ClassID :: string
  es_ScheduledStartAt :: gtime
  es_ScheduledEndAt :: gtime
  es_State :: ExamSittingState
  es_CreatedAt :: gtime
  es_UpdatedAt :: gtime
  es_OpenedAt :: optional_time
  es_PausedAt :: optional_time
  es_ClosingAt :: optional_time
  es_ClosedAt :: optional_time
  es_CanceledAt :: optional_time
  es_ReasonCode :: ExamSittingReasonCode
  es_Revision :: int

definition validExamSittingLifecycleTime :: "optional_time \<Rightarrow> gtime \<Rightarrow> gtime \<Rightarrow> bool" where
  "validExamSittingLifecycleTime value notBefore notAfter \<longleftrightarrow>
     ot_Valid value \<and> \<not> IsZero (ot_Time value) \<and> t_loc (ot_Time value) = UTC \<and>
     \<not> Before (ot_Time value) notBefore \<and> \<not> After (ot_Time value) notAfter"

text \<open>The \<^verbatim>\<open>switch s.State\<close> of \<^verbatim>\<open>Validate\<close>: \<open>Some\<close> the state whose markers do not match.\<close>

definition sitting_lifecycle_mismatch :: "ExamSitting \<Rightarrow> string option" where
  "sitting_lifecycle_mismatch s = (case es_State s of
     ExamSittingScheduled \<Rightarrow>
       if ot_Valid (es_OpenedAt s) \<or> ot_Valid (es_PausedAt s) \<or> ot_Valid (es_ClosingAt s)
         \<or> ot_Valid (es_ClosedAt s) \<or> ot_Valid (es_CanceledAt s)
         \<or> es_ReasonCode s \<noteq> ExamSittingReasonNone
       then Some ''does not match scheduled state'' else None
   | ExamSittingOpen \<Rightarrow>
       if \<not> validExamSittingLifecycleTime (es_OpenedAt s) (es_CreatedAt s) (es_UpdatedAt s)
         \<or> ot_Valid (es_PausedAt s) \<or> ot_Valid (es_ClosingAt s) \<or> ot_Valid (es_ClosedAt s)
         \<or> ot_Valid (es_CanceledAt s) \<or> es_ReasonCode s \<noteq> ExamSittingReasonNone
       then Some ''does not match open state'' else None
   | ExamSittingPaused \<Rightarrow>
       if \<not> validExamSittingLifecycleTime (es_OpenedAt s) (es_CreatedAt s) (es_UpdatedAt s)
         \<or> \<not> validExamSittingLifecycleTime (es_PausedAt s) (ot_Time (es_OpenedAt s)) (es_UpdatedAt s)
         \<or> ot_Valid (es_ClosingAt s) \<or> ot_Valid (es_ClosedAt s) \<or> ot_Valid (es_CanceledAt s)
         \<or> es_ReasonCode s \<noteq> ExamSittingReasonNone
       then Some ''does not match paused state'' else None
   | ExamSittingClosing \<Rightarrow>
       if \<not> validExamSittingLifecycleTime (es_OpenedAt s) (es_CreatedAt s) (es_UpdatedAt s)
         \<or> \<not> validExamSittingLifecycleTime (es_ClosingAt s) (ot_Time (es_OpenedAt s)) (es_UpdatedAt s)
         \<or> ot_Valid (es_PausedAt s) \<or> ot_Valid (es_ClosedAt s) \<or> ot_Valid (es_CanceledAt s)
         \<or> \<not> isClosing (es_ReasonCode s)
       then Some ''does not match closing state'' else None
   | ExamSittingClosed \<Rightarrow>
       if \<not> validExamSittingLifecycleTime (es_OpenedAt s) (es_CreatedAt s) (es_UpdatedAt s)
         \<or> \<not> validExamSittingLifecycleTime (es_ClosingAt s) (ot_Time (es_OpenedAt s)) (es_UpdatedAt s)
         \<or> \<not> validExamSittingLifecycleTime (es_ClosedAt s) (ot_Time (es_ClosingAt s)) (es_UpdatedAt s)
         \<or> ot_Valid (es_PausedAt s) \<or> ot_Valid (es_CanceledAt s) \<or> \<not> isClosing (es_ReasonCode s)
       then Some ''does not match closed state'' else None
   | ExamSittingCanceled \<Rightarrow>
       if ot_Valid (es_OpenedAt s) \<or> ot_Valid (es_PausedAt s) \<or> ot_Valid (es_ClosingAt s)
         \<or> ot_Valid (es_ClosedAt s) \<or> \<not> ot_Valid (es_CanceledAt s)
         \<or> IsZero (ot_Time (es_CanceledAt s)) \<or> t_loc (ot_Time (es_CanceledAt s)) \<noteq> UTC
         \<or> Before (ot_Time (es_CanceledAt s)) (es_CreatedAt s)
         \<or> After (ot_Time (es_CanceledAt s)) (es_UpdatedAt s)
         \<or> \<not> isCancellation (es_ReasonCode s)
       then Some ''does not match canceled state'' else None
   | ExamSittingStateOther _ \<Rightarrow> None)"

definition ExamSitting_Validate :: "ExamSitting option \<Rightarrow> go_error option" where
  "ExamSitting_Validate p = (case p of
     None \<Rightarrow> Some (invalidModelError ''ExamSitting.Validate'' ''exam_sitting'' ''value'' ''is required'' [])
   | Some s \<Rightarrow>
       let err = (\<lambda>fld reason. Some (invalidModelError ''ExamSitting.Validate'' ''exam_sitting'' fld reason
             (''id='' @ es_ID s)))
       in if \<not> IsValidOpaqueID (es_ID s) \<or> \<not> IsValidOpaqueID (es_ExamID s)
            \<or> \<not> IsValidOpaqueID (es_ExamRevisionID s) \<or> \<not> IsValidOpaqueID (es_ClassID s) then
            Some (invalidModelError ''ExamSitting.Validate'' ''exam_sitting'' ''identity''
              ''must contain valid identifiers'' [])
          else if \<not> ExamSittingState_IsValid (es_State s) then err ''state'' ''must be valid''
          else if IsZero (es_ScheduledStartAt s) \<or> IsZero (es_ScheduledEndAt s)
            \<or> \<not> Before (es_ScheduledStartAt s) (es_ScheduledEndAt s) then
            err ''schedule'' ''must be a nonempty half-open interval''
          else if t_loc (es_ScheduledStartAt s) \<noteq> UTC \<or> t_loc (es_ScheduledEndAt s) \<noteq> UTC
            \<or> t_loc (es_CreatedAt s) \<noteq> UTC \<or> t_loc (es_UpdatedAt s) \<noteq> UTC then
            err ''timestamps'' ''must use UTC''
          else if IsZero (es_CreatedAt s) \<or> IsZero (es_UpdatedAt s)
            \<or> Before (es_UpdatedAt s) (es_CreatedAt s) then
            err ''timestamps'' ''must be ordered and nonzero''
          else case sitting_lifecycle_mismatch s of
            Some reason \<Rightarrow> err ''lifecycle'' reason
          | None \<Rightarrow> if es_Revision s < 1 then err ''revision'' ''must be positive'' else None)"

definition NewExamSitting ::
    "string \<Rightarrow> string \<Rightarrow> string \<Rightarrow> string \<Rightarrow> gtime \<Rightarrow> gtime \<Rightarrow> gtime
       \<Rightarrow> ExamSitting option \<times> go_error option" where
  "NewExamSitting ident examID examRevisionID classID scheduledStartAt scheduledEndAt at =
     (let sitting = \<lparr>es_ID = ident, es_ExamID = examID, es_ExamRevisionID = examRevisionID,
            es_ClassID = classID, es_ScheduledStartAt = TimeUTC scheduledStartAt,
            es_ScheduledEndAt = TimeUTC scheduledEndAt, es_State = ExamSittingScheduled,
            es_CreatedAt = TimeUTC at, es_UpdatedAt = TimeUTC at, es_OpenedAt = no_time,
            es_PausedAt = no_time, es_ClosingAt = no_time, es_ClosedAt = no_time,
            es_CanceledAt = no_time, es_ReasonCode = ExamSittingReasonNone, es_Revision = 1\<rparr>
      in case ExamSitting_Validate (Some sitting) of
           Some e \<Rightarrow> (None, Some e)
         | None \<Rightarrow> (Some sitting, None))"

subsection \<open>Operations\<close>

definition sitting_error :: "string \<Rightarrow> string \<Rightarrow> string \<Rightarrow> ExamSitting \<Rightarrow> go_error" where
  "sitting_error op fld reason s =
     invalidModelError (''ExamSitting.'' @ op) ''exam_sitting'' fld reason (''id='' @ es_ID s)"

definition sitting_nil :: "string \<Rightarrow> go_error" where
  "sitting_nil op =
     invalidModelError (''ExamSitting.'' @ op) ''exam_sitting'' ''value'' ''is required'' []"

definition examSittingTransitionTime :: "gtime \<Rightarrow> gtime \<Rightarrow> gtime" where
  "examSittingTransitionTime notBefore at =
     (if Before (TimeUTC at) notBefore then notBefore else TimeUTC at)"

definition applyLifecycleCandidate :: "ExamSitting \<Rightarrow> ExamSitting \<Rightarrow> ExamSitting outcome" where
  "applyLifecycleCandidate s candidate = commit ExamSitting_Validate s candidate"

definition ApplySchedule ::
    "ExamSitting option \<Rightarrow> string \<Rightarrow> string \<Rightarrow> gtime \<Rightarrow> gtime \<Rightarrow> gtime
       \<Rightarrow> ExamSitting option \<times> bool \<times> go_error option" where
  "ApplySchedule p examRevisionID classID scheduledStartAt scheduledEndAt at = (case p of
     None \<Rightarrow> (None, False, Some (sitting_nil ''ApplySchedule''))
   | Some s \<Rightarrow>
       if es_State s \<noteq> ExamSittingScheduled then
         (p, False, Some (sitting_error ''ApplySchedule'' ''state'' ''must be scheduled'' s))
       else let startAt = TimeUTC scheduledStartAt; endAt = TimeUTC scheduledEndAt in
         if es_ExamRevisionID s = examRevisionID \<and> es_ClassID s = classID
            \<and> es_ScheduledStartAt s = startAt \<and> es_ScheduledEndAt s = endAt then (p, False, None)
         else
           let candidate = s\<lparr>es_ExamRevisionID := examRevisionID, es_ClassID := classID,
                 es_ScheduledStartAt := startAt, es_ScheduledEndAt := endAt,
                 es_UpdatedAt := (if Before (TimeUTC at) (es_UpdatedAt s) then es_UpdatedAt s
                                  else TimeUTC at),
                 es_Revision := inc64 (es_Revision s)\<rparr>
           in case ExamSitting_Validate (Some candidate) of
                Some e \<Rightarrow> (p, False, Some e)
              | None \<Rightarrow> (Some candidate, True, None))"

definition Cancel ::
    "ExamSitting option \<Rightarrow> ExamSittingReasonCode \<Rightarrow> gtime \<Rightarrow> ExamSitting option outcome" where
  "Cancel p reason at = on_receiver p (sitting_nil ''Cancel'') (\<lambda>s.
     if es_State s \<noteq> ExamSittingScheduled then
       (s, Some (sitting_error ''Cancel'' ''state'' ''must be scheduled'' s))
     else if \<not> isCancellation reason then
       (s, Some (sitting_error ''Cancel'' ''reason_code'' ''must be candidate-safe'' s))
     else
       let candidate = s\<lparr>es_State := ExamSittingCanceled, es_ReasonCode := reason,
             es_CanceledAt := OptionalTimeFrom at, es_UpdatedAt := TimeUTC at\<rparr>;
           candidate = (if Before (es_UpdatedAt candidate) (es_UpdatedAt s) then
             candidate\<lparr>es_UpdatedAt := es_UpdatedAt s,
               es_CanceledAt := OptionalTimeFrom (es_UpdatedAt s)\<rparr> else candidate)
       in commit ExamSitting_Validate s (candidate\<lparr>es_Revision := inc64 (es_Revision s)\<rparr>))"

definition Open :: "ExamSitting option \<Rightarrow> gtime \<Rightarrow> ExamSitting option outcome" where
  "Open p at = on_receiver p (sitting_nil ''Open'') (\<lambda>s.
     if es_State s \<noteq> ExamSittingScheduled then
       (s, Some (sitting_error ''Open'' ''state'' ''must be scheduled'' s))
     else
       let openedAt = OptionalTimeFrom (examSittingTransitionTime (es_UpdatedAt s) at)
       in applyLifecycleCandidate s (s\<lparr>es_State := ExamSittingOpen, es_OpenedAt := openedAt,
            es_UpdatedAt := ot_Time openedAt, es_Revision := inc64 (es_Revision s)\<rparr>))"

definition Pause :: "ExamSitting option \<Rightarrow> gtime \<Rightarrow> ExamSitting option outcome" where
  "Pause p at = on_receiver p (sitting_nil ''Pause'') (\<lambda>s.
     if es_State s \<noteq> ExamSittingOpen then
       (s, Some (sitting_error ''Pause'' ''state'' ''must be open'' s))
     else
       let pausedAt = OptionalTimeFrom (examSittingTransitionTime (es_UpdatedAt s) at)
       in applyLifecycleCandidate s (s\<lparr>es_State := ExamSittingPaused, es_PausedAt := pausedAt,
            es_UpdatedAt := ot_Time pausedAt, es_Revision := inc64 (es_Revision s)\<rparr>))"

definition Resume :: "ExamSitting option \<Rightarrow> gtime \<Rightarrow> ExamSitting option outcome" where
  "Resume p at = on_receiver p (sitting_nil ''Resume'') (\<lambda>s.
     if es_State s \<noteq> ExamSittingPaused then
       (s, Some (sitting_error ''Resume'' ''state'' ''must be paused'' s))
     else applyLifecycleCandidate s (s\<lparr>es_State := ExamSittingOpen, es_PausedAt := no_time,
       es_UpdatedAt := examSittingTransitionTime (es_UpdatedAt s) at,
       es_Revision := inc64 (es_Revision s)\<rparr>))"

definition ExtendEnd :: "ExamSitting option \<Rightarrow> gtime \<Rightarrow> gtime \<Rightarrow> ExamSitting option outcome" where
  "ExtendEnd p endAt at = on_receiver p (sitting_nil ''ExtendEnd'') (\<lambda>s.
     if es_State s \<noteq> ExamSittingOpen \<and> es_State s \<noteq> ExamSittingPaused then
       (s, Some (sitting_error ''ExtendEnd'' ''state'' ''must be open or paused'' s))
     else if \<not> After (TimeUTC endAt) (es_ScheduledEndAt s) then
       (s, Some (sitting_error ''ExtendEnd'' ''scheduled_end_at''
          ''must extend the current deadline'' s))
     else applyLifecycleCandidate s (s\<lparr>es_ScheduledEndAt := TimeUTC endAt,
       es_UpdatedAt := examSittingTransitionTime (es_UpdatedAt s) at,
       es_Revision := inc64 (es_Revision s)\<rparr>))"

definition RetargetRevision ::
    "ExamSitting option \<Rightarrow> string \<Rightarrow> gtime \<Rightarrow> ExamSitting option outcome" where
  "RetargetRevision p revisionID at = on_receiver p (sitting_nil ''RetargetRevision'') (\<lambda>s.
     if es_State s \<noteq> ExamSittingOpen \<and> es_State s \<noteq> ExamSittingPaused then
       (s, Some (sitting_error ''RetargetRevision'' ''state'' ''must be open or paused'' s))
     else if \<not> IsValidOpaqueID revisionID \<or> revisionID = es_ExamRevisionID s then
       (s, Some (sitting_error ''RetargetRevision'' ''exam_revision_id''
          ''must identify a different valid Revision'' s))
     else applyLifecycleCandidate s (s\<lparr>es_ExamRevisionID := revisionID,
       es_UpdatedAt := examSittingTransitionTime (es_UpdatedAt s) at,
       es_Revision := inc64 (es_Revision s)\<rparr>))"

definition EnterClosing ::
    "ExamSitting option \<Rightarrow> ExamSittingReasonCode \<Rightarrow> gtime \<Rightarrow> ExamSitting option outcome" where
  "EnterClosing p reason at = on_receiver p (sitting_nil ''EnterClosing'') (\<lambda>s.
     if es_State s \<noteq> ExamSittingOpen \<and> es_State s \<noteq> ExamSittingPaused then
       (s, Some (sitting_error ''EnterClosing'' ''state'' ''must be open or paused'' s))
     else if \<not> isClosing reason then
       (s, Some (sitting_error ''EnterClosing'' ''reason_code'' ''must be a closing reason'' s))
     else
       let closingAt = OptionalTimeFrom (examSittingTransitionTime (es_UpdatedAt s) at)
       in applyLifecycleCandidate s (s\<lparr>es_State := ExamSittingClosing, es_PausedAt := no_time,
            es_ClosingAt := closingAt, es_UpdatedAt := ot_Time closingAt,
            es_ReasonCode := reason, es_Revision := inc64 (es_Revision s)\<rparr>))"

definition Close :: "ExamSitting option \<Rightarrow> gtime \<Rightarrow> ExamSitting option outcome" where
  "Close p at = on_receiver p (sitting_nil ''Close'') (\<lambda>s.
     if es_State s \<noteq> ExamSittingClosing then
       (s, Some (sitting_error ''Close'' ''state'' ''must be closing'' s))
     else
       let closedAt = OptionalTimeFrom (examSittingTransitionTime (es_UpdatedAt s) at)
       in applyLifecycleCandidate s (s\<lparr>es_State := ExamSittingClosed, es_ClosedAt := closedAt,
            es_UpdatedAt := ot_Time closedAt, es_Revision := inc64 (es_Revision s)\<rparr>))"

text \<open>One call of an operation on an existing Sitting.\<close>

datatype sitting_op =
    ApplyScheduleCall string string gtime gtime gtime
  | CancelCall ExamSittingReasonCode gtime
  | OpenCall gtime
  | PauseCall gtime
  | ResumeCall gtime
  | ExtendEndCall gtime gtime
  | RetargetRevisionCall string gtime
  | EnterClosingCall ExamSittingReasonCode gtime
  | CloseCall gtime

fun sitting_call :: "sitting_op \<Rightarrow> ExamSitting option \<Rightarrow> ExamSitting option outcome" where
  "sitting_call (ApplyScheduleCall r c a b t) p =
     (case ApplySchedule p r c a b t of (p', changed, e) \<Rightarrow> (p', e))"
| "sitting_call (CancelCall r t) p = Cancel p r t"
| "sitting_call (OpenCall t) p = Open p t"
| "sitting_call (PauseCall t) p = Pause p t"
| "sitting_call (ResumeCall t) p = Resume p t"
| "sitting_call (ExtendEndCall e t) p = ExtendEnd p e t"
| "sitting_call (RetargetRevisionCall r t) p = RetargetRevision p r t"
| "sitting_call (EnterClosingCall r t) p = EnterClosing p r t"
| "sitting_call (CloseCall t) p = Close p t"

definition sitting_exec :: "sitting_op \<Rightarrow> ExamSitting \<Rightarrow> ExamSitting outcome" where
  "sitting_exec c s = (the (fst (sitting_call c (Some s))), snd (sitting_call c (Some s)))"

section \<open>Well-formed Sittings\<close>

text \<open>
  A Sitting as the Store rehydrates it: valid, with an \<^verbatim>\<open>int64\<close> revision and with its
  instants at domain precision.
\<close>

definition sitting_wf :: "ExamSitting \<Rightarrow> bool" where
  "sitting_wf s \<longleftrightarrow> ExamSitting_Validate (Some s) = None \<and> is_int64 (es_Revision s)
     \<and> canonical (es_ScheduledStartAt s) \<and> canonical (es_ScheduledEndAt s)
     \<and> canonical (es_CreatedAt s) \<and> canonical (es_UpdatedAt s) \<and> 0 < t_ns (es_CreatedAt s)
     \<and> list_all canonical_opt [es_OpenedAt s, es_PausedAt s, es_ClosingAt s, es_ClosedAt s,
          es_CanceledAt s]"

lemma ExamSitting_Validate_ok:
  "ExamSitting_Validate (Some s) = None \<longleftrightarrow>
     IsValidOpaqueID (es_ID s) \<and> IsValidOpaqueID (es_ExamID s)
     \<and> IsValidOpaqueID (es_ExamRevisionID s) \<and> IsValidOpaqueID (es_ClassID s)
     \<and> ExamSittingState_IsValid (es_State s)
     \<and> \<not> IsZero (es_ScheduledStartAt s) \<and> \<not> IsZero (es_ScheduledEndAt s)
     \<and> Before (es_ScheduledStartAt s) (es_ScheduledEndAt s)
     \<and> t_loc (es_ScheduledStartAt s) = UTC \<and> t_loc (es_ScheduledEndAt s) = UTC
     \<and> t_loc (es_CreatedAt s) = UTC \<and> t_loc (es_UpdatedAt s) = UTC
     \<and> \<not> IsZero (es_CreatedAt s) \<and> \<not> IsZero (es_UpdatedAt s)
     \<and> \<not> Before (es_UpdatedAt s) (es_CreatedAt s)
     \<and> sitting_lifecycle_mismatch s = None \<and> 1 \<le> es_Revision s"
  unfolding ExamSitting_Validate_def Let_def option.case by (auto split: option.splits)

lemmas sitting_op_defs = ApplySchedule_def Cancel_def Open_def Pause_def Resume_def ExtendEnd_def
  RetargetRevision_def EnterClosing_def Close_def applyLifecycleCandidate_def Let_def

lemma canonical_transition [simp]:
  "canonical t \<Longrightarrow> canonical (examSittingTransitionTime t at)"
  by (simp add: examSittingTransitionTime_def)

lemma transition_time_facts [simp]:
  "canonical t \<Longrightarrow> t_loc (examSittingTransitionTime t at) = UTC"
  "t_ns t \<le> t_ns (examSittingTransitionTime t at)"
  by (auto simp: examSittingTransitionTime_def Before_def canonical_def)

section \<open>The transition system\<close>

text \<open>
  The lifecycle without any validation: which calls are enabled in a Sitting, and the Sitting
  they lead to.  The operations above implement it.
\<close>

fun sitting_enabled :: "sitting_op \<Rightarrow> ExamSitting \<Rightarrow> bool" where
  "sitting_enabled (ApplyScheduleCall r c a b t) s \<longleftrightarrow> es_State s = ExamSittingScheduled"
| "sitting_enabled (CancelCall r t) s \<longleftrightarrow> es_State s = ExamSittingScheduled \<and> isCancellation r"
| "sitting_enabled (OpenCall t) s \<longleftrightarrow> es_State s = ExamSittingScheduled"
| "sitting_enabled (PauseCall t) s \<longleftrightarrow> es_State s = ExamSittingOpen"
| "sitting_enabled (ResumeCall t) s \<longleftrightarrow> es_State s = ExamSittingPaused"
| "sitting_enabled (ExtendEndCall e t) s \<longleftrightarrow> es_State s \<in> {ExamSittingOpen, ExamSittingPaused}
     \<and> t_ns (es_ScheduledEndAt s) < t_ns (TimeUTC e)"
| "sitting_enabled (RetargetRevisionCall r t) s \<longleftrightarrow> es_State s \<in> {ExamSittingOpen, ExamSittingPaused}
     \<and> IsValidOpaqueID r \<and> r \<noteq> es_ExamRevisionID s"
| "sitting_enabled (EnterClosingCall r t) s \<longleftrightarrow> es_State s \<in> {ExamSittingOpen, ExamSittingPaused}
     \<and> isClosing r"
| "sitting_enabled (CloseCall t) s \<longleftrightarrow> es_State s = ExamSittingClosing"

fun sitting_same :: "sitting_op \<Rightarrow> ExamSitting \<Rightarrow> bool" where
  "sitting_same (ApplyScheduleCall r c a b t) s \<longleftrightarrow> es_ExamRevisionID s = r \<and> es_ClassID s = c
     \<and> es_ScheduledStartAt s = TimeUTC a \<and> es_ScheduledEndAt s = TimeUTC b"
| "sitting_same _ s \<longleftrightarrow> False"

fun sitting_move :: "sitting_op \<Rightarrow> ExamSitting \<Rightarrow> ExamSitting" where
  "sitting_move (ApplyScheduleCall r c a b t) s = s\<lparr>es_ExamRevisionID := r, es_ClassID := c,
     es_ScheduledStartAt := TimeUTC a, es_ScheduledEndAt := TimeUTC b\<rparr>"
| "sitting_move (CancelCall r t) s = s\<lparr>es_State := ExamSittingCanceled, es_ReasonCode := r,
     es_CanceledAt := OptionalTimeFrom (examSittingTransitionTime (es_UpdatedAt s) t)\<rparr>"
| "sitting_move (OpenCall t) s = s\<lparr>es_State := ExamSittingOpen,
     es_OpenedAt := OptionalTimeFrom (examSittingTransitionTime (es_UpdatedAt s) t)\<rparr>"
| "sitting_move (PauseCall t) s = s\<lparr>es_State := ExamSittingPaused,
     es_PausedAt := OptionalTimeFrom (examSittingTransitionTime (es_UpdatedAt s) t)\<rparr>"
| "sitting_move (ResumeCall t) s = s\<lparr>es_State := ExamSittingOpen, es_PausedAt := no_time\<rparr>"
| "sitting_move (ExtendEndCall e t) s = s\<lparr>es_ScheduledEndAt := TimeUTC e\<rparr>"
| "sitting_move (RetargetRevisionCall r t) s = s\<lparr>es_ExamRevisionID := r\<rparr>"
| "sitting_move (EnterClosingCall r t) s = s\<lparr>es_State := ExamSittingClosing, es_PausedAt := no_time,
     es_ClosingAt := OptionalTimeFrom (examSittingTransitionTime (es_UpdatedAt s) t),
     es_ReasonCode := r\<rparr>"
| "sitting_move (CloseCall t) s = s\<lparr>es_State := ExamSittingClosed,
     es_ClosedAt := OptionalTimeFrom (examSittingTransitionTime (es_UpdatedAt s) t)\<rparr>"

fun sitting_op_at :: "sitting_op \<Rightarrow> gtime" where
  "sitting_op_at (ApplyScheduleCall r c a b t) = t"
| "sitting_op_at (CancelCall r t) = t"
| "sitting_op_at (OpenCall t) = t"
| "sitting_op_at (PauseCall t) = t"
| "sitting_op_at (ResumeCall t) = t"
| "sitting_op_at (ExtendEndCall e t) = t"
| "sitting_op_at (RetargetRevisionCall r t) = t"
| "sitting_op_at (EnterClosingCall r t) = t"
| "sitting_op_at (CloseCall t) = t"

definition sitting_next :: "sitting_op \<Rightarrow> ExamSitting \<Rightarrow> ExamSitting" where
  "sitting_next c s = (sitting_move c s)\<lparr>
     es_UpdatedAt := examSittingTransitionTime (es_UpdatedAt s) (sitting_op_at c),
     es_Revision := inc64 (es_Revision s)\<rparr>"

text \<open>Every operation is a guard followed by a commit of the next state.\<close>

lemma sitting_exec_enabled:
  assumes "canonical (es_UpdatedAt s)" and "sitting_enabled c s" and "\<not> sitting_same c s"
  shows "sitting_exec c s = commit ExamSitting_Validate s (sitting_next c s)"
  using assms
  by (cases s; cases c) (auto simp: sitting_exec_def sitting_op_defs sitting_next_def After_def
      examSittingTransitionTime_def commit_def split: option.split)

lemma sitting_exec_same: "sitting_enabled c s \<Longrightarrow> sitting_same c s \<Longrightarrow> sitting_exec c s = (s, None)"
  by (cases c) (simp_all add: sitting_exec_def ApplySchedule_def)

lemma sitting_exec_disabled:
  "\<not> sitting_enabled c s \<Longrightarrow> fst (sitting_exec c s) = s \<and> snd (sitting_exec c s) \<noteq> None"
  by (cases c) (auto simp: sitting_exec_def sitting_op_defs After_def)

lemma sitting_call_clean: "clean (Some s) (sitting_call c (Some s))"
  by (cases c) (simp_all add: sitting_op_defs del: on_receiver_Some split: option.split)

lemma sitting_exec_atomic: "snd (sitting_exec c s) \<noteq> None \<Longrightarrow> fst (sitting_exec c s) = s"
  using sitting_call_clean [of s c] by (simp add: sitting_exec_def cleanD)

lemma sitting_exec_success:
  assumes "canonical (es_UpdatedAt s)" and "snd (sitting_exec c s) = None"
  obtains (same) "sitting_enabled c s" "sitting_same c s" "fst (sitting_exec c s) = s"
  | (moved) "sitting_enabled c s" "fst (sitting_exec c s) = sitting_next c s"
      "ExamSitting_Validate (Some (sitting_next c s)) = None"
proof -
  from assms(2) sitting_exec_disabled have "sitting_enabled c s" by blast
  with assms that show thesis
    by (cases "sitting_same c s") (auto simp: sitting_exec_same sitting_exec_enabled commit_fst)
qed

lemma sitting_next_common [simp]:
  "es_Revision (sitting_next c s) = inc64 (es_Revision s)"
  "es_UpdatedAt (sitting_next c s) = examSittingTransitionTime (es_UpdatedAt s) (sitting_op_at c)"
  "es_ID (sitting_next c s) = es_ID s"
  "es_ExamID (sitting_next c s) = es_ExamID s"
  "es_CreatedAt (sitting_next c s) = es_CreatedAt s"
  by (simp_all add: sitting_next_def) (cases c; simp)+

lemma sitting_next_canonical:
  assumes "sitting_wf s"
  shows "canonical (es_ScheduledStartAt (sitting_next c s))"
    "canonical (es_ScheduledEndAt (sitting_next c s))"
    "list_all canonical_opt [es_OpenedAt (sitting_next c s), es_PausedAt (sitting_next c s),
       es_ClosingAt (sitting_next c s), es_ClosedAt (sitting_next c s),
       es_CanceledAt (sitting_next c s)]"
  using assms by (cases c; simp add: sitting_next_def sitting_wf_def)+

lemma sitting_wf_updated: "sitting_wf s \<Longrightarrow> canonical (es_UpdatedAt s)"
  by (simp add: sitting_wf_def)

lemma sitting_exec_wf:
  assumes "sitting_wf s" and "snd (sitting_exec c s) = None"
  shows "sitting_wf (fst (sitting_exec c s))"
  using sitting_wf_updated [OF assms(1)] assms(2)
proof (cases rule: sitting_exec_success)
  case same
  with assms show ?thesis by simp
next
  case moved
  have "sitting_wf (sitting_next c s)"
    using assms(1) moved(3) sitting_next_canonical [OF assms(1), of c]
    unfolding sitting_wf_def by simp
  with moved show ?thesis by simp
qed

interpretation sitting: aggregate sitting_exec sitting_wf
  by unfold_locales (simp_all add: sitting_exec_atomic sitting_exec_wf)

lemma sitting_bumps:
  assumes "sitting_wf s" and "fst (sitting_exec c s) \<noteq> s"
  shows "es_Revision (fst (sitting_exec c s)) = es_Revision s + 1"
proof -
  have "snd (sitting_exec c s) = None" using assms(2) sitting_exec_atomic by blast
  with sitting_wf_updated [OF assms(1)] show ?thesis
  proof (cases rule: sitting_exec_success)
    case same
    with assms show ?thesis by simp
  next
    case moved
    then have "1 \<le> inc64 (es_Revision s)" by (simp add: ExamSitting_Validate_ok)
    with moved assms(1) show ?thesis by (simp add: valid_inc64 sitting_wf_def ExamSitting_Validate_ok)
  qed
qed

interpretation sitting_versions: versioned_aggregate sitting_exec sitting_wf es_Revision
  by unfold_locales (rule sitting_bumps)

section \<open>When a call succeeds\<close>

text \<open>The arguments that a call adds to the Sitting must themselves be admissible.\<close>

fun sitting_args_ok :: "sitting_op \<Rightarrow> bool" where
  "sitting_args_ok (ApplyScheduleCall r c a b t) \<longleftrightarrow> IsValidOpaqueID r \<and> IsValidOpaqueID c
     \<and> trunc_us (t_ns a) \<noteq> 0 \<and> trunc_us (t_ns b) \<noteq> 0 \<and> trunc_us (t_ns a) < trunc_us (t_ns b)"
| "sitting_args_ok (ExtendEndCall e t) \<longleftrightarrow> trunc_us (t_ns e) \<noteq> 0"
| "sitting_args_ok _ \<longleftrightarrow> True"

lemma sitting_wf_positive:
  "sitting_wf s \<Longrightarrow> 0 < t_ns (es_CreatedAt s) \<and> t_ns (es_CreatedAt s) \<le> t_ns (es_UpdatedAt s)"
  by (simp add: sitting_wf_def ExamSitting_Validate_ok Before_def)

lemma transition_time_bounds:
  assumes "sitting_wf s"
  shows "t_ns (es_CreatedAt s) \<le> t_ns (examSittingTransitionTime (es_UpdatedAt s) t)"
    and "t_ns (examSittingTransitionTime (es_UpdatedAt s) t) \<noteq> 0"
  using sitting_wf_positive [OF assms] transition_time_facts(2) [of "es_UpdatedAt s" t] by linarith+

lemma valid_lifecycle_time_now:
  assumes "canonical u"
  shows "validExamSittingLifecycleTime (OptionalTimeFrom u) lo u \<longleftrightarrow>
     t_ns u \<noteq> 0 \<and> t_ns lo \<le> t_ns u"
  using assms by (auto simp: validExamSittingLifecycleTime_def time_ops canonical_def)

lemma valid_lifecycle_time_later:
  "validExamSittingLifecycleTime ov lo hi \<Longrightarrow> t_ns hi \<le> t_ns hi' \<Longrightarrow>
     validExamSittingLifecycleTime ov lo hi'"
  by (auto simp: validExamSittingLifecycleTime_def After_def)

lemma valid_lifecycle_time_order:
  "validExamSittingLifecycleTime ov lo hi \<Longrightarrow> t_ns hi \<le> t_ns hi' \<Longrightarrow> t_ns (ot_Time ov) \<le> t_ns hi'"
  by (auto simp: validExamSittingLifecycleTime_def After_def)

lemma lifecycle_matches:
  "sitting_lifecycle_mismatch s = None \<longleftrightarrow> (case es_State s of
     ExamSittingScheduled \<Rightarrow> \<not> ot_Valid (es_OpenedAt s) \<and> \<not> ot_Valid (es_PausedAt s)
       \<and> \<not> ot_Valid (es_ClosingAt s) \<and> \<not> ot_Valid (es_ClosedAt s) \<and> \<not> ot_Valid (es_CanceledAt s)
       \<and> es_ReasonCode s = ExamSittingReasonNone
   | ExamSittingOpen \<Rightarrow> validExamSittingLifecycleTime (es_OpenedAt s) (es_CreatedAt s) (es_UpdatedAt s)
       \<and> \<not> ot_Valid (es_PausedAt s) \<and> \<not> ot_Valid (es_ClosingAt s) \<and> \<not> ot_Valid (es_ClosedAt s)
       \<and> \<not> ot_Valid (es_CanceledAt s) \<and> es_ReasonCode s = ExamSittingReasonNone
   | ExamSittingPaused \<Rightarrow> validExamSittingLifecycleTime (es_OpenedAt s) (es_CreatedAt s) (es_UpdatedAt s)
       \<and> validExamSittingLifecycleTime (es_PausedAt s) (ot_Time (es_OpenedAt s)) (es_UpdatedAt s)
       \<and> \<not> ot_Valid (es_ClosingAt s) \<and> \<not> ot_Valid (es_ClosedAt s) \<and> \<not> ot_Valid (es_CanceledAt s)
       \<and> es_ReasonCode s = ExamSittingReasonNone
   | ExamSittingClosing \<Rightarrow> validExamSittingLifecycleTime (es_OpenedAt s) (es_CreatedAt s) (es_UpdatedAt s)
       \<and> validExamSittingLifecycleTime (es_ClosingAt s) (ot_Time (es_OpenedAt s)) (es_UpdatedAt s)
       \<and> \<not> ot_Valid (es_PausedAt s) \<and> \<not> ot_Valid (es_ClosedAt s) \<and> \<not> ot_Valid (es_CanceledAt s)
       \<and> isClosing (es_ReasonCode s)
   | ExamSittingClosed \<Rightarrow> validExamSittingLifecycleTime (es_OpenedAt s) (es_CreatedAt s) (es_UpdatedAt s)
       \<and> validExamSittingLifecycleTime (es_ClosingAt s) (ot_Time (es_OpenedAt s)) (es_UpdatedAt s)
       \<and> validExamSittingLifecycleTime (es_ClosedAt s) (ot_Time (es_ClosingAt s)) (es_UpdatedAt s)
       \<and> \<not> ot_Valid (es_PausedAt s) \<and> \<not> ot_Valid (es_CanceledAt s) \<and> isClosing (es_ReasonCode s)
   | ExamSittingCanceled \<Rightarrow> validExamSittingLifecycleTime (es_CanceledAt s) (es_CreatedAt s) (es_UpdatedAt s)
       \<and> \<not> ot_Valid (es_OpenedAt s) \<and> \<not> ot_Valid (es_PausedAt s) \<and> \<not> ot_Valid (es_ClosingAt s)
       \<and> \<not> ot_Valid (es_ClosedAt s) \<and> isCancellation (es_ReasonCode s)
   | ExamSittingStateOther _ \<Rightarrow> True)"
  by (cases "es_State s") (auto simp: sitting_lifecycle_mismatch_def validExamSittingLifecycleTime_def)

text \<open>The markers of the next state always match it.\<close>

lemma sitting_next_lifecycle:
  assumes wf: "sitting_wf s" and en: "sitting_enabled c s"
  shows "sitting_lifecycle_mismatch (sitting_next c s) = None"
proof -
  let ?u = "examSittingTransitionTime (es_UpdatedAt s) (sitting_op_at c)"
  have m: "sitting_lifecycle_mismatch s = None" using wf by (simp add: sitting_wf_def ExamSitting_Validate_ok)
  have u: "canonical ?u" "t_ns (es_UpdatedAt s) \<le> t_ns ?u" using wf by (simp_all add: sitting_wf_def)
  note b = transition_time_bounds [OF wf, of "sitting_op_at c"]
  show ?thesis using en m u b
    by (cases c) (auto simp: lifecycle_matches sitting_next_def valid_lifecycle_time_now
        intro: valid_lifecycle_time_later [OF _ transition_time_facts(2)]
          valid_lifecycle_time_order [OF _ transition_time_facts(2)])
qed

lemma sitting_next_valid:
  assumes "sitting_wf s" and "sitting_enabled c s"
  shows "ExamSitting_Validate (Some (sitting_next c s)) = None \<longleftrightarrow>
     sitting_args_ok c \<and> es_Revision s < maxInt64"
proof -
  have r: "1 \<le> inc64 (es_Revision s) \<longleftrightarrow> es_Revision s < maxInt64"
    using assms(1) by (simp add: sitting_wf_def ExamSitting_Validate_ok inc64_positive_iff)
  have t: "t_loc (examSittingTransitionTime (es_UpdatedAt s) (sitting_op_at c)) = UTC"
    using assms(1) by (simp add: sitting_wf_def)
  show ?thesis
    unfolding ExamSitting_Validate_ok sitting_next_common sitting_next_lifecycle [OF assms] r
    using assms transition_time_bounds [OF assms(1), of "sitting_op_at c"] t
    by (cases c) (auto simp: sitting_next_def sitting_wf_def ExamSitting_Validate_ok time_ops)
qed

text \<open>C19. On a well-formed Sitting every operation is exactly the transition system: the call
  succeeds if and only if the lifecycle state, the reason and the arguments admit it and the
  revision is below its maximum (no further rejection comes from the validation of the
  candidate), success with a changed request leads to \<open>sitting_next\<close>, and in every other
  case the Sitting is untouched.\<close>

theorem sitting_refines_transitions:
  assumes "sitting_wf s"
  shows "(snd (sitting_exec c s) = None \<longleftrightarrow>
      sitting_enabled c s \<and> (sitting_same c s \<or> sitting_args_ok c \<and> es_Revision s < maxInt64))
    \<and> fst (sitting_exec c s) =
        (if snd (sitting_exec c s) = None \<and> \<not> sitting_same c s then sitting_next c s else s)"
proof (cases "sitting_enabled c s")
  case True
  then show ?thesis
    using sitting_wf_updated [OF assms] sitting_next_valid [OF assms True]
    by (cases "sitting_same c s")
      (simp_all add: sitting_exec_same sitting_exec_enabled commit_fst)
next
  case False
  with sitting_exec_disabled [OF False] show ?thesis by auto
qed

section \<open>Histories\<close>

fun sitting_edge :: "ExamSittingState \<Rightarrow> ExamSittingState \<Rightarrow> bool" where
  "sitting_edge ExamSittingScheduled q \<longleftrightarrow>
     q \<in> {ExamSittingScheduled, ExamSittingOpen, ExamSittingCanceled}"
| "sitting_edge ExamSittingOpen q \<longleftrightarrow> q \<in> {ExamSittingOpen, ExamSittingPaused, ExamSittingClosing}"
| "sitting_edge ExamSittingPaused q \<longleftrightarrow> q \<in> {ExamSittingOpen, ExamSittingPaused, ExamSittingClosing}"
| "sitting_edge ExamSittingClosing q \<longleftrightarrow> q = ExamSittingClosed"
| "sitting_edge _ q \<longleftrightarrow> False"

lemma sitting_enabled_edge: "sitting_enabled c s \<Longrightarrow> sitting_edge (es_State s) (es_State (sitting_next c s))"
  by (cases c) (auto simp: sitting_next_def)

lemma sitting_moves_along:
  assumes "sitting_wf s" and "snd (sitting_exec c s) = None"
  shows "sitting_edge (es_State s) (es_State (fst (sitting_exec c s)))"
  using sitting_wf_updated [OF assms(1)] assms(2)
proof (cases rule: sitting_exec_success)
  case same
  then show ?thesis by (cases c) auto
qed (simp add: sitting_enabled_edge)

interpretation sitting_life: lifecycle sitting_exec sitting_wf es_State sitting_edge
  by unfold_locales (rule sitting_moves_along)

lemma closing_stays:
  "sitting_edge\<^sup>*\<^sup>* q r \<Longrightarrow> q = ExamSittingClosing \<or> q = ExamSittingClosed \<Longrightarrow>
     r = ExamSittingClosing \<or> r = ExamSittingClosed"
  by (induction rule: rtranclp_induct) auto

text \<open>What a history never changes: before the opening only the identity, from the opening on
  also the delivery selection, while the deadline can only move later.\<close>

definition sitting_started :: "ExamSitting \<Rightarrow> bool" where
  "sitting_started s \<longleftrightarrow> es_State s \<in> {ExamSittingOpen, ExamSittingPaused, ExamSittingClosing, ExamSittingClosed}"

definition sitting_evolves :: "ExamSitting \<Rightarrow> ExamSitting \<Rightarrow> bool" where
  "sitting_evolves s t \<longleftrightarrow> es_ID t = es_ID s \<and> es_ExamID t = es_ExamID s
     \<and> es_CreatedAt t = es_CreatedAt s \<and> t_ns (es_UpdatedAt s) \<le> t_ns (es_UpdatedAt t)
     \<and> (sitting_started s \<longrightarrow> sitting_started t \<and> es_OpenedAt t = es_OpenedAt s
          \<and> es_ClassID t = es_ClassID s \<and> es_ScheduledStartAt t = es_ScheduledStartAt s
          \<and> t_ns (es_ScheduledEndAt s) \<le> t_ns (es_ScheduledEndAt t))
     \<and> (es_State s = ExamSittingClosing \<longrightarrow> es_ScheduledEndAt t = es_ScheduledEndAt s
          \<and> es_ExamRevisionID t = es_ExamRevisionID s \<and> es_ReasonCode t = es_ReasonCode s
          \<and> es_ClosingAt t = es_ClosingAt s \<and> es_State t \<in> {ExamSittingClosing, ExamSittingClosed})
     \<and> (es_State s \<in> {ExamSittingClosed, ExamSittingCanceled} \<longrightarrow> t = s)"

lemma sitting_evolves_next: "sitting_enabled c s \<Longrightarrow> sitting_evolves s (sitting_next c s)"
  by (cases c) (auto simp: sitting_evolves_def sitting_started_def sitting_next_def)

lemma sitting_evolves_refl: "sitting_evolves s s"
  by (simp add: sitting_evolves_def)

lemma sitting_evolves_trans: "sitting_evolves s t \<Longrightarrow> sitting_evolves t u \<Longrightarrow> sitting_evolves s u"
  by (cases "es_State s"; cases "es_State t") (simp_all add: sitting_evolves_def sitting_started_def)

lemma sitting_evolves_run:
  assumes "sitting_wf s"
  shows "sitting_evolves s (run sitting_exec cs s)"
proof (rule sitting.run_relation [OF _ _ _ assms])
  fix c s assume wf: "sitting_wf s" and ok: "snd (sitting_exec c s) = None"
  from sitting_wf_updated [OF wf] ok show "sitting_evolves s (fst (sitting_exec c s))"
    by (cases rule: sitting_exec_success) (simp_all add: sitting_evolves_refl sitting_evolves_next)
qed (rule sitting_evolves_refl, rule sitting_evolves_trans)

text \<open>C20. Along every sequence of calls: the identity and the creation time are fixed and the
  update time never goes back; once the Sitting has been opened, its first opening time, its
  Class and its start are fixed and its deadline never moves earlier; once it is closing, the
  deadline, the Revision, the cause and the closing time are fixed and the only way on is
  Closed; Closed and Canceled Sittings never change again.\<close>

theorem sitting_history:
  assumes "sitting_wf s" and "t = run sitting_exec cs s"
  shows "es_ID t = es_ID s \<and> es_ExamID t = es_ExamID s \<and> es_CreatedAt t = es_CreatedAt s
     \<and> t_ns (es_UpdatedAt s) \<le> t_ns (es_UpdatedAt t)
     \<and> (es_State s \<in> {ExamSittingOpen, ExamSittingPaused, ExamSittingClosing, ExamSittingClosed} \<longrightarrow>
          es_OpenedAt t = es_OpenedAt s \<and> es_ClassID t = es_ClassID s
          \<and> es_ScheduledStartAt t = es_ScheduledStartAt s
          \<and> t_ns (es_ScheduledEndAt s) \<le> t_ns (es_ScheduledEndAt t))
     \<and> (es_State s = ExamSittingClosing \<longrightarrow> es_ScheduledEndAt t = es_ScheduledEndAt s
          \<and> es_ExamRevisionID t = es_ExamRevisionID s \<and> es_ReasonCode t = es_ReasonCode s
          \<and> es_ClosingAt t = es_ClosingAt s \<and> es_State t \<in> {ExamSittingClosing, ExamSittingClosed})
     \<and> (es_State s \<in> {ExamSittingClosed, ExamSittingCanceled} \<longrightarrow> t = s)"
  using sitting_evolves_run [OF assms(1), of cs] assms(2)
  unfolding sitting_evolves_def sitting_started_def by simp

subsection \<open>New Sittings\<close>

lemma NewExamSitting_ok:
  "NewExamSitting i x r c a b at = (Some s, e) \<Longrightarrow>
     e = None \<and> ExamSitting_Validate (Some s) = None \<and> es_State s = ExamSittingScheduled
     \<and> es_Revision s = 1 \<and> es_CreatedAt s = TimeUTC at \<and> es_UpdatedAt s = TimeUTC at
     \<and> es_ScheduledStartAt s = TimeUTC a \<and> es_ScheduledEndAt s = TimeUTC b
     \<and> es_OpenedAt s = no_time \<and> es_PausedAt s = no_time \<and> es_ClosingAt s = no_time
     \<and> es_ClosedAt s = no_time \<and> es_CanceledAt s = no_time"
  unfolding NewExamSitting_def Let_def by (auto split: option.splits)

lemma NewExamSitting_wf:
  assumes "NewExamSitting i x r c a b at = (Some s, e)" and "0 < t_ns at"
  shows "sitting_wf s"
proof -
  note ok = NewExamSitting_ok [OF assms(1)]
  then have "t_ns (es_CreatedAt s) \<noteq> 0" by (auto simp add: ExamSitting_Validate_ok IsZero_def)
  moreover have "0 \<le> trunc_us (t_ns at)" using trunc_us_mono [of 0 "t_ns at"] assms(2) by simp
  ultimately show ?thesis using ok by (simp add: sitting_wf_def is_int64_def int64_defs)
qed

text \<open>C21. A new Sitting is created exactly when its identifiers are valid, its microsecond
  schedule is a nonempty interval of nonzero instants and the creation time is not zero; every
  Sitting that any sequence of calls makes of it is valid and at domain precision, has
  revision one plus the number of calls that changed it, and equals the new Sitting if the
  revision is still one.\<close>

theorem NewExamSitting_runs:
  assumes "0 < t_ns at"
  shows "((\<exists>s. NewExamSitting i x r c a b at = (Some s, None)) \<longleftrightarrow>
      IsValidOpaqueID i \<and> IsValidOpaqueID x \<and> IsValidOpaqueID r \<and> IsValidOpaqueID c
      \<and> trunc_us (t_ns a) \<noteq> 0 \<and> trunc_us (t_ns b) \<noteq> 0 \<and> trunc_us (t_ns a) < trunc_us (t_ns b)
      \<and> trunc_us (t_ns at) \<noteq> 0)
    \<and> (\<forall>s cs. NewExamSitting i x r c a b at = (Some s, None) \<longrightarrow>
      ExamSitting_Validate (Some (run sitting_exec cs s)) = None
      \<and> canonical (es_ScheduledEndAt (run sitting_exec cs s))
      \<and> canonical (es_UpdatedAt (run sitting_exec cs s))
      \<and> es_Revision (run sitting_exec cs s) = 1 + int (changes sitting_exec cs s)
      \<and> (es_Revision (run sitting_exec cs s) = 1 \<longrightarrow> run sitting_exec cs s = s))"
proof (intro conjI allI impI)
  show "(\<exists>s. NewExamSitting i x r c a b at = (Some s, None)) \<longleftrightarrow>
      IsValidOpaqueID i \<and> IsValidOpaqueID x \<and> IsValidOpaqueID r \<and> IsValidOpaqueID c
      \<and> trunc_us (t_ns a) \<noteq> 0 \<and> trunc_us (t_ns b) \<noteq> 0 \<and> trunc_us (t_ns a) < trunc_us (t_ns b)
      \<and> trunc_us (t_ns at) \<noteq> 0"
    unfolding NewExamSitting_def Let_def
    by (auto split: option.split simp: option.case_eq_if ExamSitting_Validate_ok lifecycle_matches
        time_ops)
next
  fix s cs assume new: "NewExamSitting i x r c a b at = (Some s, None)"
  note wf = NewExamSitting_wf [OF new assms]
  note ok = NewExamSitting_ok [OF new]
  have "sitting_wf (run sitting_exec cs s)" by (rule sitting.run_wf [OF wf])
  then show "ExamSitting_Validate (Some (run sitting_exec cs s)) = None"
    and "canonical (es_ScheduledEndAt (run sitting_exec cs s))"
    and "canonical (es_UpdatedAt (run sitting_exec cs s))"
    by (simp_all add: sitting_wf_def)
  show "es_Revision (run sitting_exec cs s) = 1 + int (changes sitting_exec cs s)"
    using sitting_versions.run_revision [OF wf, of cs] ok by simp
  assume "es_Revision (run sitting_exec cs s) = 1"
  with ok show "run sitting_exec cs s = s"
    by (intro sitting_versions.same_revision_same_state [OF wf]) simp
qed

section \<open>Instances\<close>

definition sample_sitting :: ExamSitting where
  "sample_sitting = \<lparr>es_ID = replicate 26 CHR ''a'', es_ExamID = replicate 26 CHR ''b'',
     es_ExamRevisionID = replicate 26 CHR ''c'', es_ClassID = replicate 26 CHR ''d'',
     es_ScheduledStartAt = sample_instant 10, es_ScheduledEndAt = sample_instant 20,
     es_State = ExamSittingScheduled, es_CreatedAt = sample_instant 1,
     es_UpdatedAt = sample_instant 1, es_OpenedAt = no_time, es_PausedAt = no_time,
     es_ClosingAt = no_time, es_ClosedAt = no_time, es_CanceledAt = no_time,
     es_ReasonCode = ExamSittingReasonNone, es_Revision = 1\<rparr>"

lemma sample_sitting_wf: "sitting_wf sample_sitting"
  by (simp add: sitting_wf_def sample_sitting_def ExamSitting_Validate_ok lifecycle_matches time_ops
      is_int64_def int64_defs)

lemma sample_sitting_sel:
  "es_State sample_sitting = ExamSittingScheduled" "es_Revision sample_sitting = 1"
  "es_ScheduledEndAt sample_sitting = sample_instant 20" "es_UpdatedAt sample_sitting = sample_instant 1"
  by (simp_all add: sample_sitting_def)

theorem sitting_refines_transitions_witness:
  "sitting_wf sample_sitting \<and> snd (sitting_exec (OpenCall (sample_instant 11)) sample_sitting) = None
   \<and> es_State (fst (sitting_exec (OpenCall (sample_instant 11)) sample_sitting)) = ExamSittingOpen
   \<and> snd (sitting_exec (PauseCall (sample_instant 11)) sample_sitting) \<noteq> None"
  using sitting_refines_transitions [OF sample_sitting_wf, of "OpenCall (sample_instant 11)"]
    sitting_refines_transitions [OF sample_sitting_wf, of "PauseCall (sample_instant 11)"]
  by (auto simp: sample_sitting_wf sample_sitting_sel sitting_next_def int64_defs)

definition sample_open_sitting :: ExamSitting where
  "sample_open_sitting = fst (sitting_exec (OpenCall (sample_instant 11)) sample_sitting)"

lemma sample_open_sitting_wf: "sitting_wf sample_open_sitting"
  unfolding sample_open_sitting_def by (rule sitting.exec_wf [OF sample_sitting_wf])

lemma sample_open_sitting_sel:
  "es_State sample_open_sitting = ExamSittingOpen" "es_ScheduledEndAt sample_open_sitting = sample_instant 20"
  "es_Revision sample_open_sitting = 2"
proof -
  have "sitting_exec (OpenCall (sample_instant 11)) sample_sitting =
      commit ExamSitting_Validate sample_sitting (sitting_next (OpenCall (sample_instant 11)) sample_sitting)"
    by (rule sitting_exec_enabled) (simp_all add: sample_sitting_sel)
  moreover have "ExamSitting_Validate (Some (sitting_next (OpenCall (sample_instant 11)) sample_sitting)) = None"
    by (simp add: sitting_next_valid [OF sample_sitting_wf] sample_sitting_sel int64_defs)
  ultimately have eq: "sample_open_sitting = sitting_next (OpenCall (sample_instant 11)) sample_sitting"
    by (simp add: sample_open_sitting_def commit_fst)
  show "es_State sample_open_sitting = ExamSittingOpen"
    "es_ScheduledEndAt sample_open_sitting = sample_instant 20" "es_Revision sample_open_sitting = 2"
    unfolding eq by (simp_all add: sitting_next_def sample_sitting_sel int64_defs)
qed

theorem sitting_history_witness:
  "sitting_wf sample_open_sitting \<and> es_State sample_open_sitting = ExamSittingOpen
   \<and> t_ns (es_ScheduledEndAt (run sitting_exec [PauseCall (sample_instant 12),
        ExtendEndCall (sample_instant 30) (sample_instant 13)] sample_open_sitting)) \<ge> 20000"
  using sitting_history [OF sample_open_sitting_wf refl,
      of "[PauseCall (sample_instant 12), ExtendEndCall (sample_instant 30) (sample_instant 13)]"]
    sample_open_sitting_wf sample_open_sitting_sel
  by simp

theorem NewExamSitting_runs_witness:
  "\<exists>s. NewExamSitting (replicate 26 CHR ''a'') (replicate 26 CHR ''b'') (replicate 26 CHR ''c'')
      (replicate 26 CHR ''d'') (sample_instant 10) (sample_instant 20) (sample_instant 1) = (Some s, None)
    \<and> ExamSitting_Validate (Some (run sitting_exec [OpenCall (sample_instant 11)] s)) = None"
proof -
  have "0 < t_ns (sample_instant 1)" by simp
  from NewExamSitting_runs [OF this, of "replicate 26 CHR ''a''" "replicate 26 CHR ''b''"
      "replicate 26 CHR ''c''" "replicate 26 CHR ''d''" "sample_instant 10" "sample_instant 20"]
  show ?thesis by (auto simp del: run.simps)
qed

end
