(* ===== verification/ExamAttempt.thy ===== *)
theory ExamAttempt
  imports Instants Text
begin

text \<open>
  \<^verbatim>\<open>server/model/exam_attempt.go\<close>: the Attempt of one candidate, its renewable
  Participation leases, the transport Connections attached to them, Integrity Flags and
  Suspensions.  The Workspace part of that file is modelled in the Workspace theory;
  Integrity Evidence is not modelled.
\<close>

section \<open>Exam Attempt\<close>

definition AttemptParticipationInitialLease :: int where
  "AttemptParticipationInitialLease = 20 * Second"

datatype ExamAttemptState =
    ExamAttemptActive
  | ExamAttemptSuspended
  | ExamAttemptReady
  | ExamAttemptSubmitted
  | ExamAttemptStateOther string

definition AllowsCandidateConnection :: "ExamAttemptState \<Rightarrow> bool" where
  "AllowsCandidateConnection s \<longleftrightarrow> s = ExamAttemptActive"

definition ExamAttemptState_IsTerminal :: "ExamAttemptState \<Rightarrow> bool" where
  "ExamAttemptState_IsTerminal s \<longleftrightarrow> s = ExamAttemptSubmitted"

definition IsUnresolved :: "ExamAttemptState \<Rightarrow> bool" where
  "IsUnresolved s \<longleftrightarrow> s = ExamAttemptReady \<or> s = ExamAttemptActive \<or> s = ExamAttemptSuspended"

record ExamAttempt =
  ea_ID :: string
  ea_ExamID :: string
  ea_SittingID :: string
  ea_CandidateUserID :: string
  ea_AdmissionRevisionID :: string
  ea_State :: ExamAttemptState
  ea_CreatedAt :: gtime
  ea_UpdatedAt :: gtime
  ea_SubmittedAt :: optional_time
  ea_Revision :: int

definition attempt_error :: "string \<Rightarrow> string \<Rightarrow> go_error" where
  "attempt_error whr reason = invalidModelError whr ''exam_attempt'' [] reason []"

definition ExamAttempt_Validate :: "ExamAttempt option \<Rightarrow> go_error option" where
  "ExamAttempt_Validate p = (case p of
     None \<Rightarrow> Some (attempt_error ''ExamAttempt.Validate'' ''invalid Exam Attempt'')
   | Some a \<Rightarrow>
       if \<not> IsValidOpaqueID (ea_ID a) \<or> \<not> IsValidOpaqueID (ea_ExamID a)
         \<or> \<not> IsValidOpaqueID (ea_SittingID a) \<or> \<not> IsValidOpaqueID (ea_CandidateUserID a)
         \<or> \<not> IsValidOpaqueID (ea_AdmissionRevisionID a) \<or> IsZero (ea_CreatedAt a)
         \<or> IsZero (ea_UpdatedAt a) \<or> Before (ea_UpdatedAt a) (ea_CreatedAt a) \<or> ea_Revision a < 1 then
         Some (attempt_error ''ExamAttempt.Validate'' ''invalid Exam Attempt'')
       else case ea_State a of
         ExamAttemptSubmitted \<Rightarrow>
           if \<not> ot_Valid (ea_SubmittedAt a) \<or> IsZero (ot_Time (ea_SubmittedAt a))
             \<or> Before (ot_Time (ea_SubmittedAt a)) (ea_CreatedAt a)
             \<or> After (ot_Time (ea_SubmittedAt a)) (ea_UpdatedAt a) then
             Some (attempt_error ''ExamAttempt.Validate'' ''invalid submitted Exam Attempt lifecycle'')
           else None
       | ExamAttemptStateOther _ \<Rightarrow>
           Some (attempt_error ''ExamAttempt.Validate'' ''invalid Exam Attempt state'')
       | _ \<Rightarrow>
           if ot_Valid (ea_SubmittedAt a) then
             Some (attempt_error ''ExamAttempt.Validate'' ''non-submitted Exam Attempt has submitted_at'')
           else None)"

definition NewExamAttempt ::
    "string \<Rightarrow> string \<Rightarrow> string \<Rightarrow> string \<Rightarrow> string \<Rightarrow> gtime \<Rightarrow> ExamAttempt option \<times> go_error option" where
  "NewExamAttempt ident examID sittingID candidateID admissionRevisionID at =
     (let attempt = \<lparr>ea_ID = ident, ea_ExamID = examID, ea_SittingID = sittingID,
            ea_CandidateUserID = candidateID, ea_AdmissionRevisionID = admissionRevisionID,
            ea_State = ExamAttemptActive, ea_CreatedAt = TimeUTC at, ea_UpdatedAt = TimeUTC at,
            ea_SubmittedAt = no_time, ea_Revision = 1\<rparr>
      in case ExamAttempt_Validate (Some attempt) of
           Some e \<Rightarrow> (None, Some e)
         | None \<Rightarrow> (Some attempt, None))"

definition ExamAttempt_Suspend :: "ExamAttempt option \<Rightarrow> gtime \<Rightarrow> ExamAttempt option outcome" where
  "ExamAttempt_Suspend p at =
     on_receiver p (attempt_error ''ExamAttempt.Suspend'' ''Exam Attempt cannot suspend'') (\<lambda>a.
     if ea_State a \<noteq> ExamAttemptActive then
       (a, Some (attempt_error ''ExamAttempt.Suspend'' ''Exam Attempt cannot suspend''))
     else commit ExamAttempt_Validate a (a\<lparr>ea_State := ExamAttemptSuspended,
       ea_UpdatedAt := TimeUTC at, ea_Revision := inc64 (ea_Revision a)\<rparr>))"

definition ExamAttempt_Reallow :: "ExamAttempt option \<Rightarrow> gtime \<Rightarrow> ExamAttempt option outcome" where
  "ExamAttempt_Reallow p at =
     on_receiver p (attempt_error ''ExamAttempt.Reallow'' ''Exam Attempt cannot be re-allowed'') (\<lambda>a.
     if ea_State a \<noteq> ExamAttemptSuspended then
       (a, Some (attempt_error ''ExamAttempt.Reallow'' ''Exam Attempt cannot be re-allowed''))
     else commit ExamAttempt_Validate a (a\<lparr>ea_State := ExamAttemptReady,
       ea_UpdatedAt := TimeUTC at, ea_Revision := inc64 (ea_Revision a)\<rparr>))"

definition ExamAttempt_Activate :: "ExamAttempt option \<Rightarrow> gtime \<Rightarrow> ExamAttempt option outcome" where
  "ExamAttempt_Activate p at =
     on_receiver p (attempt_error ''ExamAttempt.Activate'' ''Exam Attempt cannot activate'') (\<lambda>a.
     if ea_State a \<noteq> ExamAttemptReady then
       (a, Some (attempt_error ''ExamAttempt.Activate'' ''Exam Attempt cannot activate''))
     else commit ExamAttempt_Validate a (a\<lparr>ea_State := ExamAttemptActive,
       ea_UpdatedAt := TimeUTC at, ea_Revision := inc64 (ea_Revision a)\<rparr>))"

section \<open>Participation\<close>

datatype AttemptParticipationState =
    AttemptParticipationActive
  | AttemptParticipationEnded
  | AttemptParticipationStateOther string

datatype AttemptParticipationEndReason =
    AttemptParticipationEndNone
  | AttemptParticipationEndInterrupted
  | AttemptParticipationEndLeaseExpired
  | AttemptParticipationEndPolicySuspended
  | AttemptParticipationEndKicked
  | AttemptParticipationEndSubmitted
  | AttemptParticipationEndManagerEnded
  | AttemptParticipationEndSittingClosed
  | AttemptParticipationEndOther string

fun AttemptParticipationEndReason_IsValid :: "AttemptParticipationEndReason \<Rightarrow> bool" where
  "AttemptParticipationEndReason_IsValid AttemptParticipationEndNone = False"
| "AttemptParticipationEndReason_IsValid (AttemptParticipationEndOther s) = False"
| "AttemptParticipationEndReason_IsValid _ = True"

record AttemptParticipation =
  ap_ID :: string
  ap_AttemptID :: string
  ap_SessionID :: string
  ap_State :: AttemptParticipationState
  ap_Generation :: int
  ap_RenewalSequence :: int
  ap_ContinuityCredentialHash :: string
  ap_StartedAt :: gtime
  ap_UpdatedAt :: gtime
  ap_LeaseExpiresAt :: gtime
  ap_EndedAt :: optional_time
  ap_EndReason :: AttemptParticipationEndReason

definition participation_error :: "string \<Rightarrow> string \<Rightarrow> go_error" where
  "participation_error whr reason = invalidModelError whr ''attempt_participation'' [] reason []"

definition AttemptParticipation_Validate :: "AttemptParticipation option \<Rightarrow> go_error option" where
  "AttemptParticipation_Validate v = (case v of
     None \<Rightarrow> Some (participation_error ''AttemptParticipation.Validate'' ''invalid Attempt Participation'')
   | Some p \<Rightarrow>
       if \<not> IsValidOpaqueID (ap_ID p) \<or> \<not> IsValidOpaqueID (ap_AttemptID p)
         \<or> \<not> IsValidOpaqueID (ap_SessionID p) \<or> ap_Generation p < 1 \<or> ap_RenewalSequence p < 0
         \<or> \<not> IsValidTokenHash (ap_ContinuityCredentialHash p)
         \<or> ap_ContinuityCredentialHash p \<noteq> ToLower (ap_ContinuityCredentialHash p)
         \<or> IsZero (ap_StartedAt p) \<or> IsZero (ap_UpdatedAt p) \<or> Before (ap_UpdatedAt p) (ap_StartedAt p)
         \<or> IsZero (ap_LeaseExpiresAt p) \<or> Before (ap_LeaseExpiresAt p) (ap_StartedAt p) then
         Some (participation_error ''AttemptParticipation.Validate'' ''invalid Attempt Participation'')
       else case ap_State p of
         AttemptParticipationActive \<Rightarrow>
           if ot_Valid (ap_EndedAt p) \<or> ap_EndReason p \<noteq> AttemptParticipationEndNone then
             Some (participation_error ''AttemptParticipation.Validate''
               ''active Attempt Participation has end metadata'')
           else None
       | AttemptParticipationEnded \<Rightarrow>
           if \<not> ot_Valid (ap_EndedAt p) \<or> IsZero (ot_Time (ap_EndedAt p))
             \<or> Before (ot_Time (ap_EndedAt p)) (ap_StartedAt p)
             \<or> After (ot_Time (ap_EndedAt p)) (ap_UpdatedAt p)
             \<or> \<not> AttemptParticipationEndReason_IsValid (ap_EndReason p) then
             Some (participation_error ''AttemptParticipation.Validate''
               ''invalid ended Attempt Participation'')
           else None
       | AttemptParticipationStateOther _ \<Rightarrow>
           Some (participation_error ''AttemptParticipation.Validate''
             ''invalid Attempt Participation state''))"

definition NewAttemptParticipation ::
    "string \<Rightarrow> string \<Rightarrow> string \<Rightarrow> int \<Rightarrow> string \<Rightarrow> gtime
       \<Rightarrow> AttemptParticipation option \<times> go_error option" where
  "NewAttemptParticipation ident attemptID sessionID generation credentialHash at =
     (let startedAt = TimeUTC at;
          participation = \<lparr>ap_ID = ident, ap_AttemptID = attemptID, ap_SessionID = sessionID,
            ap_State = AttemptParticipationActive, ap_Generation = generation, ap_RenewalSequence = 0,
            ap_ContinuityCredentialHash = credentialHash, ap_StartedAt = startedAt,
            ap_UpdatedAt = startedAt, ap_LeaseExpiresAt = Add startedAt AttemptParticipationInitialLease,
            ap_EndedAt = no_time, ap_EndReason = AttemptParticipationEndNone\<rparr>
      in case AttemptParticipation_Validate (Some participation) of
           Some e \<Rightarrow> (None, Some e)
         | None \<Rightarrow> (Some participation, None))"

definition IsExpiredAt :: "AttemptParticipation option \<Rightarrow> gtime \<Rightarrow> bool" where
  "IsExpiredAt v at = (case v of None \<Rightarrow> True
     | Some p \<Rightarrow> \<not> Before (TimeUTC at) (ap_LeaseExpiresAt p))"

text \<open>The Boolean of \<open>Renew\<close> says that the call repeated the accepted sequence.\<close>

definition AttemptParticipation_Renew ::
    "AttemptParticipation option \<Rightarrow> int \<Rightarrow> int \<Rightarrow> gtime
       \<Rightarrow> AttemptParticipation option \<times> bool \<times> go_error option" where
  "AttemptParticipation_Renew v generation sequence now = (case v of
     None \<Rightarrow> (v, False, Some (participation_error ''AttemptParticipation.Renew''
       ''Attempt Participation renewal is fenced''))
   | Some p \<Rightarrow>
       if ap_State p \<noteq> AttemptParticipationActive \<or> generation \<noteq> ap_Generation p \<or> sequence < 1
         \<or> sequence < ap_RenewalSequence p then
         (v, False, Some (participation_error ''AttemptParticipation.Renew''
           ''Attempt Participation renewal is fenced''))
       else let databaseNow = TimeUTC now in
         if IsZero databaseNow \<or> Before databaseNow (ap_UpdatedAt p) \<or> IsExpiredAt v databaseNow then
           (v, False, Some (participation_error ''AttemptParticipation.Renew''
             ''Attempt Participation renewal is expired''))
         else if sequence = ap_RenewalSequence p then (v, True, None)
         else
           let candidate = p\<lparr>ap_RenewalSequence := sequence, ap_UpdatedAt := databaseNow,
                 ap_LeaseExpiresAt := Add databaseNow AttemptParticipationInitialLease\<rparr>
           in case AttemptParticipation_Validate (Some candidate) of
                Some e \<Rightarrow> (v, False, Some e)
              | None \<Rightarrow> (Some candidate, False, None))"

definition AttemptParticipation_End ::
    "AttemptParticipation option \<Rightarrow> AttemptParticipationEndReason \<Rightarrow> gtime
       \<Rightarrow> AttemptParticipation option outcome" where
  "AttemptParticipation_End v reason at =
     on_receiver v (participation_error ''AttemptParticipation.End'' ''Attempt Participation cannot end'') (\<lambda>p.
     if ap_State p \<noteq> AttemptParticipationActive \<or> \<not> AttemptParticipationEndReason_IsValid reason then
       (p, Some (participation_error ''AttemptParticipation.End'' ''Attempt Participation cannot end''))
     else commit AttemptParticipation_Validate p (p\<lparr>ap_State := AttemptParticipationEnded,
       ap_EndReason := reason, ap_EndedAt := OptionalTimeFrom at, ap_UpdatedAt := TimeUTC at\<rparr>))"

section \<open>Connection\<close>

datatype AttemptConnectionState =
    AttemptConnectionOpen
  | AttemptConnectionClosed
  | AttemptConnectionStateOther string

datatype AttemptConnectionCloseReason =
    AttemptConnectionCloseNone
  | AttemptConnectionCloseTransport
  | AttemptConnectionCloseInterrupted
  | AttemptConnectionCloseLeaseExpired
  | AttemptConnectionClosePolicySuspended
  | AttemptConnectionCloseKicked
  | AttemptConnectionCloseSubmitted
  | AttemptConnectionCloseManagerEnded
  | AttemptConnectionCloseSittingClosed
  | AttemptConnectionCloseOther string

fun AttemptConnectionCloseReason_IsValid :: "AttemptConnectionCloseReason \<Rightarrow> bool" where
  "AttemptConnectionCloseReason_IsValid AttemptConnectionCloseNone = False"
| "AttemptConnectionCloseReason_IsValid (AttemptConnectionCloseOther s) = False"
| "AttemptConnectionCloseReason_IsValid _ = True"

record AttemptConnection =
  ac_ID :: string
  ac_AttemptID :: string
  ac_ParticipationID :: string
  ac_SessionID :: string
  ac_State :: AttemptConnectionState
  ac_OpenedAt :: gtime
  ac_ClosedAt :: optional_time
  ac_CloseReason :: AttemptConnectionCloseReason

definition connection_error :: "string \<Rightarrow> string \<Rightarrow> go_error" where
  "connection_error whr reason = invalidModelError whr ''attempt_connection'' [] reason []"

definition AttemptConnection_Validate :: "AttemptConnection option \<Rightarrow> go_error option" where
  "AttemptConnection_Validate v = (case v of
     None \<Rightarrow> Some (connection_error ''AttemptConnection.Validate'' ''invalid Attempt Connection'')
   | Some c \<Rightarrow>
       if \<not> IsValidOpaqueID (ac_ID c) \<or> \<not> IsValidOpaqueID (ac_AttemptID c)
         \<or> \<not> IsValidOpaqueID (ac_ParticipationID c) \<or> \<not> IsValidOpaqueID (ac_SessionID c)
         \<or> IsZero (ac_OpenedAt c) then
         Some (connection_error ''AttemptConnection.Validate'' ''invalid Attempt Connection'')
       else case ac_State c of
         AttemptConnectionOpen \<Rightarrow>
           if ot_Valid (ac_ClosedAt c) \<or> ac_CloseReason c \<noteq> AttemptConnectionCloseNone then
             Some (connection_error ''AttemptConnection.Validate''
               ''open Attempt Connection has close metadata'')
           else None
       | AttemptConnectionClosed \<Rightarrow>
           if \<not> ot_Valid (ac_ClosedAt c) \<or> IsZero (ot_Time (ac_ClosedAt c))
             \<or> Before (ot_Time (ac_ClosedAt c)) (ac_OpenedAt c)
             \<or> \<not> AttemptConnectionCloseReason_IsValid (ac_CloseReason c) then
             Some (connection_error ''AttemptConnection.Validate'' ''invalid closed Attempt Connection'')
           else None
       | AttemptConnectionStateOther _ \<Rightarrow>
           Some (connection_error ''AttemptConnection.Validate'' ''invalid Attempt Connection state''))"

definition NewAttemptConnection ::
    "string \<Rightarrow> string \<Rightarrow> string \<Rightarrow> string \<Rightarrow> gtime \<Rightarrow> AttemptConnection option \<times> go_error option" where
  "NewAttemptConnection ident attemptID participationID sessionID at =
     (let connection = \<lparr>ac_ID = ident, ac_AttemptID = attemptID, ac_ParticipationID = participationID,
            ac_SessionID = sessionID, ac_State = AttemptConnectionOpen, ac_OpenedAt = TimeUTC at,
            ac_ClosedAt = no_time, ac_CloseReason = AttemptConnectionCloseNone\<rparr>
      in case AttemptConnection_Validate (Some connection) of
           Some e \<Rightarrow> (None, Some e)
         | None \<Rightarrow> (Some connection, None))"

definition AttemptConnection_Close ::
    "AttemptConnection option \<Rightarrow> AttemptConnectionCloseReason \<Rightarrow> gtime
       \<Rightarrow> AttemptConnection option outcome" where
  "AttemptConnection_Close v reason at =
     on_receiver v (connection_error ''AttemptConnection.Close'' ''Attempt Connection cannot close'') (\<lambda>c.
     if ac_State c \<noteq> AttemptConnectionOpen \<or> \<not> AttemptConnectionCloseReason_IsValid reason then
       (c, Some (connection_error ''AttemptConnection.Close'' ''Attempt Connection cannot close''))
     else commit AttemptConnection_Validate c (c\<lparr>ac_State := AttemptConnectionClosed,
       ac_CloseReason := reason, ac_ClosedAt := OptionalTimeFrom at\<rparr>))"

section \<open>Integrity Flag\<close>

datatype IntegrityPolicyKind =
    IntegrityPolicyConnectionLoss
  | IntegrityPolicyFocusLoss
  | IntegrityPolicyBrowserNavigation
  | IntegrityPolicyKindOther string

definition IntegrityPolicyKind_IsValid :: "IntegrityPolicyKind \<Rightarrow> bool" where
  "IntegrityPolicyKind_IsValid k \<longleftrightarrow> k = IntegrityPolicyConnectionLoss
     \<or> k = IntegrityPolicyFocusLoss \<or> k = IntegrityPolicyBrowserNavigation"

datatype IntegrityFlagState = IntegrityFlagOpen | IntegrityFlagStateOther string

record IntegrityFlag =
  if_ID :: string
  if_AttemptID :: string
  if_Generation :: int
  if_Kind :: IntegrityPolicyKind
  if_State :: IntegrityFlagState
  if_CreatedAt :: gtime

definition IntegrityFlag_Validate :: "IntegrityFlag option \<Rightarrow> go_error option" where
  "IntegrityFlag_Validate v =
     (let err = Some (invalidModelError ''IntegrityFlag.Validate'' ''integrity_flag'' []
            ''invalid Integrity Flag'' [])
      in case v of
        None \<Rightarrow> err
      | Some f \<Rightarrow>
          if \<not> IsValidOpaqueID (if_ID f) \<or> \<not> IsValidOpaqueID (if_AttemptID f) \<or> if_Generation f < 1
            \<or> \<not> IntegrityPolicyKind_IsValid (if_Kind f) \<or> if_State f \<noteq> IntegrityFlagOpen
            \<or> IsZero (if_CreatedAt f) then err else None)"

definition NewIntegrityFlag ::
    "string \<Rightarrow> string \<Rightarrow> int \<Rightarrow> IntegrityPolicyKind \<Rightarrow> gtime \<Rightarrow> IntegrityFlag option \<times> go_error option" where
  "NewIntegrityFlag ident attemptID generation kind at =
     (let flag = \<lparr>if_ID = ident, if_AttemptID = attemptID, if_Generation = generation, if_Kind = kind,
            if_State = IntegrityFlagOpen, if_CreatedAt = TimeUTC at\<rparr>
      in case IntegrityFlag_Validate (Some flag) of
           Some e \<Rightarrow> (None, Some e)
         | None \<Rightarrow> (Some flag, None))"

section \<open>Suspension\<close>

datatype AttemptSuspensionState =
    AttemptSuspensionActive
  | AttemptSuspensionClosed
  | AttemptSuspensionStateOther string

datatype AttemptSuspensionSource =
    AttemptSuspensionSourcePolicy
  | AttemptSuspensionSourceManual
  | AttemptSuspensionSourceOther string

definition AttemptSuspensionSource_IsValid :: "AttemptSuspensionSource \<Rightarrow> bool" where
  "AttemptSuspensionSource_IsValid s \<longleftrightarrow>
     s = AttemptSuspensionSourcePolicy \<or> s = AttemptSuspensionSourceManual"

datatype AttemptSuspensionCandidateReason =
    AttemptSuspensionCandidateReasonSecureContinuityLost
  | AttemptSuspensionCandidateReasonFocusLossPolicy
  | AttemptSuspensionCandidateReasonManagerSuspended
  | AttemptSuspensionCandidateReasonOther string

definition AttemptSuspensionPrivateReasonMaximumRunes :: nat where
  "AttemptSuspensionPrivateReasonMaximumRunes = 1000"

definition CandidateReason_IsPolicy :: "AttemptSuspensionCandidateReason \<Rightarrow> bool" where
  "CandidateReason_IsPolicy r \<longleftrightarrow> r = AttemptSuspensionCandidateReasonSecureContinuityLost
     \<or> r = AttemptSuspensionCandidateReasonFocusLossPolicy"

definition CandidateReason_IsValid :: "AttemptSuspensionCandidateReason \<Rightarrow> bool" where
  "CandidateReason_IsValid r \<longleftrightarrow>
     CandidateReason_IsPolicy r \<or> r = AttemptSuspensionCandidateReasonManagerSuspended"

record AttemptSuspension =
  as_ID :: string
  as_AttemptID :: string
  as_ParticipationID :: string
  as_FlagID :: string
  as_Generation :: int
  as_State :: AttemptSuspensionState
  as_Source :: AttemptSuspensionSource
  as_CandidateReason :: AttemptSuspensionCandidateReason
  as_StartedAt :: gtime
  as_EndedAt :: optional_time
  as_ReallowedByUserID :: string
  as_PrivateReason :: string
  as_SuspendedByUserID :: string
  as_SuspensionPrivateReason :: string

definition validAttemptSuspensionPrivateReason :: "string \<Rightarrow> bool" where
  "validAttemptSuspensionPrivateReason reason \<longleftrightarrow>
     ValidString reason \<and> reason = TrimSpace reason \<and> RuneCountInString reason \<ge> 1 \<and>
     RuneCountInString reason \<le> AttemptSuspensionPrivateReasonMaximumRunes \<and> length reason \<le> 4000"

definition suspension_error :: "string \<Rightarrow> string \<Rightarrow> go_error" where
  "suspension_error whr reason = invalidModelError whr ''attempt_suspension'' [] reason []"

definition AttemptSuspension_Validate :: "AttemptSuspension option \<Rightarrow> go_error option" where
  "AttemptSuspension_Validate v =
     (let err = (\<lambda>reason. Some (suspension_error ''AttemptSuspension.Validate'' reason)) in case v of
        None \<Rightarrow> err ''invalid Attempt Suspension''
      | Some s \<Rightarrow>
          if \<not> IsValidOpaqueID (as_ID s) \<or> \<not> IsValidOpaqueID (as_AttemptID s)
            \<or> \<not> IsValidOpaqueID (as_ParticipationID s) \<or> as_Generation s < 1 \<or> IsZero (as_StartedAt s) then
            err ''invalid Attempt Suspension''
          else case (case as_Source s of
              AttemptSuspensionSourcePolicy \<Rightarrow>
                if \<not> IsValidOpaqueID (as_FlagID s) \<or> \<not> CandidateReason_IsPolicy (as_CandidateReason s)
                  \<or> as_SuspendedByUserID s \<noteq> [] \<or> as_SuspensionPrivateReason s \<noteq> [] then
                  err ''invalid policy Attempt Suspension'' else None
            | AttemptSuspensionSourceManual \<Rightarrow>
                if as_FlagID s \<noteq> []
                  \<or> as_CandidateReason s \<noteq> AttemptSuspensionCandidateReasonManagerSuspended
                  \<or> \<not> IsValidOpaqueID (as_SuspendedByUserID s)
                  \<or> \<not> validAttemptSuspensionPrivateReason (as_SuspensionPrivateReason s) then
                  err ''invalid manual Attempt Suspension'' else None
            | AttemptSuspensionSourceOther _ \<Rightarrow> err ''invalid Attempt Suspension source'') of
            Some e \<Rightarrow> Some e
          | None \<Rightarrow> (case as_State s of
              AttemptSuspensionActive \<Rightarrow>
                if ot_Valid (as_EndedAt s) \<or> as_ReallowedByUserID s \<noteq> [] \<or> as_PrivateReason s \<noteq> [] then
                  err ''active Attempt Suspension has re-allow metadata'' else None
            | AttemptSuspensionClosed \<Rightarrow>
                if \<not> ot_Valid (as_EndedAt s) \<or> Before (ot_Time (as_EndedAt s)) (as_StartedAt s)
                  \<or> \<not> IsValidOpaqueID (as_ReallowedByUserID s)
                  \<or> \<not> validAttemptSuspensionPrivateReason (as_PrivateReason s) then
                  err ''invalid closed Attempt Suspension'' else None
            | AttemptSuspensionStateOther _ \<Rightarrow> err ''invalid Attempt Suspension state''))"

definition NewPolicyAttemptSuspension ::
    "string \<Rightarrow> string \<Rightarrow> string \<Rightarrow> string \<Rightarrow> int \<Rightarrow> AttemptSuspensionCandidateReason \<Rightarrow> gtime
       \<Rightarrow> AttemptSuspension option \<times> go_error option" where
  "NewPolicyAttemptSuspension ident attemptID participationID flagID generation candidateReason at =
     (let suspension = \<lparr>as_ID = ident, as_AttemptID = attemptID, as_ParticipationID = participationID,
            as_FlagID = flagID, as_Generation = generation, as_State = AttemptSuspensionActive,
            as_Source = AttemptSuspensionSourcePolicy, as_CandidateReason = candidateReason,
            as_StartedAt = TimeUTC at, as_EndedAt = no_time, as_ReallowedByUserID = [],
            as_PrivateReason = [], as_SuspendedByUserID = [], as_SuspensionPrivateReason = []\<rparr>
      in case AttemptSuspension_Validate (Some suspension) of
           Some e \<Rightarrow> (None, Some e)
         | None \<Rightarrow> (Some suspension, None))"

definition NewManualAttemptSuspension ::
    "string \<Rightarrow> string \<Rightarrow> string \<Rightarrow> int \<Rightarrow> string \<Rightarrow> string \<Rightarrow> gtime
       \<Rightarrow> AttemptSuspension option \<times> go_error option" where
  "NewManualAttemptSuspension ident attemptID participationID generation actorID privateReason at =
     (let suspension = \<lparr>as_ID = ident, as_AttemptID = attemptID, as_ParticipationID = participationID,
            as_FlagID = [], as_Generation = generation, as_State = AttemptSuspensionActive,
            as_Source = AttemptSuspensionSourceManual,
            as_CandidateReason = AttemptSuspensionCandidateReasonManagerSuspended,
            as_StartedAt = TimeUTC at, as_EndedAt = no_time, as_ReallowedByUserID = [],
            as_PrivateReason = [], as_SuspendedByUserID = actorID,
            as_SuspensionPrivateReason = privateReason\<rparr>
      in case AttemptSuspension_Validate (Some suspension) of
           Some e \<Rightarrow> (None, Some e)
         | None \<Rightarrow> (Some suspension, None))"

definition AttemptSuspension_Reallow ::
    "AttemptSuspension option \<Rightarrow> string \<Rightarrow> string \<Rightarrow> gtime \<Rightarrow> AttemptSuspension option outcome" where
  "AttemptSuspension_Reallow v actorID privateReason at =
     on_receiver v (suspension_error ''AttemptSuspension.Reallow'' ''Attempt Suspension cannot be re-allowed'') (\<lambda>s.
     if as_State s \<noteq> AttemptSuspensionActive \<or> \<not> IsValidOpaqueID actorID
       \<or> \<not> validAttemptSuspensionPrivateReason privateReason then
       (s, Some (suspension_error ''AttemptSuspension.Reallow'' ''Attempt Suspension cannot be re-allowed''))
     else commit AttemptSuspension_Validate s (s\<lparr>as_State := AttemptSuspensionClosed,
       as_EndedAt := OptionalTimeFrom at, as_ReallowedByUserID := actorID,
       as_PrivateReason := privateReason\<rparr>))"

section \<open>Attempt lifecycle\<close>

lemma ExamAttempt_Validate_ok:
  "ExamAttempt_Validate (Some a) = None \<longleftrightarrow>
     IsValidOpaqueID (ea_ID a) \<and> IsValidOpaqueID (ea_ExamID a) \<and> IsValidOpaqueID (ea_SittingID a)
     \<and> IsValidOpaqueID (ea_CandidateUserID a) \<and> IsValidOpaqueID (ea_AdmissionRevisionID a)
     \<and> t_ns (ea_CreatedAt a) \<noteq> 0 \<and> t_ns (ea_UpdatedAt a) \<noteq> 0
     \<and> t_ns (ea_CreatedAt a) \<le> t_ns (ea_UpdatedAt a) \<and> 1 \<le> ea_Revision a
     \<and> (IsUnresolved (ea_State a) \<and> \<not> ot_Valid (ea_SubmittedAt a)
        \<or> ea_State a = ExamAttemptSubmitted \<and> ot_Valid (ea_SubmittedAt a)
          \<and> t_ns (ot_Time (ea_SubmittedAt a)) \<noteq> 0
          \<and> t_ns (ea_CreatedAt a) \<le> t_ns (ot_Time (ea_SubmittedAt a))
          \<and> t_ns (ot_Time (ea_SubmittedAt a)) \<le> t_ns (ea_UpdatedAt a))"
  unfolding ExamAttempt_Validate_def option.case
  by (cases "ea_State a") (auto simp: time_ops IsUnresolved_def)

lemma AttemptParticipation_Validate_ok:
  "AttemptParticipation_Validate (Some p) = None \<longleftrightarrow>
     IsValidOpaqueID (ap_ID p) \<and> IsValidOpaqueID (ap_AttemptID p) \<and> IsValidOpaqueID (ap_SessionID p)
     \<and> 1 \<le> ap_Generation p \<and> 0 \<le> ap_RenewalSequence p
     \<and> IsValidTokenHash (ap_ContinuityCredentialHash p)
     \<and> ToLower (ap_ContinuityCredentialHash p) = ap_ContinuityCredentialHash p
     \<and> t_ns (ap_StartedAt p) \<noteq> 0 \<and> t_ns (ap_UpdatedAt p) \<noteq> 0
     \<and> t_ns (ap_StartedAt p) \<le> t_ns (ap_UpdatedAt p)
     \<and> t_ns (ap_LeaseExpiresAt p) \<noteq> 0 \<and> t_ns (ap_StartedAt p) \<le> t_ns (ap_LeaseExpiresAt p)
     \<and> (ap_State p = AttemptParticipationActive \<and> \<not> ot_Valid (ap_EndedAt p)
          \<and> ap_EndReason p = AttemptParticipationEndNone
        \<or> ap_State p = AttemptParticipationEnded \<and> ot_Valid (ap_EndedAt p)
          \<and> t_ns (ot_Time (ap_EndedAt p)) \<noteq> 0
          \<and> t_ns (ap_StartedAt p) \<le> t_ns (ot_Time (ap_EndedAt p))
          \<and> t_ns (ot_Time (ap_EndedAt p)) \<le> t_ns (ap_UpdatedAt p)
          \<and> AttemptParticipationEndReason_IsValid (ap_EndReason p))"
  unfolding AttemptParticipation_Validate_def option.case
  by (cases "ap_State p") (auto simp: time_ops)

lemma AttemptConnection_Validate_ok:
  "AttemptConnection_Validate (Some c) = None \<longleftrightarrow>
     IsValidOpaqueID (ac_ID c) \<and> IsValidOpaqueID (ac_AttemptID c)
     \<and> IsValidOpaqueID (ac_ParticipationID c) \<and> IsValidOpaqueID (ac_SessionID c)
     \<and> t_ns (ac_OpenedAt c) \<noteq> 0
     \<and> (ac_State c = AttemptConnectionOpen \<and> \<not> ot_Valid (ac_ClosedAt c)
          \<and> ac_CloseReason c = AttemptConnectionCloseNone
        \<or> ac_State c = AttemptConnectionClosed \<and> ot_Valid (ac_ClosedAt c)
          \<and> t_ns (ot_Time (ac_ClosedAt c)) \<noteq> 0
          \<and> t_ns (ac_OpenedAt c) \<le> t_ns (ot_Time (ac_ClosedAt c))
          \<and> AttemptConnectionCloseReason_IsValid (ac_CloseReason c))"
  unfolding AttemptConnection_Validate_def option.case
  by (cases "ac_State c") (auto simp: time_ops)

lemma AttemptSuspension_Validate_ok:
  "AttemptSuspension_Validate (Some s) = None \<longleftrightarrow>
     IsValidOpaqueID (as_ID s) \<and> IsValidOpaqueID (as_AttemptID s)
     \<and> IsValidOpaqueID (as_ParticipationID s) \<and> 1 \<le> as_Generation s \<and> t_ns (as_StartedAt s) \<noteq> 0
     \<and> (as_Source s = AttemptSuspensionSourcePolicy \<and> IsValidOpaqueID (as_FlagID s)
          \<and> CandidateReason_IsPolicy (as_CandidateReason s)
          \<and> as_SuspendedByUserID s = [] \<and> as_SuspensionPrivateReason s = []
        \<or> as_Source s = AttemptSuspensionSourceManual \<and> as_FlagID s = []
          \<and> as_CandidateReason s = AttemptSuspensionCandidateReasonManagerSuspended
          \<and> IsValidOpaqueID (as_SuspendedByUserID s)
          \<and> validAttemptSuspensionPrivateReason (as_SuspensionPrivateReason s))
     \<and> (as_State s = AttemptSuspensionActive \<and> \<not> ot_Valid (as_EndedAt s)
          \<and> as_ReallowedByUserID s = [] \<and> as_PrivateReason s = []
        \<or> as_State s = AttemptSuspensionClosed \<and> ot_Valid (as_EndedAt s)
          \<and> t_ns (as_StartedAt s) \<le> t_ns (ot_Time (as_EndedAt s))
          \<and> IsValidOpaqueID (as_ReallowedByUserID s)
          \<and> validAttemptSuspensionPrivateReason (as_PrivateReason s))"
  unfolding AttemptSuspension_Validate_def Let_def option.case
  by (cases "as_Source s"; cases "as_State s") (auto simp: time_ops)

lemma attempt_set_state_ok:
  assumes "ExamAttempt_Validate (Some a) = None" and "is_int64 (ea_Revision a)" and "IsUnresolved q"
    and "IsUnresolved (ea_State a)"
  shows "ExamAttempt_Validate (Some (a\<lparr>ea_State := q, ea_UpdatedAt := TimeUTC at,
      ea_Revision := inc64 (ea_Revision a)\<rparr>)) = None \<longleftrightarrow>
    trunc_us (t_ns at) \<noteq> 0 \<and> t_ns (ea_CreatedAt a) \<le> trunc_us (t_ns at) \<and> ea_Revision a < maxInt64"
  using assms by (auto simp: ExamAttempt_Validate_ok inc64_positive_iff IsUnresolved_def)

datatype attempt_op = SuspendCall gtime | ReallowCall gtime | ActivateCall gtime

fun attempt_call :: "attempt_op \<Rightarrow> ExamAttempt option \<Rightarrow> ExamAttempt option outcome" where
  "attempt_call (SuspendCall t) p = ExamAttempt_Suspend p t"
| "attempt_call (ReallowCall t) p = ExamAttempt_Reallow p t"
| "attempt_call (ActivateCall t) p = ExamAttempt_Activate p t"

definition attempt_exec :: "attempt_op \<Rightarrow> ExamAttempt \<Rightarrow> ExamAttempt outcome" where
  "attempt_exec c a = (the (fst (attempt_call c (Some a))), snd (attempt_call c (Some a)))"

fun attempt_from :: "attempt_op \<Rightarrow> ExamAttemptState" where
  "attempt_from (SuspendCall t) = ExamAttemptActive"
| "attempt_from (ReallowCall t) = ExamAttemptSuspended"
| "attempt_from (ActivateCall t) = ExamAttemptReady"

fun attempt_to :: "attempt_op \<Rightarrow> ExamAttemptState" where
  "attempt_to (SuspendCall t) = ExamAttemptSuspended"
| "attempt_to (ReallowCall t) = ExamAttemptReady"
| "attempt_to (ActivateCall t) = ExamAttemptActive"

fun attempt_at :: "attempt_op \<Rightarrow> gtime" where
  "attempt_at (SuspendCall t) = t"
| "attempt_at (ReallowCall t) = t"
| "attempt_at (ActivateCall t) = t"

definition attempt_next :: "attempt_op \<Rightarrow> ExamAttempt \<Rightarrow> ExamAttempt" where
  "attempt_next c a = a\<lparr>ea_State := attempt_to c, ea_UpdatedAt := TimeUTC (attempt_at c),
     ea_Revision := inc64 (ea_Revision a)\<rparr>"

definition attempt_wf :: "ExamAttempt \<Rightarrow> bool" where
  "attempt_wf a \<longleftrightarrow> ExamAttempt_Validate (Some a) = None \<and> is_int64 (ea_Revision a)"

lemma attempt_states [simp]: "IsUnresolved (attempt_from c)" "IsUnresolved (attempt_to c)"
  by (cases c; simp add: IsUnresolved_def)+

lemmas attempt_op_defs = ExamAttempt_Suspend_def ExamAttempt_Reallow_def ExamAttempt_Activate_def

lemma attempt_exec_eq:
  "attempt_exec c a = (if ea_State a = attempt_from c then commit ExamAttempt_Validate a (attempt_next c a)
     else (a, snd (attempt_exec c a)))"
  and attempt_exec_guard: "ea_State a \<noteq> attempt_from c \<Longrightarrow> snd (attempt_exec c a) \<noteq> None"
  by (cases c; simp add: attempt_exec_def attempt_op_defs attempt_next_def)+

lemma attempt_exec_clean: "clean a (attempt_exec c a)"
  by (subst attempt_exec_eq) simp

lemma attempt_exec_ok:
  assumes "attempt_wf a"
  shows "snd (attempt_exec c a) = None \<longleftrightarrow> ea_State a = attempt_from c
     \<and> trunc_us (t_ns (attempt_at c)) \<noteq> 0 \<and> t_ns (ea_CreatedAt a) \<le> trunc_us (t_ns (attempt_at c))
     \<and> ea_Revision a < maxInt64"
proof (cases "ea_State a = attempt_from c")
  case True
  have "IsUnresolved (ea_State a)" unfolding True by simp
  then show ?thesis
    using assms True attempt_set_state_ok [of a "attempt_to c" "attempt_at c"]
    by (subst attempt_exec_eq) (simp add: attempt_wf_def attempt_next_def)
qed (use attempt_exec_guard [of a c] in simp)

lemma attempt_exec_result:
  "snd (attempt_exec c a) = None \<Longrightarrow> fst (attempt_exec c a) = attempt_next c a"
  using attempt_exec_guard [of a c] attempt_exec_eq [of c a]
  by (cases "ea_State a = attempt_from c") (auto simp: commit_fst)

lemma attempt_exec_wf:
  assumes "attempt_wf a" and "snd (attempt_exec c a) = None"
  shows "attempt_wf (fst (attempt_exec c a))"
proof -
  from assms have "ea_State a = attempt_from c" by (simp add: attempt_exec_ok)
  then have "ExamAttempt_Validate (Some (attempt_next c a)) = None"
    using assms(2) attempt_exec_eq [of c a] by simp
  then show ?thesis by (simp add: attempt_exec_result [OF assms(2)] attempt_wf_def attempt_next_def)
qed

interpretation attempt: aggregate attempt_exec attempt_wf
  by unfold_locales (auto intro: attempt_exec_wf cleanD [OF attempt_exec_clean])

lemma attempt_bumps:
  assumes "attempt_wf a" and "fst (attempt_exec c a) \<noteq> a"
  shows "ea_Revision (fst (attempt_exec c a)) = ea_Revision a + 1"
proof -
  have ok: "snd (attempt_exec c a) = None" using assms(2) attempt.atomic by blast
  then have "ea_Revision a < maxInt64" using assms(1) by (simp add: attempt_exec_ok)
  with assms(1) show ?thesis
    by (simp add: attempt_exec_result [OF ok] attempt_next_def attempt_wf_def inc64_below_max)
qed

interpretation attempt_versions: versioned_aggregate attempt_exec attempt_wf ea_Revision
  by unfold_locales (rule attempt_bumps)

fun attempt_edge :: "ExamAttemptState \<Rightarrow> ExamAttemptState \<Rightarrow> bool" where
  "attempt_edge ExamAttemptActive q \<longleftrightarrow> q = ExamAttemptSuspended"
| "attempt_edge ExamAttemptSuspended q \<longleftrightarrow> q = ExamAttemptReady"
| "attempt_edge ExamAttemptReady q \<longleftrightarrow> q = ExamAttemptActive"
| "attempt_edge _ q \<longleftrightarrow> False"

interpretation attempt_life: lifecycle attempt_exec attempt_wf ea_State attempt_edge
proof unfold_locales
  fix c a assume "attempt_wf a" and ok: "snd (attempt_exec c a) = None"
  then have "ea_State a = attempt_from c" by (simp add: attempt_exec_ok)
  then show "attempt_edge (ea_State a) (ea_State (fst (attempt_exec c a)))"
    unfolding attempt_exec_result [OF ok] by (cases c) (simp_all add: attempt_next_def)
qed

section \<open>Participation leases\<close>

datatype participation_op =
    RenewCall int int gtime
  | EndCall AttemptParticipationEndReason gtime

fun participation_exec :: "participation_op \<Rightarrow> AttemptParticipation \<Rightarrow> AttemptParticipation outcome" where
  "participation_exec (RenewCall g n t) p =
     (case AttemptParticipation_Renew (Some p) g n t of (p', replayed, e) \<Rightarrow> (the p', e))"
| "participation_exec (EndCall r t) p =
     (case AttemptParticipation_End (Some p) r t of (p', e) \<Rightarrow> (the p', e))"

text \<open>
  A Participation between calls: valid, at domain precision, and, while it is active, with a
  lease that runs the initial period from the last accepted renewal.
\<close>

definition participation_wf :: "AttemptParticipation \<Rightarrow> bool" where
  "participation_wf p \<longleftrightarrow> AttemptParticipation_Validate (Some p) = None
     \<and> canonical (ap_StartedAt p) \<and> canonical (ap_UpdatedAt p) \<and> canonical (ap_LeaseExpiresAt p)
     \<and> 0 < t_ns (ap_StartedAt p)
     \<and> (ap_State p = AttemptParticipationActive \<longrightarrow>
          ap_LeaseExpiresAt p = Add (ap_UpdatedAt p) AttemptParticipationInitialLease)"

text \<open>The times at which a Participation accepts a renewal.\<close>

definition renewable :: "AttemptParticipation \<Rightarrow> int \<Rightarrow> int \<Rightarrow> gtime \<Rightarrow> bool" where
  "renewable p generation sequence now \<longleftrightarrow> ap_State p = AttemptParticipationActive
     \<and> generation = ap_Generation p \<and> 1 \<le> sequence \<and> ap_RenewalSequence p \<le> sequence
     \<and> t_ns (ap_UpdatedAt p) \<le> trunc_us (t_ns now) \<and> trunc_us (t_ns now) < t_ns (ap_LeaseExpiresAt p)"

definition renewed :: "AttemptParticipation \<Rightarrow> int \<Rightarrow> gtime \<Rightarrow> AttemptParticipation" where
  "renewed p sequence now = p\<lparr>ap_RenewalSequence := sequence, ap_UpdatedAt := TimeUTC now,
     ap_LeaseExpiresAt := Add (TimeUTC now) AttemptParticipationInitialLease\<rparr>"

lemma renewed_wf:
  assumes "participation_wf p" and "renewable p g n t"
  shows "participation_wf (renewed p n t)"
proof -
  have "canonical (Add (TimeUTC t) AttemptParticipationInitialLease)"
    by (simp add: canonical_Add AttemptParticipationInitialLease_def)
  moreover have "t_ns (Add (TimeUTC t) AttemptParticipationInitialLease) = trunc_us (t_ns t) + 20000000000"
    by (simp add: Add_def AttemptParticipationInitialLease_def)
  ultimately show ?thesis using assms
    by (auto simp: renewed_def renewable_def participation_wf_def AttemptParticipation_Validate_ok)
qed

lemma renewable_guard:
  assumes "participation_wf p"
  shows "renewable p g n t \<longleftrightarrow> \<not> (ap_State p \<noteq> AttemptParticipationActive
      \<or> g \<noteq> ap_Generation p \<or> n < 1 \<or> n < ap_RenewalSequence p)
    \<and> \<not> (IsZero (TimeUTC t) \<or> Before (TimeUTC t) (ap_UpdatedAt p) \<or> IsExpiredAt (Some p) (TimeUTC t))"
  using assms
  by (auto simp: participation_wf_def AttemptParticipation_Validate_ok renewable_def IsExpiredAt_def time_ops)

lemma Renew_refused:
  assumes "participation_wf p" and "\<not> renewable p g n t"
  shows "\<exists>e. AttemptParticipation_Renew (Some p) g n t = (Some p, False, Some e)"
  using assms(2) unfolding renewable_guard [OF assms(1)] AttemptParticipation_Renew_def Let_def
    option.case by auto

lemma Renew_repeated:
  assumes "participation_wf p" and "renewable p g n t" and "n = ap_RenewalSequence p"
  shows "AttemptParticipation_Renew (Some p) g n t = (Some p, True, None)"
  using assms(2,3) unfolding renewable_guard [OF assms(1)] AttemptParticipation_Renew_def Let_def
    option.case by simp

lemma Renew_accepted:
  assumes "participation_wf p" and "renewable p g n t" and "n \<noteq> ap_RenewalSequence p"
  shows "AttemptParticipation_Renew (Some p) g n t = (Some (renewed p n t), False, None)"
  using assms(2,3) renewed_wf [OF assms(1,2)]
  unfolding renewable_guard [OF assms(1)] AttemptParticipation_Renew_def Let_def option.case
  by (simp add: participation_wf_def renewed_def)


lemma participation_end_ok:
  assumes "participation_wf p"
  shows "snd (participation_exec (EndCall r t) p) = None \<longleftrightarrow>
    ap_State p = AttemptParticipationActive \<and> AttemptParticipationEndReason_IsValid r
    \<and> t_ns (ap_StartedAt p) \<le> trunc_us (t_ns t)"
  using assms by (auto simp: AttemptParticipation_End_def participation_wf_def
      AttemptParticipation_Validate_ok)

lemma participation_exec_clean: "clean p (participation_exec c p)"
  by (cases c) (auto simp: AttemptParticipation_Renew_def AttemptParticipation_End_def Let_def clean_def
      commit_def split: option.split)

lemma participation_exec_wf:
  assumes "participation_wf p" and ok: "snd (participation_exec c p) = None"
  shows "participation_wf (fst (participation_exec c p))"
proof (cases c)
  case (RenewCall g n t)
  have "renewable p g n t" using ok RenewCall Renew_refused [OF assms(1), of g n t] by fastforce
  with assms(1) RenewCall show ?thesis
    by (cases "n = ap_RenewalSequence p") (simp_all add: Renew_repeated Renew_accepted renewed_wf)
next
  case (EndCall r t)
  with ok assms(1) show ?thesis
    by (auto simp: AttemptParticipation_End_def participation_wf_def commit_fst split: if_splits)
qed

interpretation lease: aggregate participation_exec participation_wf
  by unfold_locales (auto intro: participation_exec_wf cleanD [OF participation_exec_clean])

fun participation_fixed :: "AttemptParticipation \<Rightarrow> string \<times> string \<times> string \<times> int \<times> string \<times> gtime" where
  "participation_fixed p = (ap_ID p, ap_AttemptID p, ap_SessionID p, ap_Generation p,
     ap_ContinuityCredentialHash p, ap_StartedAt p)"

definition lease_extends :: "AttemptParticipation \<Rightarrow> AttemptParticipation \<Rightarrow> bool" where
  "lease_extends p q \<longleftrightarrow> participation_fixed q = participation_fixed p
     \<and> ap_RenewalSequence p \<le> ap_RenewalSequence q
     \<and> t_ns (ap_LeaseExpiresAt p) \<le> t_ns (ap_LeaseExpiresAt q)
     \<and> (ap_RenewalSequence q = ap_RenewalSequence p \<longrightarrow> ap_LeaseExpiresAt q = ap_LeaseExpiresAt p)
     \<and> (ap_State p = AttemptParticipationEnded \<longrightarrow> q = p)"

lemma lease_extends_trans: "lease_extends p q \<Longrightarrow> lease_extends q r \<Longrightarrow> lease_extends p r"
  unfolding lease_extends_def by (cases "ap_State p = AttemptParticipationEnded") auto

lemma participation_exec_success:
  assumes "participation_wf p" and "snd (participation_exec c p) = None"
  obtains (repeated) "fst (participation_exec c p) = p" "ap_State p = AttemptParticipationActive"
  | (renewed) g n t where "c = RenewCall g n t" "renewable p g n t" "n \<noteq> ap_RenewalSequence p"
      "fst (participation_exec c p) = renewed p n t"
  | (ended) r t where "c = EndCall r t" "ap_State p = AttemptParticipationActive"
      "fst (participation_exec c p) = p\<lparr>ap_State := AttemptParticipationEnded, ap_EndReason := r,
         ap_EndedAt := OptionalTimeFrom t, ap_UpdatedAt := TimeUTC t\<rparr>"
proof (cases c)
  case (RenewCall g n t)
  have r: "renewable p g n t" using assms(2) RenewCall Renew_refused [OF assms(1), of g n t] by fastforce
  show ?thesis
  proof (cases "n = ap_RenewalSequence p")
    case True
    with r assms(1) RenewCall repeated show ?thesis by (simp add: Renew_repeated renewable_def)
  next
    case False
    with r assms(1) RenewCall renewed show ?thesis by (simp add: Renew_accepted)
  qed
next
  case (EndCall r t)
  with assms ended show ?thesis
    by (auto simp: AttemptParticipation_End_def commit_fst split: if_splits)
qed

lemma lease_extends_call:
  assumes "participation_wf p" and "snd (participation_exec c p) = None"
  shows "lease_extends p (fst (participation_exec c p))"
  using assms
proof (cases rule: participation_exec_success)
  case repeated
  then show ?thesis by (simp add: lease_extends_def)
next
  case (renewed g n t)
  with assms(1) show ?thesis
    by (auto simp: lease_extends_def renewable_def renewed_def participation_wf_def Add_def)
next
  case (ended r t)
  then show ?thesis by (simp add: lease_extends_def)
qed

lemma lease_extends_run: "participation_wf p \<Longrightarrow> lease_extends p (run participation_exec cs p)"
  by (rule lease.run_relation)
    (auto simp: lease_extends_def [of p p for p] intro: lease_extends_trans lease_extends_call)

text \<open>The instant at which a call claims to happen, for renewals.\<close>

fun renews_from :: "int \<Rightarrow> participation_op \<Rightarrow> bool" where
  "renews_from t (RenewCall g n now) \<longleftrightarrow> t \<le> trunc_us (t_ns now)"
| "renews_from t (EndCall r at) \<longleftrightarrow> True"

lemma expired_keeps_lease:
  assumes "participation_wf p" and "t_ns (ap_LeaseExpiresAt p) \<le> t" and "list_all (renews_from t) cs"
  shows "ap_LeaseExpiresAt (run participation_exec cs p) = ap_LeaseExpiresAt p
     \<and> ap_RenewalSequence (run participation_exec cs p) = ap_RenewalSequence p"
  using assms
proof (induction cs arbitrary: p)
  case (Cons c cs)
  have "ap_LeaseExpiresAt (fst (participation_exec c p)) = ap_LeaseExpiresAt p
      \<and> ap_RenewalSequence (fst (participation_exec c p)) = ap_RenewalSequence p"
  proof (cases "snd (participation_exec c p) = None")
    case True
    with Cons.prems(1) show ?thesis
    proof (cases rule: participation_exec_success)
      case (renewed g n u)
      with Cons.prems show ?thesis by (simp add: renewable_def)
    qed simp_all
  qed (simp add: lease.atomic)
  with Cons.IH [of "fst (participation_exec c p)"] Cons.prems lease.exec_wf [OF Cons.prems(1), of c]
  show ?case by simp
qed simp


section \<open>Instances\<close>

definition sample_attempt :: ExamAttempt where
  "sample_attempt = \<lparr>ea_ID = replicate 26 CHR ''a'', ea_ExamID = replicate 26 CHR ''b'',
     ea_SittingID = replicate 26 CHR ''c'', ea_CandidateUserID = replicate 26 CHR ''d'',
     ea_AdmissionRevisionID = replicate 26 CHR ''e'', ea_State = ExamAttemptActive,
     ea_CreatedAt = sample_instant 10, ea_UpdatedAt = sample_instant 10, ea_SubmittedAt = no_time,
     ea_Revision = 1\<rparr>"

definition sample_participation :: AttemptParticipation where
  "sample_participation = \<lparr>ap_ID = replicate 26 CHR ''f'', ap_AttemptID = replicate 26 CHR ''a'',
     ap_SessionID = replicate 26 CHR ''g'', ap_State = AttemptParticipationActive, ap_Generation = 1,
     ap_RenewalSequence = 0, ap_ContinuityCredentialHash = replicate 64 CHR ''a'',
     ap_StartedAt = sample_instant 10, ap_UpdatedAt = sample_instant 10,
     ap_LeaseExpiresAt = sample_instant 20000010, ap_EndedAt = no_time,
     ap_EndReason = AttemptParticipationEndNone\<rparr>"

lemma sample_attempt_wf: "attempt_wf sample_attempt"
  by (simp add: attempt_wf_def sample_attempt_def ExamAttempt_Validate_ok IsUnresolved_def int64_defs)

lemma sample_participation_wf: "participation_wf sample_participation"
  by (simp add: participation_wf_def sample_participation_def AttemptParticipation_Validate_ok
      AttemptParticipationInitialLease_def Add_def sample_instant_def canonical_def)

lemma sample_participation_sel:
  "ap_State sample_participation = AttemptParticipationActive" "ap_Generation sample_participation = 1"
  "ap_RenewalSequence sample_participation = 0" "ap_UpdatedAt sample_participation = sample_instant 10"
  "ap_LeaseExpiresAt sample_participation = sample_instant 20000010"
  by (simp_all add: sample_participation_def)

lemma sample_instant_TimeUTC [simp]: "TimeUTC (sample_instant n) = sample_instant n"
  by simp





text \<open>C23. A Suspension is re-allowed exactly once: on a valid Suspension the call succeeds if
  and only if the episode is active, the actor is a valid identifier, the private reason is
  valid text and the time is not before the start; it then records actor, reason and time,
  leaves cause and provenance alone, the result is valid, and every further call is refused
  without a change.\<close>

theorem suspension_reallowed_once:
  assumes "AttemptSuspension_Validate (Some s) = None"
  shows "case AttemptSuspension_Reallow (Some s) actor reason at of (st, e) \<Rightarrow>
     (e = None \<longleftrightarrow> as_State s = AttemptSuspensionActive \<and> IsValidOpaqueID actor
        \<and> validAttemptSuspensionPrivateReason reason \<and> t_ns (as_StartedAt s) \<le> trunc_us (t_ns at))
     \<and> (e \<noteq> None \<longrightarrow> st = Some s)
     \<and> (e = None \<longrightarrow> (\<exists>s'. st = Some s' \<and> AttemptSuspension_Validate (Some s') = None
        \<and> s' = s\<lparr>as_State := AttemptSuspensionClosed, as_EndedAt := OptionalTimeFrom at,
            as_ReallowedByUserID := actor, as_PrivateReason := reason\<rparr>
        \<and> (\<forall>x y t. fst (AttemptSuspension_Reallow (Some s') x y t) = Some s'
             \<and> snd (AttemptSuspension_Reallow (Some s') x y t) \<noteq> None)))"
proof -
  let ?s = "s\<lparr>as_State := AttemptSuspensionClosed, as_EndedAt := OptionalTimeFrom at,
      as_ReallowedByUserID := actor, as_PrivateReason := reason\<rparr>"
  have val: "AttemptSuspension_Validate (Some ?s) = None \<longleftrightarrow> t_ns (as_StartedAt s) \<le> trunc_us (t_ns at)"
    if "IsValidOpaqueID actor" "validAttemptSuspensionPrivateReason reason"
    using assms that by (auto simp: AttemptSuspension_Validate_ok)
  have again: "fst (AttemptSuspension_Reallow (Some ?s) x y t) = Some ?s
      \<and> snd (AttemptSuspension_Reallow (Some ?s) x y t) \<noteq> None" for x y t
    by (simp add: AttemptSuspension_Reallow_def)
  show ?thesis
  proof (cases "as_State s = AttemptSuspensionActive \<and> IsValidOpaqueID actor
      \<and> validAttemptSuspensionPrivateReason reason")
    case True
    then have "AttemptSuspension_Reallow (Some s) actor reason at =
        (Some (fst (commit AttemptSuspension_Validate s ?s)), snd (commit AttemptSuspension_Validate s ?s))"
      by (simp add: AttemptSuspension_Reallow_def)
    with True val again show ?thesis
      by (cases "t_ns (as_StartedAt s) \<le> trunc_us (t_ns at)") (auto simp: commit_def split: option.split)
  next
    case False
    then show ?thesis by (auto simp: AttemptSuspension_Reallow_def)
  qed
qed

theorem suspension_reallowed_once_witness:
  "\<exists>s. NewManualAttemptSuspension (replicate 26 CHR ''a'') (replicate 26 CHR ''b'') (replicate 26 CHR ''c'')
      1 (replicate 26 CHR ''d'') ''phone'' (sample_instant 5) = (Some s, None)
    \<and> snd (AttemptSuspension_Reallow (Some s) (replicate 26 CHR ''e'') ''resolved'' (sample_instant 6)) = None"
proof -
  have reason: "validAttemptSuspensionPrivateReason ''phone''" "validAttemptSuspensionPrivateReason ''resolved''"
    by (simp_all add: validAttemptSuspensionPrivateReason_def ascii_eval
        AttemptSuspensionPrivateReasonMaximumRunes_def)
  obtain s where s: "NewManualAttemptSuspension (replicate 26 CHR ''a'') (replicate 26 CHR ''b'')
      (replicate 26 CHR ''c'') 1 (replicate 26 CHR ''d'') ''phone'' (sample_instant 5) = (Some s, None)"
    "AttemptSuspension_Validate (Some s) = None" "as_State s = AttemptSuspensionActive"
    "as_StartedAt s = sample_instant 5"
    using reason by (auto simp: NewManualAttemptSuspension_def Let_def AttemptSuspension_Validate_ok
        split: option.split)
  with reason suspension_reallowed_once [OF s(2), of "replicate 26 CHR ''e''" "''resolved''" "sample_instant 6"]
  show ?thesis by (auto split: prod.splits)
qed

end
