(* ===== verification/AttemptClosure.thy ===== *)
theory AttemptClosure
  imports ExamAttempt
begin

text \<open>
  The transitions that move an Attempt, its Participation and its Connection together:
  \<^verbatim>\<open>SubmitExamAttempt\<close>, \<^verbatim>\<open>SealExamAttemptForSittingClose\<close> and
  \<^verbatim>\<open>EndExamAttemptByManager\<close> of \<^verbatim>\<open>server/model/exam_submission.go\<close>,
  \<^verbatim>\<open>SuspendExamAttemptByManager\<close> of \<^verbatim>\<open>exam_attempt_manual_suspension.go\<close> and
  \<^verbatim>\<open>SuspendExamAttemptForFocusLoss\<close> of \<^verbatim>\<open>focus_loss.go\<close>.  The three pointers are
  the components of a triple; the pointees after the call are returned with the error.
\<close>

type_synonym continuity =
  "ExamAttempt option \<times> AttemptParticipation option \<times> AttemptConnection option"

definition laterTime :: "gtime \<Rightarrow> gtime \<Rightarrow> gtime" where
  "laterTime current candidate = (if After current candidate then current else candidate)"

text \<open>The checks that all of them start with.\<close>

definition owned :: "ExamAttempt \<Rightarrow> AttemptParticipation \<Rightarrow> AttemptConnection \<Rightarrow> bool" where
  "owned a p c \<longleftrightarrow> ExamAttempt_Validate (Some a) = None \<and> AttemptParticipation_Validate (Some p) = None
     \<and> AttemptConnection_Validate (Some c) = None \<and> ap_AttemptID p = ea_ID a
     \<and> ac_AttemptID c = ea_ID a \<and> ac_ParticipationID c = ap_ID p"

definition submission_error :: "string \<Rightarrow> string \<Rightarrow> go_error" where
  "submission_error whr reason = invalidModelError whr ''exam_submission'' [] reason []"

definition SubmitExamAttempt :: "continuity \<Rightarrow> gtime \<Rightarrow> continuity outcome" where
  "SubmitExamAttempt st at0 = (case st of
     (Some a, Some p, Some c) \<Rightarrow>
       if \<not> owned a p c \<or> ea_State a \<noteq> ExamAttemptActive \<or> ap_State p \<noteq> AttemptParticipationActive
         \<or> ac_State c \<noteq> AttemptConnectionOpen then
         (st, Some (submission_error ''SubmitExamAttempt'' ''invalid Exam Submission lifecycle aggregate''))
       else let at = TimeUTC at0 in
         if IsZero at \<or> Before at (ap_StartedAt p) \<or> Before at (ac_OpenedAt c) then
           (st, Some (submission_error ''SubmitExamAttempt'' ''invalid Exam Submission time''))
         else
           let a' = a\<lparr>ea_State := ExamAttemptSubmitted, ea_SubmittedAt := OptionalTimeFrom at,
                 ea_UpdatedAt := laterTime (ea_UpdatedAt a) at, ea_Revision := inc64 (ea_Revision a)\<rparr>
           in case ExamAttempt_Validate (Some a') of Some e \<Rightarrow> (st, Some e) | None \<Rightarrow>
           (case AttemptParticipation_End (Some p) AttemptParticipationEndSubmitted at of
              (_, Some e) \<Rightarrow> (st, Some e)
            | (p', None) \<Rightarrow>
              let p'' = (the p')\<lparr>ap_UpdatedAt := laterTime (ap_UpdatedAt p) at\<rparr>
              in case AttemptParticipation_Validate (Some p'') of Some e \<Rightarrow> (st, Some e) | None \<Rightarrow>
              (case AttemptConnection_Close (Some c) AttemptConnectionCloseSubmitted at of
                 (_, Some e) \<Rightarrow> (st, Some e)
               | (c', None) \<Rightarrow> ((Some a', Some p'', c'), None)))
   | _ \<Rightarrow> (st, Some (submission_error ''SubmitExamAttempt''
       ''invalid Exam Submission lifecycle aggregate'')))"

text \<open>
  The two forced closures have the same text up to the operation name, the messages and the
  causes; \<open>close_unfinished\<close> is that text.
\<close>

definition close_unfinished ::
    "string \<Rightarrow> string \<Rightarrow> string \<Rightarrow> AttemptParticipationEndReason \<Rightarrow> AttemptConnectionCloseReason
       \<Rightarrow> continuity \<Rightarrow> gtime \<Rightarrow> continuity outcome" where
  "close_unfinished whr aggregate_message time_message endReason closeReason st at0 = (case st of
     (Some a, Some p, Some c) \<Rightarrow>
       if \<not> owned a p c
         \<or> (ea_State a \<noteq> ExamAttemptActive \<and> ea_State a \<noteq> ExamAttemptReady \<and> ea_State a \<noteq> ExamAttemptSuspended)
         \<or> (ap_State p = AttemptParticipationEnded \<and> ac_State c \<noteq> AttemptConnectionClosed) then
         (st, Some (submission_error whr aggregate_message))
       else let at = TimeUTC at0 in
         if IsZero at \<or> Before at (ea_UpdatedAt a) \<or> Before at (ap_UpdatedAt p) \<or> Before at (ac_OpenedAt c) then
           (st, Some (submission_error whr time_message))
         else
           let a' = a\<lparr>ea_State := ExamAttemptSubmitted, ea_SubmittedAt := OptionalTimeFrom at,
                 ea_UpdatedAt := at, ea_Revision := inc64 (ea_Revision a)\<rparr>
           in case ExamAttempt_Validate (Some a') of Some e \<Rightarrow> (st, Some e) | None \<Rightarrow>
           (case (if ap_State p = AttemptParticipationActive
                  then AttemptParticipation_End (Some p) endReason at else (Some p, None)) of
              (_, Some e) \<Rightarrow> (st, Some e)
            | (p', None) \<Rightarrow>
              (case (if ac_State c = AttemptConnectionOpen
                     then AttemptConnection_Close (Some c) closeReason at else (Some c, None)) of
                 (_, Some e) \<Rightarrow> (st, Some e)
               | (c', None) \<Rightarrow> ((Some a', p', c'), None)))
   | _ \<Rightarrow> (st, Some (submission_error whr aggregate_message)))"

definition SealExamAttemptForSittingClose :: "continuity \<Rightarrow> gtime \<Rightarrow> continuity outcome" where
  "SealExamAttemptForSittingClose = close_unfinished ''SealExamAttemptForSittingClose''
     ''invalid automatic Exam Submission lifecycle aggregate'' ''invalid automatic Exam Submission time''
     AttemptParticipationEndSittingClosed AttemptConnectionCloseSittingClosed"

definition EndExamAttemptByManager :: "continuity \<Rightarrow> gtime \<Rightarrow> continuity outcome" where
  "EndExamAttemptByManager = close_unfinished ''EndExamAttemptByManager''
     ''invalid manager-ended Exam Submission lifecycle aggregate''
     ''invalid manager-ended Exam Submission time''
     AttemptParticipationEndManagerEnded AttemptConnectionCloseManagerEnded"

definition SuspendExamAttemptByManager :: "continuity \<Rightarrow> gtime \<Rightarrow> continuity outcome" where
  "SuspendExamAttemptByManager st at0 =
     (let err = (\<lambda>reason. Some (invalidModelError ''SuspendExamAttemptByManager''
            ''exam_attempt_manual_suspension'' [] reason [])) in case st of
        (Some a, Some p, connection) \<Rightarrow>
          if ExamAttempt_Validate (Some a) \<noteq> None \<or> AttemptParticipation_Validate (Some p) \<noteq> None
            \<or> ap_AttemptID p \<noteq> ea_ID a \<or> ea_State a \<noteq> ExamAttemptActive
            \<or> ap_State p \<noteq> AttemptParticipationActive
            \<or> (case connection of None \<Rightarrow> False | Some c \<Rightarrow>
                 AttemptConnection_Validate (Some c) \<noteq> None \<or> ac_AttemptID c \<noteq> ea_ID a
                 \<or> ac_ParticipationID c \<noteq> ap_ID p \<or> ac_State c \<noteq> AttemptConnectionOpen) then
            (st, err ''invalid manual Exam Attempt suspension aggregate'')
          else let at = TimeUTC at0 in
            if IsZero at \<or> Before at (ea_UpdatedAt a) \<or> Before at (ap_UpdatedAt p)
              \<or> (case connection of None \<Rightarrow> False | Some c \<Rightarrow> Before at (ac_OpenedAt c)) then
              (st, err ''invalid manual Exam Attempt suspension time'')
            else
              (case ExamAttempt_Suspend (Some a) at of (_, Some e) \<Rightarrow> (st, Some e) | (a', None) \<Rightarrow>
              (case AttemptParticipation_End (Some p) AttemptParticipationEndKicked at of
                 (_, Some e) \<Rightarrow> (st, Some e)
               | (p', None) \<Rightarrow>
                 (case connection of None \<Rightarrow> ((a', p', None), None)
                  | Some c \<Rightarrow>
                    (case AttemptConnection_Close (Some c) AttemptConnectionCloseKicked at of
                       (_, Some e) \<Rightarrow> (st, Some e)
                     | (c', None) \<Rightarrow> ((a', p', c'), None)))))
      | _ \<Rightarrow> (st, err ''invalid manual Exam Attempt suspension aggregate''))"

definition SuspendExamAttemptForFocusLoss :: "continuity \<Rightarrow> gtime \<Rightarrow> continuity outcome" where
  "SuspendExamAttemptForFocusLoss st at =
     (let err = Some (invalidModelError ''SuspendExamAttemptForFocusLoss'' ''focus_loss'' []
            ''invalid Focus Loss suspension aggregate'' []) in case st of
        (Some a, Some p, Some c) \<Rightarrow>
          if \<not> owned a p c then (st, err)
          else
            (case ExamAttempt_Suspend (Some a) at of (_, Some e) \<Rightarrow> (st, Some e) | (a', None) \<Rightarrow>
            (case AttemptParticipation_End (Some p) AttemptParticipationEndPolicySuspended at of
               (_, Some e) \<Rightarrow> (st, Some e)
             | (p', None) \<Rightarrow>
               (case AttemptConnection_Close (Some c) AttemptConnectionClosePolicySuspended at of
                  (_, Some e) \<Rightarrow> (st, Some e)
                | (c', None) \<Rightarrow> ((a', p', c'), None))))
      | _ \<Rightarrow> (st, err))"

section \<open>The single transitions on valid records\<close>

definition ended :: "AttemptParticipationEndReason \<Rightarrow> gtime \<Rightarrow> AttemptParticipation \<Rightarrow> AttemptParticipation" where
  "ended r t p = p\<lparr>ap_State := AttemptParticipationEnded, ap_EndReason := r,
     ap_EndedAt := OptionalTimeFrom t, ap_UpdatedAt := TimeUTC t\<rparr>"

definition closed :: "AttemptConnectionCloseReason \<Rightarrow> gtime \<Rightarrow> AttemptConnection \<Rightarrow> AttemptConnection" where
  "closed r t c = c\<lparr>ac_State := AttemptConnectionClosed, ac_CloseReason := r,
     ac_ClosedAt := OptionalTimeFrom t\<rparr>"

definition suspended :: "gtime \<Rightarrow> ExamAttempt \<Rightarrow> ExamAttempt" where
  "suspended t a = a\<lparr>ea_State := ExamAttemptSuspended, ea_UpdatedAt := TimeUTC t,
     ea_Revision := inc64 (ea_Revision a)\<rparr>"

lemma End_valid:
  assumes "AttemptParticipation_Validate (Some p) = None" and "AttemptParticipationEndReason_IsValid r"
  shows "ap_State p = AttemptParticipationActive \<Longrightarrow> trunc_us (t_ns t) \<noteq> 0 \<Longrightarrow>
      t_ns (ap_StartedAt p) \<le> trunc_us (t_ns t) \<Longrightarrow>
      AttemptParticipation_End (Some p) r t = (Some (ended r t p), None)"
    and "\<not> (ap_State p = AttemptParticipationActive \<and> trunc_us (t_ns t) \<noteq> 0
        \<and> t_ns (ap_StartedAt p) \<le> trunc_us (t_ns t)) \<Longrightarrow>
      \<exists>e. AttemptParticipation_End (Some p) r t = (Some p, Some e)"
  using assms
  by (auto simp: AttemptParticipation_End_def ended_def commit_def AttemptParticipation_Validate_ok
      split: option.split)

lemma Close_valid:
  assumes "AttemptConnection_Validate (Some c) = None" and "AttemptConnectionCloseReason_IsValid r"
  shows "ac_State c = AttemptConnectionOpen \<Longrightarrow> trunc_us (t_ns t) \<noteq> 0 \<Longrightarrow>
      t_ns (ac_OpenedAt c) \<le> trunc_us (t_ns t) \<Longrightarrow>
      AttemptConnection_Close (Some c) r t = (Some (closed r t c), None)"
    and "\<not> (ac_State c = AttemptConnectionOpen \<and> trunc_us (t_ns t) \<noteq> 0
        \<and> t_ns (ac_OpenedAt c) \<le> trunc_us (t_ns t)) \<Longrightarrow>
      \<exists>e. AttemptConnection_Close (Some c) r t = (Some c, Some e)"
  using assms
  by (auto simp: AttemptConnection_Close_def closed_def commit_def AttemptConnection_Validate_ok
      split: option.split)

lemma Suspend_valid:
  assumes "ExamAttempt_Validate (Some a) = None" and "is_int64 (ea_Revision a)"
  shows "ea_State a = ExamAttemptActive \<Longrightarrow> trunc_us (t_ns t) \<noteq> 0 \<Longrightarrow>
      t_ns (ea_CreatedAt a) \<le> trunc_us (t_ns t) \<Longrightarrow> ea_Revision a < maxInt64 \<Longrightarrow>
      ExamAttempt_Suspend (Some a) t = (Some (suspended t a), None)"
    and "\<not> (ea_State a = ExamAttemptActive \<and> trunc_us (t_ns t) \<noteq> 0
        \<and> t_ns (ea_CreatedAt a) \<le> trunc_us (t_ns t) \<and> ea_Revision a < maxInt64) \<Longrightarrow>
      \<exists>e. ExamAttempt_Suspend (Some a) t = (Some a, Some e)"
  using assms attempt_set_state_ok [OF assms, of ExamAttemptSuspended t]
  by (auto simp: ExamAttempt_Suspend_def suspended_def commit_def IsUnresolved_def split: option.split)

definition submitted :: "gtime \<Rightarrow> gtime \<Rightarrow> ExamAttempt \<Rightarrow> ExamAttempt" where
  "submitted t u a = a\<lparr>ea_State := ExamAttemptSubmitted, ea_SubmittedAt := OptionalTimeFrom t,
     ea_UpdatedAt := u, ea_Revision := inc64 (ea_Revision a)\<rparr>"

lemma submitted_valid:
  assumes "ExamAttempt_Validate (Some a) = None" and "is_int64 (ea_Revision a)"
    and "trunc_us (t_ns t) \<noteq> 0" and "trunc_us (t_ns t) \<le> t_ns u" and "t_ns u \<noteq> 0"
    and "t_ns (ea_CreatedAt a) \<le> t_ns u"
  shows "ExamAttempt_Validate (Some (submitted t u a)) = None \<longleftrightarrow>
     t_ns (ea_CreatedAt a) \<le> trunc_us (t_ns t) \<and> ea_Revision a < maxInt64"
  using assms by (auto simp: submitted_def ExamAttempt_Validate_ok inc64_positive_iff IsUnresolved_def)

lemma laterTime_ns: "t_ns (laterTime x y) = max (t_ns x) (t_ns y)"
  by (simp add: laterTime_def After_def)

lemma at_TimeUTC [simp]:
  "ended r (TimeUTC t) = ended r t" "closed q (TimeUTC t) = closed q t"
  "suspended (TimeUTC t) = suspended t" "submitted (TimeUTC t) u = submitted t u"
  by (simp_all add: fun_eq_iff ended_def closed_def suspended_def submitted_def)

lemma End_TimeUTC [simp]: "AttemptParticipation_End p r (TimeUTC t) = AttemptParticipation_End p r t"
  and Close_TimeUTC [simp]: "AttemptConnection_Close c q (TimeUTC t) = AttemptConnection_Close c q t"
  and Suspend_TimeUTC [simp]: "ExamAttempt_Suspend a (TimeUTC t) = ExamAttempt_Suspend a t"
  by (simp_all add: AttemptParticipation_End_def AttemptConnection_Close_def ExamAttempt_Suspend_def
      cong: if_cong)

section \<open>Exact behaviour of the coordinated transitions\<close>

lemma laterTime_bounds:
  assumes "ExamAttempt_Validate (Some a) = None" and "trunc_us (t_ns t) \<noteq> 0"
  shows "trunc_us (t_ns t) \<le> t_ns (laterTime (ea_UpdatedAt a) (TimeUTC t))"
    and "t_ns (laterTime (ea_UpdatedAt a) (TimeUTC t)) \<noteq> 0"
    and "t_ns (ea_CreatedAt a) \<le> t_ns (laterTime (ea_UpdatedAt a) (TimeUTC t))"
  using assms by (auto simp: laterTime_ns ExamAttempt_Validate_ok max_def)

definition submit_ready :: "ExamAttempt \<Rightarrow> AttemptParticipation \<Rightarrow> AttemptConnection \<Rightarrow> gtime \<Rightarrow> bool" where
  "submit_ready a p c at \<longleftrightarrow> owned a p c \<and> ea_State a = ExamAttemptActive
     \<and> ap_State p = AttemptParticipationActive \<and> ac_State c = AttemptConnectionOpen
     \<and> trunc_us (t_ns at) \<noteq> 0 \<and> t_ns (ea_CreatedAt a) \<le> trunc_us (t_ns at)
     \<and> t_ns (ap_StartedAt p) \<le> trunc_us (t_ns at) \<and> t_ns (ac_OpenedAt c) \<le> trunc_us (t_ns at)
     \<and> ea_Revision a < maxInt64"

definition submit_result ::
    "ExamAttempt \<Rightarrow> AttemptParticipation \<Rightarrow> AttemptConnection \<Rightarrow> gtime \<Rightarrow> continuity" where
  "submit_result a p c at =
     (Some (submitted at (laterTime (ea_UpdatedAt a) (TimeUTC at)) a),
      Some ((ended AttemptParticipationEndSubmitted at p)
        \<lparr>ap_UpdatedAt := laterTime (ap_UpdatedAt p) (TimeUTC at)\<rparr>),
      Some (closed AttemptConnectionCloseSubmitted at c))"

lemma ended_later_valid:
  assumes "AttemptParticipation_Validate (Some p) = None" and "AttemptParticipationEndReason_IsValid r"
    and "trunc_us (t_ns t) \<noteq> 0" and "t_ns (ap_StartedAt p) \<le> trunc_us (t_ns t)"
    and "trunc_us (t_ns t) \<le> t_ns u" and "t_ns u \<noteq> 0"
  shows "AttemptParticipation_Validate (Some ((ended r t p)\<lparr>ap_UpdatedAt := u\<rparr>)) = None"
  using assms by (auto simp: AttemptParticipation_Validate_ok ended_def)

lemma Submit_cases:
  assumes int: "is_int64 (ea_Revision a)"
  shows "submit_ready a p c at \<Longrightarrow>
      SubmitExamAttempt (Some a, Some p, Some c) at = (submit_result a p c at, None)"
    and "\<not> submit_ready a p c at \<Longrightarrow>
      \<exists>e. SubmitExamAttempt (Some a, Some p, Some c) at = ((Some a, Some p, Some c), Some e)"
proof -
  let ?T = "trunc_us (t_ns at)"
  let ?u = "laterTime (ea_UpdatedAt a) (TimeUTC at)"
  define pre where "pre \<longleftrightarrow> owned a p c \<and> ea_State a = ExamAttemptActive
     \<and> ap_State p = AttemptParticipationActive \<and> ac_State c = AttemptConnectionOpen
     \<and> ?T \<noteq> 0 \<and> t_ns (ap_StartedAt p) \<le> ?T \<and> t_ns (ac_OpenedAt c) \<le> ?T"
  have unready: "\<exists>e. SubmitExamAttempt (Some a, Some p, Some c) at = ((Some a, Some p, Some c), Some e)"
    if "\<not> pre"
    using that unfolding SubmitExamAttempt_def pre_def by (auto simp: time_ops)
  have sub: "a\<lparr>ea_State := ExamAttemptSubmitted, ea_SubmittedAt := OptionalTimeFrom at,
      ea_UpdatedAt := ?u, ea_Revision := inc64 (ea_Revision a)\<rparr> = submitted at ?u a"
    by (simp add: submitted_def)
  have go: "SubmitExamAttempt (Some a, Some p, Some c) at =
      (case ExamAttempt_Validate (Some (submitted at ?u a)) of
         Some e \<Rightarrow> ((Some a, Some p, Some c), Some e)
       | None \<Rightarrow> (submit_result a p c at, None))" if pre
  proof -
    from that have v: "ExamAttempt_Validate (Some a) = None" "AttemptParticipation_Validate (Some p) = None"
      "AttemptConnection_Validate (Some c) = None" by (simp_all add: pre_def owned_def)
    have e: "AttemptParticipation_End (Some p) AttemptParticipationEndSubmitted at =
        (Some (ended AttemptParticipationEndSubmitted at p), None)"
      using that by (intro End_valid(1) v) (simp_all add: pre_def)
    have c: "AttemptConnection_Close (Some c) AttemptConnectionCloseSubmitted at =
        (Some (closed AttemptConnectionCloseSubmitted at c), None)"
      using that by (intro Close_valid(1) v) (simp_all add: pre_def)
    have l: "AttemptParticipation_Validate (Some ((ended AttemptParticipationEndSubmitted at p)
        \<lparr>ap_UpdatedAt := laterTime (ap_UpdatedAt p) (TimeUTC at)\<rparr>)) = None"
      using that v by (intro ended_later_valid) (auto simp: pre_def laterTime_ns
          AttemptParticipation_Validate_ok max_def)
    from that show ?thesis
      unfolding SubmitExamAttempt_def
      by (simp add: pre_def sub e c l submit_result_def time_ops Let_def split: option.split)
  qed
  have val: "ExamAttempt_Validate (Some (submitted at ?u a)) = None \<longleftrightarrow>
      t_ns (ea_CreatedAt a) \<le> ?T \<and> ea_Revision a < maxInt64" if pre
    using that by (intro submitted_valid int)
      (auto simp: pre_def owned_def laterTime_ns ExamAttempt_Validate_ok max_def)
  have ready: "submit_ready a p c at \<longleftrightarrow> pre \<and> t_ns (ea_CreatedAt a) \<le> ?T \<and> ea_Revision a < maxInt64"
    by (auto simp: submit_ready_def pre_def)
  show "submit_ready a p c at \<Longrightarrow>
      SubmitExamAttempt (Some a, Some p, Some c) at = (submit_result a p c at, None)"
    using go val by (simp add: ready)
  show "\<not> submit_ready a p c at \<Longrightarrow>
      \<exists>e. SubmitExamAttempt (Some a, Some p, Some c) at = ((Some a, Some p, Some c), Some e)"
    using unready go val by (cases pre) (auto simp: ready split: option.split)
qed

definition closure_ready :: "ExamAttempt \<Rightarrow> AttemptParticipation \<Rightarrow> AttemptConnection \<Rightarrow> gtime \<Rightarrow> bool" where
  "closure_ready a p c at \<longleftrightarrow> owned a p c \<and> IsUnresolved (ea_State a)
     \<and> (ap_State p = AttemptParticipationEnded \<longrightarrow> ac_State c = AttemptConnectionClosed)
     \<and> trunc_us (t_ns at) \<noteq> 0 \<and> t_ns (ea_UpdatedAt a) \<le> trunc_us (t_ns at)
     \<and> t_ns (ap_UpdatedAt p) \<le> trunc_us (t_ns at) \<and> t_ns (ac_OpenedAt c) \<le> trunc_us (t_ns at)
     \<and> ea_Revision a < maxInt64"

definition closure_result ::
    "AttemptParticipationEndReason \<Rightarrow> AttemptConnectionCloseReason
       \<Rightarrow> ExamAttempt \<Rightarrow> AttemptParticipation \<Rightarrow> AttemptConnection \<Rightarrow> gtime \<Rightarrow> continuity" where
  "closure_result r q a p c at =
     (Some (submitted at (TimeUTC at) a),
      Some (if ap_State p = AttemptParticipationActive then ended r at p else p),
      Some (if ac_State c = AttemptConnectionOpen then closed q at c else c))"

lemma close_unfinished_cases:
  assumes int: "is_int64 (ea_Revision a)" and r: "AttemptParticipationEndReason_IsValid r"
    and q: "AttemptConnectionCloseReason_IsValid q"
  shows "closure_ready a p c at \<Longrightarrow>
      close_unfinished w m n r q (Some a, Some p, Some c) at = (closure_result r q a p c at, None)"
    and "\<not> closure_ready a p c at \<Longrightarrow>
      \<exists>e. close_unfinished w m n r q (Some a, Some p, Some c) at = ((Some a, Some p, Some c), Some e)"
proof -
  let ?T = "trunc_us (t_ns at)"
  define pre where "pre \<longleftrightarrow> owned a p c \<and> IsUnresolved (ea_State a)
     \<and> (ap_State p = AttemptParticipationEnded \<longrightarrow> ac_State c = AttemptConnectionClosed)
     \<and> ?T \<noteq> 0 \<and> t_ns (ea_UpdatedAt a) \<le> ?T \<and> t_ns (ap_UpdatedAt p) \<le> ?T \<and> t_ns (ac_OpenedAt c) \<le> ?T"
  have unready: "\<exists>e. close_unfinished w m n r q (Some a, Some p, Some c) at = ((Some a, Some p, Some c), Some e)"
    if "\<not> pre"
    using that unfolding close_unfinished_def pre_def IsUnresolved_def by (auto simp: time_ops)
  have sub: "a\<lparr>ea_State := ExamAttemptSubmitted, ea_SubmittedAt := OptionalTimeFrom at,
      ea_UpdatedAt := TimeUTC at, ea_Revision := inc64 (ea_Revision a)\<rparr> = submitted at (TimeUTC at) a"
    by (simp add: submitted_def)
  have go: "close_unfinished w m n r q (Some a, Some p, Some c) at =
      (case ExamAttempt_Validate (Some (submitted at (TimeUTC at) a)) of
         Some e \<Rightarrow> ((Some a, Some p, Some c), Some e)
       | None \<Rightarrow> (closure_result r q a p c at, None))" if pre
  proof -
    from that have v: "ExamAttempt_Validate (Some a) = None" "AttemptParticipation_Validate (Some p) = None"
      "AttemptConnection_Validate (Some c) = None" by (simp_all add: pre_def owned_def)
    have e: "ap_State p = AttemptParticipationActive \<Longrightarrow>
        AttemptParticipation_End (Some p) r at = (Some (ended r at p), None)"
      using that v by (intro End_valid(1) r) (auto simp: pre_def AttemptParticipation_Validate_ok)
    have c: "ac_State c = AttemptConnectionOpen \<Longrightarrow>
        AttemptConnection_Close (Some c) q at = (Some (closed q at c), None)"
      using that v by (intro Close_valid(1) q) (auto simp: pre_def)
    have guard: "\<not> (\<not> owned a p c \<or> (ea_State a \<noteq> ExamAttemptActive \<and> ea_State a \<noteq> ExamAttemptReady
          \<and> ea_State a \<noteq> ExamAttemptSuspended)
        \<or> (ap_State p = AttemptParticipationEnded \<and> ac_State c \<noteq> AttemptConnectionClosed))"
      "\<not> (IsZero (TimeUTC at) \<or> Before (TimeUTC at) (ea_UpdatedAt a) \<or> Before (TimeUTC at) (ap_UpdatedAt p)
        \<or> Before (TimeUTC at) (ac_OpenedAt c))"
      using that by (auto simp: pre_def IsUnresolved_def time_ops)
    show ?thesis
      unfolding close_unfinished_def prod.case option.case Let_def if_not_P [OF guard(1)] if_not_P [OF guard(2)]
      by (cases "ap_State p = AttemptParticipationActive"; cases "ac_State c = AttemptConnectionOpen")
        (simp_all add: sub e c closure_result_def split: option.split)
  qed
  have val: "ExamAttempt_Validate (Some (submitted at (TimeUTC at) a)) = None \<longleftrightarrow>
      ea_Revision a < maxInt64" if pre
    using submitted_valid [of a at "TimeUTC at"] that int
    by (auto simp: pre_def owned_def ExamAttempt_Validate_ok)
  have ready: "closure_ready a p c at \<longleftrightarrow> pre \<and> ea_Revision a < maxInt64"
    by (auto simp: closure_ready_def pre_def)
  show "closure_ready a p c at \<Longrightarrow>
      close_unfinished w m n r q (Some a, Some p, Some c) at = (closure_result r q a p c at, None)"
    using go val by (simp add: ready)
  show "\<not> closure_ready a p c at \<Longrightarrow>
      \<exists>e. close_unfinished w m n r q (Some a, Some p, Some c) at = ((Some a, Some p, Some c), Some e)"
    using unready go val by (cases pre) (auto simp: ready split: option.split)
qed

lemma Seal_cases:
  assumes "is_int64 (ea_Revision a)"
  shows "closure_ready a p c at \<Longrightarrow> SealExamAttemptForSittingClose (Some a, Some p, Some c) at =
      (closure_result AttemptParticipationEndSittingClosed AttemptConnectionCloseSittingClosed a p c at, None)"
    and "\<not> closure_ready a p c at \<Longrightarrow>
      \<exists>e. SealExamAttemptForSittingClose (Some a, Some p, Some c) at = ((Some a, Some p, Some c), Some e)"
  unfolding SealExamAttemptForSittingClose_def using assms by (simp_all add: close_unfinished_cases)

lemma EndByManager_cases:
  assumes "is_int64 (ea_Revision a)"
  shows "closure_ready a p c at \<Longrightarrow> EndExamAttemptByManager (Some a, Some p, Some c) at =
      (closure_result AttemptParticipationEndManagerEnded AttemptConnectionCloseManagerEnded a p c at, None)"
    and "\<not> closure_ready a p c at \<Longrightarrow>
      \<exists>e. EndExamAttemptByManager (Some a, Some p, Some c) at = ((Some a, Some p, Some c), Some e)"
  unfolding EndExamAttemptByManager_def using assms by (simp_all add: close_unfinished_cases)

definition kick_ready ::
    "ExamAttempt \<Rightarrow> AttemptParticipation \<Rightarrow> AttemptConnection option \<Rightarrow> gtime \<Rightarrow> bool" where
  "kick_ready a p connection at \<longleftrightarrow>
     ExamAttempt_Validate (Some a) = None \<and> AttemptParticipation_Validate (Some p) = None
     \<and> ap_AttemptID p = ea_ID a \<and> ea_State a = ExamAttemptActive
     \<and> ap_State p = AttemptParticipationActive
     \<and> trunc_us (t_ns at) \<noteq> 0 \<and> t_ns (ea_UpdatedAt a) \<le> trunc_us (t_ns at)
     \<and> t_ns (ap_UpdatedAt p) \<le> trunc_us (t_ns at) \<and> ea_Revision a < maxInt64
     \<and> (case connection of None \<Rightarrow> True | Some c \<Rightarrow>
          owned a p c \<and> ac_State c = AttemptConnectionOpen \<and> t_ns (ac_OpenedAt c) \<le> trunc_us (t_ns at))"

definition kick_result ::
    "ExamAttempt \<Rightarrow> AttemptParticipation \<Rightarrow> AttemptConnection option \<Rightarrow> gtime \<Rightarrow> continuity" where
  "kick_result a p connection at = (Some (suspended at a), Some (ended AttemptParticipationEndKicked at p),
     map_option (closed AttemptConnectionCloseKicked at) connection)"

lemma SuspendByManager_cases:
  assumes int: "is_int64 (ea_Revision a)"
  shows "kick_ready a p connection at \<Longrightarrow>
      SuspendExamAttemptByManager (Some a, Some p, connection) at = (kick_result a p connection at, None)"
    and "\<not> kick_ready a p connection at \<Longrightarrow>
      \<exists>e. SuspendExamAttemptByManager (Some a, Some p, connection) at = ((Some a, Some p, connection), Some e)"
proof -
  let ?T = "trunc_us (t_ns at)"
  show "SuspendExamAttemptByManager (Some a, Some p, connection) at = (kick_result a p connection at, None)"
    if k: "kick_ready a p connection at"
  proof -
    from k have v: "ExamAttempt_Validate (Some a) = None" "AttemptParticipation_Validate (Some p) = None"
      by (simp_all add: kick_ready_def)
    have s: "ExamAttempt_Suspend (Some a) at = (Some (suspended at a), None)"
      using k v by (intro Suspend_valid(1) int) (auto simp: kick_ready_def ExamAttempt_Validate_ok)
    have e: "AttemptParticipation_End (Some p) AttemptParticipationEndKicked at =
        (Some (ended AttemptParticipationEndKicked at p), None)"
      using k v by (intro End_valid(1)) (auto simp: kick_ready_def AttemptParticipation_Validate_ok)
    have c: "AttemptConnection_Close (Some c) AttemptConnectionCloseKicked at =
        (Some (closed AttemptConnectionCloseKicked at c), None)" if "connection = Some c" for c
      using k that by (intro Close_valid(1)) (auto simp: kick_ready_def owned_def)
    show ?thesis using k
      by (cases connection) (simp_all add: SuspendExamAttemptByManager_def kick_ready_def kick_result_def
          owned_def time_ops s e c)
  qed
  show "\<exists>e. SuspendExamAttemptByManager (Some a, Some p, connection) at = ((Some a, Some p, connection), Some e)"
    if k: "\<not> kick_ready a p connection at"
  proof (cases "ExamAttempt_Validate (Some a) = None \<and> ea_State a = ExamAttemptActive
      \<and> t_ns (ea_UpdatedAt a) \<le> ?T \<and> ?T \<noteq> 0 \<and> ea_Revision a = maxInt64")
    case True
    then obtain e where "ExamAttempt_Suspend (Some a) at = (Some a, Some e)"
      using Suspend_valid(2) [of a at] int by auto
    then show ?thesis
      by (cases connection) (simp_all add: SuspendExamAttemptByManager_def Let_def)
  next
    case False
    with k int show ?thesis
      by (cases connection) (auto simp: SuspendExamAttemptByManager_def kick_ready_def owned_def time_ops
          is_int64_def Let_def)
  qed
qed

definition focus_result ::
    "ExamAttempt \<Rightarrow> AttemptParticipation \<Rightarrow> AttemptConnection \<Rightarrow> gtime \<Rightarrow> continuity" where
  "focus_result a p c at = (Some (suspended at a), Some (ended AttemptParticipationEndPolicySuspended at p),
     Some (closed AttemptConnectionClosePolicySuspended at c))"

lemma SuspendForFocusLoss_cases:
  assumes int: "is_int64 (ea_Revision a)"
  shows "submit_ready a p c at \<Longrightarrow>
      SuspendExamAttemptForFocusLoss (Some a, Some p, Some c) at = (focus_result a p c at, None)"
    and "\<not> submit_ready a p c at \<Longrightarrow>
      \<exists>e. SuspendExamAttemptForFocusLoss (Some a, Some p, Some c) at = ((Some a, Some p, Some c), Some e)"
proof -
  show "SuspendExamAttemptForFocusLoss (Some a, Some p, Some c) at = (focus_result a p c at, None)"
    if "submit_ready a p c at"
    using that int Suspend_valid(1) [of a at] End_valid(1) [of p AttemptParticipationEndPolicySuspended at]
      Close_valid(1) [of c AttemptConnectionClosePolicySuspended at]
    by (simp add: SuspendExamAttemptForFocusLoss_def submit_ready_def owned_def focus_result_def)
  show "\<exists>e. SuspendExamAttemptForFocusLoss (Some a, Some p, Some c) at = ((Some a, Some p, Some c), Some e)"
    if "\<not> submit_ready a p c at"
  proof (cases "owned a p c")
    case True
    then have val: "ExamAttempt_Validate (Some a) = None" "AttemptParticipation_Validate (Some p) = None"
      "AttemptConnection_Validate (Some c) = None" by (simp_all add: owned_def)
    show ?thesis
    proof (rule ccontr)
      assume no: "\<nexists>e. SuspendExamAttemptForFocusLoss (Some a, Some p, Some c) at = ((Some a, Some p, Some c), Some e)"
      have "\<nexists>e. ExamAttempt_Suspend (Some a) at = (Some a, Some e)"
        using no True by (auto simp: SuspendExamAttemptForFocusLoss_def)
      then have a: "ea_State a = ExamAttemptActive" "trunc_us (t_ns at) \<noteq> 0"
        "t_ns (ea_CreatedAt a) \<le> trunc_us (t_ns at)" "ea_Revision a < maxInt64"
        using Suspend_valid(2) [OF val(1) int, of at] by blast+
      note s = Suspend_valid(1) [OF val(1) int a]
      have "\<nexists>e. AttemptParticipation_End (Some p) AttemptParticipationEndPolicySuspended at = (Some p, Some e)"
        using no True s by (auto simp: SuspendExamAttemptForFocusLoss_def)
      then have p: "ap_State p = AttemptParticipationActive" "t_ns (ap_StartedAt p) \<le> trunc_us (t_ns at)"
        using End_valid(2) [OF val(2), of AttemptParticipationEndPolicySuspended at] a(2) by auto
      have e: "AttemptParticipation_End (Some p) AttemptParticipationEndPolicySuspended at =
          (Some (ended AttemptParticipationEndPolicySuspended at p), None)"
        using End_valid(1) [OF val(2)] p a(2) by simp
      have "\<nexists>e. AttemptConnection_Close (Some c) AttemptConnectionClosePolicySuspended at = (Some c, Some e)"
        using no True s e by (auto simp: SuspendExamAttemptForFocusLoss_def)
      then have "ac_State c = AttemptConnectionOpen" "t_ns (ac_OpenedAt c) \<le> trunc_us (t_ns at)"
        using Close_valid(2) [OF val(3), of AttemptConnectionClosePolicySuspended at] a(2) by auto
      with True a p that show False by (simp add: submit_ready_def)
    qed
  qed (simp add: SuspendExamAttemptForFocusLoss_def)
qed

section \<open>Every sequence of transitions\<close>

text \<open>
  The calls that the Store makes on one Participation generation: renewals, transport closes,
  re-allowing after a suspension, and the five coordinated transitions.
\<close>

datatype continuity_op =
    RenewLease int int gtime
  | CloseTransport gtime
  | ReallowAttempt gtime
  | SubmitAttempt gtime
  | SealAttempt gtime
  | EndAttempt gtime
  | KickAttempt gtime
  | SuspendForFocusLoss gtime

fun continuity_exec :: "continuity_op \<Rightarrow> continuity \<Rightarrow> continuity outcome" where
  "continuity_exec (RenewLease g n t) (a, p, c) =
     (case AttemptParticipation_Renew p g n t of (p', repeated, e) \<Rightarrow> ((a, p', c), e))"
| "continuity_exec (CloseTransport t) (a, p, c) =
     (case AttemptConnection_Close c AttemptConnectionCloseTransport t of (c', e) \<Rightarrow> ((a, p, c'), e))"
| "continuity_exec (ReallowAttempt t) (a, p, c) =
     (case ExamAttempt_Reallow a t of (a', e) \<Rightarrow> ((a', p, c), e))"
| "continuity_exec (SubmitAttempt t) st = SubmitExamAttempt st t"
| "continuity_exec (SealAttempt t) st = SealExamAttemptForSittingClose st t"
| "continuity_exec (EndAttempt t) st = EndExamAttemptByManager st t"
| "continuity_exec (KickAttempt t) st = SuspendExamAttemptByManager st t"
| "continuity_exec (SuspendForFocusLoss t) st = SuspendExamAttemptForFocusLoss st t"

text \<open>
  A consistent aggregate: valid records of one owner, no open Connection on an ended
  Participation, and no live continuity for an Attempt that is not active.
\<close>

definition continuity_wf :: "continuity \<Rightarrow> bool" where
  "continuity_wf st = (case st of
     (Some a, Some p, connection) \<Rightarrow>
       attempt_wf a \<and> participation_wf p \<and> ap_AttemptID p = ea_ID a
       \<and> (ea_State a \<noteq> ExamAttemptActive \<longrightarrow> ap_State p = AttemptParticipationEnded)
       \<and> (case connection of None \<Rightarrow> True | Some c \<Rightarrow> owned a p c
            \<and> (ap_State p = AttemptParticipationEnded \<longrightarrow> ac_State c = AttemptConnectionClosed))
   | _ \<Rightarrow> False)"

lemma continuity_exec_clean: "clean st (continuity_exec op st)"
proof -
  obtain a p c where st: "st = (a, p, c)" by (cases st)
  show ?thesis
  proof (cases op)
    case (RenewLease g n t)
    with st show ?thesis
      by (cases p) (auto simp: clean_def AttemptParticipation_Renew_def Let_def split: option.splits if_splits)
  next
    case (CloseTransport t)
    with st show ?thesis
      by (cases c) (auto simp: clean_def AttemptConnection_Close_def commit_def split: option.splits)
  next
    case (ReallowAttempt t)
    with st show ?thesis
      by (cases a) (auto simp: clean_def ExamAttempt_Reallow_def commit_def split: option.splits)
  next
    case (SubmitAttempt t)
    with st show ?thesis
      by (simp add: SubmitExamAttempt_def Let_def split: option.split prod.split)
  next
    case (SealAttempt t)
    with st show ?thesis
      by (simp add: SealExamAttemptForSittingClose_def close_unfinished_def Let_def
          split: option.split prod.split)
  next
    case (EndAttempt t)
    with st show ?thesis
      by (simp add: EndExamAttemptByManager_def close_unfinished_def Let_def
          split: option.split prod.split)
  next
    case (KickAttempt t)
    with st show ?thesis
      by (simp add: SuspendExamAttemptByManager_def Let_def split: option.split prod.split)
  next
    case (SuspendForFocusLoss t)
    with st show ?thesis
      by (simp add: SuspendExamAttemptForFocusLoss_def Let_def split: option.split prod.split)
  qed
qed

lemma ended_later_wf:
  assumes "participation_wf p" and "AttemptParticipationEndReason_IsValid r"
    and "t_ns (ap_StartedAt p) \<le> trunc_us (t_ns t)" and "canonical u" and "trunc_us (t_ns t) \<le> t_ns u"
  shows "participation_wf ((ended r t p)\<lparr>ap_UpdatedAt := u\<rparr>)"
  using assms by (auto simp: participation_wf_def AttemptParticipation_Validate_ok ended_def)

lemma ended_wf:
  assumes "participation_wf p" and "AttemptParticipationEndReason_IsValid r"
    and "t_ns (ap_StartedAt p) \<le> trunc_us (t_ns t)"
  shows "participation_wf (ended r t p)"
  using ended_later_wf [OF assms, of "TimeUTC t"] by (simp add: ended_def)

lemma closed_valid:
  assumes "AttemptConnection_Validate (Some c) = None" and "AttemptConnectionCloseReason_IsValid r"
    and "t_ns (ac_OpenedAt c) \<le> trunc_us (t_ns t)" and "trunc_us (t_ns t) \<noteq> 0"
  shows "AttemptConnection_Validate (Some (closed r t c)) = None"
  using assms by (auto simp: AttemptConnection_Validate_ok closed_def)

lemma suspended_wf:
  assumes "attempt_wf a" and "ea_State a = ExamAttemptActive" and "trunc_us (t_ns t) \<noteq> 0"
    and "t_ns (ea_CreatedAt a) \<le> trunc_us (t_ns t)" and "ea_Revision a < maxInt64"
  shows "attempt_wf (suspended t a)"
  using assms attempt_set_state_ok [of a ExamAttemptSuspended t]
  by (simp add: attempt_wf_def suspended_def IsUnresolved_def)

lemma submitted_wf:
  assumes "attempt_wf a" and "trunc_us (t_ns t) \<noteq> 0" and "trunc_us (t_ns t) \<le> t_ns u" and "t_ns u \<noteq> 0"
    and "t_ns (ea_CreatedAt a) \<le> trunc_us (t_ns t)" and "ea_Revision a < maxInt64"
  shows "attempt_wf (submitted t u a)"
  using assms submitted_valid [of a t u] by (simp add: attempt_wf_def) (simp add: submitted_def)

lemma transition_sels [simp]:
  "ea_ID (suspended t a) = ea_ID a" "ea_State (suspended t a) = ExamAttemptSuspended"
  "ea_ID (submitted t u a) = ea_ID a" "ea_State (submitted t u a) = ExamAttemptSubmitted"
  "ap_ID (ended r t p) = ap_ID p" "ap_AttemptID (ended r t p) = ap_AttemptID p"
  "ap_State (ended r t p) = AttemptParticipationEnded"
  "ac_AttemptID (closed q t c) = ac_AttemptID c" "ac_ParticipationID (closed q t c) = ac_ParticipationID c"
  "ac_State (closed q t c) = AttemptConnectionClosed"
  by (simp_all add: suspended_def submitted_def ended_def closed_def)

lemma owned_transfer:
  assumes "owned a p c" and "attempt_wf a'" and "participation_wf p'"
    and "AttemptConnection_Validate (Some c') = None" and "ea_ID a' = ea_ID a" and "ap_ID p' = ap_ID p"
    and "ap_AttemptID p' = ap_AttemptID p" and "ac_AttemptID c' = ac_AttemptID c"
    and "ac_ParticipationID c' = ac_ParticipationID c"
  shows "owned a' p' c'"
  using assms by (simp add: owned_def attempt_wf_def participation_wf_def)

lemma canonical_laterTime [simp]: "canonical x \<Longrightarrow> canonical y \<Longrightarrow> canonical (laterTime x y)"
  by (simp add: laterTime_def)

lemma continuity_Some:
  assumes "continuity_wf st"
  obtains a p connection where "st = (Some a, Some p, connection)" "attempt_wf a" "participation_wf p"
    "is_int64 (ea_Revision a)" "ap_AttemptID p = ea_ID a"
proof -
  obtain x y connection where st: "st = (x, y, connection)" by (cases st)
  with assms obtain a p where "x = Some a" "y = Some p"
    by (cases x; cases y) (simp_all add: continuity_wf_def)
  with st assms that show thesis by (simp add: continuity_wf_def attempt_wf_def)
qed

lemma submit_wf:
  assumes "continuity_wf (Some a, Some p, Some c)" and "submit_ready a p c t"
  shows "continuity_wf (submit_result a p c t)"
proof -
  have a: "attempt_wf (submitted t (laterTime (ea_UpdatedAt a) (TimeUTC t)) a)"
    using assms by (intro submitted_wf) (auto simp: continuity_wf_def submit_ready_def laterTime_ns
        attempt_wf_def ExamAttempt_Validate_ok max_def)
  have p: "participation_wf ((ended AttemptParticipationEndSubmitted t p)
      \<lparr>ap_UpdatedAt := laterTime (ap_UpdatedAt p) (TimeUTC t)\<rparr>)"
    using assms by (intro ended_later_wf) (auto simp: continuity_wf_def submit_ready_def laterTime_ns
        participation_wf_def)
  have c: "AttemptConnection_Validate (Some (closed AttemptConnectionCloseSubmitted t c)) = None"
    using assms by (intro closed_valid) (auto simp: submit_ready_def owned_def)
  have "owned a p c" using assms(2) by (simp add: submit_ready_def)
  from owned_transfer [OF this a p c] a p assms(1) show ?thesis
    by (simp add: submit_result_def continuity_wf_def)
qed

lemma focus_wf:
  assumes "continuity_wf (Some a, Some p, Some c)" and "submit_ready a p c t"
  shows "continuity_wf (focus_result a p c t)"
proof -
  have a: "attempt_wf (suspended t a)"
    using assms by (intro suspended_wf) (auto simp: continuity_wf_def submit_ready_def)
  have p: "participation_wf (ended AttemptParticipationEndPolicySuspended t p)"
    using assms by (intro ended_wf) (auto simp: continuity_wf_def submit_ready_def)
  have c: "AttemptConnection_Validate (Some (closed AttemptConnectionClosePolicySuspended t c)) = None"
    using assms by (intro closed_valid) (auto simp: submit_ready_def owned_def)
  have "owned a p c" using assms(2) by (simp add: submit_ready_def)
  from owned_transfer [OF this a p c] a p assms(1) show ?thesis
    by (simp add: focus_result_def continuity_wf_def)
qed

lemma kick_wf:
  assumes "continuity_wf (Some a, Some p, connection)" and "kick_ready a p connection t"
  shows "continuity_wf (kick_result a p connection t)"
proof -
  have a: "attempt_wf (suspended t a)"
    using assms by (intro suspended_wf) (auto simp: continuity_wf_def kick_ready_def ExamAttempt_Validate_ok)
  have p: "participation_wf (ended AttemptParticipationEndKicked t p)"
    using assms by (intro ended_wf) (auto simp: continuity_wf_def kick_ready_def AttemptParticipation_Validate_ok)
  show ?thesis
  proof (cases connection)
    case None
    with a p assms(1) show ?thesis by (simp add: kick_result_def continuity_wf_def)
  next
    case (Some c)
    have c: "AttemptConnection_Validate (Some (closed AttemptConnectionCloseKicked t c)) = None"
      using assms(2) Some by (intro closed_valid) (auto simp: kick_ready_def owned_def)
    have "owned a p c" using assms(2) Some by (simp add: kick_ready_def)
    from owned_transfer [OF this a p c] a p assms(1) Some show ?thesis
      by (simp add: kick_result_def continuity_wf_def)
  qed
qed

lemma closure_wf:
  assumes "continuity_wf (Some a, Some p, Some c)" and "closure_ready a p c t"
    and "AttemptParticipationEndReason_IsValid r" and "AttemptConnectionCloseReason_IsValid q"
  shows "continuity_wf (closure_result r q a p c t)"
proof -
  let ?p = "if ap_State p = AttemptParticipationActive then ended r t p else p"
  let ?c = "if ac_State c = AttemptConnectionOpen then closed q t c else c"
  have a: "attempt_wf (submitted t (TimeUTC t) a)"
    using assms(1,2) by (intro submitted_wf) (auto simp: continuity_wf_def closure_ready_def
        attempt_wf_def ExamAttempt_Validate_ok)
  have p: "participation_wf ?p"
  proof (cases "ap_State p = AttemptParticipationActive")
    case True
    have "participation_wf (ended r t p)" using assms(1,2,3)
      by (intro ended_wf) (auto simp: continuity_wf_def closure_ready_def owned_def
          AttemptParticipation_Validate_ok)
    with True show ?thesis by simp
  qed (use assms(1) in \<open>simp add: continuity_wf_def\<close>)
  have c: "AttemptConnection_Validate (Some ?c) = None"
    using assms(2,4) closed_valid [of c q t] by (auto simp: closure_ready_def owned_def)
  have st: "ap_State ?p = AttemptParticipationEnded" "ac_State ?c = AttemptConnectionClosed"
    using assms(2) by (auto simp: closure_ready_def owned_def AttemptParticipation_Validate_ok
        AttemptConnection_Validate_ok)
  have "owned a p c" using assms(2) by (simp add: closure_ready_def)
  from owned_transfer [OF this a p c] a p st assms(1) show ?thesis
    by (simp add: closure_result_def continuity_wf_def split del: if_split) (simp split: if_splits)
qed

text \<open>A successful call, by the transition that it made.\<close>

fun continuity_next :: "continuity_op \<Rightarrow> ExamAttempt \<Rightarrow> AttemptParticipation
    \<Rightarrow> AttemptConnection option \<Rightarrow> continuity \<Rightarrow> bool" where
  "continuity_next (RenewLease g n t) a p connection st \<longleftrightarrow>
     st = (Some a, Some (fst (participation_exec (RenewCall g n t) p)), connection)
     \<and> snd (participation_exec (RenewCall g n t) p) = None"
| "continuity_next (CloseTransport t) a p connection st \<longleftrightarrow> (\<exists>c. connection = Some c
     \<and> ac_State c = AttemptConnectionOpen
     \<and> AttemptConnection_Validate (Some (closed AttemptConnectionCloseTransport t c)) = None
     \<and> st = (Some a, Some p, Some (closed AttemptConnectionCloseTransport t c)))"
| "continuity_next (ReallowAttempt t) a p connection st \<longleftrightarrow>
     st = (Some (fst (attempt_exec (ReallowCall t) a)), Some p, connection)
     \<and> snd (attempt_exec (ReallowCall t) a) = None"
| "continuity_next (SubmitAttempt t) a p connection st \<longleftrightarrow>
     (\<exists>c. connection = Some c \<and> submit_ready a p c t \<and> st = submit_result a p c t)"
| "continuity_next (SealAttempt t) a p connection st \<longleftrightarrow>
     (\<exists>c. connection = Some c \<and> closure_ready a p c t \<and> st = closure_result
        AttemptParticipationEndSittingClosed AttemptConnectionCloseSittingClosed a p c t)"
| "continuity_next (EndAttempt t) a p connection st \<longleftrightarrow>
     (\<exists>c. connection = Some c \<and> closure_ready a p c t \<and> st = closure_result
        AttemptParticipationEndManagerEnded AttemptConnectionCloseManagerEnded a p c t)"
| "continuity_next (KickAttempt t) a p connection st \<longleftrightarrow>
     kick_ready a p connection t \<and> st = kick_result a p connection t"
| "continuity_next (SuspendForFocusLoss t) a p connection st \<longleftrightarrow>
     (\<exists>c. connection = Some c \<and> submit_ready a p c t \<and> st = focus_result a p c t)"

lemma nil_connection:
  "snd (SubmitExamAttempt (x, y, None) t) \<noteq> None"
  "snd (close_unfinished w m n r q (x, y, None) t) \<noteq> None"
  "snd (SuspendExamAttemptForFocusLoss (x, y, None) t) \<noteq> None"
  by (simp_all add: SubmitExamAttempt_def close_unfinished_def SuspendExamAttemptForFocusLoss_def Let_def
      split: option.split)

lemma Reallow_exec:
  "ExamAttempt_Reallow (Some a) t =
     (Some (fst (attempt_exec (ReallowCall t) a)), snd (attempt_exec (ReallowCall t) a))"
  by (simp add: attempt_exec_def ExamAttempt_Reallow_def)

lemma Renew_exec:
  "AttemptParticipation_Renew (Some p) g n t = (Some (fst (participation_exec (RenewCall g n t) p)),
     fst (snd (AttemptParticipation_Renew (Some p) g n t)), snd (participation_exec (RenewCall g n t) p))"
  by (auto simp: AttemptParticipation_Renew_def Let_def split: option.split)

lemma continuity_exec_success:
  assumes int: "is_int64 (ea_Revision a)"
    and ok: "snd (continuity_exec op (Some a, Some p, connection)) = None"
  shows "continuity_next op a p connection (fst (continuity_exec op (Some a, Some p, connection)))"
proof (cases op)
  case (RenewLease g n t)
  then show ?thesis using ok Renew_exec [of p g n t]
    by (cases "AttemptParticipation_Renew (Some p) g n t") auto
next
  case (CloseTransport t)
  with ok show ?thesis
    by (cases connection)
      (auto simp: AttemptConnection_Close_def closed_def commit_fst split: if_splits)
next
  case (ReallowAttempt t)
  with ok show ?thesis by (simp add: Reallow_exec)
next
  case (SubmitAttempt t)
  with ok obtain c where "connection = Some c" using nil_connection by (cases connection) auto
  with ok SubmitAttempt show ?thesis
    using Submit_cases [OF int, of p c t] by (cases "submit_ready a p c t") auto
next
  case (SealAttempt t)
  with ok obtain c where "connection = Some c"
    using nil_connection by (cases connection) (auto simp: SealExamAttemptForSittingClose_def)
  with ok SealAttempt show ?thesis
    using Seal_cases [OF int, of p c t] by (cases "closure_ready a p c t") auto
next
  case (EndAttempt t)
  with ok obtain c where "connection = Some c"
    using nil_connection by (cases connection) (auto simp: EndExamAttemptByManager_def)
  with ok EndAttempt show ?thesis
    using EndByManager_cases [OF int, of p c t] by (cases "closure_ready a p c t") auto
next
  case (KickAttempt t)
  with ok show ?thesis
    using SuspendByManager_cases [OF int, of p connection t] by (cases "kick_ready a p connection t") auto
next
  case (SuspendForFocusLoss t)
  with ok obtain c where "connection = Some c" using nil_connection by (cases connection) auto
  with ok SuspendForFocusLoss show ?thesis
    using SuspendForFocusLoss_cases [OF int, of p c t] by (cases "submit_ready a p c t") auto
qed

lemma renew_keeps_ids:
  assumes "participation_wf p" and "snd (participation_exec (RenewCall g n t) p) = None"
  shows "ap_ID (fst (participation_exec (RenewCall g n t) p)) = ap_ID p"
    "ap_AttemptID (fst (participation_exec (RenewCall g n t) p)) = ap_AttemptID p"
    "ap_State p = AttemptParticipationActive"
    "ap_State (fst (participation_exec (RenewCall g n t) p)) = AttemptParticipationActive"
  using assms by (cases rule: participation_exec_success; simp add: renewed_def renewable_def)+

lemma continuity_next_wf:
  assumes wf: "continuity_wf (Some a, Some p, connection)" and nx: "continuity_next op a p connection st"
  shows "continuity_wf st"
proof (cases op)
  case (RenewLease g n t)
  let ?p = "fst (participation_exec (RenewCall g n t) p)"
  from nx RenewLease wf have ok: "snd (participation_exec (RenewCall g n t) p) = None"
    and p: "participation_wf p" "attempt_wf a" by (simp_all add: continuity_wf_def)
  note r = renew_keeps_ids [OF p(1) ok]
  have p': "participation_wf ?p" by (rule lease.exec_wf [OF p(1)])
  have "owned a ?p c" if "owned a p c" for c
    using that owned_transfer [OF that p(2) p', of c] r by (simp add: owned_def)
  with nx RenewLease wf p' r show ?thesis by (auto simp: continuity_wf_def split: option.splits)
next
  case (CloseTransport t)
  with nx obtain c where c: "connection = Some c"
    "AttemptConnection_Validate (Some (closed AttemptConnectionCloseTransport t c)) = None"
    "st = (Some a, Some p, Some (closed AttemptConnectionCloseTransport t c))" by auto
  with wf show ?thesis by (simp add: continuity_wf_def owned_def)
next
  case (ReallowAttempt t)
  let ?a = "fst (attempt_exec (ReallowCall t) a)"
  from nx ReallowAttempt wf have ok: "snd (attempt_exec (ReallowCall t) a) = None"
    and p: "participation_wf p" "attempt_wf a" by (simp_all add: continuity_wf_def)
  have a': "attempt_wf ?a" by (rule attempt.exec_wf [OF p(2)])
  have s: "ea_State a = ExamAttemptSuspended" "ea_ID ?a = ea_ID a"
    using ok attempt_exec_ok [OF p(2), of "ReallowCall t"] by (simp_all add: attempt_exec_result attempt_next_def)
  have "owned ?a p c" if "owned a p c" for c
    using that owned_transfer [OF that a' p(1), of c] s by (simp add: owned_def)
  with nx ReallowAttempt wf a' s show ?thesis by (auto simp: continuity_wf_def split: option.splits)
next
  case (SubmitAttempt t)
  with nx wf show ?thesis by (auto intro: submit_wf)
next
  case (SealAttempt t)
  with nx wf show ?thesis by (auto intro!: closure_wf)
next
  case (EndAttempt t)
  with nx wf show ?thesis by (auto intro!: closure_wf)
next
  case (KickAttempt t)
  with nx wf show ?thesis by (auto intro: kick_wf)
next
  case (SuspendForFocusLoss t)
  with nx wf show ?thesis by (auto intro: focus_wf)
qed

lemma continuity_step:
  assumes "continuity_wf st" and "snd (continuity_exec op st) = None"
  obtains a p connection where "st = (Some a, Some p, connection)"
    "continuity_next op a p connection (fst (continuity_exec op st))"
  using assms continuity_exec_success by (elim continuity_Some) blast

interpretation continuity: aggregate continuity_exec continuity_wf
proof unfold_locales
  fix op st assume wf: "continuity_wf st" and "snd (continuity_exec op st) = None"
  then obtain a p connection where "st = (Some a, Some p, connection)"
    "continuity_next op a p connection (fst (continuity_exec op st))" by (rule continuity_step)
  with wf show "continuity_wf (fst (continuity_exec op st))" by (simp add: continuity_next_wf)
qed (rule cleanD [OF continuity_exec_clean])

definition continuity_state :: "continuity \<Rightarrow> ExamAttemptState" where
  "continuity_state st = ea_State (the (fst st))"

fun continuity_edge :: "ExamAttemptState \<Rightarrow> ExamAttemptState \<Rightarrow> bool" where
  "continuity_edge ExamAttemptActive q \<longleftrightarrow> q \<in> {ExamAttemptActive, ExamAttemptSuspended, ExamAttemptSubmitted}"
| "continuity_edge ExamAttemptSuspended q \<longleftrightarrow> q \<in> {ExamAttemptReady, ExamAttemptSubmitted}"
| "continuity_edge ExamAttemptReady q \<longleftrightarrow> q = ExamAttemptSubmitted"
| "continuity_edge _ q \<longleftrightarrow> False"

lemma continuity_next_edge:
  assumes "continuity_wf (Some a, Some p, connection)" and "continuity_next op a p connection st"
  shows "continuity_edge (ea_State a) (continuity_state st)"
proof (cases op)
  case (RenewLease g n t)
  then have "ap_State p = AttemptParticipationActive"
    using assms renew_keeps_ids(3) [of p g n t] by (simp add: continuity_wf_def)
  with RenewLease assms show ?thesis by (auto simp: continuity_wf_def continuity_state_def)
next
  case (CloseTransport t)
  with assms show ?thesis by (auto simp: continuity_wf_def continuity_state_def)
next
  case (ReallowAttempt t)
  with assms show ?thesis
    using attempt_exec_ok [of a "ReallowCall t"]
    by (simp add: continuity_wf_def continuity_state_def attempt_exec_result attempt_next_def)
qed (use assms(2) in \<open>auto simp: submit_ready_def submit_result_def closure_ready_def closure_result_def
  kick_ready_def kick_result_def focus_result_def IsUnresolved_def continuity_state_def\<close>)

interpretation continuity_life: lifecycle continuity_exec continuity_wf continuity_state continuity_edge
proof unfold_locales
  fix op st assume wf: "continuity_wf st" and "snd (continuity_exec op st) = None"
  then obtain a p connection where "st = (Some a, Some p, connection)"
    "continuity_next op a p connection (fst (continuity_exec op st))" by (rule continuity_step)
  with wf show "continuity_edge (continuity_state st) (continuity_state (fst (continuity_exec op st)))"
    by (simp add: continuity_next_edge continuity_state_def [of "(Some a, Some p, connection)"])
qed

section \<open>Properties\<close>

text \<open>C27. Voluntary submission succeeds exactly when the three records are valid and belong
  together, all are live, and the seal time (to the microsecond, not zero) does not precede the
  Attempt, the Participation or the Connection; a renewal that was committed after the seal
  time is not a reason to refuse.  On success all three become terminal at the seal time with
  the cause \<^verbatim>\<open>submitted\<close>, stay valid, and no update time moves backwards; on failure none
  of the three is touched.\<close>

theorem SubmitExamAttempt_exact:
  assumes "is_int64 (ea_Revision a)"
  shows "case SubmitExamAttempt (Some a, Some p, Some c) at of (st, e) \<Rightarrow>
     (e = None \<longleftrightarrow> owned a p c \<and> ea_State a = ExamAttemptActive
        \<and> ap_State p = AttemptParticipationActive \<and> ac_State c = AttemptConnectionOpen
        \<and> trunc_us (t_ns at) \<noteq> 0 \<and> t_ns (ea_CreatedAt a) \<le> trunc_us (t_ns at)
        \<and> t_ns (ap_StartedAt p) \<le> trunc_us (t_ns at) \<and> t_ns (ac_OpenedAt c) \<le> trunc_us (t_ns at)
        \<and> ea_Revision a < maxInt64)
     \<and> (e \<noteq> None \<longrightarrow> st = (Some a, Some p, Some c))
     \<and> (e = None \<longrightarrow> (\<exists>a' p' c'. st = (Some a', Some p', Some c')
        \<and> ea_State a' = ExamAttemptSubmitted \<and> ea_SubmittedAt a' = OptionalTimeFrom at
        \<and> ea_Revision a' = ea_Revision a + 1 \<and> t_ns (ea_UpdatedAt a) \<le> t_ns (ea_UpdatedAt a')
        \<and> ap_State p' = AttemptParticipationEnded \<and> ap_EndReason p' = AttemptParticipationEndSubmitted
        \<and> ap_EndedAt p' = OptionalTimeFrom at \<and> t_ns (ap_UpdatedAt p) \<le> t_ns (ap_UpdatedAt p')
        \<and> ac_State c' = AttemptConnectionClosed \<and> ac_CloseReason c' = AttemptConnectionCloseSubmitted
        \<and> ac_ClosedAt c' = OptionalTimeFrom at \<and> owned a' p' c'))"
proof (cases "submit_ready a p c at")
  case True
  note rd = True [unfolded submit_ready_def]
  let ?a = "submitted at (laterTime (ea_UpdatedAt a) (TimeUTC at)) a"
  let ?p = "(ended AttemptParticipationEndSubmitted at p)\<lparr>ap_UpdatedAt := laterTime (ap_UpdatedAt p) (TimeUTC at)\<rparr>"
  let ?c = "closed AttemptConnectionCloseSubmitted at c"
  have v: "ExamAttempt_Validate (Some ?a) = None"
    using rd assms submitted_valid [OF _ assms _ laterTime_bounds] by (simp add: owned_def)
  have "AttemptParticipation_Validate (Some ?p) = None"
    using rd by (intro ended_later_valid)
      (auto simp: owned_def laterTime_ns AttemptParticipation_Validate_ok max_def)
  with v rd have "owned ?a ?p ?c" by (simp add: owned_def closed_valid)
  moreover have "ea_Revision ?a = ea_Revision a + 1"
    using assms rd by (simp add: submitted_def inc64_below_max)
  ultimately show ?thesis
    using rd unfolding Submit_cases(1) [OF assms True] submit_result_def
    by (simp add: submitted_def ended_def closed_def laterTime_ns)
next
  case False
  then obtain e where "SubmitExamAttempt (Some a, Some p, Some c) at = ((Some a, Some p, Some c), Some e)"
    using Submit_cases(2) [OF assms] by blast
  with False show ?thesis by (auto simp: submit_ready_def)
qed

text \<open>C28. The two forced closures succeed exactly when the records are valid and belong
  together, the Attempt is unfinished, an ended Participation has no open Connection, and the
  closing time does not precede any of their update times.  The Attempt is then submitted at
  that time; a Participation or Connection that was still live receives the cause of the
  closure, one that had already ended keeps its own record unchanged; on failure nothing is
  touched.\<close>

theorem forced_closure_exact:
  assumes "is_int64 (ea_Revision a)"
    and "(f, r, q) \<in> {(SealExamAttemptForSittingClose, AttemptParticipationEndSittingClosed,
            AttemptConnectionCloseSittingClosed),
          (EndExamAttemptByManager, AttemptParticipationEndManagerEnded,
            AttemptConnectionCloseManagerEnded)}"
  shows "case f (Some a, Some p, Some c) at of (st, e) \<Rightarrow>
     (e = None \<longleftrightarrow> owned a p c \<and> IsUnresolved (ea_State a)
        \<and> (ap_State p = AttemptParticipationEnded \<longrightarrow> ac_State c = AttemptConnectionClosed)
        \<and> trunc_us (t_ns at) \<noteq> 0 \<and> t_ns (ea_UpdatedAt a) \<le> trunc_us (t_ns at)
        \<and> t_ns (ap_UpdatedAt p) \<le> trunc_us (t_ns at) \<and> t_ns (ac_OpenedAt c) \<le> trunc_us (t_ns at)
        \<and> ea_Revision a < maxInt64)
     \<and> (e \<noteq> None \<longrightarrow> st = (Some a, Some p, Some c))
     \<and> (e = None \<longrightarrow> st =
         (Some (a\<lparr>ea_State := ExamAttemptSubmitted, ea_SubmittedAt := OptionalTimeFrom at,
             ea_UpdatedAt := TimeUTC at, ea_Revision := inc64 (ea_Revision a)\<rparr>),
          Some (if ap_State p = AttemptParticipationActive
            then p\<lparr>ap_State := AttemptParticipationEnded, ap_EndReason := r,
                   ap_EndedAt := OptionalTimeFrom at, ap_UpdatedAt := TimeUTC at\<rparr> else p),
          Some (if ac_State c = AttemptConnectionOpen
            then c\<lparr>ac_State := AttemptConnectionClosed, ac_CloseReason := q,
                   ac_ClosedAt := OptionalTimeFrom at\<rparr> else c)))"
proof -
  have yes: "closure_ready a p c at \<Longrightarrow> f (Some a, Some p, Some c) at = (closure_result r q a p c at, None)"
    and no: "\<not> closure_ready a p c at \<Longrightarrow>
      \<exists>e. f (Some a, Some p, Some c) at = ((Some a, Some p, Some c), Some e)"
    using assms Seal_cases [OF assms(1), of p c at] EndByManager_cases [OF assms(1), of p c at] by auto
  show ?thesis
  proof (cases "closure_ready a p c at")
    case True
    note rd = True [unfolded closure_ready_def]
    show ?thesis using rd unfolding yes [OF True] closure_result_def
      by (simp add: submitted_def ended_def closed_def)
  next
    case False
    with no obtain e where "f (Some a, Some p, Some c) at = ((Some a, Some p, Some c), Some e)" by blast
    with False show ?thesis by (auto simp: closure_ready_def)
  qed
qed

text \<open>C29. Suspending is all or nothing.  The manager's kick succeeds exactly on a valid active
  Attempt with its own active Participation and, if there is a Connection, its own open
  Connection, at a time that does not precede their updates; the focus-loss suspension needs
  the Connection and only that the time does not precede the start of the three episodes.  In
  both cases the Attempt becomes suspended, the Participation ended and the Connection closed
  with the matching cause; otherwise nothing is touched.\<close>

theorem suspensions_exact:
  assumes "is_int64 (ea_Revision a)"
  shows "(case SuspendExamAttemptByManager (Some a, Some p, connection) at of (st, e) \<Rightarrow>
      (e = None \<longleftrightarrow> kick_ready a p connection at)
      \<and> st = (if e = None then (Some (suspended at a), Some (ended AttemptParticipationEndKicked at p),
           map_option (closed AttemptConnectionCloseKicked at) connection)
         else (Some a, Some p, connection)))
    \<and> (case SuspendExamAttemptForFocusLoss (Some a, Some p, Some c) at of (st, e) \<Rightarrow>
      (e = None \<longleftrightarrow> submit_ready a p c at)
      \<and> st = (if e = None then (Some (suspended at a),
           Some (ended AttemptParticipationEndPolicySuspended at p),
           Some (closed AttemptConnectionClosePolicySuspended at c))
         else (Some a, Some p, Some c)))"
proof
  show "case SuspendExamAttemptByManager (Some a, Some p, connection) at of (st, e) \<Rightarrow>
      (e = None \<longleftrightarrow> kick_ready a p connection at)
      \<and> st = (if e = None then (Some (suspended at a), Some (ended AttemptParticipationEndKicked at p),
           map_option (closed AttemptConnectionCloseKicked at) connection)
         else (Some a, Some p, connection))"
    using SuspendByManager_cases [OF assms, of p connection at]
    by (cases "kick_ready a p connection at") (auto simp: kick_result_def)
  show "case SuspendExamAttemptForFocusLoss (Some a, Some p, Some c) at of (st, e) \<Rightarrow>
      (e = None \<longleftrightarrow> submit_ready a p c at)
      \<and> st = (if e = None then (Some (suspended at a),
           Some (ended AttemptParticipationEndPolicySuspended at p),
           Some (closed AttemptConnectionClosePolicySuspended at c))
         else (Some a, Some p, Some c))"
    using SuspendForFocusLoss_cases [OF assms, of p c at]
    by (cases "submit_ready a p c at") (auto simp: focus_result_def)
qed

text \<open>C30. Whatever sequence of renewals, transport closes, re-allowances, suspensions and
  closures is applied to a consistent aggregate, it stays consistent: the records are valid and
  belong together, an Attempt that is not active has no active Participation and no open
  Connection; a submitted Attempt refuses every further call and never changes.\<close>

theorem continuity_safety:
  assumes "continuity_wf st" and "run continuity_exec ops st = (Some a, Some p, connection)"
  shows "ExamAttempt_Validate (Some a) = None \<and> AttemptParticipation_Validate (Some p) = None
    \<and> ap_AttemptID p = ea_ID a
    \<and> (ea_State a \<noteq> ExamAttemptActive \<longrightarrow> ap_State p = AttemptParticipationEnded)
    \<and> (\<forall>c. connection = Some c \<longrightarrow> owned a p c
        \<and> (ea_State a \<noteq> ExamAttemptActive \<longrightarrow> ac_State c = AttemptConnectionClosed))
    \<and> (ea_State a = ExamAttemptSubmitted \<longrightarrow>
        (\<forall>op. snd (continuity_exec op (Some a, Some p, connection)) \<noteq> None)
        \<and> (\<forall>ops'. run continuity_exec ops' (Some a, Some p, connection) = (Some a, Some p, connection)))"
proof -
  have wf: "continuity_wf (Some a, Some p, connection)"
    using continuity.run_wf [OF assms(1), of ops] assms(2) by simp
  moreover have "\<not> continuity_edge (continuity_state (Some a, Some p, connection)) s"
    if "ea_State a = ExamAttemptSubmitted" for s
    using that by (simp add: continuity_state_def)
  ultimately show ?thesis
    using continuity_life.final_stays [OF wf]
    by (auto simp: continuity_wf_def attempt_wf_def participation_wf_def)
qed

section \<open>Instances\<close>

definition sample_connection :: AttemptConnection where
  "sample_connection = \<lparr>ac_ID = replicate 26 CHR ''h'', ac_AttemptID = replicate 26 CHR ''a'',
     ac_ParticipationID = replicate 26 CHR ''f'', ac_SessionID = replicate 26 CHR ''g'',
     ac_State = AttemptConnectionOpen, ac_OpenedAt = sample_instant 11, ac_ClosedAt = no_time,
     ac_CloseReason = AttemptConnectionCloseNone\<rparr>"

lemma sample_owned: "owned sample_attempt sample_participation sample_connection"
  using sample_attempt_wf sample_participation_wf
  by (simp add: owned_def attempt_wf_def participation_wf_def)
    (simp add: sample_attempt_def sample_participation_def sample_connection_def
      AttemptConnection_Validate_ok)

lemma sample_attempt_int64: "is_int64 (ea_Revision sample_attempt)"
  by (simp add: sample_attempt_def int64_defs)

lemma sample_states:
  "ea_State sample_attempt = ExamAttemptActive" "ap_State sample_participation = AttemptParticipationActive"
  "ac_State sample_connection = AttemptConnectionOpen" "ea_Revision sample_attempt = 1"
  "ea_CreatedAt sample_attempt = sample_instant 10" "ea_UpdatedAt sample_attempt = sample_instant 10"
  "ap_StartedAt sample_participation = sample_instant 10"
  "ap_UpdatedAt sample_participation = sample_instant 10"
  "ac_OpenedAt sample_connection = sample_instant 11"
  "ap_AttemptID sample_participation = ea_ID sample_attempt"
  by (simp_all add: sample_attempt_def sample_participation_def sample_connection_def)

lemma sample_continuity_wf:
  "continuity_wf (Some sample_attempt, Some sample_participation, Some sample_connection)"
  using sample_attempt_wf sample_participation_wf sample_owned
  by (simp add: continuity_wf_def sample_states)

theorem SubmitExamAttempt_exact_witness:
  "snd (SubmitExamAttempt (Some sample_attempt, Some sample_participation, Some sample_connection)
     (sample_instant 12)) = None
   \<and> snd (SubmitExamAttempt (Some sample_attempt, Some sample_participation, Some sample_connection)
     (sample_instant 9)) \<noteq> None"
  using SubmitExamAttempt_exact [OF sample_attempt_int64, of sample_participation sample_connection "sample_instant 12"]
    SubmitExamAttempt_exact [OF sample_attempt_int64, of sample_participation sample_connection "sample_instant 9"]
  by (auto simp: sample_owned sample_states int64_defs split: prod.splits)

theorem forced_closure_exact_witness:
  "snd (SealExamAttemptForSittingClose (Some sample_attempt, Some sample_participation, Some sample_connection)
     (sample_instant 12)) = None
   \<and> snd (EndExamAttemptByManager (Some sample_attempt, Some sample_participation, Some sample_connection)
     (sample_instant 10)) \<noteq> None"
  using forced_closure_exact [OF sample_attempt_int64, of SealExamAttemptForSittingClose
      AttemptParticipationEndSittingClosed AttemptConnectionCloseSittingClosed
      sample_participation sample_connection "sample_instant 12"]
    forced_closure_exact [OF sample_attempt_int64, of EndExamAttemptByManager
      AttemptParticipationEndManagerEnded AttemptConnectionCloseManagerEnded
      sample_participation sample_connection "sample_instant 10"]
  by (auto simp: sample_owned sample_states int64_defs IsUnresolved_def split: prod.splits)

theorem suspensions_exact_witness:
  "snd (SuspendExamAttemptByManager (Some sample_attempt, Some sample_participation, None)
     (sample_instant 12)) = None
   \<and> snd (SuspendExamAttemptForFocusLoss (Some sample_attempt, Some sample_participation,
     Some sample_connection) (sample_instant 10)) \<noteq> None"
  using suspensions_exact [OF sample_attempt_int64, of sample_participation None "sample_instant 12" sample_connection]
    suspensions_exact [OF sample_attempt_int64, of sample_participation None "sample_instant 10" sample_connection]
    sample_owned
  by (auto simp: kick_ready_def submit_ready_def sample_states int64_defs owned_def split: prod.splits)

theorem continuity_safety_witness:
  "continuity_wf (Some sample_attempt, Some sample_participation, Some sample_connection)
   \<and> (\<exists>a p c. run continuity_exec [KickAttempt (sample_instant 12), ReallowAttempt (sample_instant 13)]
        (Some sample_attempt, Some sample_participation, Some sample_connection) = (Some a, Some p, c)
      \<and> ExamAttempt_Validate (Some a) = None)"
proof -
  let ?st = "(Some sample_attempt, Some sample_participation, Some sample_connection)"
  let ?ops = "[KickAttempt (sample_instant 12), ReallowAttempt (sample_instant 13)]"
  have "continuity_wf (run continuity_exec ?ops ?st)" by (rule continuity.run_wf [OF sample_continuity_wf])
  then obtain a p c where "run continuity_exec ?ops ?st = (Some a, Some p, c)" by (rule continuity_Some)
  with continuity_safety [OF sample_continuity_wf this] sample_continuity_wf show ?thesis by blast
qed

end
