(* ===== verification/Workspace.thy ===== *)
theory Workspace
  imports Instants Text
begin

text \<open>
  Workspace contents: \<^verbatim>\<open>server/model/exam_capacity_policy.go\<close>,
  \<^verbatim>\<open>exam_starter_workspace.go\<close>, \<^verbatim>\<open>exam_attempt_workspace.go\<close> and the Workspace part of
  \<^verbatim>\<open>exam_attempt.go\<close>: logical paths, starter entries and objects, the Attempt Workspace with
  its cursor, its content objects with their cleanup lifecycle, and the journal.
\<close>

section \<open>Capacity policy\<close>

definition ExamResourceMaximumCount :: int where "ExamResourceMaximumCount = 100"
definition ExamResourceMaximumBytes :: int where "ExamResourceMaximumBytes = 100 * 2 ^ 20"
definition ExamWorkspaceMaximumEntries :: int where "ExamWorkspaceMaximumEntries = 5000"
definition ExamWorkspaceMaximumFileBytes :: int where "ExamWorkspaceMaximumFileBytes = 100 * 2 ^ 20"
definition ExamWorkspaceMaximumTotalBytes :: int where "ExamWorkspaceMaximumTotalBytes = 2 ^ 30"

lemmas capacity_limits = ExamResourceMaximumCount_def ExamResourceMaximumBytes_def
  ExamWorkspaceMaximumEntries_def ExamWorkspaceMaximumFileBytes_def ExamWorkspaceMaximumTotalBytes_def

record ExamCapacityPolicy =
  cp_ResourceMaximumCount :: int
  cp_ResourceMaximumBytes :: int
  cp_WorkspaceMaximumEntries :: int
  cp_WorkspaceMaximumFileBytes :: int
  cp_WorkspaceMaximumTotalBytes :: int

definition DefaultExamCapacityPolicy :: ExamCapacityPolicy where
  "DefaultExamCapacityPolicy = \<lparr>cp_ResourceMaximumCount = 10, cp_ResourceMaximumBytes = 10 * 2 ^ 20,
     cp_WorkspaceMaximumEntries = 500, cp_WorkspaceMaximumFileBytes = 10 * 2 ^ 20,
     cp_WorkspaceMaximumTotalBytes = 50 * 2 ^ 20\<rparr>"

definition ExamCapacityPolicy_IsZero :: "ExamCapacityPolicy \<Rightarrow> bool" where
  "ExamCapacityPolicy_IsZero p \<longleftrightarrow> p = \<lparr>cp_ResourceMaximumCount = 0, cp_ResourceMaximumBytes = 0,
     cp_WorkspaceMaximumEntries = 0, cp_WorkspaceMaximumFileBytes = 0, cp_WorkspaceMaximumTotalBytes = 0\<rparr>"

definition ExamCapacityPolicy_Validate :: "ExamCapacityPolicy \<Rightarrow> go_error option" where
  "ExamCapacityPolicy_Validate p =
     (let err = (\<lambda>reason. Some (invalidModelError ''ExamCapacityPolicy.Validate'' ''exam_capacity_policy'' [] reason []))
      in if cp_ResourceMaximumCount p < 1 \<or> cp_ResourceMaximumCount p > ExamResourceMaximumCount then
           err ''Exam resource maximum count must be between 1 and 100''
         else if cp_ResourceMaximumBytes p < 1 \<or> cp_ResourceMaximumBytes p > ExamResourceMaximumBytes then
           err ''Exam resource maximum bytes must be between 1 and 104857600''
         else if cp_WorkspaceMaximumEntries p < 1 \<or> cp_WorkspaceMaximumEntries p > ExamWorkspaceMaximumEntries then
           err ''Exam Workspace maximum entries must be between 1 and 5000''
         else if cp_WorkspaceMaximumFileBytes p < 1 \<or> cp_WorkspaceMaximumFileBytes p > ExamWorkspaceMaximumFileBytes then
           err ''Exam Workspace file maximum bytes must be between 1 and 104857600''
         else if cp_WorkspaceMaximumTotalBytes p < cp_WorkspaceMaximumFileBytes p
           \<or> cp_WorkspaceMaximumTotalBytes p > ExamWorkspaceMaximumTotalBytes then
           err ''Exam Workspace total maximum bytes must be between the file limit and 1073741824''
         else None)"

section \<open>Logical paths\<close>

definition StarterWorkspaceMaximumDepth :: nat where "StarterWorkspaceMaximumDepth = 16"
definition StarterWorkspaceMaximumSegmentBytes :: nat where "StarterWorkspaceMaximumSegmentBytes = 255"
definition StarterWorkspaceMaximumPathBytes :: nat where "StarterWorkspaceMaximumPathBytes = 1024"

text \<open>\<^verbatim>\<open>strings.Split(value, "/")\<close>: at least one segment, empty ones included.\<close>

abbreviation split_slash :: "string \<Rightarrow> string list" where "split_slash \<equiv> strings_Split CHR ''/''"

definition starter_path_error :: go_error where
  "starter_path_error = invalidModelError ''NormalizeStarterWorkspacePath'' ''exam_starter_workspace'' []
     ''invalid Starter Workspace path'' []"

definition bad_segment :: "string \<Rightarrow> bool" where
  "bad_segment segment \<longleftrightarrow> segment = [] \<or> segment = ''.'' \<or> segment = ''..''
     \<or> length segment > StarterWorkspaceMaximumSegmentBytes
     \<or> list_ex (\<lambda>(character, bs). IsControl character) (chunks (bytes_of segment))"

definition NormalizeStarterWorkspacePath :: "string \<Rightarrow> string \<times> go_error option" where
  "NormalizeStarterWorkspacePath value =
     (if value = [] \<or> \<not> ValidString value \<or> length value > StarterWorkspaceMaximumPathBytes
        \<or> hd value = CHR ''/'' \<or> last value = CHR ''/'' \<or> CHR 0x5C \<in> set value then
        ([], Some starter_path_error)
      else let segments = split_slash value in
        if length segments > StarterWorkspaceMaximumDepth \<or> hd segments = ''.proctor'' then
          ([], Some starter_path_error)
        else if list_ex bad_segment segments then ([], Some starter_path_error)
        else (value, None))"

definition NormalizeAttemptWorkspacePath :: "string \<Rightarrow> string \<times> go_error option" where
  "NormalizeAttemptWorkspacePath value = NormalizeStarterWorkspacePath value"

text \<open>The check \<^verbatim>\<open>normalized, err := Normalize...(p); err == nil && normalized == p\<close>.\<close>

definition canonical_path :: "string \<Rightarrow> bool" where
  "canonical_path p \<longleftrightarrow> (case NormalizeStarterWorkspacePath p of (normalized, err) \<Rightarrow> err = None \<and> normalized = p)"

text \<open>\<^verbatim>\<open>server/model/file.go\<close>: a content version matches \<^verbatim>\<open>^[A-Za-z0-9_-]{26}$\<close>.\<close>

definition version_char :: "char \<Rightarrow> bool" where
  "version_char c \<longleftrightarrow> (CHR ''A'' \<le> c \<and> c \<le> CHR ''Z'') \<or> (CHR ''a'' \<le> c \<and> c \<le> CHR ''z'')
     \<or> (CHR ''0'' \<le> c \<and> c \<le> CHR ''9'') \<or> c = CHR ''_'' \<or> c = CHR ''-''"

definition WorkspaceContentVersion_IsValid :: "string \<Rightarrow> bool" where
  "WorkspaceContentVersion_IsValid v \<longleftrightarrow> length v = 26 \<and> list_all version_char v"

section \<open>Starter Workspace\<close>

datatype StarterWorkspaceEntryKind =
    StarterWorkspaceEntryFile
  | StarterWorkspaceEntryDirectory
  | StarterWorkspaceEntryKindOther string

record StarterWorkspaceEntry =
  se_ID :: string
  se_ExamID :: string
  se_Kind :: StarterWorkspaceEntryKind
  se_Path :: string
  se_CurrentObjectID :: string
  se_CreatedAt :: gtime
  se_UpdatedAt :: gtime
  se_ArchivedAt :: optional_time

definition StarterWorkspaceEntry_Validate :: "StarterWorkspaceEntry option \<Rightarrow> go_error option" where
  "StarterWorkspaceEntry_Validate v =
     (let err = (\<lambda>reason. Some (invalidModelError ''StarterWorkspaceEntry.Validate'' ''starter_workspace_entry'' [] reason []))
      in case v of None \<Rightarrow> err ''invalid Starter Workspace entry''
       | Some e \<Rightarrow>
         if \<not> IsValidOpaqueID (se_ID e) \<or> \<not> IsValidOpaqueID (se_ExamID e) \<or> IsZero (se_CreatedAt e)
           \<or> IsZero (se_UpdatedAt e) \<or> Before (se_UpdatedAt e) (se_CreatedAt e) then
           err ''invalid Starter Workspace entry''
         else if \<not> canonical_path (se_Path e) then err ''invalid Starter Workspace entry path''
         else if ot_Valid (se_ArchivedAt e) \<and> Before (ot_Time (se_ArchivedAt e)) (se_CreatedAt e) then
           err ''invalid Starter Workspace entry lifecycle''
         else case se_Kind e of
           StarterWorkspaceEntryFile \<Rightarrow>
             if \<not> ot_Valid (se_ArchivedAt e) \<and> \<not> IsValidOpaqueID (se_CurrentObjectID e) then
               err ''Starter Workspace file requires a current object''
             else if ot_Valid (se_ArchivedAt e) \<and> se_CurrentObjectID e \<noteq> [] \<and> \<not> IsValidOpaqueID (se_CurrentObjectID e) then
               err ''Starter Workspace archived file has an invalid object''
             else None
         | StarterWorkspaceEntryDirectory \<Rightarrow>
             if se_CurrentObjectID e \<noteq> [] then err ''Starter Workspace directory cannot have content'' else None
         | StarterWorkspaceEntryKindOther _ \<Rightarrow> err ''invalid Starter Workspace entry kind'')"

definition newStarterWorkspaceEntry ::
    "string \<Rightarrow> string \<Rightarrow> StarterWorkspaceEntryKind \<Rightarrow> string \<Rightarrow> string \<Rightarrow> gtime
       \<Rightarrow> StarterWorkspaceEntry option \<times> go_error option" where
  "newStarterWorkspaceEntry ident examID kind path objectID at =
     (case NormalizeStarterWorkspacePath path of
        (_, Some e) \<Rightarrow> (None, Some e)
      | (normalized, None) \<Rightarrow>
        let entry = \<lparr>se_ID = ident, se_ExamID = examID, se_Kind = kind, se_Path = normalized,
              se_CurrentObjectID = objectID, se_CreatedAt = TimeUTC at, se_UpdatedAt = TimeUTC at,
              se_ArchivedAt = no_time\<rparr>
        in case StarterWorkspaceEntry_Validate (Some entry) of
             Some e \<Rightarrow> (None, Some e)
           | None \<Rightarrow> (Some entry, None))"

definition NewStarterWorkspaceDirectory ::
    "string \<Rightarrow> string \<Rightarrow> string \<Rightarrow> gtime \<Rightarrow> StarterWorkspaceEntry option \<times> go_error option" where
  "NewStarterWorkspaceDirectory ident examID path at =
     newStarterWorkspaceEntry ident examID StarterWorkspaceEntryDirectory path [] at"

definition NewStarterWorkspaceFile ::
    "string \<Rightarrow> string \<Rightarrow> string \<Rightarrow> string \<Rightarrow> gtime \<Rightarrow> StarterWorkspaceEntry option \<times> go_error option" where
  "NewStarterWorkspaceFile ident examID path objectID at =
     newStarterWorkspaceEntry ident examID StarterWorkspaceEntryFile path objectID at"

datatype StarterWorkspaceObjectState =
    StarterWorkspaceObjectStaged
  | StarterWorkspaceObjectCurrent
  | StarterWorkspaceObjectReclaimable
  | StarterWorkspaceObjectClaimed
  | StarterWorkspaceObjectStateOther string

record StarterWorkspaceObject =
  so_ID :: string
  so_ExamID :: string
  so_CreatedByUserID :: string
  so_CreatedAt :: gtime
  so_UpdatedAt :: gtime
  so_ExpiresAt :: gtime
  so_State :: StarterWorkspaceObjectState
  so_ContentVersion :: string
  so_MediaType :: string
  so_SizeBytes :: int
  so_SHA256 :: string
  so_ReclaimAfter :: optional_time
  so_ClaimToken :: string
  so_ClaimedAt :: optional_time

definition so_hasContent :: "StarterWorkspaceObject \<Rightarrow> bool" where
  "so_hasContent ob \<longleftrightarrow> so_ContentVersion ob \<noteq> [] \<or> so_MediaType ob \<noteq> [] \<or> so_SizeBytes ob \<noteq> 0 \<or> so_SHA256 ob \<noteq> []"

definition StarterWorkspaceObject_Validate :: "StarterWorkspaceObject option \<Rightarrow> go_error option" where
  "StarterWorkspaceObject_Validate v =
     (let err = (\<lambda>reason. Some (invalidModelError ''StarterWorkspaceObject.Validate'' ''starter_workspace_object'' [] reason []))
      in case v of None \<Rightarrow> err ''invalid Starter Workspace object''
       | Some ob \<Rightarrow>
         if \<not> IsValidOpaqueID (so_ID ob) \<or> \<not> IsValidOpaqueID (so_ExamID ob)
           \<or> \<not> IsValidOpaqueID (so_CreatedByUserID ob) \<or> IsZero (so_CreatedAt ob) \<or> IsZero (so_UpdatedAt ob)
           \<or> IsZero (so_ExpiresAt ob) \<or> Before (so_UpdatedAt ob) (so_CreatedAt ob)
           \<or> \<not> After (so_ExpiresAt ob) (so_CreatedAt ob) then err ''invalid Starter Workspace object''
         else if so_State ob = StarterWorkspaceObjectStaged then
           (if so_hasContent ob \<or> ot_Valid (so_ReclaimAfter ob) \<or> ot_Valid (so_ClaimedAt ob) \<or> so_ClaimToken ob \<noteq> []
            then err ''invalid staged Starter Workspace object'' else None)
         else if so_State ob \<noteq> StarterWorkspaceObjectCurrent \<and> so_State ob \<noteq> StarterWorkspaceObjectReclaimable
           \<and> so_State ob \<noteq> StarterWorkspaceObjectClaimed then err ''invalid Starter Workspace object state''
         else if so_hasContent ob \<and> (\<not> WorkspaceContentVersion_IsValid (so_ContentVersion ob) \<or> so_MediaType ob = []
           \<or> TrimSpace (so_MediaType ob) \<noteq> so_MediaType ob \<or> length (so_MediaType ob) > 255
           \<or> so_SizeBytes ob < 0 \<or> so_SizeBytes ob > ExamWorkspaceMaximumFileBytes \<or> length (so_SHA256 ob) \<noteq> 64) then
           err ''invalid Starter Workspace object content''
         else if so_hasContent ob \<and> \<not> hex_decodes (so_SHA256 ob) then err ''invalid Starter Workspace checksum''
         else if so_State ob = StarterWorkspaceObjectCurrent then
           (if \<not> so_hasContent ob then err ''current Starter Workspace object requires content''
            else if ot_Valid (so_ReclaimAfter ob) \<or> ot_Valid (so_ClaimedAt ob) \<or> so_ClaimToken ob \<noteq> [] then
              err ''current Starter Workspace object cannot be claimed''
            else None)
         else if \<not> ot_Valid (so_ReclaimAfter ob) then err ''reclaimable Starter Workspace object requires a deadline''
         else if so_State ob = StarterWorkspaceObjectReclaimable \<and> (ot_Valid (so_ClaimedAt ob) \<or> so_ClaimToken ob \<noteq> []) then
           err ''unclaimed Starter Workspace object has claim metadata''
         else if so_State ob = StarterWorkspaceObjectClaimed
           \<and> (\<not> ot_Valid (so_ClaimedAt ob) \<or> TrimSpace (so_ClaimToken ob) = []) then
           err ''claimed Starter Workspace object requires claim metadata''
         else None)"

definition NewStagedStarterWorkspaceObject ::
    "string \<Rightarrow> string \<Rightarrow> string \<Rightarrow> gtime \<Rightarrow> gtime \<Rightarrow> StarterWorkspaceObject option \<times> go_error option" where
  "NewStagedStarterWorkspaceObject ident examID actorID at expiresAt =
     (let ob = \<lparr>so_ID = ident, so_ExamID = examID, so_CreatedByUserID = actorID, so_CreatedAt = TimeUTC at,
            so_UpdatedAt = TimeUTC at, so_ExpiresAt = TimeUTC expiresAt, so_State = StarterWorkspaceObjectStaged,
            so_ContentVersion = [], so_MediaType = [], so_SizeBytes = 0, so_SHA256 = [],
            so_ReclaimAfter = no_time, so_ClaimToken = [], so_ClaimedAt = no_time\<rparr>
      in case StarterWorkspaceObject_Validate (Some ob) of
           Some e \<Rightarrow> (None, Some e)
         | None \<Rightarrow> (Some ob, None))"

definition StarterWorkspaceObject_MarkCurrent ::
    "StarterWorkspaceObject option \<Rightarrow> string \<Rightarrow> string \<Rightarrow> int \<Rightarrow> string \<Rightarrow> gtime
       \<Rightarrow> StarterWorkspaceObject option outcome" where
  "StarterWorkspaceObject_MarkCurrent v version mediaType sizeBytes checksum at =
     (let err = invalidModelError ''StarterWorkspaceObject.MarkCurrent'' ''starter_workspace_object'' []
            ''only a staged Starter Workspace object can become current'' []
      in on_receiver v err (\<lambda>ob.
        if so_State ob \<noteq> StarterWorkspaceObjectStaged then (ob, Some err)
        else commit StarterWorkspaceObject_Validate ob (ob\<lparr>so_State := StarterWorkspaceObjectCurrent,
          so_ContentVersion := version, so_MediaType := TrimSpace mediaType, so_SizeBytes := sizeBytes,
          so_SHA256 := ToLower checksum, so_UpdatedAt := TimeUTC at\<rparr>)))"

section \<open>Attempt Workspace\<close>

record ExamAttemptWorkspace =
  aw_ID :: string
  aw_AttemptID :: string
  aw_Cursor :: int
  aw_CreatedAt :: gtime
  aw_UpdatedAt :: gtime

definition ExamAttemptWorkspace_Validate :: "ExamAttemptWorkspace option \<Rightarrow> go_error option" where
  "ExamAttemptWorkspace_Validate v =
     (let err = Some (invalidModelError ''ExamAttemptWorkspace.Validate'' ''exam_attempt_workspace'' []
            ''invalid Exam Attempt Workspace'' [])
      in case v of None \<Rightarrow> err
       | Some w \<Rightarrow> if \<not> IsValidOpaqueID (aw_ID w) \<or> \<not> IsValidOpaqueID (aw_AttemptID w) \<or> aw_Cursor w < 0
           \<or> IsZero (aw_CreatedAt w) \<or> IsZero (aw_UpdatedAt w) \<or> Before (aw_UpdatedAt w) (aw_CreatedAt w)
           then err else None)"

definition NewExamAttemptWorkspace ::
    "string \<Rightarrow> string \<Rightarrow> gtime \<Rightarrow> ExamAttemptWorkspace option \<times> go_error option" where
  "NewExamAttemptWorkspace ident attemptID at =
     (let workspace = \<lparr>aw_ID = ident, aw_AttemptID = attemptID, aw_Cursor = 0, aw_CreatedAt = TimeUTC at,
            aw_UpdatedAt = TimeUTC at\<rparr>
      in case ExamAttemptWorkspace_Validate (Some workspace) of
           Some e \<Rightarrow> (None, Some e)
         | None \<Rightarrow> (Some workspace, None))"

definition AdvanceCursor :: "ExamAttemptWorkspace option \<Rightarrow> int \<Rightarrow> gtime \<Rightarrow> ExamAttemptWorkspace option outcome" where
  "AdvanceCursor v expected at =
     (let err = (\<lambda>reason. invalidModelError ''ExamAttemptWorkspace.AdvanceCursor'' ''exam_attempt_workspace'' [] reason [])
      in on_receiver v (err ''stale Attempt Workspace cursor'') (\<lambda>w.
        if expected \<noteq> aw_Cursor w \<or> expected = maxInt64 then (w, Some (err ''stale Attempt Workspace cursor''))
        else if Before (TimeUTC at) (aw_UpdatedAt w) then (w, Some (err ''Attempt Workspace time regressed''))
        else commit ExamAttemptWorkspace_Validate w
          (w\<lparr>aw_Cursor := wrap64 (expected + 1), aw_UpdatedAt := TimeUTC at\<rparr>)))"

datatype AttemptWorkspaceObjectStorage =
    AttemptWorkspaceStorageNone
  | AttemptWorkspaceStorageStarter
  | AttemptWorkspaceStorageAttempt
  | AttemptWorkspaceStorageOther string

datatype AttemptWorkspaceObjectState =
    AttemptWorkspaceObjectStaged
  | AttemptWorkspaceObjectCurrent
  | AttemptWorkspaceObjectReclaimable
  | AttemptWorkspaceObjectClaimed
  | AttemptWorkspaceObjectStateOther string

definition AttemptWorkspaceClaimTokenMaxBytes :: nat where "AttemptWorkspaceClaimTokenMaxBytes = 128"

record AttemptWorkspaceContent =
  wc_MediaType :: string
  wc_SizeBytes :: int
  wc_SHA256 :: string

definition AttemptWorkspaceContent_Validate :: "AttemptWorkspaceContent \<Rightarrow> go_error option" where
  "AttemptWorkspaceContent_Validate c =
     (if wc_MediaType c = [] \<or> TrimSpace (wc_MediaType c) \<noteq> wc_MediaType c \<or> length (wc_MediaType c) > 255
        \<or> wc_SizeBytes c < 0 \<or> wc_SizeBytes c > ExamWorkspaceMaximumFileBytes
        \<or> \<not> validLowerSHA256 (wc_SHA256 c) then
        Some (invalidModelError ''AttemptWorkspaceContent.Validate'' ''attempt_workspace_content'' []
          ''invalid Attempt Workspace content'' [])
      else None)"

record AttemptWorkspaceObject =
  wo_ID :: string
  wo_WorkspaceID :: string
  wo_StorageOrigin :: AttemptWorkspaceObjectStorage
  wo_StarterObjectID :: string
  wo_State :: AttemptWorkspaceObjectState
  wo_ContentVersion :: string
  wo_MediaType :: string
  wo_SizeBytes :: int
  wo_SHA256 :: string
  wo_CreatedAt :: gtime
  wo_UpdatedAt :: gtime
  wo_ExpiresAt :: gtime
  wo_ReclaimAfter :: optional_time
  wo_ClaimToken :: string
  wo_ClaimedAt :: optional_time

definition hasAnyContent :: "AttemptWorkspaceObject \<Rightarrow> bool" where
  "hasAnyContent ob \<longleftrightarrow> wo_ContentVersion ob \<noteq> [] \<or> wo_MediaType ob \<noteq> [] \<or> wo_SizeBytes ob \<noteq> 0 \<or> wo_SHA256 ob \<noteq> []"

definition wo_content :: "AttemptWorkspaceObject \<Rightarrow> AttemptWorkspaceContent" where
  "wo_content ob = \<lparr>wc_MediaType = wo_MediaType ob, wc_SizeBytes = wo_SizeBytes ob, wc_SHA256 = wo_SHA256 ob\<rparr>"

definition unclaimed :: "AttemptWorkspaceObject \<Rightarrow> bool" where
  "unclaimed ob \<longleftrightarrow> \<not> ot_Valid (wo_ClaimedAt ob) \<and> wo_ClaimToken ob = []"

definition validateAttemptWorkspaceObject :: "AttemptWorkspaceObject option \<Rightarrow> go_error option" where
  "validateAttemptWorkspaceObject v =
     (let err = (\<lambda>reason. Some (invalidModelError ''validateAttemptWorkspaceObject'' ''exam_attempt_workspace'' [] reason []))
      in case v of None \<Rightarrow> err ''invalid Attempt Workspace object''
       | Some ob \<Rightarrow>
         if \<not> IsValidOpaqueID (wo_ID ob) \<or> \<not> IsValidOpaqueID (wo_WorkspaceID ob) \<or> IsZero (wo_CreatedAt ob)
           \<or> IsZero (wo_UpdatedAt ob) \<or> Before (wo_UpdatedAt ob) (wo_CreatedAt ob) then
           err ''invalid Attempt Workspace object''
         else if hasAnyContent ob \<and> (\<not> WorkspaceContentVersion_IsValid (wo_ContentVersion ob)
           \<or> AttemptWorkspaceContent_Validate (wo_content ob) \<noteq> None) then
           err ''invalid Attempt Workspace object content''
         else if wo_StorageOrigin ob = AttemptWorkspaceStorageStarter then
           (if \<not> IsValidOpaqueID (wo_StarterObjectID ob) \<or> wo_State ob \<noteq> AttemptWorkspaceObjectCurrent
              \<or> \<not> hasAnyContent ob \<or> \<not> IsZero (wo_ExpiresAt ob) \<or> ot_Valid (wo_ReclaimAfter ob)
              \<or> \<not> unclaimed ob then err ''invalid starter-origin Attempt Workspace object'' else None)
         else if wo_StorageOrigin ob \<noteq> AttemptWorkspaceStorageAttempt \<or> wo_StarterObjectID ob \<noteq> [] then
           err ''invalid attempt-origin Attempt Workspace object''
         else case wo_State ob of
           AttemptWorkspaceObjectStaged \<Rightarrow>
             if \<not> After (wo_ExpiresAt ob) (wo_CreatedAt ob) \<or> ot_Valid (wo_ReclaimAfter ob) \<or> \<not> unclaimed ob
             then err ''invalid staged Attempt Workspace object'' else None
         | AttemptWorkspaceObjectCurrent \<Rightarrow>
             if \<not> hasAnyContent ob \<or> \<not> IsZero (wo_ExpiresAt ob) \<or> ot_Valid (wo_ReclaimAfter ob) \<or> \<not> unclaimed ob
             then err ''invalid current Attempt Workspace object'' else None
         | AttemptWorkspaceObjectReclaimable \<Rightarrow>
             if \<not> ot_Valid (wo_ReclaimAfter ob) \<or> Before (ot_Time (wo_ReclaimAfter ob)) (wo_CreatedAt ob)
               \<or> \<not> unclaimed ob
             then err ''invalid reclaimable Attempt Workspace object'' else None
         | AttemptWorkspaceObjectClaimed \<Rightarrow>
             if \<not> ot_Valid (wo_ReclaimAfter ob) \<or> \<not> ot_Valid (wo_ClaimedAt ob)
               \<or> ot_Time (wo_ClaimedAt ob) \<noteq> wo_UpdatedAt ob \<or> wo_ClaimToken ob = []
               \<or> TrimSpace (wo_ClaimToken ob) \<noteq> wo_ClaimToken ob
               \<or> length (wo_ClaimToken ob) > AttemptWorkspaceClaimTokenMaxBytes
             then err ''invalid claimed Attempt Workspace object'' else None
         | AttemptWorkspaceObjectStateOther _ \<Rightarrow> err ''invalid Attempt Workspace object state'')"

definition HasContent :: "AttemptWorkspaceObject option \<Rightarrow> bool" where
  "HasContent v = (case v of None \<Rightarrow> False
     | Some ob \<Rightarrow> WorkspaceContentVersion_IsValid (wo_ContentVersion ob) \<and> wo_MediaType ob \<noteq> [] \<and> wo_SizeBytes ob \<ge> 0
         \<and> validLowerSHA256 (wo_SHA256 ob))"

definition NewStagedAttemptWorkspaceObject ::
    "string \<Rightarrow> string \<Rightarrow> gtime \<Rightarrow> gtime \<Rightarrow> AttemptWorkspaceObject option \<times> go_error option" where
  "NewStagedAttemptWorkspaceObject ident workspaceID at expiresAt =
     (let ob = \<lparr>wo_ID = ident, wo_WorkspaceID = workspaceID, wo_StorageOrigin = AttemptWorkspaceStorageAttempt,
            wo_StarterObjectID = [], wo_State = AttemptWorkspaceObjectStaged, wo_ContentVersion = [],
            wo_MediaType = [], wo_SizeBytes = 0, wo_SHA256 = [], wo_CreatedAt = TimeUTC at,
            wo_UpdatedAt = TimeUTC at, wo_ExpiresAt = TimeUTC expiresAt, wo_ReclaimAfter = no_time,
            wo_ClaimToken = [], wo_ClaimedAt = no_time\<rparr>
      in case validateAttemptWorkspaceObject (Some ob) of
           Some e \<Rightarrow> (None, Some e)
         | None \<Rightarrow> (Some ob, None))"

definition object_error :: "string \<Rightarrow> string \<Rightarrow> go_error" where
  "object_error op reason =
     invalidModelError (''AttemptWorkspaceObject.'' @ op) ''attempt_workspace_object'' [] reason []"

definition MarkContentReady ::
    "AttemptWorkspaceObject option \<Rightarrow> string \<Rightarrow> string \<Rightarrow> int \<Rightarrow> string \<Rightarrow> gtime
       \<Rightarrow> AttemptWorkspaceObject option outcome" where
  "MarkContentReady v version mediaType sizeBytes checksum at =
     on_receiver v (object_error ''MarkContentReady'' ''Attempt Workspace object cannot accept content'') (\<lambda>ob.
     if wo_State ob \<noteq> AttemptWorkspaceObjectStaged \<or> HasContent (Some ob) then
       (ob, Some (object_error ''MarkContentReady'' ''Attempt Workspace object cannot accept content''))
     else if Before (TimeUTC at) (wo_UpdatedAt ob) \<or> \<not> Before (TimeUTC at) (wo_ExpiresAt ob) then
       (ob, Some (object_error ''MarkContentReady'' ''Attempt Workspace staged content time is invalid''))
     else commit validateAttemptWorkspaceObject ob (ob\<lparr>wo_ContentVersion := version,
       wo_MediaType := TrimSpace mediaType, wo_SizeBytes := sizeBytes, wo_SHA256 := ToLower checksum,
       wo_UpdatedAt := TimeUTC at\<rparr>))"

definition MarkCurrent :: "AttemptWorkspaceObject option \<Rightarrow> gtime \<Rightarrow> AttemptWorkspaceObject option outcome" where
  "MarkCurrent v at =
     on_receiver v (object_error ''MarkCurrent'' ''Attempt Workspace object cannot become current'') (\<lambda>ob.
     if wo_State ob \<noteq> AttemptWorkspaceObjectStaged \<or> \<not> HasContent (Some ob) then
       (ob, Some (object_error ''MarkCurrent'' ''Attempt Workspace object cannot become current''))
     else if Before (TimeUTC at) (wo_UpdatedAt ob) then
       (ob, Some (object_error ''MarkCurrent'' ''Attempt Workspace object time regressed''))
     else commit validateAttemptWorkspaceObject ob (ob\<lparr>wo_State := AttemptWorkspaceObjectCurrent,
       wo_UpdatedAt := TimeUTC at, wo_ExpiresAt := zero_time\<rparr>))"

definition MarkReclaimable ::
    "AttemptWorkspaceObject option \<Rightarrow> gtime \<Rightarrow> gtime \<Rightarrow> AttemptWorkspaceObject option outcome" where
  "MarkReclaimable v reclaimAfter at =
     on_receiver v (object_error ''MarkReclaimable'' ''Attempt Workspace object cannot become reclaimable'') (\<lambda>ob.
     if wo_State ob \<noteq> AttemptWorkspaceObjectStaged \<and> wo_State ob \<noteq> AttemptWorkspaceObjectCurrent then
       (ob, Some (object_error ''MarkReclaimable'' ''Attempt Workspace object cannot become reclaimable''))
     else if Before (TimeUTC at) (wo_UpdatedAt ob)
       \<or> \<not> After (ot_Time (OptionalTimeFrom reclaimAfter)) (TimeUTC at) then
       (ob, Some (object_error ''MarkReclaimable'' ''Attempt Workspace reclaim time is invalid''))
     else commit validateAttemptWorkspaceObject ob (ob\<lparr>wo_State := AttemptWorkspaceObjectReclaimable,
       wo_UpdatedAt := TimeUTC at, wo_ReclaimAfter := OptionalTimeFrom reclaimAfter\<rparr>))"

definition ClaimForCleanup ::
    "AttemptWorkspaceObject option \<Rightarrow> string \<Rightarrow> gtime \<Rightarrow> AttemptWorkspaceObject option outcome" where
  "ClaimForCleanup v token at0 =
     (let at = TimeUTC at0 in
     on_receiver v (object_error ''ClaimForCleanup'' ''Attempt Workspace object cannot be claimed'') (\<lambda>ob.
     if wo_State ob \<noteq> AttemptWorkspaceObjectReclaimable \<or> Before at (ot_Time (wo_ReclaimAfter ob))
       \<or> Before at (wo_UpdatedAt ob) then
       (ob, Some (object_error ''ClaimForCleanup'' ''Attempt Workspace object cannot be claimed''))
     else commit validateAttemptWorkspaceObject ob (ob\<lparr>wo_State := AttemptWorkspaceObjectClaimed,
       wo_UpdatedAt := at, wo_ClaimedAt := OptionalTimeFrom at, wo_ClaimToken := token\<rparr>)))"

definition ReleaseCleanup ::
    "AttemptWorkspaceObject option \<Rightarrow> string \<Rightarrow> gtime \<Rightarrow> AttemptWorkspaceObject option outcome" where
  "ReleaseCleanup v token at0 =
     (let at = TimeUTC at0 in
     on_receiver v (object_error ''ReleaseCleanup'' ''Attempt Workspace cleanup claim does not match'') (\<lambda>ob.
     if wo_State ob \<noteq> AttemptWorkspaceObjectClaimed \<or> token \<noteq> wo_ClaimToken ob
       \<or> Before at (wo_UpdatedAt ob) then
       (ob, Some (object_error ''ReleaseCleanup'' ''Attempt Workspace cleanup claim does not match''))
     else commit validateAttemptWorkspaceObject ob (ob\<lparr>wo_State := AttemptWorkspaceObjectReclaimable,
       wo_UpdatedAt := at, wo_ClaimedAt := no_time, wo_ClaimToken := []\<rparr>)))"

subsection \<open>Entries\<close>

record AttemptWorkspaceEntry =
  we_ID :: string
  we_WorkspaceID :: string
  we_AdmissionRevisionID :: string
  we_SourceStarterEntryID :: string
  we_Kind :: StarterWorkspaceEntryKind
  we_Path :: string
  we_CurrentObjectID :: string
  we_CreatedAt :: gtime
  we_UpdatedAt :: gtime

definition AttemptWorkspaceEntry_Validate :: "AttemptWorkspaceEntry option \<Rightarrow> go_error option" where
  "AttemptWorkspaceEntry_Validate v =
     (let err = (\<lambda>reason. Some (invalidModelError ''AttemptWorkspaceEntry.Validate'' ''attempt_workspace_entry'' [] reason []))
      in case v of None \<Rightarrow> err ''invalid Attempt Workspace entry''
       | Some e \<Rightarrow>
         if \<not> IsValidOpaqueID (we_ID e) \<or> \<not> IsValidOpaqueID (we_WorkspaceID e)
           \<or> \<not> IsValidOpaqueID (we_AdmissionRevisionID e)
           \<or> (we_SourceStarterEntryID e \<noteq> [] \<and> \<not> IsValidOpaqueID (we_SourceStarterEntryID e))
           \<or> IsZero (we_CreatedAt e) \<or> IsZero (we_UpdatedAt e) \<or> Before (we_UpdatedAt e) (we_CreatedAt e) then
           err ''invalid Attempt Workspace entry''
         else if \<not> canonical_path (we_Path e) then err ''invalid Attempt Workspace entry path''
         else case we_Kind e of
           StarterWorkspaceEntryFile \<Rightarrow>
             if \<not> IsValidOpaqueID (we_CurrentObjectID e) then
               err ''Attempt Workspace file requires current object'' else None
         | StarterWorkspaceEntryDirectory \<Rightarrow>
             if we_CurrentObjectID e \<noteq> [] then err ''Attempt Workspace directory cannot have content'' else None
         | StarterWorkspaceEntryKindOther _ \<Rightarrow> err ''invalid Attempt Workspace entry kind'')"

definition new_candidate_entry ::
    "string \<Rightarrow> string \<Rightarrow> string \<Rightarrow> StarterWorkspaceEntryKind \<Rightarrow> string \<Rightarrow> string \<Rightarrow> gtime
       \<Rightarrow> AttemptWorkspaceEntry option \<times> go_error option" where
  "new_candidate_entry ident workspaceID revisionID kind path objectID at =
     (case NormalizeAttemptWorkspacePath path of
        (_, Some e) \<Rightarrow> (None, Some e)
      | (normalized, None) \<Rightarrow>
        let entry = \<lparr>we_ID = ident, we_WorkspaceID = workspaceID, we_AdmissionRevisionID = revisionID,
              we_SourceStarterEntryID = [], we_Kind = kind, we_Path = normalized,
              we_CurrentObjectID = objectID, we_CreatedAt = TimeUTC at, we_UpdatedAt = TimeUTC at\<rparr>
        in case AttemptWorkspaceEntry_Validate (Some entry) of
             Some e \<Rightarrow> (None, Some e)
           | None \<Rightarrow> (Some entry, None))"

definition NewCandidateAttemptWorkspaceFile ::
    "string \<Rightarrow> string \<Rightarrow> string \<Rightarrow> string \<Rightarrow> string \<Rightarrow> gtime \<Rightarrow> AttemptWorkspaceEntry option \<times> go_error option" where
  "NewCandidateAttemptWorkspaceFile ident workspaceID revisionID path objectID at =
     new_candidate_entry ident workspaceID revisionID StarterWorkspaceEntryFile path objectID at"

definition NewCandidateAttemptWorkspaceDirectory ::
    "string \<Rightarrow> string \<Rightarrow> string \<Rightarrow> string \<Rightarrow> gtime \<Rightarrow> AttemptWorkspaceEntry option \<times> go_error option" where
  "NewCandidateAttemptWorkspaceDirectory ident workspaceID revisionID path at =
     new_candidate_entry ident workspaceID revisionID StarterWorkspaceEntryDirectory path [] at"

subsection \<open>Journal\<close>

datatype AttemptWorkspaceMutationKind =
    AttemptWorkspaceMutationCreateFile
  | AttemptWorkspaceMutationCreateDirectory
  | AttemptWorkspaceMutationReplaceFile
  | AttemptWorkspaceMutationMoveEntry
  | AttemptWorkspaceMutationDeleteEntry
  | AttemptWorkspaceMutationOther string

fun AttemptWorkspaceMutationKind_IsValid :: "AttemptWorkspaceMutationKind \<Rightarrow> bool" where
  "AttemptWorkspaceMutationKind_IsValid (AttemptWorkspaceMutationOther s) = False"
| "AttemptWorkspaceMutationKind_IsValid _ = True"

record AttemptWorkspaceJournalEntry =
  wj_WorkspaceID :: string
  wj_Cursor :: int
  wj_EntryID :: string
  wj_EntryKind :: StarterWorkspaceEntryKind
  wj_Operation :: AttemptWorkspaceMutationKind
  wj_OldPath :: string
  wj_NewPath :: string
  wj_ContentVersion :: string
  wj_ChangedAt :: gtime
  wj_Recursive :: bool

definition AttemptWorkspaceJournalEntry_Validate :: "AttemptWorkspaceJournalEntry \<Rightarrow> go_error option" where
  "AttemptWorkspaceJournalEntry_Validate e =
     (let err = (\<lambda>reason. Some (invalidModelError ''AttemptWorkspaceJournalEntry.Validate''
            ''attempt_workspace_journal_entry'' [] reason []));
          validOld = canonical_path (wj_OldPath e);
          validNew = canonical_path (wj_NewPath e);
          isFile = (wj_EntryKind e = StarterWorkspaceEntryFile);
          isDirectory = (wj_EntryKind e = StarterWorkspaceEntryDirectory)
      in if \<not> IsValidOpaqueID (wj_WorkspaceID e) \<or> wj_Cursor e < 1 \<or> \<not> IsValidOpaqueID (wj_EntryID e)
           \<or> \<not> AttemptWorkspaceMutationKind_IsValid (wj_Operation e) \<or> IsZero (wj_ChangedAt e) then
           err ''invalid Attempt Workspace journal entry''
         else if wj_Recursive e \<and> (wj_Operation e \<noteq> AttemptWorkspaceMutationDeleteEntry \<or> \<not> isDirectory) then
           err ''recursive Workspace journal entry must delete a directory''
         else case wj_Operation e of
           AttemptWorkspaceMutationCreateFile \<Rightarrow>
             if \<not> isFile \<or> wj_OldPath e \<noteq> [] \<or> \<not> validNew \<or> \<not> WorkspaceContentVersion_IsValid (wj_ContentVersion e) then
               err ''invalid Attempt Workspace file creation journal'' else None
         | AttemptWorkspaceMutationCreateDirectory \<Rightarrow>
             if \<not> isDirectory \<or> wj_OldPath e \<noteq> [] \<or> \<not> validNew \<or> wj_ContentVersion e \<noteq> [] then
               err ''invalid Attempt Workspace directory creation journal'' else None
         | AttemptWorkspaceMutationReplaceFile \<Rightarrow>
             if \<not> isFile \<or> \<not> validOld \<or> wj_NewPath e \<noteq> wj_OldPath e \<or> \<not> WorkspaceContentVersion_IsValid (wj_ContentVersion e) then
               err ''invalid Attempt Workspace file replacement journal'' else None
         | AttemptWorkspaceMutationMoveEntry \<Rightarrow>
             if (\<not> isFile \<and> \<not> isDirectory) \<or> \<not> validOld \<or> \<not> validNew \<or> wj_OldPath e = wj_NewPath e
               \<or> (isFile \<and> \<not> WorkspaceContentVersion_IsValid (wj_ContentVersion e)) \<or> (isDirectory \<and> wj_ContentVersion e \<noteq> []) then
               err ''invalid Attempt Workspace move journal'' else None
         | AttemptWorkspaceMutationDeleteEntry \<Rightarrow>
             if (\<not> isFile \<and> \<not> isDirectory) \<or> \<not> validOld \<or> wj_NewPath e \<noteq> [] \<or> wj_ContentVersion e \<noteq> [] then
               err ''invalid Attempt Workspace deletion journal'' else None
         | AttemptWorkspaceMutationOther _ \<Rightarrow> None)"

section \<open>Paths are lists of proper names\<close>

abbreviation join_slash :: "string list \<Rightarrow> string" where "join_slash \<equiv> strings_Join CHR ''/''"

definition proper_name :: "string \<Rightarrow> bool" where
  "proper_name s \<longleftrightarrow> \<not> bad_segment s \<and> CHR ''/'' \<notin> set s"

lemma join_slash_ends:
  assumes "ss \<noteq> []" and "\<forall>s \<in> set ss. proper_name s"
  shows "join_slash ss \<noteq> [] \<and> hd (join_slash ss) \<noteq> CHR ''/'' \<and> last (join_slash ss) \<noteq> CHR ''/''"
  using assms
proof (induction ss)
  case (Cons s ss)
  then have s: "s \<noteq> []" "CHR ''/'' \<notin> set s" by (auto simp: proper_name_def bad_segment_def)
  show ?case
  proof (cases "ss = []")
    case True
    then show ?thesis using s by (auto dest: hd_in_set last_in_set)
  next
    case False
    then show ?thesis using s Cons.IH Cons.prems by (cases s) (auto simp: Join_Cons)
  qed
qed simp

text \<open>C31. A logical path is accepted exactly when it is a list of at most sixteen proper names
  joined by slashes: each name is nonempty, is not a dot or double dot, is at most 255 bytes and
  has no slash, backslash or control character; the first is not the reserved
  \<^verbatim>\<open>.proctor\<close>; the whole is valid UTF-8 of at most 1024 bytes.  It is returned unchanged, and
  its names are determined by it, so an accepted path can neither be absolute nor climb out of
  the Workspace nor name one entry in two ways.\<close>

theorem NormalizeStarterWorkspacePath_exact:
  "(snd (NormalizeStarterWorkspacePath value) = None \<longleftrightarrow>
      (\<exists>names. value = join_slash names \<and> names \<noteq> [] \<and> length names \<le> 16 \<and> hd names \<noteq> ''.proctor''
         \<and> (\<forall>s \<in> set names. s \<noteq> [] \<and> s \<noteq> ''.'' \<and> s \<noteq> ''..'' \<and> length s \<le> 255 \<and> CHR ''/'' \<notin> set s
              \<and> (\<forall>(r, bs) \<in> set (chunks (bytes_of s)). \<not> IsControl r))
         \<and> ValidString value \<and> length value \<le> 1024 \<and> CHR 0x5C \<notin> set value))
    \<and> (snd (NormalizeStarterWorkspacePath value) = None \<longrightarrow> fst (NormalizeStarterWorkspacePath value) = value)
    \<and> (\<forall>names names'. value = join_slash names \<and> value = join_slash names' \<and> names \<noteq> [] \<and> names' \<noteq> []
         \<and> (\<forall>s \<in> set names \<union> set names'. CHR ''/'' \<notin> set s) \<longrightarrow> names = names')"
proof (intro conjI)
  have proper: "proper_name s \<longleftrightarrow> s \<noteq> [] \<and> s \<noteq> ''.'' \<and> s \<noteq> ''..'' \<and> length s \<le> 255 \<and> CHR ''/'' \<notin> set s
      \<and> (\<forall>(r, bs) \<in> set (chunks (bytes_of s)). \<not> IsControl r)" for s
    by (auto simp: proper_name_def bad_segment_def StarterWorkspaceMaximumSegmentBytes_def list_ex_iff)
  have ok: "snd (NormalizeStarterWorkspacePath value) = None \<longleftrightarrow>
      value \<noteq> [] \<and> hd value \<noteq> CHR ''/'' \<and> last value \<noteq> CHR ''/'' \<and> length (split_slash value) \<le> 16
      \<and> hd (split_slash value) \<noteq> ''.proctor'' \<and> (\<forall>s \<in> set (split_slash value). proper_name s)
      \<and> ValidString value \<and> length value \<le> 1024 \<and> CHR 0x5C \<notin> set value"
    by (auto simp: NormalizeStarterWorkspacePath_def Let_def StarterWorkspaceMaximumPathBytes_def
        StarterWorkspaceMaximumDepth_def list_ex_iff proper_name_def Split_segments)
  show "snd (NormalizeStarterWorkspacePath value) = None \<longleftrightarrow>
      (\<exists>names. value = join_slash names \<and> names \<noteq> [] \<and> length names \<le> 16 \<and> hd names \<noteq> ''.proctor''
         \<and> (\<forall>s \<in> set names. s \<noteq> [] \<and> s \<noteq> ''.'' \<and> s \<noteq> ''..'' \<and> length s \<le> 255 \<and> CHR ''/'' \<notin> set s
              \<and> (\<forall>(r, bs) \<in> set (chunks (bytes_of s)). \<not> IsControl r))
         \<and> ValidString value \<and> length value \<le> 1024 \<and> CHR 0x5C \<notin> set value)" (is "_ \<longleftrightarrow> ?R")
    unfolding proper [symmetric]
  proof
    assume "snd (NormalizeStarterWorkspacePath value) = None"
    then show "\<exists>names. value = join_slash names \<and> names \<noteq> [] \<and> length names \<le> 16 \<and> hd names \<noteq> ''.proctor''
       \<and> (\<forall>s \<in> set names. proper_name s) \<and> ValidString value \<and> length value \<le> 1024 \<and> CHR 0x5C \<notin> set value"
      unfolding ok by (intro exI [of _ "split_slash value"]) simp
  next
    assume "\<exists>names. value = join_slash names \<and> names \<noteq> [] \<and> length names \<le> 16 \<and> hd names \<noteq> ''.proctor''
       \<and> (\<forall>s \<in> set names. proper_name s) \<and> ValidString value \<and> length value \<le> 1024 \<and> CHR 0x5C \<notin> set value"
    then obtain names where n: "value = join_slash names" "names \<noteq> []" "length names \<le> 16"
      "hd names \<noteq> ''.proctor''" "\<forall>s \<in> set names. proper_name s" and v: "ValidString value"
      "length value \<le> 1024" "CHR 0x5C \<notin> set value" by blast
    have "split_slash value = names" using n by (simp add: Split_Join proper_name_def)
    with n v join_slash_ends [OF n(2,5)] show "snd (NormalizeStarterWorkspacePath value) = None"
      unfolding ok by simp
  qed
  show "snd (NormalizeStarterWorkspacePath value) = None \<longrightarrow> fst (NormalizeStarterWorkspacePath value) = value"
    by (auto simp: NormalizeStarterWorkspacePath_def Let_def)
  show "\<forall>names names'. value = join_slash names \<and> value = join_slash names' \<and> names \<noteq> [] \<and> names' \<noteq> []
         \<and> (\<forall>s \<in> set names \<union> set names'. CHR ''/'' \<notin> set s) \<longrightarrow> names = names'"
    by (metis UnCI Split_Join)
qed

theorem NormalizeStarterWorkspacePath_exact_witness:
  "snd (NormalizeStarterWorkspacePath ''src/a.c'') = None
   \<and> fst (NormalizeStarterWorkspacePath ''src/a.c'') = ''src/a.c''
   \<and> snd (NormalizeStarterWorkspacePath ''a/../b'') \<noteq> None"
proof -
  have "snd (NormalizeStarterWorkspacePath ''src/a.c'') = None"
    by (simp add: NormalizeStarterWorkspacePath_def ascii_eval StarterWorkspaceMaximumPathBytes_def
        StarterWorkspaceMaximumDepth_def StarterWorkspaceMaximumSegmentBytes_def bad_segment_def IsControl_def)
  moreover have "snd (NormalizeStarterWorkspacePath ''a/../b'') \<noteq> None"
    by (simp add: NormalizeStarterWorkspacePath_def ascii_eval StarterWorkspaceMaximumPathBytes_def
        StarterWorkspaceMaximumDepth_def bad_segment_def)
  ultimately show ?thesis using NormalizeStarterWorkspacePath_exact by blast
qed

section \<open>Content objects\<close>

datatype object_op =
    ContentReadyCall string string int string gtime
  | CurrentCall gtime
  | ReclaimableCall gtime gtime
  | ClaimCall string gtime
  | ReleaseCall string gtime

fun object_call :: "object_op \<Rightarrow> AttemptWorkspaceObject option \<Rightarrow> AttemptWorkspaceObject option outcome" where
  "object_call (ContentReadyCall v m n h t) p = MarkContentReady p v m n h t"
| "object_call (CurrentCall t) p = MarkCurrent p t"
| "object_call (ReclaimableCall r t) p = MarkReclaimable p r t"
| "object_call (ClaimCall k t) p = ClaimForCleanup p k t"
| "object_call (ReleaseCall k t) p = ReleaseCleanup p k t"

definition object_exec :: "object_op \<Rightarrow> AttemptWorkspaceObject \<Rightarrow> AttemptWorkspaceObject outcome" where
  "object_exec c ob = (the (fst (object_call c (Some ob))), snd (object_call c (Some ob)))"

fun object_from :: "object_op \<Rightarrow> AttemptWorkspaceObject \<Rightarrow> bool" where
  "object_from (ContentReadyCall v m n h t) ob \<longleftrightarrow> wo_State ob = AttemptWorkspaceObjectStaged
     \<and> \<not> HasContent (Some ob) \<and> trunc_us (t_ns t) < t_ns (wo_ExpiresAt ob)"
| "object_from (CurrentCall t) ob \<longleftrightarrow> wo_State ob = AttemptWorkspaceObjectStaged \<and> HasContent (Some ob)"
| "object_from (ReclaimableCall r t) ob \<longleftrightarrow>
     wo_State ob \<in> {AttemptWorkspaceObjectStaged, AttemptWorkspaceObjectCurrent}
     \<and> trunc_us (t_ns t) < trunc_us (t_ns r)"
| "object_from (ClaimCall k t) ob \<longleftrightarrow> wo_State ob = AttemptWorkspaceObjectReclaimable
     \<and> t_ns (ot_Time (wo_ReclaimAfter ob)) \<le> trunc_us (t_ns t)"
| "object_from (ReleaseCall k t) ob \<longleftrightarrow> wo_State ob = AttemptWorkspaceObjectClaimed \<and> k = wo_ClaimToken ob"

fun object_at :: "object_op \<Rightarrow> gtime" where
  "object_at (ContentReadyCall v m n h t) = t"
| "object_at (CurrentCall t) = t"
| "object_at (ReclaimableCall r t) = t"
| "object_at (ClaimCall k t) = t"
| "object_at (ReleaseCall k t) = t"

fun object_move :: "object_op \<Rightarrow> AttemptWorkspaceObject \<Rightarrow> AttemptWorkspaceObject" where
  "object_move (ContentReadyCall v m n h t) ob = ob\<lparr>wo_ContentVersion := v, wo_MediaType := TrimSpace m,
     wo_SizeBytes := n, wo_SHA256 := ToLower h\<rparr>"
| "object_move (CurrentCall t) ob = ob\<lparr>wo_State := AttemptWorkspaceObjectCurrent, wo_ExpiresAt := zero_time\<rparr>"
| "object_move (ReclaimableCall r t) ob = ob\<lparr>wo_State := AttemptWorkspaceObjectReclaimable,
     wo_ReclaimAfter := OptionalTimeFrom r\<rparr>"
| "object_move (ClaimCall k t) ob = ob\<lparr>wo_State := AttemptWorkspaceObjectClaimed,
     wo_ClaimedAt := OptionalTimeFrom t, wo_ClaimToken := k\<rparr>"
| "object_move (ReleaseCall k t) ob = ob\<lparr>wo_State := AttemptWorkspaceObjectReclaimable,
     wo_ClaimedAt := no_time, wo_ClaimToken := []\<rparr>"

definition object_next :: "object_op \<Rightarrow> AttemptWorkspaceObject \<Rightarrow> AttemptWorkspaceObject" where
  "object_next c ob = (object_move c ob)\<lparr>wo_UpdatedAt := TimeUTC (object_at c)\<rparr>"

definition object_wf :: "AttemptWorkspaceObject \<Rightarrow> bool" where
  "object_wf ob \<longleftrightarrow> validateAttemptWorkspaceObject (Some ob) = None"

lemmas object_op_defs = MarkContentReady_def MarkCurrent_def MarkReclaimable_def ClaimForCleanup_def
  ReleaseCleanup_def Let_def

lemma object_call_clean: "clean (Some ob) (object_call c (Some ob))"
  by (cases c) (simp_all add: object_op_defs del: on_receiver_Some)

lemma object_exec_atomic: "snd (object_exec c ob) \<noteq> None \<Longrightarrow> fst (object_exec c ob) = ob"
  using object_call_clean [of ob c] by (simp add: object_exec_def cleanD)

lemma object_exec_enabled:
  assumes "object_from c ob" and "t_ns (wo_UpdatedAt ob) \<le> trunc_us (t_ns (object_at c))"
  shows "object_exec c ob = commit validateAttemptWorkspaceObject ob (object_next c ob)"
  using assms
  by (cases ob; cases c) (auto simp: object_exec_def object_op_defs object_next_def Before_def After_def)

lemma object_exec_disabled:
  "\<not> (object_from c ob \<and> t_ns (wo_UpdatedAt ob) \<le> trunc_us (t_ns (object_at c))) \<Longrightarrow>
     snd (object_exec c ob) \<noteq> None"
  by (cases c) (auto simp: object_exec_def object_op_defs Before_def After_def)

lemma object_exec_success:
  assumes "snd (object_exec c ob) = None"
  shows "object_from c ob" and "t_ns (wo_UpdatedAt ob) \<le> trunc_us (t_ns (object_at c))"
    and "fst (object_exec c ob) = object_next c ob" and "object_wf (object_next c ob)"
proof -
  show f: "object_from c ob" and u: "t_ns (wo_UpdatedAt ob) \<le> trunc_us (t_ns (object_at c))"
    using assms object_exec_disabled [of c ob] by blast+
  show "fst (object_exec c ob) = object_next c ob" and "object_wf (object_next c ob)"
    using assms unfolding object_exec_enabled [OF f u] by (simp_all add: object_wf_def commit_fst)
qed

interpretation objects: aggregate object_exec object_wf
  by unfold_locales (simp_all add: object_exec_atomic object_exec_success)

fun object_edge :: "AttemptWorkspaceObjectState \<Rightarrow> AttemptWorkspaceObjectState \<Rightarrow> bool" where
  "object_edge AttemptWorkspaceObjectStaged q \<longleftrightarrow> q \<in> {AttemptWorkspaceObjectStaged,
     AttemptWorkspaceObjectCurrent, AttemptWorkspaceObjectReclaimable}"
| "object_edge AttemptWorkspaceObjectCurrent q \<longleftrightarrow> q = AttemptWorkspaceObjectReclaimable"
| "object_edge AttemptWorkspaceObjectReclaimable q \<longleftrightarrow> q = AttemptWorkspaceObjectClaimed"
| "object_edge AttemptWorkspaceObjectClaimed q \<longleftrightarrow> q = AttemptWorkspaceObjectReclaimable"
| "object_edge _ q \<longleftrightarrow> False"

lemma object_next_edge: "object_from c ob \<Longrightarrow> object_edge (wo_State ob) (wo_State (object_next c ob))"
  by (cases c) (auto simp: object_next_def)

interpretation object_life: lifecycle object_exec object_wf wo_State object_edge
  by unfold_locales (simp add: object_exec_success object_next_edge)

lemma object_wf_origin:
  "object_wf ob \<Longrightarrow> wo_StorageOrigin ob = AttemptWorkspaceStorageStarter \<Longrightarrow>
     wo_State ob = AttemptWorkspaceObjectCurrent"
  by (auto simp: object_wf_def validateAttemptWorkspaceObject_def Let_def split: if_splits)

lemma starter_object_frozen:
  assumes "object_wf ob" and "wo_StorageOrigin ob = AttemptWorkspaceStorageStarter"
  shows "snd (object_exec c ob) \<noteq> None"
proof
  assume ok: "snd (object_exec c ob) = None"
  have st: "wo_State ob = AttemptWorkspaceObjectCurrent" using assms by (rule object_wf_origin)
  have "wo_StorageOrigin (object_next c ob) = AttemptWorkspaceStorageStarter"
    using assms(2) by (cases c) (simp_all add: object_next_def)
  then have "wo_State (object_next c ob) = AttemptWorkspaceObjectCurrent"
    using object_exec_success(4) [OF ok] by (intro object_wf_origin)
  with st object_next_edge [OF object_exec_success(1) [OF ok]] show False by simp
qed

definition object_evolves :: "AttemptWorkspaceObject \<Rightarrow> AttemptWorkspaceObject \<Rightarrow> bool" where
  "object_evolves a b \<longleftrightarrow> wo_ID b = wo_ID a \<and> wo_WorkspaceID b = wo_WorkspaceID a
     \<and> wo_StorageOrigin b = wo_StorageOrigin a \<and> wo_StarterObjectID b = wo_StarterObjectID a
     \<and> wo_CreatedAt b = wo_CreatedAt a \<and> t_ns (wo_UpdatedAt a) \<le> t_ns (wo_UpdatedAt b)
     \<and> (HasContent (Some a) \<or> wo_State a \<noteq> AttemptWorkspaceObjectStaged \<longrightarrow>
          wo_ContentVersion b = wo_ContentVersion a \<and> wo_MediaType b = wo_MediaType a
          \<and> wo_SizeBytes b = wo_SizeBytes a \<and> wo_SHA256 b = wo_SHA256 a)
     \<and> (wo_State a \<in> {AttemptWorkspaceObjectReclaimable, AttemptWorkspaceObjectClaimed} \<longrightarrow>
          wo_ReclaimAfter b = wo_ReclaimAfter a
          \<and> wo_State b \<in> {AttemptWorkspaceObjectReclaimable, AttemptWorkspaceObjectClaimed})
     \<and> (wo_State a \<noteq> AttemptWorkspaceObjectStaged \<longrightarrow> wo_State b \<noteq> AttemptWorkspaceObjectStaged)"

lemma HasContent_cong:
  "wo_ContentVersion b = wo_ContentVersion a \<Longrightarrow> wo_MediaType b = wo_MediaType a \<Longrightarrow>
   wo_SizeBytes b = wo_SizeBytes a \<Longrightarrow> wo_SHA256 b = wo_SHA256 a \<Longrightarrow>
   HasContent (Some b) = HasContent (Some a)"
  by (simp add: HasContent_def)

lemma object_evolves_next:
  "object_from c ob \<Longrightarrow> t_ns (wo_UpdatedAt ob) \<le> trunc_us (t_ns (object_at c)) \<Longrightarrow>
     object_evolves ob (object_next c ob)"
  by (cases c) (auto simp: object_evolves_def object_next_def)

lemma object_evolves_trans:
  assumes "object_evolves a b" and "object_evolves b c"
  shows "object_evolves a c"
proof -
  have "HasContent (Some b)" if "HasContent (Some a)"
    using assms(1) that HasContent_cong [of b a] by (simp add: object_evolves_def)
  with assms show ?thesis
    by (cases "wo_State a"; cases "wo_State b") (auto simp: object_evolves_def)
qed

lemma object_evolves_run: "object_wf ob \<Longrightarrow> object_evolves ob (run object_exec cs ob)"
  by (rule objects.run_relation)
    (auto simp: object_evolves_def [of ob ob for ob] object_exec_success
      intro: object_evolves_trans object_evolves_next)

text \<open>C32. Along every sequence of calls a content object stays valid; its identity, Workspace,
  origin and creation time are fixed and its update time never goes back; content is immutable
  once recorded; a reclaim deadline is never changed; an object never returns to staged and a
  reclaimable or claimed one never becomes visible again; and an object of starter origin
  refuses every call.  A cleanup claim is accepted only at or after the deadline and a release
  only with the token of the claim.\<close>

theorem object_history:
  assumes "object_wf ob" and "b = run object_exec cs ob"
  shows "validateAttemptWorkspaceObject (Some b) = None
    \<and> wo_ID b = wo_ID ob \<and> wo_WorkspaceID b = wo_WorkspaceID ob \<and> wo_StorageOrigin b = wo_StorageOrigin ob
    \<and> wo_CreatedAt b = wo_CreatedAt ob \<and> t_ns (wo_UpdatedAt ob) \<le> t_ns (wo_UpdatedAt b)
    \<and> (HasContent (Some ob) \<longrightarrow> wo_ContentVersion b = wo_ContentVersion ob \<and> wo_MediaType b = wo_MediaType ob
         \<and> wo_SizeBytes b = wo_SizeBytes ob \<and> wo_SHA256 b = wo_SHA256 ob)
    \<and> (wo_State ob \<in> {AttemptWorkspaceObjectReclaimable, AttemptWorkspaceObjectClaimed} \<longrightarrow>
         wo_ReclaimAfter b = wo_ReclaimAfter ob
         \<and> wo_State b \<in> {AttemptWorkspaceObjectReclaimable, AttemptWorkspaceObjectClaimed})
    \<and> (wo_State ob \<noteq> AttemptWorkspaceObjectStaged \<longrightarrow> wo_State b \<noteq> AttemptWorkspaceObjectStaged)
    \<and> (wo_StorageOrigin ob = AttemptWorkspaceStorageStarter \<longrightarrow> b = ob)
    \<and> (\<forall>k t. snd (ClaimForCleanup (Some b) k t) = None \<longrightarrow> wo_State b = AttemptWorkspaceObjectReclaimable
         \<and> t_ns (ot_Time (wo_ReclaimAfter b)) \<le> trunc_us (t_ns t))
    \<and> (\<forall>k t. snd (ReleaseCleanup (Some b) k t) = None \<longrightarrow> wo_State b = AttemptWorkspaceObjectClaimed
         \<and> k = wo_ClaimToken b)"
proof -
  have "object_wf b" using objects.run_wf [OF assms(1)] assms(2) by simp
  moreover have frozen: "b = ob" if "wo_StorageOrigin ob = AttemptWorkspaceStorageStarter"
    unfolding assms(2)
  proof (induction cs)
    case (Cons c cs)
    then show ?case using starter_object_frozen [OF assms(1) that, of c] by (simp add: objects.atomic)
  qed simp
  moreover have "snd (ClaimForCleanup (Some b) k t) = None \<longrightarrow> wo_State b = AttemptWorkspaceObjectReclaimable
      \<and> t_ns (ot_Time (wo_ReclaimAfter b)) \<le> trunc_us (t_ns t)" for k t
    using object_exec_success(1) [of "ClaimCall k t" b] by (simp add: object_exec_def)
  moreover have "snd (ReleaseCleanup (Some b) k t) = None \<longrightarrow> wo_State b = AttemptWorkspaceObjectClaimed
      \<and> k = wo_ClaimToken b" for k t
    using object_exec_success(1) [of "ReleaseCall k t" b] by (simp add: object_exec_def)
  moreover have "object_evolves ob b" using object_evolves_run [OF assms(1)] assms(2) by simp
  ultimately show ?thesis unfolding object_evolves_def object_wf_def by simp
qed

section \<open>The cursor\<close>

datatype cursor_op = AdvanceCall int gtime

fun cursor_exec :: "cursor_op \<Rightarrow> ExamAttemptWorkspace \<Rightarrow> ExamAttemptWorkspace outcome" where
  "cursor_exec (AdvanceCall expected t) w =
     (case AdvanceCursor (Some w) expected t of (w', e) \<Rightarrow> (the w', e))"

definition workspace_wf :: "ExamAttemptWorkspace \<Rightarrow> bool" where
  "workspace_wf w \<longleftrightarrow> ExamAttemptWorkspace_Validate (Some w) = None \<and> aw_Cursor w \<le> maxInt64"

lemma ExamAttemptWorkspace_Validate_ok:
  "ExamAttemptWorkspace_Validate (Some w) = None \<longleftrightarrow> IsValidOpaqueID (aw_ID w) \<and> IsValidOpaqueID (aw_AttemptID w)
     \<and> 0 \<le> aw_Cursor w \<and> t_ns (aw_CreatedAt w) \<noteq> 0 \<and> t_ns (aw_UpdatedAt w) \<noteq> 0
     \<and> t_ns (aw_CreatedAt w) \<le> t_ns (aw_UpdatedAt w)"
  by (auto simp: ExamAttemptWorkspace_Validate_def Let_def time_ops)

lemma wrap64_Suc: "0 \<le> x \<Longrightarrow> x < maxInt64 \<Longrightarrow> wrap64 (x + 1) = x + 1"
  by (simp add: int64_defs)

lemma AdvanceCursor_exact:
  assumes "workspace_wf w"
  shows "snd (AdvanceCursor (Some w) expected t) = None \<longleftrightarrow> expected = aw_Cursor w \<and> aw_Cursor w < maxInt64
      \<and> trunc_us (t_ns t) \<noteq> 0 \<and> t_ns (aw_UpdatedAt w) \<le> trunc_us (t_ns t)"
    and "fst (AdvanceCursor (Some w) expected t) = Some
      (if snd (AdvanceCursor (Some w) expected t) = None
       then w\<lparr>aw_Cursor := aw_Cursor w + 1, aw_UpdatedAt := TimeUTC t\<rparr> else w)"
proof -
  let ?w = "w\<lparr>aw_Cursor := aw_Cursor w + 1, aw_UpdatedAt := TimeUTC t\<rparr>"
  let ?g = "expected = aw_Cursor w \<and> aw_Cursor w < maxInt64 \<and> t_ns (aw_UpdatedAt w) \<le> trunc_us (t_ns t)"
  have v: "ExamAttemptWorkspace_Validate (Some ?w) = None \<longleftrightarrow> trunc_us (t_ns t) \<noteq> 0" if ?g
    using assms that by (auto simp: workspace_wf_def ExamAttemptWorkspace_Validate_ok)
  have yes: "AdvanceCursor (Some w) expected t =
      (Some (fst (commit ExamAttemptWorkspace_Validate w ?w)), snd (commit ExamAttemptWorkspace_Validate w ?w))"
    if ?g
    using assms that
    by (simp add: AdvanceCursor_def Let_def Before_def workspace_wf_def ExamAttemptWorkspace_Validate_ok wrap64_Suc)
  have no: "fst (AdvanceCursor (Some w) expected t) = Some w \<and> snd (AdvanceCursor (Some w) expected t) \<noteq> None"
    if "\<not> ?g"
    using assms that by (auto simp: AdvanceCursor_def Let_def Before_def workspace_wf_def)
  show ok: "snd (AdvanceCursor (Some w) expected t) = None \<longleftrightarrow> expected = aw_Cursor w \<and> aw_Cursor w < maxInt64
      \<and> trunc_us (t_ns t) \<noteq> 0 \<and> t_ns (aw_UpdatedAt w) \<le> trunc_us (t_ns t)"
    using yes v no by (cases ?g) auto
  show "fst (AdvanceCursor (Some w) expected t) = Some
      (if snd (AdvanceCursor (Some w) expected t) = None then ?w else w)"
  proof (cases ?g)
    case True
    then show ?thesis unfolding yes [OF True] by (simp add: commit_fst)
  next
    case False
    from no [OF False] show ?thesis by auto
  qed
qed

lemma cursor_exec_eq:
  "cursor_exec (AdvanceCall n t) w =
     (the (fst (AdvanceCursor (Some w) n t)), snd (AdvanceCursor (Some w) n t))"
  by (simp split: prod.split)

interpretation cursor: versioned_aggregate cursor_exec workspace_wf aw_Cursor
proof unfold_locales
  fix c w
  obtain n t where c: "c = AdvanceCall n t" by (cases c)
  have "clean (Some w) (AdvanceCursor (Some w) n t)"
    by (simp add: AdvanceCursor_def Let_def del: on_receiver_Some)
  then show atomic: "fst (cursor_exec c w) = w" if "snd (cursor_exec c w) \<noteq> None"
    using that by (simp only: c cursor_exec_eq fst_conv snd_conv) (simp add: cleanD)
  show "workspace_wf (fst (cursor_exec c w))" if "workspace_wf w" "snd (cursor_exec c w) = None"
    using that(2) AdvanceCursor_exact [OF that(1), of n t] that(1)
    by (simp only: c cursor_exec_eq fst_conv snd_conv)
      (auto simp: workspace_wf_def ExamAttemptWorkspace_Validate_ok)
  show "aw_Cursor (fst (cursor_exec c w)) = aw_Cursor w + 1" if "workspace_wf w" "fst (cursor_exec c w) \<noteq> w"
    using that(2) AdvanceCursor_exact [OF that(1), of n t]
    by (simp only: c cursor_exec_eq fst_conv snd_conv) (auto split: if_splits)
qed

text \<open>C30. The Workspace cursor is an exact, gapless fence: a call advances it if and only if it
  names the current cursor, the cursor is below its maximum and time does not regress, and then
  by exactly one; over any sequence of calls the cursor counts the accepted mutations; and an
  expected cursor that has been accepted once is refused ever after.\<close>

theorem cursor_fence:
  assumes "workspace_wf w" and "w' = run cursor_exec cs w"
  shows "aw_Cursor w' = aw_Cursor w + int (changes cursor_exec cs w)
    \<and> (snd (AdvanceCursor (Some w') expected t) = None \<longleftrightarrow> expected = aw_Cursor w' \<and> aw_Cursor w' < maxInt64
        \<and> trunc_us (t_ns t) \<noteq> 0 \<and> t_ns (aw_UpdatedAt w') \<le> trunc_us (t_ns t))
    \<and> fst (AdvanceCursor (Some w') expected t) = Some
        (if snd (AdvanceCursor (Some w') expected t) = None
         then w'\<lparr>aw_Cursor := aw_Cursor w' + 1, aw_UpdatedAt := TimeUTC t\<rparr> else w')
    \<and> (expected < aw_Cursor w \<longrightarrow> snd (AdvanceCursor (Some w') expected t) \<noteq> None)"
proof -
  have wf: "workspace_wf w'" using cursor.run_wf [OF assms(1)] assms(2) by simp
  have "aw_Cursor w' = aw_Cursor w + int (changes cursor_exec cs w)"
    using cursor.run_revision [OF assms(1)] assms(2) by simp
  then show ?thesis using AdvanceCursor_exact [OF wf, of expected t] by auto
qed

section \<open>Instances\<close>

definition sample_workspace :: ExamAttemptWorkspace where
  "sample_workspace = \<lparr>aw_ID = replicate 26 CHR ''a'', aw_AttemptID = replicate 26 CHR ''b'', aw_Cursor = 3,
     aw_CreatedAt = sample_instant 1, aw_UpdatedAt = sample_instant 5\<rparr>"

lemma sample_workspace_wf: "workspace_wf sample_workspace"
  by (simp add: workspace_wf_def sample_workspace_def ExamAttemptWorkspace_Validate_ok int64_defs)

theorem cursor_fence_witness:
  "workspace_wf sample_workspace \<and> snd (AdvanceCursor (Some sample_workspace) 3 (sample_instant 6)) = None
   \<and> snd (AdvanceCursor (Some sample_workspace) 2 (sample_instant 6)) \<noteq> None"
  using cursor_fence [OF sample_workspace_wf, of sample_workspace "[]" 3 "sample_instant 6"]
    cursor_fence [OF sample_workspace_wf, of sample_workspace "[]" 2 "sample_instant 6"]
  by (simp add: sample_workspace_wf) (simp add: sample_workspace_def int64_defs)

definition sample_object :: AttemptWorkspaceObject where
  "sample_object = \<lparr>wo_ID = replicate 26 CHR ''a'', wo_WorkspaceID = replicate 26 CHR ''b'',
     wo_StorageOrigin = AttemptWorkspaceStorageAttempt, wo_StarterObjectID = [],
     wo_State = AttemptWorkspaceObjectReclaimable, wo_ContentVersion = [], wo_MediaType = [],
     wo_SizeBytes = 0, wo_SHA256 = [], wo_CreatedAt = sample_instant 1, wo_UpdatedAt = sample_instant 2,
     wo_ExpiresAt = sample_instant 9, wo_ReclaimAfter = OptionalTimeFrom (sample_instant 5),
     wo_ClaimToken = [], wo_ClaimedAt = no_time\<rparr>"

lemma sample_object_wf: "object_wf sample_object"
  by (simp add: object_wf_def sample_object_def validateAttemptWorkspaceObject_def hasAnyContent_def
      unclaimed_def time_ops)

theorem object_history_witness:
  "object_wf sample_object \<and> snd (ClaimForCleanup (Some sample_object) ''t'' (sample_instant 4)) \<noteq> None
   \<and> wo_State (run object_exec [ClaimCall ''t'' (sample_instant 5)] sample_object)
     \<in> {AttemptWorkspaceObjectReclaimable, AttemptWorkspaceObjectClaimed}"
proof -
  have sel: "wo_State sample_object = AttemptWorkspaceObjectReclaimable"
    "ot_Time (wo_ReclaimAfter sample_object) = sample_instant 5"
    by (simp_all add: sample_object_def)
  have "sample_object = run object_exec [] sample_object" by simp
  from object_history [OF sample_object_wf this]
  have "snd (ClaimForCleanup (Some sample_object) ''t'' (sample_instant 4)) = None \<longrightarrow>
      t_ns (ot_Time (wo_ReclaimAfter sample_object)) \<le> trunc_us (t_ns (sample_instant 4))" by blast
  moreover from object_history [OF sample_object_wf refl, of "[ClaimCall ''t'' (sample_instant 5)]"] sel(1)
  have "wo_State (run object_exec [ClaimCall ''t'' (sample_instant 5)] sample_object)
     \<in> {AttemptWorkspaceObjectReclaimable, AttemptWorkspaceObjectClaimed}" by blast
  ultimately show ?thesis using sel sample_object_wf by simp
qed

end
