(* ===== verification/ExamSubmission.thy ===== *)
theory ExamSubmission
  imports Workspace Sha256 "HOL-Library.Multiset"
begin

text \<open>
  The sealed record of an Attempt: \<^verbatim>\<open>server/model/exam_submission.go\<close> (manifest entries,
  the canonical manifest with its digest, the Submission header) and
  \<^verbatim>\<open>server/model/browser_submission_settlement.go\<close> (the settlement summary that the header
  carries).  The digest input is modelled byte for byte, over SHA-256 of the theory
  \<open>Sha256\<close>.
\<close>

section \<open>Manifest entries\<close>

definition ExamSubmissionManifestSchemaVersion :: int where "ExamSubmissionManifestSchemaVersion = 1"

definition examSubmissionManifestDigestDomain :: string where
  "examSubmissionManifestDigestDomain = ''proctor.exam_submission_manifest''"

datatype SubmissionIntegrityState =
    SubmissionIntegritySettled
  | SubmissionIntegrityGapped
  | SubmissionIntegrityRetired
  | SubmissionIntegrityOther string

definition SubmissionIntegrityState_IsValid :: "SubmissionIntegrityState \<Rightarrow> bool" where
  "SubmissionIntegrityState_IsValid s \<longleftrightarrow>
     s = SubmissionIntegritySettled \<or> s = SubmissionIntegrityGapped \<or> s = SubmissionIntegrityRetired"

datatype ExamSubmissionProvenance =
    ExamSubmissionCandidateSubmitted
  | ExamSubmissionManagerEndedAttempt
  | ExamSubmissionSittingClosed
  | ExamSubmissionProvenanceOther string

definition ExamSubmissionProvenance_IsValid :: "ExamSubmissionProvenance \<Rightarrow> bool" where
  "ExamSubmissionProvenance_IsValid p \<longleftrightarrow> p = ExamSubmissionCandidateSubmitted
     \<or> p = ExamSubmissionManagerEndedAttempt \<or> p = ExamSubmissionSittingClosed"

record ExamSubmissionManifestEntry =
  me_EntryID :: string
  me_Kind :: StarterWorkspaceEntryKind
  me_Path :: string
  me_ContentVersion :: string
  me_MediaType :: string
  me_SizeBytes :: int
  me_SHA256 :: string
  me_StorageOrigin :: AttemptWorkspaceObjectStorage
  me_StarterObjectID :: string
  me_AttemptObjectID :: string

definition ExamSubmissionManifestEntry_Validate :: "ExamSubmissionManifestEntry \<Rightarrow> go_error option" where
  "ExamSubmissionManifestEntry_Validate e =
     (let err = (\<lambda>reason. Some (invalidModelError ''ExamSubmissionManifestEntry.Validate''
            ''exam_submission_manifest_entry'' [] reason []))
      in if \<not> IsValidOpaqueID (me_EntryID e) then err ''invalid Submission manifest Entry identity''
         else case NormalizeAttemptWorkspacePath (me_Path e) of (path, perr) \<Rightarrow>
         if perr \<noteq> None \<or> path \<noteq> me_Path e then err ''invalid Submission manifest path''
         else case me_Kind e of
           StarterWorkspaceEntryDirectory \<Rightarrow>
             if me_ContentVersion e \<noteq> [] \<or> me_MediaType e \<noteq> [] \<or> me_SizeBytes e \<noteq> 0 \<or> me_SHA256 e \<noteq> []
               \<or> me_StorageOrigin e \<noteq> AttemptWorkspaceStorageNone \<or> me_StarterObjectID e \<noteq> []
               \<or> me_AttemptObjectID e \<noteq> [] then
               err ''Submission manifest directory cannot carry content''
             else None
         | StarterWorkspaceEntryFile \<Rightarrow>
             if \<not> WorkspaceContentVersion_IsValid (me_ContentVersion e)
               \<or> AttemptWorkspaceContent_Validate \<lparr>wc_MediaType = me_MediaType e,
                    wc_SizeBytes = me_SizeBytes e, wc_SHA256 = me_SHA256 e\<rparr> \<noteq> None then
               err ''invalid Submission manifest file content''
             else (case me_StorageOrigin e of
                 AttemptWorkspaceStorageStarter \<Rightarrow>
                   if \<not> IsValidOpaqueID (me_StarterObjectID e) \<or> me_AttemptObjectID e \<noteq> [] then
                     err ''invalid starter-origin Submission manifest file'' else None
               | AttemptWorkspaceStorageAttempt \<Rightarrow>
                   if \<not> IsValidOpaqueID (me_AttemptObjectID e) \<or> me_StarterObjectID e \<noteq> [] then
                     err ''invalid attempt-origin Submission manifest file'' else None
               | _ \<Rightarrow> err ''invalid Submission manifest storage origin'')
         | StarterWorkspaceEntryKindOther _ \<Rightarrow> err ''invalid Submission manifest Entry kind'')"

section \<open>The manifest digest\<close>

record ExamSubmissionManifest =
  em_SchemaVersion :: int
  em_WorkspaceCursor :: int
  em_Entries :: "ExamSubmissionManifestEntry list"
  em_EntryCount :: int
  em_TotalFileBytes :: int
  em_SHA256 :: string

text \<open>
  The bytes that \<^verbatim>\<open>computeExamSubmissionManifestDigest\<close> writes to the hash, in order; the
  conversion \<^verbatim>\<open>uint64(x)\<close> of a signed integer is its residue.
\<close>

definition writeSubmissionDigestUint64 :: "int \<Rightarrow> nat list" where
  "writeSubmissionDigestUint64 v = be_bytes 8 (nat (v mod 2 ^ 64))"

definition writeSubmissionDigestFrame :: "string \<Rightarrow> nat list" where
  "writeSubmissionDigestFrame v = writeSubmissionDigestUint64 (int (length v)) @ bytes_of v"

fun kind_text :: "StarterWorkspaceEntryKind \<Rightarrow> string" where
  "kind_text StarterWorkspaceEntryFile = ''file''"
| "kind_text StarterWorkspaceEntryDirectory = ''directory''"
| "kind_text (StarterWorkspaceEntryKindOther s) = s"

fun storage_text :: "AttemptWorkspaceObjectStorage \<Rightarrow> string" where
  "storage_text AttemptWorkspaceStorageNone = []"
| "storage_text AttemptWorkspaceStorageStarter = ''starter''"
| "storage_text AttemptWorkspaceStorageAttempt = ''attempt''"
| "storage_text (AttemptWorkspaceStorageOther s) = s"

definition entry_digest_bytes :: "ExamSubmissionManifestEntry \<Rightarrow> nat list" where
  "entry_digest_bytes e =
     writeSubmissionDigestFrame (me_EntryID e) @ writeSubmissionDigestFrame (kind_text (me_Kind e))
     @ writeSubmissionDigestFrame (me_Path e) @ writeSubmissionDigestFrame (me_ContentVersion e)
     @ writeSubmissionDigestFrame (me_MediaType e) @ writeSubmissionDigestUint64 (me_SizeBytes e)
     @ writeSubmissionDigestFrame (me_SHA256 e) @ writeSubmissionDigestFrame (storage_text (me_StorageOrigin e))
     @ writeSubmissionDigestFrame (me_StarterObjectID e) @ writeSubmissionDigestFrame (me_AttemptObjectID e)"

definition manifest_digest_bytes :: "ExamSubmissionManifest \<Rightarrow> nat list" where
  "manifest_digest_bytes m =
     writeSubmissionDigestFrame examSubmissionManifestDigestDomain
     @ writeSubmissionDigestUint64 (em_SchemaVersion m) @ writeSubmissionDigestUint64 (em_WorkspaceCursor m)
     @ writeSubmissionDigestUint64 (int (length (em_Entries m)))
     @ concat (map entry_digest_bytes (em_Entries m))"

definition computeExamSubmissionManifestDigest :: "ExamSubmissionManifest \<Rightarrow> string" where
  "computeExamSubmissionManifestDigest m = hex_encode (sha256 (manifest_digest_bytes m))"

section \<open>The manifest\<close>

definition manifest_error :: "string \<Rightarrow> go_error" where
  "manifest_error reason =
     invalidModelError ''ExamSubmissionManifest.Validate'' ''exam_submission_manifest'' [] reason []"

text \<open>
  The loop of \<^verbatim>\<open>Validate\<close>: the identifier of the previous entry, the paths seen so far and
  the running tot; an error, or the tot.
\<close>

fun validate_entries ::
    "string option \<Rightarrow> string list \<Rightarrow> int \<Rightarrow> ExamSubmissionManifestEntry list \<Rightarrow> go_error + int" where
  "validate_entries prev paths tot [] = Inr tot"
| "validate_entries prev paths tot (e # es) =
     (case ExamSubmissionManifestEntry_Validate e of Some er \<Rightarrow> Inl er
      | None \<Rightarrow>
        if (case prev of None \<Rightarrow> False | Some p \<Rightarrow> me_EntryID e \<le> p) then
          Inl (manifest_error ''Submission manifest Entries are not in canonical order'')
        else if me_Path e \<in> set paths then
          Inl (manifest_error ''Submission manifest contains duplicate path'')
        else if me_Kind e = StarterWorkspaceEntryFile then
          (if wrap64 (maxInt64 - tot) < me_SizeBytes e then
             Inl (manifest_error ''Submission manifest size overflows'')
           else validate_entries (Some (me_EntryID e)) (me_Path e # paths) (wrap64 (tot + me_SizeBytes e)) es)
        else validate_entries (Some (me_EntryID e)) (me_Path e # paths) tot es)"

definition ExamSubmissionManifest_Validate :: "ExamSubmissionManifest \<Rightarrow> go_error option" where
  "ExamSubmissionManifest_Validate m =
     (if em_SchemaVersion m \<noteq> ExamSubmissionManifestSchemaVersion \<or> em_WorkspaceCursor m < 0
        \<or> em_EntryCount m \<noteq> int (length (em_Entries m)) \<or> em_EntryCount m > ExamWorkspaceMaximumEntries
        \<or> em_TotalFileBytes m < 0 \<or> em_TotalFileBytes m > ExamWorkspaceMaximumTotalBytes
        \<or> \<not> validLowerSHA256 (em_SHA256 m) then
        Some (manifest_error ''invalid Submission manifest metadata'')
      else case validate_entries None [] 0 (em_Entries m) of
          Inl er \<Rightarrow> Some er
        | Inr tot \<Rightarrow>
            if tot \<noteq> em_TotalFileBytes m \<or> computeExamSubmissionManifestDigest m \<noteq> em_SHA256 m then
              Some (manifest_error ''invalid Submission manifest digest'')
            else None)"

fun total_file_bytes :: "int \<Rightarrow> ExamSubmissionManifestEntry list \<Rightarrow> int option" where
  "total_file_bytes tot [] = Some tot"
| "total_file_bytes tot (e # es) =
     (if me_Kind e = StarterWorkspaceEntryFile then
        (if wrap64 (maxInt64 - tot) < me_SizeBytes e then None
         else total_file_bytes (wrap64 (tot + me_SizeBytes e)) es)
      else total_file_bytes tot es)"

definition zero_manifest :: ExamSubmissionManifest where
  "zero_manifest = \<lparr>em_SchemaVersion = 0, em_WorkspaceCursor = 0, em_Entries = [], em_EntryCount = 0,
     em_TotalFileBytes = 0, em_SHA256 = []\<rparr>"

definition NewExamSubmissionManifest ::
    "int \<Rightarrow> ExamSubmissionManifestEntry list \<Rightarrow> ExamSubmissionManifest \<times> go_error option" where
  "NewExamSubmissionManifest workspaceCursor entries =
     (let es = sort_key me_EntryID entries
      in case total_file_bytes 0 es of
           None \<Rightarrow> (zero_manifest, Some (invalidModelError ''NewExamSubmissionManifest'' ''exam_submission'' []
             ''Submission manifest size overflows'' []))
         | Some tot \<Rightarrow>
           let manifest = \<lparr>em_SchemaVersion = ExamSubmissionManifestSchemaVersion,
                 em_WorkspaceCursor = workspaceCursor, em_Entries = es, em_EntryCount = int (length es),
                 em_TotalFileBytes = tot, em_SHA256 = []\<rparr>;
               sealed = manifest\<lparr>em_SHA256 := computeExamSubmissionManifestDigest manifest\<rparr>
           in case ExamSubmissionManifest_Validate sealed of
                Some er \<Rightarrow> (zero_manifest, Some er)
              | None \<Rightarrow> (sealed, None))"

section \<open>Browser settlement\<close>

definition securitySafeInt :: "int \<Rightarrow> bool" where
  "securitySafeInt v \<longleftrightarrow> v \<ge> 0 \<and> v \<le> 9007199254740991"

record BrowserSubmissionSettlement =
  bs_State :: string
  bs_InventoryRevision :: int
  bs_SourceCount :: int
  bs_PendingSourceCount :: int
  bs_IncompleteSourceCount :: int

definition ErrDeliveryInvalid :: go_error where
  "ErrDeliveryInvalid = Sentinel ''delivery declaration is invalid''"

definition BrowserSubmissionSettlement_Validate :: "BrowserSubmissionSettlement \<Rightarrow> go_error option" where
  "BrowserSubmissionSettlement_Validate v =
     (if bs_InventoryRevision v < 1 \<or> \<not> securitySafeInt (bs_InventoryRevision v)
        \<or> \<not> securitySafeInt (bs_SourceCount v) \<or> bs_PendingSourceCount v < 0
        \<or> bs_PendingSourceCount v > bs_SourceCount v \<or> bs_IncompleteSourceCount v < 0
        \<or> bs_IncompleteSourceCount v > bs_SourceCount v then Some ErrDeliveryInvalid
      else let expected =
             (if bs_SourceCount v = 0 then ''not_applicable''
              else if bs_PendingSourceCount v > 0 then ''pending''
              else if bs_IncompleteSourceCount v > 0 then ''incomplete''
              else ''settled'')
        in if bs_State v \<noteq> expected then Some ErrDeliveryInvalid else None)"

section \<open>The Submission header\<close>

record ExamSubmissionSpecification =
  sp_ID :: string
  sp_AttemptID :: string
  sp_ExamRevisionID :: string
  sp_WorkspaceID :: string
  sp_Manifest :: ExamSubmissionManifest
  sp_FinalFocusLossSequence :: int
  sp_BrowserActivity :: BrowserSubmissionSettlement
  sp_UnresolvedIntegrityCount :: int
  sp_Provenance :: ExamSubmissionProvenance
  sp_SubmittedAt :: gtime

record ExamSubmission =
  su_ID :: string
  su_AttemptID :: string
  su_ExamRevisionID :: string
  su_WorkspaceID :: string
  su_ManifestSchemaVersion :: int
  su_WorkspaceCursor :: int
  su_ManifestDigest :: string
  su_ManifestEntryCount :: int
  su_ManifestTotalFileBytes :: int
  su_FinalFocusLossSequence :: int
  su_BrowserActivity :: BrowserSubmissionSettlement
  su_IntegrityState :: SubmissionIntegrityState
  su_IntegrityRetiredAt :: optional_time
  su_UnresolvedIntegrityCount :: int
  su_Provenance :: ExamSubmissionProvenance
  su_SubmittedAt :: gtime

definition ExamSubmission_Validate :: "ExamSubmission option \<Rightarrow> go_error option" where
  "ExamSubmission_Validate v =
     (let err = (\<lambda>reason. Some (invalidModelError ''ExamSubmission.Validate'' ''exam_submission'' [] reason []))
      in case v of None \<Rightarrow> err ''invalid Exam Submission''
       | Some s \<Rightarrow>
         if \<not> IsValidOpaqueID (su_ID s) \<or> \<not> IsValidOpaqueID (su_AttemptID s)
           \<or> \<not> IsValidOpaqueID (su_ExamRevisionID s) \<or> \<not> IsValidOpaqueID (su_WorkspaceID s)
           \<or> su_ManifestSchemaVersion s \<noteq> ExamSubmissionManifestSchemaVersion \<or> su_WorkspaceCursor s < 0
           \<or> \<not> validLowerSHA256 (su_ManifestDigest s) \<or> su_ManifestEntryCount s < 0
           \<or> su_ManifestEntryCount s > ExamWorkspaceMaximumEntries \<or> su_ManifestTotalFileBytes s < 0
           \<or> su_ManifestTotalFileBytes s > ExamWorkspaceMaximumTotalBytes
           \<or> su_FinalFocusLossSequence s < 0 \<or> su_UnresolvedIntegrityCount s < 0
           \<or> IsZero (su_SubmittedAt s) \<or> \<not> SubmissionIntegrityState_IsValid (su_IntegrityState s)
           \<or> \<not> ExamSubmissionProvenance_IsValid (su_Provenance s) then err ''invalid Exam Submission''
         else if su_ManifestEntryCount s = 0 \<and> su_ManifestTotalFileBytes s \<noteq> 0 then
           err ''empty Exam Submission manifest has content bytes''
         else case BrowserSubmissionSettlement_Validate (su_BrowserActivity s) of
           Some er \<Rightarrow> Some er
         | None \<Rightarrow>
           if su_IntegrityState s = SubmissionIntegrityRetired then
             (if \<not> ot_Valid (su_IntegrityRetiredAt s) \<or> IsZero (ot_Time (su_IntegrityRetiredAt s))
                \<or> Before (ot_Time (su_IntegrityRetiredAt s)) (su_SubmittedAt s)
                \<or> su_FinalFocusLossSequence s \<noteq> 0 \<or> su_UnresolvedIntegrityCount s \<noteq> 0 then
                err ''retired Exam Submission retains integrity data or lacks its retirement time''
              else None)
           else if ot_Valid (su_IntegrityRetiredAt s) \<or> \<not> IsZero (ot_Time (su_IntegrityRetiredAt s)) then
             err ''retained Exam Submission integrity has a retirement time''
           else if (su_IntegrityState s = SubmissionIntegritySettled) \<noteq> (su_UnresolvedIntegrityCount s = 0) then
             err ''inconsistent Exam Submission integrity state''
           else None)"

definition NewExamSubmission :: "ExamSubmissionSpecification \<Rightarrow> ExamSubmission option \<times> go_error option" where
  "NewExamSubmission spec =
     (case ExamSubmissionManifest_Validate (sp_Manifest spec) of
        Some er \<Rightarrow> (None, Some er)
      | None \<Rightarrow>
        let state = (if sp_UnresolvedIntegrityCount spec > 0 then SubmissionIntegrityGapped
              else SubmissionIntegritySettled);
            submission = \<lparr>su_ID = sp_ID spec, su_AttemptID = sp_AttemptID spec,
              su_ExamRevisionID = sp_ExamRevisionID spec, su_WorkspaceID = sp_WorkspaceID spec,
              su_ManifestSchemaVersion = em_SchemaVersion (sp_Manifest spec),
              su_WorkspaceCursor = em_WorkspaceCursor (sp_Manifest spec),
              su_ManifestDigest = em_SHA256 (sp_Manifest spec),
              su_ManifestEntryCount = em_EntryCount (sp_Manifest spec),
              su_ManifestTotalFileBytes = em_TotalFileBytes (sp_Manifest spec),
              su_FinalFocusLossSequence = sp_FinalFocusLossSequence spec,
              su_BrowserActivity = sp_BrowserActivity spec, su_IntegrityState = state,
              su_IntegrityRetiredAt = no_time, su_UnresolvedIntegrityCount = sp_UnresolvedIntegrityCount spec,
              su_Provenance = sp_Provenance spec, su_SubmittedAt = TimeUTC (sp_SubmittedAt spec)\<rparr>
        in case ExamSubmission_Validate (Some submission) of
             Some er \<Rightarrow> (None, Some er)
           | None \<Rightarrow> (Some submission, None))"

section \<open>Valid entries\<close>

definition proper_entry :: "ExamSubmissionManifestEntry \<Rightarrow> bool" where
  "proper_entry e \<longleftrightarrow> IsValidOpaqueID (me_EntryID e) \<and> canonical_path (me_Path e)
     \<and> (me_Kind e = StarterWorkspaceEntryDirectory
          \<and> me_ContentVersion e = [] \<and> me_MediaType e = [] \<and> me_SizeBytes e = 0 \<and> me_SHA256 e = []
          \<and> me_StorageOrigin e = AttemptWorkspaceStorageNone \<and> me_StarterObjectID e = []
          \<and> me_AttemptObjectID e = []
        \<or> me_Kind e = StarterWorkspaceEntryFile \<and> WorkspaceContentVersion_IsValid (me_ContentVersion e)
          \<and> me_MediaType e \<noteq> [] \<and> TrimSpace (me_MediaType e) = me_MediaType e \<and> length (me_MediaType e) \<le> 255
          \<and> 0 \<le> me_SizeBytes e \<and> me_SizeBytes e \<le> ExamWorkspaceMaximumFileBytes
          \<and> validLowerSHA256 (me_SHA256 e)
          \<and> (me_StorageOrigin e = AttemptWorkspaceStorageStarter \<and> IsValidOpaqueID (me_StarterObjectID e)
               \<and> me_AttemptObjectID e = []
             \<or> me_StorageOrigin e = AttemptWorkspaceStorageAttempt \<and> IsValidOpaqueID (me_AttemptObjectID e)
               \<and> me_StarterObjectID e = []))"

lemma content_Validate_ok:
  "AttemptWorkspaceContent_Validate c = None \<longleftrightarrow> wc_MediaType c \<noteq> []
     \<and> TrimSpace (wc_MediaType c) = wc_MediaType c \<and> length (wc_MediaType c) \<le> 255 \<and> 0 \<le> wc_SizeBytes c
     \<and> wc_SizeBytes c \<le> ExamWorkspaceMaximumFileBytes \<and> validLowerSHA256 (wc_SHA256 c)"
  by (auto simp: AttemptWorkspaceContent_Validate_def)

lemma entry_path_test:
  "(case NormalizeAttemptWorkspacePath p of (path, er) \<Rightarrow> if er \<noteq> None \<or> path \<noteq> p then x else y)
     = (if canonical_path p then y else x)"
  by (cases "NormalizeStarterWorkspacePath p") (simp add: NormalizeAttemptWorkspacePath_def canonical_path_def)

lemma entry_Validate_ok:
  "ExamSubmissionManifestEntry_Validate e = None \<longleftrightarrow> proper_entry e"
  unfolding ExamSubmissionManifestEntry_Validate_def Let_def entry_path_test proper_entry_def
  by (cases "me_Kind e"; cases "me_StorageOrigin e") (auto simp: content_Validate_ok)


lemma proper_entry_size:
  "proper_entry e \<Longrightarrow> 0 \<le> me_SizeBytes e \<and> me_SizeBytes e \<le> ExamWorkspaceMaximumFileBytes
     \<and> (me_Kind e \<noteq> StarterWorkspaceEntryFile \<longrightarrow> me_SizeBytes e = 0)"
  by (auto simp: proper_entry_def ExamWorkspaceMaximumFileBytes_def)

section \<open>Totals and order\<close>

definition bytes_sum :: "ExamSubmissionManifestEntry list \<Rightarrow> int" where
  "bytes_sum es = sum_list (map me_SizeBytes es)"

lemma bytes_sum_simps [simp]: "bytes_sum [] = 0" "bytes_sum (e # es) = me_SizeBytes e + bytes_sum es"
  by (simp_all add: bytes_sum_def)

lemma bytes_sum_nonneg: "list_all proper_entry es \<Longrightarrow> 0 \<le> bytes_sum es"
  by (induction es) (auto dest: proper_entry_size)

text \<open>The running total overflows exactly when the mathematical sum does.\<close>

lemma add_overflow:
  assumes "0 \<le> t" and "0 \<le> x" and "is_int64 t" and "is_int64 x"
  shows "wrap64 (maxInt64 - t) < x \<longleftrightarrow> maxInt64 < t + x"
    and "t + x \<le> maxInt64 \<Longrightarrow> wrap64 (t + x) = t + x"
  using assms wrap64_id [of "maxInt64 - t"] wrap64_id [of "t + x"] by (auto simp: is_int64_def minInt64_def maxInt64_def)

lemma proper_size_int64: "proper_entry e \<Longrightarrow> is_int64 (me_SizeBytes e)"
  using proper_entry_size [of e] by (simp add: is_int64_def minInt64_def maxInt64_def ExamWorkspaceMaximumFileBytes_def)

lemma total_file_bytes_exact:
  assumes "list_all proper_entry es" and "0 \<le> t" and "is_int64 t"
  shows "total_file_bytes t es = (if t + bytes_sum es \<le> maxInt64 then Some (t + bytes_sum es) else None)"
  using assms
proof (induction es arbitrary: t)
  case Nil
  then show ?case by (simp add: is_int64_def)
next
  case (Cons e es)
  then have e: "proper_entry e" and es: "list_all proper_entry es" by simp_all
  note size = proper_entry_size [OF e] and ov = add_overflow [OF \<open>0 \<le> t\<close> _ \<open>is_int64 t\<close> proper_size_int64 [OF e]]
  show ?case
  proof (cases "me_Kind e = StarterWorkspaceEntryFile")
    case False
    with size Cons.IH [OF es Cons.prems(2,3)] show ?thesis by simp
  next
    case True
    show ?thesis
    proof (cases "t + me_SizeBytes e \<le> maxInt64")
      case False
      with True ov size bytes_sum_nonneg [OF es] show ?thesis by simp
    next
      case le: True
      then have "is_int64 (t + me_SizeBytes e)" using size \<open>0 \<le> t\<close> by (simp add: is_int64_def minInt64_def)
      with Cons.IH [OF es, of "t + me_SizeBytes e"] True ov size le \<open>0 \<le> t\<close> show ?thesis
        by (simp add: add.assoc)
    qed
  qed
qed

lemma validate_entries_exact:
  assumes "0 \<le> t" and "is_int64 t"
  shows "validate_entries prev paths t es = Inr x \<longleftrightarrow>
     list_all proper_entry es \<and> sorted_wrt (<) (map me_EntryID es)
     \<and> (\<forall>p. prev = Some p \<longrightarrow> (\<forall>e \<in> set es. p < me_EntryID e))
     \<and> distinct (map me_Path es) \<and> set paths \<inter> me_Path ` set es = {}
     \<and> t + bytes_sum es \<le> maxInt64 \<and> x = t + bytes_sum es"
  using assms
proof (induction es arbitrary: prev paths t)
  case Nil
  then show ?case by (auto simp: is_int64_def)
next
  case (Cons e es)
  show ?case
  proof (cases "proper_entry e")
    case False
    then obtain er where "ExamSubmissionManifestEntry_Validate e = Some er"
      using entry_Validate_ok by (metis not_None_eq)
    with False show ?thesis by simp
  next
    case e: True
    note size = proper_entry_size [OF e] and ov = add_overflow [OF \<open>0 \<le> t\<close> _ \<open>is_int64 t\<close> proper_size_int64 [OF e]]
    have v: "ExamSubmissionManifestEntry_Validate e = None" using e by (simp add: entry_Validate_ok)
    define u where "u = t + me_SizeBytes e"
    have ord: "(case prev of None \<Rightarrow> False | Some p \<Rightarrow> me_EntryID e \<le> p)
        \<longleftrightarrow> \<not> (\<forall>p. prev = Some p \<longrightarrow> p < me_EntryID e)"
      by (cases prev) (auto simp: linorder_not_less)
    have step: "validate_entries prev paths t (e # es) = Inr x \<longleftrightarrow>
        (\<forall>p. prev = Some p \<longrightarrow> p < me_EntryID e) \<and> me_Path e \<notin> set paths \<and> u \<le> maxInt64
        \<and> validate_entries (Some (me_EntryID e)) (me_Path e # paths) u es = Inr x"
    proof (cases "me_Kind e = StarterWorkspaceEntryFile")
      case True
      then show ?thesis using v ord ov size by (auto simp: u_def)
    next
      case False
      then have "u = t" using size by (simp add: u_def)
      moreover have "t \<le> maxInt64" using \<open>is_int64 t\<close> by (simp add: is_int64_def)
      ultimately show ?thesis using v ord False by auto
    qed
    have u: "0 \<le> u" "u \<le> maxInt64 \<Longrightarrow> is_int64 u"
      using size \<open>0 \<le> t\<close> by (simp_all add: u_def is_int64_def minInt64_def)
    have sum: "t + bytes_sum (e # es) = u + bytes_sum es" by (simp add: u_def)
    show ?thesis
    proof (cases "u \<le> maxInt64")
      case False
      then have "list_all proper_entry es \<Longrightarrow> maxInt64 < u + bytes_sum es" using bytes_sum_nonneg [of es] by simp
      with False show ?thesis unfolding step sum by auto
    next
      case True
      show ?thesis
        unfolding step sum Cons.IH [OF u(1) u(2) [OF True]] using e True by auto
    qed
  qed
qed

section \<open>Construction of the manifest\<close>

definition manifest_ready :: "int \<Rightarrow> ExamSubmissionManifestEntry list \<Rightarrow> bool" where
  "manifest_ready cursor es \<longleftrightarrow> 0 \<le> cursor \<and> list_all proper_entry es \<and> distinct (map me_EntryID es)
     \<and> distinct (map me_Path es) \<and> int (length es) \<le> ExamWorkspaceMaximumEntries
     \<and> bytes_sum es \<le> ExamWorkspaceMaximumTotalBytes"

definition sealed_manifest :: "int \<Rightarrow> ExamSubmissionManifestEntry list \<Rightarrow> ExamSubmissionManifest" where
  "sealed_manifest cursor es = (let m = \<lparr>em_SchemaVersion = 1, em_WorkspaceCursor = cursor,
       em_Entries = sort_key me_EntryID es, em_EntryCount = int (length es),
       em_TotalFileBytes = bytes_sum es, em_SHA256 = []\<rparr>
     in m\<lparr>em_SHA256 := hex_encode (sha256 (manifest_digest_bytes m))\<rparr>)"

lemma digest_ignores_SHA256 [simp]:
  "manifest_digest_bytes (m\<lparr>em_SHA256 := h\<rparr>) = manifest_digest_bytes m"
  by (simp add: manifest_digest_bytes_def)

lemma Manifest_Validate_ok:
  "ExamSubmissionManifest_Validate m = None \<longleftrightarrow>
     em_SchemaVersion m = 1 \<and> 0 \<le> em_WorkspaceCursor m \<and> em_EntryCount m = int (length (em_Entries m))
     \<and> em_EntryCount m \<le> ExamWorkspaceMaximumEntries \<and> list_all proper_entry (em_Entries m)
     \<and> sorted_wrt (<) (map me_EntryID (em_Entries m)) \<and> distinct (map me_Path (em_Entries m))
     \<and> em_TotalFileBytes m = bytes_sum (em_Entries m) \<and> em_TotalFileBytes m \<le> ExamWorkspaceMaximumTotalBytes
     \<and> em_SHA256 m = computeExamSubmissionManifestDigest m"
  (is "_ \<longleftrightarrow> ?ok")
proof -
  have zero: "(0::int) \<le> 0" "is_int64 0" by (simp_all add: is_int64_def minInt64_def maxInt64_def)
  note ve = validate_entries_exact [OF zero, of None "[]" "em_Entries m"]
  have big: "ExamWorkspaceMaximumTotalBytes \<le> maxInt64"
    by (simp add: ExamWorkspaceMaximumTotalBytes_def maxInt64_def)
  show ?thesis
  proof (cases "validate_entries None [] 0 (em_Entries m)")
    case (Inl er)
    then have "\<not> ?ok" using ve [of "bytes_sum (em_Entries m)"] big by auto
    with Inl show ?thesis by (simp add: ExamSubmissionManifest_Validate_def)
  next
    case (Inr x)
    with ve [of x] have facts: "list_all proper_entry (em_Entries m)" "sorted_wrt (<) (map me_EntryID (em_Entries m))"
      "distinct (map me_Path (em_Entries m))" "x = bytes_sum (em_Entries m)" by auto
    have nonneg: "0 \<le> bytes_sum (em_Entries m)" using facts by (simp add: bytes_sum_nonneg)
    have hash: "validLowerSHA256 (computeExamSubmissionManifestDigest m)"
      by (simp add: computeExamSubmissionManifestDigest_def)
    show ?thesis using Inr facts nonneg hash
      by (auto simp: ExamSubmissionManifest_Validate_def ExamSubmissionManifestSchemaVersion_def)
  qed
qed

lemma bytes_sum_sort [simp]: "bytes_sum (sort_key f es) = bytes_sum es"
  by (metis mset_map mset_sort bytes_sum_def sum_mset_sum_list)

lemma list_all_sort [simp]: "list_all P (sort_key f es) = list_all P es"
  by (simp add: list_all_iff)

lemma distinct_map_sort [simp]: "distinct (map g (sort_key f es)) = distinct (map g es)"
  by (simp add: distinct_map distinct_sort)

lemma sorted_ids_sort: "sorted_wrt (<) (map f (sort_key f es)) = distinct (map f es)"
  by (simp add: strict_sorted_iff)

lemma sealed_valid_iff:
  "ExamSubmissionManifest_Validate (sealed_manifest cursor es) = None \<longleftrightarrow> manifest_ready cursor es"
  unfolding Manifest_Validate_ok sealed_manifest_def manifest_ready_def Let_def
  by (auto simp: sorted_ids_sort computeExamSubmissionManifestDigest_def manifest_digest_bytes_def)

lemma NewManifest_eq:
  "NewExamSubmissionManifest cursor es =
     (if manifest_ready cursor es then (sealed_manifest cursor es, None)
      else (zero_manifest, snd (NewExamSubmissionManifest cursor es)))
   \<and> (manifest_ready cursor es \<or> snd (NewExamSubmissionManifest cursor es) \<noteq> None)"
proof (cases "total_file_bytes 0 (sort_key me_EntryID es)")
  case None
  have "\<not> manifest_ready cursor es"
  proof
    assume "manifest_ready cursor es"
    then have "list_all proper_entry (sort_key me_EntryID es)" "bytes_sum es \<le> maxInt64"
      by (auto simp: manifest_ready_def ExamWorkspaceMaximumTotalBytes_def maxInt64_def)
    with None total_file_bytes_exact [of "sort_key me_EntryID es" 0] show False
      by (simp add: is_int64_def minInt64_def maxInt64_def)
  qed
  with None show ?thesis by (simp add: NewExamSubmissionManifest_def)
next
  case (Some x)
  define m where "m = \<lparr>em_SchemaVersion = 1, em_WorkspaceCursor = cursor,
       em_Entries = sort_key me_EntryID es, em_EntryCount = int (length es),
       em_TotalFileBytes = x, em_SHA256 = []\<rparr>"
  define s where "s = m\<lparr>em_SHA256 := computeExamSubmissionManifestDigest m\<rparr>"
  have new: "NewExamSubmissionManifest cursor es = (case ExamSubmissionManifest_Validate s of
      Some er \<Rightarrow> (zero_manifest, Some er) | None \<Rightarrow> (s, None))"
    unfolding NewExamSubmissionManifest_def Let_def Some s_def m_def length_sort
      ExamSubmissionManifestSchemaVersion_def by simp
  have "s = sealed_manifest cursor es" if "x = bytes_sum es"
    using that by (simp add: s_def m_def sealed_manifest_def computeExamSubmissionManifestDigest_def)
  moreover have "x = bytes_sum es" if "list_all proper_entry es"
    using that Some total_file_bytes_exact [of "sort_key me_EntryID es" 0]
    by (simp add: is_int64_def minInt64_def maxInt64_def split: if_splits)
  moreover have "list_all proper_entry es" if "ExamSubmissionManifest_Validate s = None"
    using that by (simp add: Manifest_Validate_ok s_def m_def)
  ultimately have "ExamSubmissionManifest_Validate s = None \<longleftrightarrow> manifest_ready cursor es"
    "ExamSubmissionManifest_Validate s = None \<Longrightarrow> s = sealed_manifest cursor es"
    using sealed_valid_iff [of cursor es] by (auto simp: manifest_ready_def)
  then show ?thesis unfolding new by (cases "ExamSubmissionManifest_Validate s") auto
qed

lemma sort_by_id_unique:
  assumes "mset es = mset es'" and "distinct (map me_EntryID es)"
  shows "sort_key me_EntryID es = sort_key me_EntryID es'"
proof (rule map_sorted_distinct_set_unique)
  have set: "set es = set es'" using assms(1) by (rule mset_eq_setD)
  show "inj_on me_EntryID (set (sort_key me_EntryID es) \<union> set (sort_key me_EntryID es'))"
    using assms(2) set by (simp add: distinct_map)
  show "distinct (map me_EntryID (sort_key me_EntryID es'))"
    using assms by (metis distinct_map_sort mset_eq_imp_distinct_iff mset_map)
  show "set (sort_key me_EntryID es) = set (sort_key me_EntryID es')" using set by simp
qed (simp_all add: assms)

lemma manifest_ready_mset:
  assumes "mset es = mset es'"
  shows "manifest_ready cursor es = manifest_ready cursor es'"
proof -
  have "distinct (map f es) = distinct (map f es')" for f :: "ExamSubmissionManifestEntry \<Rightarrow> string"
    using assms by (metis mset_eq_imp_distinct_iff mset_map)
  moreover have "bytes_sum es = bytes_sum es'"
    using assms by (metis mset_map bytes_sum_def sum_mset_sum_list)
  moreover have "list_all proper_entry es = list_all proper_entry es'" "length es = length es'"
    using assms mset_eq_setD [OF assms] mset_eq_length [OF assms] by (simp_all add: list_all_iff)
  ultimately show ?thesis by (simp add: manifest_ready_def)
qed


section \<open>The digest input determines the manifest\<close>

lemma u64_inj:
  assumes "is_int64 x" and "is_int64 y"
  shows "writeSubmissionDigestUint64 x @ r = writeSubmissionDigestUint64 y @ r' \<longleftrightarrow> x = y \<and> r = r'"
proof -
  have lt: "nat (z mod 2 ^ 64) < 256 ^ 8" for z :: int
  proof -
    have "z mod 2 ^ 64 < 2 ^ 64" by simp
    then show ?thesis by (simp add: nat_less_iff)
  qed
  have wrap: "z = wrap64 (z mod 2 ^ 64)" if "is_int64 z" for z
    using wrap64_id [OF that] by (simp add: wrap64_def mod_add_left_eq)
  have "nat (x mod 2 ^ 64) = nat (y mod 2 ^ 64) \<longleftrightarrow> x = y"
    by (metis assms wrap eq_nat_nat_iff pos_mod_sign zero_less_numeral zero_less_power)
  then show ?thesis by (simp add: writeSubmissionDigestUint64_def be_bytes_inj lt)
qed

lemma bytes_of_inj [simp]: "bytes_of x = bytes_of y \<longleftrightarrow> x = y"
  by (metis to_string_bytes_of)

lemma length_bytes_of [simp]: "length (bytes_of x) = length x"
  by (simp add: bytes_of_def)

lemma frame_inj:
  assumes "length v \<le> 2000" and "length v' \<le> 2000"
  shows "writeSubmissionDigestFrame v @ r = writeSubmissionDigestFrame v' @ r' \<longleftrightarrow> v = v' \<and> r = r'"
proof -
  have "is_int64 (int (length v))" "is_int64 (int (length v'))"
    using assms by (simp_all add: is_int64_def minInt64_def maxInt64_def)
  note u = u64_inj [OF this]
  show ?thesis
  proof
    assume eq: "writeSubmissionDigestFrame v @ r = writeSubmissionDigestFrame v' @ r'"
    then have "length v = length v'" "bytes_of v @ r = bytes_of v' @ r'"
      using u [of "bytes_of v @ r" "bytes_of v' @ r'"] by (simp_all add: writeSubmissionDigestFrame_def)
    then show "v = v' \<and> r = r'" by simp
  qed simp
qed

lemma canonical_path_length: "canonical_path p \<Longrightarrow> length p \<le> 1024"
  by (auto simp: canonical_path_def NormalizeStarterWorkspacePath_def StarterWorkspaceMaximumPathBytes_def
      split: if_splits)

lemma proper_entry_bounds:
  assumes "proper_entry e"
  shows "length (me_EntryID e) \<le> 2000" "length (kind_text (me_Kind e)) \<le> 2000" "length (me_Path e) \<le> 2000"
    "length (me_ContentVersion e) \<le> 2000" "length (me_MediaType e) \<le> 2000" "length (me_SHA256 e) \<le> 2000"
    "length (storage_text (me_StorageOrigin e)) \<le> 2000" "length (me_StarterObjectID e) \<le> 2000"
    "length (me_AttemptObjectID e) \<le> 2000"
  using assms canonical_path_length [of "me_Path e"]
  by (auto simp: proper_entry_def IsValidOpaqueID_def IDLength_def WorkspaceContentVersion_IsValid_def
      validLowerSHA256_def)

lemma kind_text_inj:
  "k \<in> {StarterWorkspaceEntryFile, StarterWorkspaceEntryDirectory} \<Longrightarrow>
   k' \<in> {StarterWorkspaceEntryFile, StarterWorkspaceEntryDirectory} \<Longrightarrow> kind_text k = kind_text k' \<longleftrightarrow> k = k'"
  by auto

lemma storage_text_inj:
  "k \<in> {AttemptWorkspaceStorageNone, AttemptWorkspaceStorageStarter, AttemptWorkspaceStorageAttempt} \<Longrightarrow>
   k' \<in> {AttemptWorkspaceStorageNone, AttemptWorkspaceStorageStarter, AttemptWorkspaceStorageAttempt} \<Longrightarrow>
   storage_text k = storage_text k' \<longleftrightarrow> k = k'"
  by auto

lemma proper_entry_enums:
  "proper_entry e \<Longrightarrow> me_Kind e \<in> {StarterWorkspaceEntryFile, StarterWorkspaceEntryDirectory}
   \<and> me_StorageOrigin e \<in> {AttemptWorkspaceStorageNone, AttemptWorkspaceStorageStarter, AttemptWorkspaceStorageAttempt}"
  by (auto simp: proper_entry_def)

lemma entry_bytes_inj:
  assumes "proper_entry e" and "proper_entry e'"
  shows "entry_digest_bytes e @ r = entry_digest_bytes e' @ r' \<longleftrightarrow> e = e' \<and> r = r'"
proof -
  note b = proper_entry_bounds [OF assms(1)] proper_entry_bounds [OF assms(2)]
  note enum = proper_entry_enums [OF assms(1)] proper_entry_enums [OF assms(2)]
  have k: "kind_text (me_Kind e) = kind_text (me_Kind e') \<longleftrightarrow> me_Kind e = me_Kind e'"
    using enum by (intro kind_text_inj) simp_all
  have s: "storage_text (me_StorageOrigin e) = storage_text (me_StorageOrigin e') \<longleftrightarrow> me_StorageOrigin e = me_StorageOrigin e'"
    using enum by (intro storage_text_inj) simp_all
  have "e = e' \<longleftrightarrow> me_EntryID e = me_EntryID e' \<and> me_Kind e = me_Kind e' \<and> me_Path e = me_Path e'
      \<and> me_ContentVersion e = me_ContentVersion e' \<and> me_MediaType e = me_MediaType e'
      \<and> me_SizeBytes e = me_SizeBytes e' \<and> me_SHA256 e = me_SHA256 e' \<and> me_StorageOrigin e = me_StorageOrigin e'
      \<and> me_StarterObjectID e = me_StarterObjectID e' \<and> me_AttemptObjectID e = me_AttemptObjectID e'"
    by (cases e, cases e') simp
  then show ?thesis
    by (simp add: entry_digest_bytes_def frame_inj b u64_inj proper_size_int64 assms k s)
qed

lemma entries_bytes_inj:
  assumes "list_all proper_entry es" and "list_all proper_entry es'" and "length es = length es'"
  shows "concat (map entry_digest_bytes es) = concat (map entry_digest_bytes es') \<longleftrightarrow> es = es'"
  using assms(3,1,2)
  by (induction es es' rule: list_induct2) (simp_all add: entry_bytes_inj)

lemma manifest_bytes_inj:
  assumes m: "ExamSubmissionManifest_Validate m = None" and m': "ExamSubmissionManifest_Validate m' = None"
    and c: "is_int64 (em_WorkspaceCursor m)" "is_int64 (em_WorkspaceCursor m')"
  shows "manifest_digest_bytes m = manifest_digest_bytes m' \<longleftrightarrow> m = m'"
proof
  assume eq: "manifest_digest_bytes m = manifest_digest_bytes m'"
  note v = m [unfolded Manifest_Validate_ok] and v' = m' [unfolded Manifest_Validate_ok]
  have len: "is_int64 (int (length (em_Entries m)))" "is_int64 (int (length (em_Entries m')))"
    using v v' by (auto simp: is_int64_def minInt64_def maxInt64_def ExamWorkspaceMaximumEntries_def)
  have one: "is_int64 1" by (simp add: is_int64_def minInt64_def maxInt64_def)
  from eq have "em_WorkspaceCursor m = em_WorkspaceCursor m'" and l: "length (em_Entries m) = length (em_Entries m')"
    and "concat (map entry_digest_bytes (em_Entries m)) = concat (map entry_digest_bytes (em_Entries m'))"
    using v v' c len one by (auto simp: manifest_digest_bytes_def u64_inj)
  moreover from this have "em_Entries m = em_Entries m'" using v v' entries_bytes_inj l by blast
  moreover have "em_SHA256 m = em_SHA256 m'"
    using v v' eq by (simp add: computeExamSubmissionManifestDigest_def)
  ultimately show "m = m'" using v v' by (cases m, cases m') simp
qed simp

section \<open>Properties\<close>

text \<open>C33. A manifest can be built exactly when the cursor is not negative, every entry is well
  formed, no two entries share an identifier or a path, there are at most 5000 of them and their
  sizes add up to at most one gibibyte.  It then lists the entries in strictly increasing order of
  their identifiers, with their count, the exact sum of their sizes (the 64-bit accumulation never
  wraps around) and the digest of the encoding; it passes validation, and it is the same for
  every order in which the entries are supplied.  Otherwise the zero manifest and an error are
  returned.\<close>

theorem NewExamSubmissionManifest_exact:
  "case NewExamSubmissionManifest cursor entries of (m, e) \<Rightarrow>
     (e = None \<longleftrightarrow> 0 \<le> cursor \<and> list_all (\<lambda>x. ExamSubmissionManifestEntry_Validate x = None) entries
        \<and> distinct (map me_EntryID entries) \<and> distinct (map me_Path entries) \<and> length entries \<le> 5000
        \<and> sum_list (map me_SizeBytes entries) \<le> 2 ^ 30)
     \<and> (e \<noteq> None \<longrightarrow> m = zero_manifest)
     \<and> (e = None \<longrightarrow> ExamSubmissionManifest_Validate m = None \<and> em_WorkspaceCursor m = cursor
        \<and> mset (em_Entries m) = mset entries \<and> sorted_wrt (<) (map me_EntryID (em_Entries m))
        \<and> em_EntryCount m = int (length entries) \<and> em_TotalFileBytes m = sum_list (map me_SizeBytes entries)
        \<and> em_SHA256 m = computeExamSubmissionManifestDigest m
        \<and> (\<forall>entries'. mset entries' = mset entries \<longrightarrow> NewExamSubmissionManifest cursor entries' = (m, None)))"
proof (cases "manifest_ready cursor entries")
  case True
  then have new: "NewExamSubmissionManifest cursor entries = (sealed_manifest cursor entries, None)"
    using NewManifest_eq [of cursor entries] by simp
  have valid: "ExamSubmissionManifest_Validate (sealed_manifest cursor entries) = None"
    using True by (simp add: sealed_valid_iff)
  have "NewExamSubmissionManifest cursor entries' = (sealed_manifest cursor entries, None)"
    if "mset entries' = mset entries" for entries'
  proof -
    have ids: "distinct (map me_EntryID entries)" using True by (simp add: manifest_ready_def)
    have "bytes_sum entries' = bytes_sum entries" "length entries' = length entries"
      using that by (metis mset_map bytes_sum_def sum_mset_sum_list, metis that size_mset)
    then have "sealed_manifest cursor entries' = sealed_manifest cursor entries"
      using sort_by_id_unique [OF that [symmetric] ids] by (simp add: sealed_manifest_def)
    then show ?thesis using NewManifest_eq [of cursor entries'] manifest_ready_mset [OF that] True by simp
  qed
  moreover have "em_Entries (sealed_manifest cursor entries) = sort_key me_EntryID entries"
    "em_WorkspaceCursor (sealed_manifest cursor entries) = cursor"
    "em_EntryCount (sealed_manifest cursor entries) = int (length entries)"
    "em_TotalFileBytes (sealed_manifest cursor entries) = bytes_sum entries"
    by (simp_all add: sealed_manifest_def Let_def)
  ultimately show ?thesis using new valid True valid [unfolded Manifest_Validate_ok]
    by (simp add: manifest_ready_def entry_Validate_ok ExamWorkspaceMaximumEntries_def
        ExamWorkspaceMaximumTotalBytes_def bytes_sum_def)
next
  case False
  then have "fst (NewExamSubmissionManifest cursor entries) = zero_manifest"
    "snd (NewExamSubmissionManifest cursor entries) \<noteq> None"
    using NewManifest_eq [of cursor entries] by (auto dest: arg_cong [of _ _ fst])
  with False show ?thesis
    by (auto simp: manifest_ready_def entry_Validate_ok ExamWorkspaceMaximumEntries_def
        ExamWorkspaceMaximumTotalBytes_def bytes_sum_def split: prod.split)
qed

text \<open>C34. The digest binds the manifest: the length-framed encoding that is hashed is injective
  on valid manifests, so two valid manifests with the same recorded digest are equal in every
  field, unless their two encodings are a collision of SHA-256.\<close>

theorem manifest_digest_binds:
  assumes "ExamSubmissionManifest_Validate m = None" and "ExamSubmissionManifest_Validate m' = None"
    and "is_int64 (em_WorkspaceCursor m)" and "is_int64 (em_WorkspaceCursor m')"
  shows "(manifest_digest_bytes m = manifest_digest_bytes m' \<longleftrightarrow> m = m')
    \<and> (em_SHA256 m = em_SHA256 m' \<longrightarrow> m = m' \<or>
        manifest_digest_bytes m \<noteq> manifest_digest_bytes m'
        \<and> sha256 (manifest_digest_bytes m) = sha256 (manifest_digest_bytes m'))"
  using manifest_bytes_inj [OF assms] assms(1,2) [unfolded Manifest_Validate_ok]
  by (auto simp: computeExamSubmissionManifestDigest_def digest_inj)

text \<open>C35. A Submission is created exactly from a valid manifest, valid identifiers, counters
  that are not negative, a known provenance, a nonzero time and a settlement whose state is the one its
  counts imply (not applicable without sources, else pending before incomplete before settled).
  The header then records the summary of that manifest and its digest, is settled exactly when no
  integrity question is open and gapped otherwise, is not retired, and passes validation.\<close>

theorem NewExamSubmission_exact:
  "case NewExamSubmission spec of (result, e) \<Rightarrow>
     (e = None \<longleftrightarrow> ExamSubmissionManifest_Validate (sp_Manifest spec) = None
        \<and> IsValidOpaqueID (sp_ID spec) \<and> IsValidOpaqueID (sp_AttemptID spec)
        \<and> IsValidOpaqueID (sp_ExamRevisionID spec) \<and> IsValidOpaqueID (sp_WorkspaceID spec)
        \<and> 0 \<le> sp_FinalFocusLossSequence spec \<and> 0 \<le> sp_UnresolvedIntegrityCount spec
        \<and> ExamSubmissionProvenance_IsValid (sp_Provenance spec) \<and> trunc_us (t_ns (sp_SubmittedAt spec)) \<noteq> 0
        \<and> BrowserSubmissionSettlement_Validate (sp_BrowserActivity spec) = None)
     \<and> (e \<noteq> None \<longrightarrow> result = None)
     \<and> (e = None \<longrightarrow> (\<exists>s. result = Some s \<and> ExamSubmission_Validate (Some s) = None
        \<and> su_ManifestDigest s = computeExamSubmissionManifestDigest (sp_Manifest spec)
        \<and> su_ManifestEntryCount s = int (length (em_Entries (sp_Manifest spec)))
        \<and> su_ManifestTotalFileBytes s = sum_list (map me_SizeBytes (em_Entries (sp_Manifest spec)))
        \<and> su_WorkspaceCursor s = em_WorkspaceCursor (sp_Manifest spec)
        \<and> su_AttemptID s = sp_AttemptID spec \<and> su_SubmittedAt s = TimeUTC (sp_SubmittedAt spec)
        \<and> su_IntegrityState s = (if sp_UnresolvedIntegrityCount spec = 0 then SubmissionIntegritySettled
             else SubmissionIntegrityGapped)))"
proof (cases "ExamSubmissionManifest_Validate (sp_Manifest spec)")
  case (Some er)
  then show ?thesis by (simp add: NewExamSubmission_def)
next
  case None
  note v = None [unfolded Manifest_Validate_ok]
  have pos: "0 \<le> bytes_sum (em_Entries (sp_Manifest spec))"
    "em_Entries (sp_Manifest spec) = [] \<Longrightarrow> bytes_sum (em_Entries (sp_Manifest spec)) = 0"
    using v by (simp_all add: bytes_sum_nonneg)
  have hash: "validLowerSHA256 (computeExamSubmissionManifestDigest (sp_Manifest spec))"
    by (simp add: computeExamSubmissionManifestDigest_def)
  define state where "state = (if sp_UnresolvedIntegrityCount spec > 0 then SubmissionIntegrityGapped
      else SubmissionIntegritySettled)"
  have state: "state \<noteq> SubmissionIntegrityRetired" "SubmissionIntegrityState_IsValid state"
    "state = SubmissionIntegritySettled \<longleftrightarrow> sp_UnresolvedIntegrityCount spec \<le> 0"
    by (simp_all add: state_def SubmissionIntegrityState_IsValid_def)
  define s where "s = \<lparr>su_ID = sp_ID spec, su_AttemptID = sp_AttemptID spec,
      su_ExamRevisionID = sp_ExamRevisionID spec, su_WorkspaceID = sp_WorkspaceID spec,
      su_ManifestSchemaVersion = 1, su_WorkspaceCursor = em_WorkspaceCursor (sp_Manifest spec),
      su_ManifestDigest = em_SHA256 (sp_Manifest spec),
      su_ManifestEntryCount = int (length (em_Entries (sp_Manifest spec))),
      su_ManifestTotalFileBytes = bytes_sum (em_Entries (sp_Manifest spec)),
      su_FinalFocusLossSequence = sp_FinalFocusLossSequence spec,
      su_BrowserActivity = sp_BrowserActivity spec, su_IntegrityState = state,
      su_IntegrityRetiredAt = no_time, su_UnresolvedIntegrityCount = sp_UnresolvedIntegrityCount spec,
      su_Provenance = sp_Provenance spec, su_SubmittedAt = TimeUTC (sp_SubmittedAt spec)\<rparr>"
  have new: "NewExamSubmission spec = (case ExamSubmission_Validate (Some s) of
      Some er \<Rightarrow> (None, Some er) | None \<Rightarrow> (Some s, None))"
    unfolding NewExamSubmission_def None option.case Let_def s_def state_def using v by (simp cong: option.case_cong)
  have ok: "ExamSubmission_Validate (Some s) = None \<longleftrightarrow>
        IsValidOpaqueID (sp_ID spec) \<and> IsValidOpaqueID (sp_AttemptID spec)
        \<and> IsValidOpaqueID (sp_ExamRevisionID spec) \<and> IsValidOpaqueID (sp_WorkspaceID spec)
        \<and> 0 \<le> sp_FinalFocusLossSequence spec \<and> 0 \<le> sp_UnresolvedIntegrityCount spec
        \<and> ExamSubmissionProvenance_IsValid (sp_Provenance spec) \<and> trunc_us (t_ns (sp_SubmittedAt spec)) \<noteq> 0
        \<and> BrowserSubmissionSettlement_Validate (sp_BrowserActivity spec) = None"
    using v pos hash state(1,2)
    by (auto simp: ExamSubmission_Validate_def Let_def guard_ok s_def state(3) time_ops
        ExamSubmissionManifestSchemaVersion_def)
  show ?thesis
    unfolding new using None v ok
    by (cases "ExamSubmission_Validate (Some s)") (auto simp: s_def state_def bytes_sum_def)
qed

section \<open>Instances\<close>

definition sample_file :: ExamSubmissionManifestEntry where
  "sample_file = \<lparr>me_EntryID = replicate 26 CHR ''b'', me_Kind = StarterWorkspaceEntryFile, me_Path = ''src/a.c'',
     me_ContentVersion = replicate 26 CHR ''v'', me_MediaType = ''text/x-c'', me_SizeBytes = 12,
     me_SHA256 = replicate 64 CHR ''a'', me_StorageOrigin = AttemptWorkspaceStorageAttempt,
     me_StarterObjectID = [], me_AttemptObjectID = replicate 26 CHR ''c''\<rparr>"

definition sample_directory :: ExamSubmissionManifestEntry where
  "sample_directory = \<lparr>me_EntryID = replicate 26 CHR ''a'', me_Kind = StarterWorkspaceEntryDirectory, me_Path = ''src'',
     me_ContentVersion = [], me_MediaType = [], me_SizeBytes = 0, me_SHA256 = [],
     me_StorageOrigin = AttemptWorkspaceStorageNone, me_StarterObjectID = [], me_AttemptObjectID = []\<rparr>"

lemma sample_paths: "canonical_path ''src/a.c''" "canonical_path ''src''"
  by (simp_all add: canonical_path_def NormalizeStarterWorkspacePath_def bad_segment_def
      StarterWorkspaceMaximumPathBytes_def StarterWorkspaceMaximumDepth_def
      StarterWorkspaceMaximumSegmentBytes_def Let_def ascii_eval IsControl_def)

lemma sample_entries: "proper_entry sample_file" "proper_entry sample_directory"
  by (simp_all add: proper_entry_def sample_file_def sample_directory_def sample_paths
      WorkspaceContentVersion_IsValid_def version_char_def list_all_iff ExamWorkspaceMaximumFileBytes_def ascii_eval)

lemma sample_entries_ok:
  "ExamSubmissionManifestEntry_Validate sample_file = None"
  "ExamSubmissionManifestEntry_Validate sample_directory = None"
  using sample_entries by (simp_all add: entry_Validate_ok)

theorem NewExamSubmissionManifest_exact_witness:
  "\<exists>m. NewExamSubmissionManifest 7 [sample_file, sample_directory] = (m, None)
     \<and> NewExamSubmissionManifest 7 [sample_directory, sample_file] = (m, None)
     \<and> em_TotalFileBytes m = 12 \<and> em_EntryCount m = 2
     \<and> snd (NewExamSubmissionManifest 7 [sample_file, sample_file]) \<noteq> None"
proof -
  have swap: "mset [sample_directory, sample_file] = mset [sample_file, sample_directory]" by simp
  obtain m e where new: "NewExamSubmissionManifest 7 [sample_file, sample_directory] = (m, e)" by fastforce
  note use = NewExamSubmissionManifest_exact [of 7 "[sample_file, sample_directory]", unfolded new prod.case]
  have e: "e = None"
    using use sample_entries_ok by (simp add: sample_file_def sample_directory_def)
  then have "em_TotalFileBytes m = 12" "em_EntryCount m = 2"
    "NewExamSubmissionManifest 7 [sample_directory, sample_file] = (m, None)"
    using use swap by (simp_all add: sample_file_def sample_directory_def)
  moreover have "snd (NewExamSubmissionManifest 7 [sample_file, sample_file]) \<noteq> None"
    using NewExamSubmissionManifest_exact [of 7 "[sample_file, sample_file]"] by (auto split: prod.splits)
  ultimately show ?thesis using new e by blast
qed

lemma sample_manifest_ok:
  "0 \<le> c \<Longrightarrow> ExamSubmissionManifest_Validate (sealed_manifest c [sample_file, sample_directory]) = None"
  using sample_entries
  by (simp add: sealed_valid_iff manifest_ready_def ExamWorkspaceMaximumEntries_def
      ExamWorkspaceMaximumTotalBytes_def sample_file_def sample_directory_def)

lemma sealed_cursor: "em_WorkspaceCursor (sealed_manifest c es) = c"
  by (simp add: sealed_manifest_def Let_def)

theorem manifest_digest_binds_witness:
  "manifest_digest_bytes (sealed_manifest 7 [sample_file, sample_directory])
     \<noteq> manifest_digest_bytes (sealed_manifest 8 [sample_file, sample_directory])"
proof -
  have "sealed_manifest 7 [sample_file, sample_directory] \<noteq> sealed_manifest 8 [sample_file, sample_directory]"
    by (auto dest: arg_cong [of _ _ em_WorkspaceCursor] simp: sealed_cursor)
  then show ?thesis
    using manifest_digest_binds [OF sample_manifest_ok [of 7] sample_manifest_ok [of 8]]
    by (simp add: sealed_cursor is_int64_def minInt64_def maxInt64_def)
qed

definition sample_specification :: ExamSubmissionSpecification where
  "sample_specification = \<lparr>sp_ID = replicate 26 CHR ''a'', sp_AttemptID = replicate 26 CHR ''b'',
     sp_ExamRevisionID = replicate 26 CHR ''c'', sp_WorkspaceID = replicate 26 CHR ''d'',
     sp_Manifest = sealed_manifest 7 [sample_file, sample_directory], sp_FinalFocusLossSequence = 0,
     sp_BrowserActivity = \<lparr>bs_State = ''pending'', bs_InventoryRevision = 1, bs_SourceCount = 2,
       bs_PendingSourceCount = 1, bs_IncompleteSourceCount = 2\<rparr>,
     sp_UnresolvedIntegrityCount = 1, sp_Provenance = ExamSubmissionSittingClosed,
     sp_SubmittedAt = sample_instant 9\<rparr>"

theorem NewExamSubmission_exact_witness:
  "\<exists>s. NewExamSubmission sample_specification = (Some s, None) \<and> su_IntegrityState s = SubmissionIntegrityGapped"
proof -
  have "ExamSubmissionManifest_Validate (sp_Manifest sample_specification) = None"
    using sample_manifest_ok [of 7] by (simp add: sample_specification_def)
  then show ?thesis
    using NewExamSubmission_exact [of sample_specification]
    by (auto simp: sample_specification_def ExamSubmissionProvenance_IsValid_def
        BrowserSubmissionSettlement_Validate_def securitySafeInt_def split: prod.splits)
qed

end
