(* ===== verification/Cache.thy ===== *)
theory Cache
  imports Instants Text
begin

text \<open>
  The portable cache contract of \<^verbatim>\<open>packages/cache\<close>: errors (\<^verbatim>\<open>errors.go\<close>), keys
  (\<^verbatim>\<open>key.go\<close>), options and time-to-live normalisation (\<^verbatim>\<open>cache.go\<close>), and the decimal
  text of counters (Go's \<^verbatim>\<open>strconv\<close>).
\<close>

section \<open>Errors\<close>

text \<open>
  The package's sentinels; where the code wraps a sentinel with a message
  (\<^verbatim>\<open>fmt.Errorf("%w: ...")\<close>) the constructor carries the message.  The last three are the
  errors that do not originate here: a cancelled context, a codec failure and an unknown
  condition.
\<close>

datatype cache_cause =
    ErrNotFound
  | ErrNotStored
  | ErrInvalidKey string
  | ErrInvalidNamespace string
  | ErrInvalidTTL
  | ErrInvalidValue string
  | ErrCapacity string
  | ErrUnsupported
  | ContextError string
  | CodecError string
  | UnknownSetCondition nat

record OpError =
  oe_Op :: string
  oe_Key :: string
  oe_Err :: cache_cause

definition cache_Error :: "string \<Rightarrow> string \<Rightarrow> cache_cause \<Rightarrow> OpError" where
  "cache_Error op key err = \<lparr>oe_Op = op, oe_Key = key, oe_Err = err\<rparr>"

lemma cache_Error_Err [simp]: "oe_Err (cache_Error op key err) = err"
  by (simp add: cache_Error_def)

section \<open>Decimal text\<close>

text \<open>\<^verbatim>\<open>strconv.FormatInt(n, 10)\<close> and \<^verbatim>\<open>strconv.ParseInt(s, 10, 64)\<close>; the latter accepts one
  sign, requires decimal digits only, and checks the range of \<^verbatim>\<open>int64\<close>.\<close>

definition digit_char :: "nat \<Rightarrow> char" where
  "digit_char d = ''0123456789'' ! d"

fun decimal :: "nat \<Rightarrow> string" where
  "decimal n = (if n < 10 then [digit_char n] else decimal (n div 10) @ [digit_char (n mod 10)])"

declare decimal.simps [simp del]

definition FormatInt :: "int \<Rightarrow> string" where
  "FormatInt n = (if n < 0 then CHR ''-'' # decimal (nat (- n)) else decimal (nat n))"

definition is_digit :: "char \<Rightarrow> bool" where
  "is_digit c \<longleftrightarrow> CHR ''0'' \<le> c \<and> c \<le> CHR ''9''"

definition digit_value :: "char \<Rightarrow> nat" where
  "digit_value c = of_char c - 48"

definition parse_digits :: "string \<Rightarrow> nat option" where
  "parse_digits s = (if s \<noteq> [] \<and> list_all is_digit s
     then Some (foldl (\<lambda>n c. n * 10 + digit_value c) 0 s) else None)"

definition ParseInt :: "string \<Rightarrow> int option" where
  "ParseInt s = (case s of
       [] \<Rightarrow> None
     | c # cs \<Rightarrow>
       (let neg = (c = CHR ''-''); body = (if c = CHR ''-'' \<or> c = CHR ''+'' then cs else s)
        in case parse_digits body of None \<Rightarrow> None
           | Some n \<Rightarrow> if neg then (if int n > 9223372036854775808 then None else Some (- int n))
               else (if int n \<ge> 9223372036854775808 then None else Some (int n))))"

section \<open>Keys\<close>

definition MaximumKeyBytes :: nat where "MaximumKeyBytes = 1024"
definition MaximumNamespaceBytes :: nat where "MaximumNamespaceBytes = 128"

definition validateIdentifier ::
    "string \<Rightarrow> string \<Rightarrow> nat \<Rightarrow> (string \<Rightarrow> cache_cause) \<Rightarrow> cache_cause option" where
  "validateIdentifier kind value maximum sentinel =
     (if value = [] then Some (sentinel (kind @ '' must not be empty''))
      else if length value > maximum then Some (sentinel (kind @ '' exceeds '' @ decimal maximum @ '' bytes''))
      else if \<not> ValidString value then Some (sentinel (kind @ '' is not valid UTF-8''))
      else if list_ex (\<lambda>(r, _). IsControl r) (chunks (bytes_of value)) then
        Some (sentinel (kind @ '' contains a control character''))
      else None)"

definition ValidateKey :: "string \<Rightarrow> cache_cause option" where
  "ValidateKey key = validateIdentifier ''key'' key MaximumKeyBytes ErrInvalidKey"

definition ValidateNamespace :: "string \<Rightarrow> cache_cause option" where
  "ValidateNamespace namespace = validateIdentifier ''namespace'' namespace MaximumNamespaceBytes ErrInvalidNamespace"

section \<open>Options\<close>

datatype Condition = SetAlways | SetIfAbsent | SetIfPresent | ConditionOther nat

record SetOptions =
  so_TTL :: int
  so_Condition :: Condition

definition SetOptions_Validate :: "SetOptions \<Rightarrow> cache_cause option" where
  "SetOptions_Validate o' =
     (if so_TTL o' < 0 then Some ErrInvalidTTL
      else case so_Condition o' of
        ConditionOther n \<Rightarrow> Some (UnknownSetCondition n)
      | _ \<Rightarrow> None)"

text \<open>A duration is a 64-bit count of nanoseconds; \<^verbatim>\<open>%\<close> is applied to a positive one only.\<close>

definition NormalizedTTL :: "int \<Rightarrow> int \<times> cache_cause option" where
  "NormalizedTTL ttl =
     (if ttl < 0 then (0, Some ErrInvalidTTL)
      else if ttl = 0 then (0, None)
      else let remainder = ttl mod 1000000 in
        if remainder \<noteq> 0 then
          (let increment = 1000000 - remainder in
           if ttl > maxInt64 - increment then (0, Some ErrInvalidTTL)
           else (wrap64 (ttl + increment), None))
        else (ttl, None))"

record CounterOptions =
  co_TTL :: int

definition CounterOptions_Validate :: "CounterOptions \<Rightarrow> cache_cause option" where
  "CounterOptions_Validate o' = (if co_TTL o' < 0 then Some ErrInvalidTTL else None)"

record Capabilities =
  cap_TTL :: bool
  cap_ConditionalSet :: bool
  cap_AtomicCounter :: bool
  cap_Purge :: bool

section \<open>Properties\<close>

lemma NormalizedTTL_cases:
  assumes "is_int64 ttl"
  shows "(snd (NormalizedTTL ttl) = None \<longleftrightarrow> 0 \<le> ttl \<and> ttl \<le> maxInt64 - 775807)
    \<and> (snd (NormalizedTTL ttl) = None \<longrightarrow> fst (NormalizedTTL ttl) mod 1000000 = 0
        \<and> ttl \<le> fst (NormalizedTTL ttl) \<and> fst (NormalizedTTL ttl) < ttl + 1000000
        \<and> is_int64 (fst (NormalizedTTL ttl)) \<and> (fst (NormalizedTTL ttl) = 0 \<longleftrightarrow> ttl = 0))
    \<and> (snd (NormalizedTTL ttl) \<noteq> None \<longrightarrow> NormalizedTTL ttl = (0, Some ErrInvalidTTL))"
proof -
  define r where "r = ttl mod 1000000"
  have r: "0 \<le> r" "r < 1000000" by (simp_all add: r_def)
  obtain q where q: "ttl = 1000000 * q + r" using r_def by (metis mult_div_mod_eq)
  show ?thesis
  proof (cases "ttl \<le> 0")
    case True
    then show ?thesis using assms by (auto simp: NormalizedTTL_def is_int64_def minInt64_def maxInt64_def)
  next
    case pos: False
    show ?thesis
    proof (cases "r = 0")
      case True
      moreover from True q have "q \<le> 9223372036854" using assms by (simp add: is_int64_def maxInt64_def)
      then have "ttl \<le> maxInt64 - 775807" using True q by (simp add: maxInt64_def)
      ultimately show ?thesis using pos assms by (auto simp: NormalizedTTL_def r_def [symmetric] Let_def)
    next
      case False
      have inc: "ttl + (1000000 - r) = 1000000 * (q + 1)" using q by simp
      have iff: "ttl > maxInt64 - (1000000 - r) \<longleftrightarrow> ttl > maxInt64 - 775807"
      proof -
        have "ttl > maxInt64 - (1000000 - r) \<longleftrightarrow> 1000000 * q + 1000000 > 9223372036854775807"
          using q unfolding maxInt64_def by auto
        also have "\<dots> \<longleftrightarrow> 9223372036854 \<le> q" by (rule iffI) linarith+
        also have "\<dots> \<longleftrightarrow> ttl > maxInt64 - 775807"
          using q r False by (simp add: maxInt64_def) linarith
        finally show ?thesis .
      qed
      show ?thesis
      proof (cases "ttl > maxInt64 - 775807")
        case True
        then show ?thesis using False pos iff
          by (simp add: NormalizedTTL_def r_def [symmetric] Let_def)
      next
        case le: False
        have "is_int64 (ttl + (1000000 - r))"
          using le iff pos r by (simp add: is_int64_def minInt64_def)
        then have "NormalizedTTL ttl = (ttl + (1000000 - r), None)"
          using False pos iff le wrap64_id [of "ttl + (1000000 - r)"]
          by (simp add: NormalizedTTL_def r_def [symmetric] Let_def)
        moreover have "(ttl + (1000000 - r)) mod 1000000 = 0" unfolding inc by simp
        ultimately show ?thesis using le pos r False \<open>is_int64 (ttl + (1000000 - r))\<close> by simp
      qed
    qed
  qed
qed

lemma decimal_digits: "decimal n \<noteq> [] \<and> list_all is_digit (decimal n)
   \<and> foldl (\<lambda>n c. n * 10 + digit_value c) 0 (decimal n) = n"
proof (induction n rule: decimal.induct)
  case (1 n)
  have digit: "is_digit (digit_char d) \<and> digit_value (digit_char d) = d" if "d < 10" for d
  proof -
    have "list_all (\<lambda>d. is_digit (digit_char d) \<and> digit_value (digit_char d) = d) [0..<10]"
      by code_simp
    with that show ?thesis by (simp add: list_all_iff)
  qed
  show ?case
  proof (cases "n < 10")
    case True
    then show ?thesis using digit [of n] by (simp add: decimal.simps [of n])
  next
    case False
    then show ?thesis using digit [of "n mod 10"] 1 by (simp add: decimal.simps [of n])
  qed
qed

lemma decimal_first: "decimal n = c # cs \<Longrightarrow> c \<noteq> CHR ''-'' \<and> c \<noteq> CHR ''+''"
  using decimal_digits [of n] by (auto simp: is_digit_def)

lemma parse_decimal: "parse_digits (decimal n) = Some n"
  using decimal_digits [of n] by (simp add: parse_digits_def)

lemma ParseInt_FormatInt:
  assumes "is_int64 n"
  shows "ParseInt (FormatInt n) = Some n"
proof (cases "n < 0")
  case True
  then show ?thesis using assms parse_decimal [of "nat (- n)"]
    by (simp add: FormatInt_def ParseInt_def is_int64_def minInt64_def)
next
  case False
  obtain c cs where "decimal (nat n) = c # cs" using decimal_digits by (metis neq_Nil_conv)
  with False show ?thesis using assms decimal_first [of "nat n" c cs] parse_decimal [of "nat n"]
    by (simp add: FormatInt_def ParseInt_def is_int64_def maxInt64_def Let_def)
qed

lemma ParseInt_range: "ParseInt s = Some n \<Longrightarrow> is_int64 n"
  by (auto simp: ParseInt_def Let_def is_int64_def minInt64_def maxInt64_def
      split: list.splits option.splits if_splits)

end
