(* ===== verification/GoHeap.thy ===== *)
theory GoHeap
  imports Main
begin

text \<open>
  Go's \<^verbatim>\<open>container/heap\<close>: the sift loops \<^verbatim>\<open>up\<close> and \<^verbatim>\<open>down\<close>, \<^verbatim>\<open>Push\<close> and \<^verbatim>\<open>Remove\<close>,
  over the interface that a client implements.  The locale states what the algorithm needs of
  the client's \<^verbatim>\<open>Less\<close>, \<^verbatim>\<open>Swap\<close>, \<^verbatim>\<open>Push\<close> and \<^verbatim>\<open>Pop\<close>; the client proves it for its own
  operations.
\<close>

section \<open>The algorithm\<close>

function heap_up ::
    "('h \<Rightarrow> nat \<Rightarrow> nat \<Rightarrow> bool) \<Rightarrow> ('h \<Rightarrow> nat \<Rightarrow> nat \<Rightarrow> 'h) \<Rightarrow> 'h \<Rightarrow> nat \<Rightarrow> 'h" where
  "heap_up lt swap h j =
     (let i = (j - 1) div 2
      in if i = j \<or> \<not> lt h j i then h else heap_up lt swap (swap h i j) i)"
  by pat_completeness auto
termination
  by (relation "measure (\<lambda>(lt, swap, h, j). j)") auto

function heap_down ::
    "('h \<Rightarrow> nat \<Rightarrow> nat \<Rightarrow> bool) \<Rightarrow> ('h \<Rightarrow> nat \<Rightarrow> nat \<Rightarrow> 'h) \<Rightarrow> 'h \<Rightarrow> nat \<Rightarrow> nat \<Rightarrow> 'h \<times> nat" where
  "heap_down lt swap h i n =
     (let j1 = 2 * i + 1; j2 = j1 + 1; j = (if j2 < n \<and> lt h j2 j1 then j2 else j1)
      in if j1 \<ge> n \<or> \<not> lt h j i then (h, i) else heap_down lt swap (swap h i j) j n)"
  by pat_completeness auto
termination
  by (relation "measure (\<lambda>(lt, swap, h, i, n). n - i)") (auto split: if_splits)

declare heap_up.simps [simp del] heap_down.simps [simp del]

definition heap_Push ::
    "('h \<Rightarrow> nat) \<Rightarrow> ('h \<Rightarrow> nat \<Rightarrow> nat \<Rightarrow> bool) \<Rightarrow> ('h \<Rightarrow> nat \<Rightarrow> nat \<Rightarrow> 'h) \<Rightarrow> ('h \<Rightarrow> 'x \<Rightarrow> 'h) \<Rightarrow> 'h \<Rightarrow> 'x \<Rightarrow> 'h" where
  "heap_Push len lt swap push h x = (let h' = push h x in heap_up lt swap h' (len h' - 1))"

definition heap_Remove ::
    "('h \<Rightarrow> nat) \<Rightarrow> ('h \<Rightarrow> nat \<Rightarrow> nat \<Rightarrow> bool) \<Rightarrow> ('h \<Rightarrow> nat \<Rightarrow> nat \<Rightarrow> 'h) \<Rightarrow> ('h \<Rightarrow> 'h) \<Rightarrow> 'h \<Rightarrow> nat \<Rightarrow> 'h" where
  "heap_Remove len lt swap pop h i =
     (let n = len h - 1
      in pop (if n \<noteq> i then
          (case heap_down lt swap (swap h i n) i n of (h', i') \<Rightarrow>
             if i' > i then h' else heap_up lt swap h' i)
         else h))"

section \<open>Heap order\<close>

definition par :: "nat \<Rightarrow> nat" where "par i = (i - 1) div 2"

lemma par_less [simp]: "0 < i \<Longrightarrow> par i < i"
  by (simp add: par_def)

lemma par_children: "0 < c \<and> par c = i \<longleftrightarrow> c = 2 * i + 1 \<or> c = 2 * i + 2"
  by (auto simp: par_def)

text \<open>The first \<open>n\<close> positions are in heap order.\<close>

definition heap_ordered :: "'k::linorder list \<Rightarrow> nat \<Rightarrow> bool" where
  "heap_ordered ks n \<longleftrightarrow> (\<forall>m. 0 < m \<and> m < n \<longrightarrow> ks ! par m \<le> ks ! m)"

text \<open>
  Heap order except between \<open>j\<close> and its parent (while sifting up), and except between \<open>i\<close> and
  its neighbours (while sifting down); in both cases the children are bounded by the
  grandparent.
\<close>

definition bypass :: "'k::linorder list \<Rightarrow> nat \<Rightarrow> nat \<Rightarrow> bool" where
  "bypass ks i n \<longleftrightarrow> (\<forall>c. 0 < i \<and> 0 < c \<and> c < n \<and> par c = i \<longrightarrow> ks ! par i \<le> ks ! c)"

definition except_up :: "'k::linorder list \<Rightarrow> nat \<Rightarrow> nat \<Rightarrow> bool" where
  "except_up ks j n \<longleftrightarrow> (\<forall>m. 0 < m \<and> m < n \<and> m \<noteq> j \<longrightarrow> ks ! par m \<le> ks ! m) \<and> bypass ks j n"

definition except_down :: "'k::linorder list \<Rightarrow> nat \<Rightarrow> nat \<Rightarrow> bool" where
  "except_down ks i n \<longleftrightarrow> (\<forall>m. 0 < m \<and> m < n \<and> m \<noteq> i \<and> par m \<noteq> i \<longrightarrow> ks ! par m \<le> ks ! m) \<and> bypass ks i n"

definition swapped :: "'a list \<Rightarrow> nat \<Rightarrow> nat \<Rightarrow> 'a list" where
  "swapped xs i j = xs[i := xs ! j, j := xs ! i]"

lemma length_swapped [simp]: "length (swapped xs i j) = length xs"
  by (simp add: swapped_def)

lemma nth_swapped:
  "i < length xs \<Longrightarrow> j < length xs \<Longrightarrow> m < length xs \<Longrightarrow>
   swapped xs i j ! m = (if m = i then xs ! j else if m = j then xs ! i else xs ! m)"
  by (auto simp: swapped_def nth_list_update)

lemma heap_ordered_root:
  assumes "heap_ordered ks n" and "m < n"
  shows "ks ! 0 \<le> ks ! m"
  using assms(2)
proof (induction m rule: less_induct)
  case (less m)
  show ?case
  proof (cases "m = 0")
    case False
    then have "ks ! 0 \<le> ks ! par m" using less by (meson gr0I less_trans par_less)
    also have "\<dots> \<le> ks ! m" using assms(1) less.prems False by (simp add: heap_ordered_def)
    finally show ?thesis .
  qed simp
qed

lemma except_up_step:
  assumes "except_up ks j n" and "0 < j" and "j < n" and "n \<le> length ks" and "ks ! j < ks ! par j"
  shows "except_up (swapped ks (par j) j) (par j) n"
proof -
  have pj: "par j < j" "par j < length ks" "j < length ks"
    using assms par_less [of j] by linarith+
  have rel: "ks ! par m \<le> ks ! m" if "0 < m" "m < n" "m \<noteq> j" for m
    using assms(1) that by (simp add: except_up_def)
  have by_j: "ks ! par j \<le> ks ! c" if "0 < c" "c < n" "par c = j" for c
    using assms(1,2) that by (simp add: except_up_def bypass_def)
  have sw: "swapped ks (par j) j ! m = (if m = par j then ks ! j else if m = j then ks ! par j else ks ! m)"
    if "m < n" for m using nth_swapped [of "par j" ks j m] pj that assms(4) by simp
  have "swapped ks (par j) j ! par m \<le> swapped ks (par j) j ! m" if m: "0 < m" "m < n" "m \<noteq> par j" for m
  proof -
    have pm: "par m < n" using m by (meson less_trans par_less)
    consider "m = j" | "m \<noteq> j" "par m = j" | "m \<noteq> j" "par m = par j" | "m \<noteq> j" "par m \<noteq> j" "par m \<noteq> par j" by blast
    then show ?thesis
    proof cases
      case 1
      then show ?thesis using sw [OF m(2)] sw [OF pm] assms(5) pj by auto
    next
      case 2
      then show ?thesis using sw [OF m(2)] sw [OF pm] by_j [of m] m pj by auto
    next
      case 3
      then show ?thesis using sw [OF m(2)] sw [OF pm] rel [of m] m assms(5) by auto
    next
      case 4
      then show ?thesis using sw [OF m(2)] sw [OF pm] rel [of m] m by auto
    qed
  qed
  moreover have "bypass (swapped ks (par j) j) (par j) n"
    unfolding bypass_def
  proof (intro allI impI)
    fix c
    assume c: "0 < par j \<and> 0 < c \<and> c < n \<and> par c = par j"
    have ppj: "par (par j) < n" "par (par j) \<noteq> par j" "par (par j) \<noteq> j"
      using c pj par_less [of "par j"] assms(3) by linarith+
    have up: "ks ! par (par j) \<le> ks ! par j" using rel [of "par j"] c pj assms(3) by simp
    have "c \<noteq> par j" using c par_less [of c] by auto
    then show "swapped ks (par j) j ! par (par j) \<le> swapped ks (par j) j ! c"
      using sw [of c] sw [OF ppj(1)] ppj c up rel [of c] by (cases "c = j") auto
  qed
  ultimately show ?thesis by (simp add: except_up_def)
qed

lemma except_up_done:
  assumes "except_up ks j n" and "j = 0 \<or> ks ! par j \<le> ks ! j"
  shows "heap_ordered ks n"
  using assms by (auto simp: except_up_def heap_ordered_def)

lemma except_down_step:
  assumes ex: "except_down ks i n" and j: "0 < j" "j < n" "par j = i" and n: "n \<le> length ks"
    and less: "ks ! j < ks ! i" and least: "\<And>c. 0 < c \<Longrightarrow> c < n \<Longrightarrow> par c = i \<Longrightarrow> ks ! j \<le> ks ! c"
  shows "except_down (swapped ks i j) j n"
    and "swapped ks i j ! par j \<le> swapped ks i j ! j"
    and "0 < i \<Longrightarrow> swapped ks i j ! par i \<le> swapped ks i j ! i"
    and "\<And>m. 0 < m \<Longrightarrow> m < n \<Longrightarrow> m \<noteq> i \<Longrightarrow> par m \<noteq> j \<Longrightarrow> swapped ks i j ! par m \<le> swapped ks i j ! m"
proof -
  have ij: "i < j" using j by auto
  have rel: "ks ! par m \<le> ks ! m" if "0 < m" "m < n" "m \<noteq> i" "par m \<noteq> i" for m
    using ex that by (simp add: except_down_def)
  have by_i: "ks ! par i \<le> ks ! c" if "0 < i" "0 < c" "c < n" "par c = i" for c
    using ex that by (simp add: except_down_def bypass_def)
  have sw: "swapped ks i j ! m = (if m = i then ks ! j else if m = j then ks ! i else ks ! m)"
    if "m < n" for m using nth_swapped [of i ks j m] ij j that n by simp
  have up: "swapped ks i j ! par i \<le> swapped ks i j ! i" if "0 < i"
  proof -
    have "par i < n" "par i \<noteq> i" "par i \<noteq> j" using that ij j(2) par_less [of i] by linarith+
    then show ?thesis using sw [of "par i"] sw [of i] ij j by_i [OF that j] by auto
  qed
  then show "0 < i \<Longrightarrow> swapped ks i j ! par i \<le> swapped ks i j ! i" .
  show "swapped ks i j ! par j \<le> swapped ks i j ! j"
    using sw [of i] sw [of j] ij j less by auto
  show others: "swapped ks i j ! par m \<le> swapped ks i j ! m"
    if m: "0 < m" "m < n" "m \<noteq> i" "par m \<noteq> j" for m
  proof -
    have pm: "par m < n" using m by (meson less_trans par_less)
    show ?thesis
    proof (cases "par m = i")
      case True
      then show ?thesis using sw [OF m(2)] sw [OF pm] m least [of m] less by auto
    next
      case False
      then have "m \<noteq> j" using j by auto
      then show ?thesis using sw [OF m(2)] sw [OF pm] m False rel [of m] by auto
    qed
  qed
  have "bypass (swapped ks i j) j n"
    unfolding bypass_def
  proof (intro allI impI)
    fix c
    assume c: "0 < j \<and> 0 < c \<and> c < n \<and> par c = j"
    then have "c \<noteq> i" "c \<noteq> j" "par c \<noteq> i" using par_less [of c] ij by auto
    then show "swapped ks i j ! par j \<le> swapped ks i j ! c"
      using sw [of i] sw [of c] c ij j rel [of c] by auto
  qed
  moreover have "swapped ks i j ! par m \<le> swapped ks i j ! m"
    if "0 < m" "m < n" "m \<noteq> j" "par m \<noteq> j" for m
    using others [of m] up that by (cases "m = i") auto
  ultimately show "except_down (swapped ks i j) j n" by (simp add: except_down_def)
qed


section \<open>The interface\<close>

text \<open>
  A client of the algorithm: the keys of its positions, and an invariant under which
  \<open>lt\<close> compares keys, \<open>swap\<close> exchanges two positions, \<open>push\<close> appends an admissible element
  and \<open>pop\<close> drops the last position.
\<close>

locale heap_client =
  fixes keys :: "'h \<Rightarrow> 'k::linorder list"
    and inv :: "'h \<Rightarrow> bool"
    and len :: "'h \<Rightarrow> nat"
    and lt :: "'h \<Rightarrow> nat \<Rightarrow> nat \<Rightarrow> bool"
    and swap :: "'h \<Rightarrow> nat \<Rightarrow> nat \<Rightarrow> 'h"
    and push :: "'h \<Rightarrow> 'x \<Rightarrow> 'h"
    and pop :: "'h \<Rightarrow> 'h"
    and admissible :: "'h \<Rightarrow> 'x \<Rightarrow> bool"
  assumes len: "len h = length (keys h)"
    and lt: "i < len h \<Longrightarrow> j < len h \<Longrightarrow> lt h i j \<longleftrightarrow> keys h ! i < keys h ! j"
    and swap_keys: "inv h \<Longrightarrow> i < len h \<Longrightarrow> j < len h \<Longrightarrow> keys (swap h i j) = swapped (keys h) i j"
    and swap_inv: "inv h \<Longrightarrow> i < len h \<Longrightarrow> j < len h \<Longrightarrow> inv (swap h i j)"
    and push_keys: "inv h \<Longrightarrow> admissible h x \<Longrightarrow> \<exists>k. keys (push h x) = keys h @ [k]"
    and push_inv: "inv h \<Longrightarrow> admissible h x \<Longrightarrow> inv (push h x)"
    and pop_keys: "inv h \<Longrightarrow> keys h \<noteq> [] \<Longrightarrow> keys (pop h) = butlast (keys h)"
    and pop_inv: "inv h \<Longrightarrow> keys h \<noteq> [] \<Longrightarrow> inv (pop h)"
begin

lemma up_heap:
  assumes "inv h" and "j < n" and "n \<le> len h" and "except_up (keys h) j n"
  shows "inv (heap_up lt swap h j) \<and> len (heap_up lt swap h j) = len h
    \<and> heap_ordered (keys (heap_up lt swap h j)) n"
  using assms
proof (induction j arbitrary: h rule: less_induct)
  case (less j)
  note step = heap_up.simps [of lt swap h j, folded par_def, unfolded Let_def]
  show ?case
  proof (cases "par j = j \<or> \<not> lt h j (par j)")
    case True
    have "j = 0 \<or> keys h ! par j \<le> keys h ! j"
    proof (cases "j = 0")
      case False
      then have "par j < j" by simp
      with True have "\<not> lt h j (par j)" by auto
      with lt [of j h "par j"] \<open>par j < j\<close> less.prems show ?thesis by auto
    qed simp
    then show ?thesis using True less.prems step by (auto intro: except_up_done)
  next
    case False
    then have j: "0 < j" "par j < j" "lt h j (par j)" by (auto simp: par_def intro!: gr0I)
    then have in_range: "par j < len h" "j < len h" using less.prems by linarith+
    then have key: "keys h ! j < keys h ! par j" using lt j by blast
    let ?h = "swap h (par j) j"
    have keys: "keys ?h = swapped (keys h) (par j) j" and inv: "inv ?h"
      using swap_keys swap_inv less.prems(1) in_range by blast+
    have l: "len ?h = len h" by (simp add: len keys)
    have ex: "except_up (keys ?h) (par j) n"
      unfolding keys by (rule except_up_step) (use less.prems j key len in auto)
    have "inv (heap_up lt swap ?h (par j)) \<and> len (heap_up lt swap ?h (par j)) = len ?h
        \<and> heap_ordered (keys (heap_up lt swap ?h (par j))) n"
      by (rule less.IH) (use j inv l less.prems ex in auto)
    then show ?thesis using step False l by simp
  qed
qed

lemma down_step:
  assumes "inv h" and "n \<le> len h" and "i < n" and "except_down (keys h) i n"
    and j: "j = (if 2 * i + 2 < n \<and> lt h (2 * i + 2) (2 * i + 1) then 2 * i + 2 else 2 * i + 1)"
    and child: "2 * i + 1 < n" and "lt h j i"
  shows "0 < j" "j < n" "par j = i" "i < j" "inv (swap h i j)" "len (swap h i j) = len h"
    and "except_down (keys (swap h i j)) j n"
    and "keys (swap h i j) ! par j \<le> keys (swap h i j) ! j"
    and "0 < i \<Longrightarrow> keys (swap h i j) ! par i \<le> keys (swap h i j) ! i"
    and "\<And>m. 0 < m \<Longrightarrow> m < n \<Longrightarrow> m \<noteq> i \<Longrightarrow> par m \<noteq> j \<Longrightarrow>
      keys (swap h i j) ! par m \<le> keys (swap h i j) ! m"
proof -
  show pos: "0 < j" "j < n" "par j = i" "i < j" using j child by (auto simp: par_def split: if_splits)
  have in_range: "i < len h" "j < len h" using pos assms(2,3) by linarith+
  have key: "keys h ! j < keys h ! i" using lt in_range \<open>lt h j i\<close> by blast
  have n: "n \<le> length (keys h)" using assms(2) len by simp
  have least: "keys h ! j \<le> keys h ! c" if "0 < c" "c < n" "par c = i" for c
  proof -
    have "c = 2 * i + 1 \<or> c = 2 * i + 2" using par_children that by blast
    then show ?thesis
      using j lt [of "2 * i + 2" h "2 * i + 1"] child assms(2) that(2) by (auto split: if_splits)
  qed
  have keys: "keys (swap h i j) = swapped (keys h) i j" using swap_keys assms(1) in_range by blast
  show "inv (swap h i j)" using swap_inv assms(1) in_range by blast
  show "len (swap h i j) = len h" by (simp add: len keys)
  note facts = except_down_step [OF assms(4) pos(1-3) n key]
  show "except_down (keys (swap h i j)) j n" unfolding keys by (rule facts(1)) (rule least)
  show "keys (swap h i j) ! par j \<le> keys (swap h i j) ! j" unfolding keys by (rule facts(2)) (rule least)
  show "0 < i \<Longrightarrow> keys (swap h i j) ! par i \<le> keys (swap h i j) ! i"
    unfolding keys by (rule facts(3)) (rule least)
  show "keys (swap h i j) ! par m \<le> keys (swap h i j) ! m" if "0 < m" "m < n" "m \<noteq> i" "par m \<noteq> j" for m
    unfolding keys by (rule facts(4)) (use least that in auto)
qed

lemma down_stop:
  assumes "except_down (keys h) i n" and "n \<le> len h" and "i < n"
    and j: "j = (if 2 * i + 2 < n \<and> lt h (2 * i + 2) (2 * i + 1) then 2 * i + 2 else 2 * i + 1)"
    and "2 * i + 1 \<ge> n \<or> \<not> lt h j i"
  shows "except_up (keys h) i n"
proof -
  have "keys h ! i \<le> keys h ! c" if c: "0 < c" "c < n" "par c = i" for c
  proof -
    have cases: "c = 2 * i + 1 \<or> c = 2 * i + 2" using par_children c by blast
    then have child: "2 * i + 1 < n" using c by auto
    then have jn: "j < n" using j by (auto split: if_splits)
    then have "keys h ! i \<le> keys h ! j" using assms(2,3,5) child lt [of j h i] by auto
    moreover have "keys h ! j \<le> keys h ! c"
      using cases j lt [of "2 * i + 2" h "2 * i + 1"] child assms(2) c(2) by (auto split: if_splits)
    ultimately show ?thesis by (rule order_trans)
  qed
  then show ?thesis using assms(1) by (auto simp: except_up_def except_down_def)
qed

lemma down_heap:
  assumes "inv h" and "n \<le> len h" and "i < n" and "except_down (keys h) i n"
    and "0 < i \<Longrightarrow> keys h ! par i \<le> keys h ! i"
  shows "case heap_down lt swap h i n of (h', i') \<Rightarrow>
     i \<le> i' \<and> inv h' \<and> len h' = len h \<and> heap_ordered (keys h') n"
  using assms
proof (induction "n - i" arbitrary: h i rule: less_induct)
  case less
  define j where "j = (if 2 * i + 2 < n \<and> lt h (2 * i + 2) (2 * i + 1) then 2 * i + 2 else 2 * i + 1)"
  have step: "heap_down lt swap h i n = (if 2 * i + 1 \<ge> n \<or> \<not> lt h j i then (h, i)
      else heap_down lt swap (swap h i j) j n)"
    by (simp add: heap_down.simps [of lt swap h i n] j_def)
  show ?case
  proof (cases "2 * i + 1 \<ge> n \<or> \<not> lt h j i")
    case True
    have "except_up (keys h) i n"
      by (rule down_stop [OF less.prems(4,2,3) j_def True])
    then have "heap_ordered (keys h) n" using less.prems(5) by (auto intro: except_up_done)
    then show ?thesis using True less.prems step by simp
  next
    case False
    then have child: "2 * i + 1 < n" and ltj: "lt h j i" by auto
    note d = down_step [OF less.prems(1-4) j_def child ltj]
    have "case heap_down lt swap (swap h i j) j n of (h', i') \<Rightarrow>
       j \<le> i' \<and> inv h' \<and> len h' = len (swap h i j) \<and> heap_ordered (keys h') n"
      by (rule less.hyps) (use d less.prems in auto)
    then show ?thesis using step False d(4,6) by (auto split: prod.splits)
  qed
qed

lemma down_from:
  assumes "inv h" and "n \<le> len h" and "i < n" and "except_down (keys h) i n"
  shows "case heap_down lt swap h i n of (h', i') \<Rightarrow> inv h' \<and> len h' = len h
     \<and> (if i' > i then heap_ordered (keys h') n else except_up (keys h') i n)"
proof -
  define j where "j = (if 2 * i + 2 < n \<and> lt h (2 * i + 2) (2 * i + 1) then 2 * i + 2 else 2 * i + 1)"
  have step: "heap_down lt swap h i n = (if 2 * i + 1 \<ge> n \<or> \<not> lt h j i then (h, i)
      else heap_down lt swap (swap h i j) j n)"
    by (simp add: heap_down.simps [of lt swap h i n] j_def)
  show ?thesis
  proof (cases "2 * i + 1 \<ge> n \<or> \<not> lt h j i")
    case True
    then show ?thesis using down_stop [OF assms(4,2,3) j_def True] assms step by simp
  next
    case False
    then have child: "2 * i + 1 < n" and ltj: "lt h j i" by auto
    note d = down_step [OF assms j_def child ltj]
    have "case heap_down lt swap (swap h i j) j n of (h', i') \<Rightarrow>
       j \<le> i' \<and> inv h' \<and> len h' = len (swap h i j) \<and> heap_ordered (keys h') n"
      by (rule down_heap) (use d assms in auto)
    then show ?thesis using step False d(4,6) by (auto split: prod.splits)
  qed
qed

lemma Push_heap:
  assumes "inv h" and "admissible h x" and "heap_ordered (keys h) (len h)"
  shows "inv (heap_Push len lt swap push h x) \<and> len (heap_Push len lt swap push h x) = Suc (len h)
    \<and> heap_ordered (keys (heap_Push len lt swap push h x)) (Suc (len h))"
proof -
  obtain k where keys: "keys (push h x) = keys h @ [k]" using push_keys assms by blast
  have l: "len (push h x) = Suc (len h)" by (simp add: len keys)
  have "except_up (keys (push h x)) (len h) (Suc (len h))"
    unfolding except_up_def bypass_def keys
  proof (intro conjI allI impI)
    fix m assume m: "0 < m \<and> m < Suc (len h) \<and> m \<noteq> len h"
    then have "m < len h" "par m < len h" using par_less [of m] by linarith+
    then show "(keys h @ [k]) ! par m \<le> (keys h @ [k]) ! m"
      using assms(3) m by (simp add: heap_ordered_def nth_append len)
  next
    fix c assume c: "0 < len h \<and> 0 < c \<and> c < Suc (len h) \<and> par c = len h"
    then have "len h < c" using par_less [of c] by simp
    then show "(keys h @ [k]) ! par (len h) \<le> (keys h @ [k]) ! c" using c by simp
  qed
  then show ?thesis
    using up_heap [of "push h x" "len h" "Suc (len h)"] push_inv assms l
    by (simp add: heap_Push_def Let_def)
qed

lemma Remove_heap:
  assumes "inv h" and "i < len h" and ord: "heap_ordered (keys h) (len h)"
  shows "inv (heap_Remove len lt swap pop h i) \<and> len (heap_Remove len lt swap pop h i) = len h - 1
    \<and> heap_ordered (keys (heap_Remove len lt swap pop h i)) (len h - 1)"
proof -
  define n where "n = len h - 1"
  have ln: "len h = Suc n" using assms(2) by (simp add: n_def)
  have pop: "inv (pop g) \<and> len (pop g) = n \<and> heap_ordered (keys (pop g)) n"
    if g: "inv g" "len g = Suc n" "heap_ordered (keys g) n" for g
  proof -
    have ne: "keys g \<noteq> []" using g(2) len by (metis Zero_not_Suc length_0_conv)
    then have k: "keys (pop g) = butlast (keys g)" using pop_keys g by blast
    moreover have l: "len (pop g) = n" using g(2) by (simp add: len k)
    moreover have "heap_ordered (keys (pop g)) n"
      unfolding heap_ordered_def
    proof (intro allI impI)
      fix m assume m: "0 < m \<and> m < n"
      then have "par m < n" using par_less [of m] by linarith
      moreover have "length (keys g) = Suc n" using g(2) len by simp
      ultimately show "keys (pop g) ! par m \<le> keys (pop g) ! m"
        using g(3) m by (simp add: k nth_butlast heap_ordered_def)
    qed
    ultimately show ?thesis using pop_inv g ne by blast
  qed
  have ordn: "heap_ordered (keys h) n" using ord by (simp add: heap_ordered_def ln)
  show ?thesis
  proof (cases "i = n")
    case True
    then show ?thesis using pop [of h] assms ln ordn unfolding heap_Remove_def Let_def n_def by simp
  next
    case False
    then have i: "i < n" "i < len h" "n < len h" using assms(2) ln by linarith+
    let ?g = "swap h i n"
    have keys: "keys ?g = swapped (keys h) i n" and inv: "inv ?g"
      using swap_keys swap_inv assms(1) i by blast+
    have lg: "len ?g = Suc n" by (simp add: len keys) (simp add: len [symmetric] ln)
    have sw: "keys ?g ! m = keys h ! m" if "m < n" "m \<noteq> i" for m
      unfolding keys using nth_swapped [of i "keys h" n m] i that len ln by simp
    have rel: "keys h ! par m \<le> keys h ! m" if "0 < m" "m < n" for m
      using ordn that by (simp add: heap_ordered_def)
    have "except_down (keys ?g) i n"
      unfolding except_down_def bypass_def
    proof (intro conjI allI impI)
      fix m assume m: "0 < m \<and> m < n \<and> m \<noteq> i \<and> par m \<noteq> i"
      then have "par m < n" using par_less [of m] by linarith
      then show "keys ?g ! par m \<le> keys ?g ! m" using sw m rel by auto
    next
      fix c assume c: "0 < i \<and> 0 < c \<and> c < n \<and> par c = i"
      then have "par i < n" "par i \<noteq> i" "c \<noteq> i" using par_less [of i] par_less [of c] i by linarith+
      moreover have "keys h ! par i \<le> keys h ! i" "keys h ! i \<le> keys h ! c"
        using rel [of i] rel [of c] c i by auto
      ultimately show "keys ?g ! par i \<le> keys ?g ! c" using sw c by auto
    qed
    from down_from [OF inv _ i(1) this] lg
    have d: "case heap_down lt swap ?g i n of (h', i') \<Rightarrow> inv h' \<and> len h' = Suc n
       \<and> (if i' > i then heap_ordered (keys h') n else except_up (keys h') i n)" by simp
    obtain h' i' where hd: "heap_down lt swap ?g i n = (h', i')" by fastforce
    let ?r = "if i' > i then h' else heap_up lt swap h' i"
    have "inv ?r \<and> len ?r = Suc n \<and> heap_ordered (keys ?r) n"
      using d hd up_heap [of h' i n] i by (cases "i' > i") auto
    then have "inv (pop ?r) \<and> len (pop ?r) = n \<and> heap_ordered (keys (pop ?r)) n" by (intro pop) auto
    moreover have "heap_Remove len lt swap pop h i = pop ?r"
      using False hd unfolding heap_Remove_def Let_def n_def by simp
    ultimately show ?thesis using n_def by simp
  qed
qed

text \<open>
  Whatever is kept by the exchanges of positions below \<open>n\<close> is kept by the sift loops, and by
  \<^verbatim>\<open>Remove\<close> up to its final \<open>pop\<close>.
\<close>

lemma up_keeps:
  assumes "inv h" and "j < n" and "n \<le> len h" and "P h"
    and "\<And>h i j. inv h \<Longrightarrow> n \<le> len h \<Longrightarrow> i < n \<Longrightarrow> j < n \<Longrightarrow> P h \<Longrightarrow> P (swap h i j)"
  shows "P (heap_up lt swap h j)"
  using assms(1-4)
proof (induction j arbitrary: h rule: less_induct)
  case (less j)
  note step = heap_up.simps [of lt swap h j, folded par_def, unfolded Let_def]
  show ?case
  proof (cases "par j = j \<or> \<not> lt h j (par j)")
    case True
    then show ?thesis using step less.prems by auto
  next
    case False
    then have j: "par j < j" by (cases "j = 0") (auto simp: par_def)
    then have in_range: "par j < len h" "j < len h" "par j < n" using less.prems by linarith+
    then have "len (swap h (par j) j) = len h" using swap_keys less.prems(1) by (simp add: len)
    then have "P (heap_up lt swap (swap h (par j) j) (par j))"
      using less.prems in_range j by (intro less.IH assms(5) swap_inv) auto
    then show ?thesis using step False by simp
  qed
qed

lemma down_keeps:
  assumes "inv h" and "n \<le> len h" and "i < n" and "P h"
    and "\<And>h i j. inv h \<Longrightarrow> n \<le> len h \<Longrightarrow> i < n \<Longrightarrow> j < n \<Longrightarrow> P h \<Longrightarrow> P (swap h i j)"
  shows "P (fst (heap_down lt swap h i n))"
  using assms(1-4)
proof (induction "n - i" arbitrary: h i rule: less_induct)
  case less
  define j where "j = (if 2 * i + 2 < n \<and> lt h (2 * i + 2) (2 * i + 1) then 2 * i + 2 else 2 * i + 1)"
  have step: "heap_down lt swap h i n = (if 2 * i + 1 \<ge> n \<or> \<not> lt h j i then (h, i)
      else heap_down lt swap (swap h i j) j n)"
    by (simp add: heap_down.simps [of lt swap h i n] j_def)
  show ?case
  proof (cases "2 * i + 1 \<ge> n \<or> \<not> lt h j i")
    case True
    then show ?thesis using step less.prems by simp
  next
    case False
    then have j: "j < n" "i < j" by (auto simp: j_def)
    then have in_range: "i < len h" "j < len h" using less.prems by linarith+
    then have "len (swap h i j) = len h" using swap_keys less.prems(1) by (simp add: len)
    then have "P (fst (heap_down lt swap (swap h i j) j n))"
      using less.prems in_range j by (intro less.hyps assms(5) swap_inv) auto
    then show ?thesis using step False by simp
  qed
qed

lemma Remove_keeps:
  assumes "inv h" and "i < len h" and n: "n = len h - 1"
    and start: "P (if i = n then h else swap h i n)"
    and kept: "\<And>h i j. inv h \<Longrightarrow> n \<le> len h \<Longrightarrow> i < n \<Longrightarrow> j < n \<Longrightarrow> P h \<Longrightarrow> P (swap h i j)"
  shows "\<exists>g. heap_Remove len lt swap pop h i = pop g \<and> P g \<and> inv g \<and> len g = len h"
proof (cases "i = n")
  case True
  then show ?thesis using assms(1) start n by (intro exI [of _ h]) (simp add: heap_Remove_def)
next
  case False
  then have i: "i < n" "i < len h" "n < len h" using assms(2) n by linarith+
  let ?g = "swap h i n"
  have g: "inv ?g" "len ?g = len h" "P ?g" using swap_inv swap_keys assms(1) i start False by (simp_all add: len)
  obtain h' i' where hd: "heap_down lt swap ?g i n = (h', i')" by fastforce
  have P': "P h'" using down_keeps [of ?g n i P] g i kept hd by simp
  have inv': "inv h'" using down_keeps [of ?g n i inv] g i hd by (simp add: swap_inv)
  have len': "len h' = len h"
    using down_keeps [of ?g n i "\<lambda>h'. inv h' \<and> len h' = len h"] g i hd
    by (simp add: swap_inv) (simp add: len swap_keys)
  let ?r = "if i' > i then h' else heap_up lt swap h' i"
  have "P ?r" using up_keeps [of h' i n P] P' inv' len' i kept by simp
  moreover have "inv ?r \<and> len ?r = len h"
    using up_keeps [of h' i n "\<lambda>r. inv r \<and> len r = len h"] inv' len' i
    by (simp add: swap_inv) (simp add: len swap_keys)
  moreover have "heap_Remove len lt swap pop h i = pop ?r"
    using False hd unfolding heap_Remove_def Let_def n by simp
  ultimately show ?thesis by blast
qed

lemma Push_keeps:
  assumes "inv h" and "admissible h x" and "P (push h x)"
    and "\<And>h i j. inv h \<Longrightarrow> i < len h \<Longrightarrow> j < len h \<Longrightarrow> P h \<Longrightarrow> P (swap h i j)"
  shows "P (heap_Push len lt swap push h x)"
proof -
  obtain k where "keys (push h x) = keys h @ [k]" using push_keys assms by blast
  then have "len (push h x) = Suc (len h)" by (simp add: len)
  then show ?thesis
    using up_keeps [of "push h x" "len h" "Suc (len h)" P] push_inv assms
    by (simp add: heap_Push_def Let_def)
qed

end

end
