(* ===== verification/CacheMemory.thy ===== *)
theory CacheMemory
  imports Cache GoHeap "HOL-Library.AList" "HOL-Library.Monad_Syntax"
begin

text \<open>
  The in-process cache of \<^verbatim>\<open>packages/cache/memory/memory.go\<close>.  Entries are heap objects that
  the key table, the recency list and the expiry heap share, so the model has an explicit
  object store: an address is a natural number, and the table, the list and the heap hold
  addresses.  The intrusive list pointer \<^verbatim>\<open>entry.recency\<close> is the position of the address in
  the recency list.  A result \<open>None\<close> of an operation stands for a panic or a loop that does not
  end; a theorem below excludes both.  The clock readings of a call are arguments, and so are
  the context error and the codec.
\<close>

section \<open>State\<close>

record entry =
  ce_key :: string
  ce_data :: string
  ce_expiresAt :: gtime
  ce_counter :: bool
  ce_heapIndex :: int

definition expired :: "entry \<Rightarrow> gtime \<Rightarrow> bool" where
  "expired e now \<longleftrightarrow> \<not> IsZero (ce_expiresAt e) \<and> \<not> Before now (ce_expiresAt e)"

record Config =
  cf_MaxEntries :: int
  cf_MaxBytes :: int
  cf_MaxCounters :: int

definition DefaultConfig :: Config where
  "DefaultConfig = \<lparr>cf_MaxEntries = 100000, cf_MaxBytes = 64 * 2 ^ 20, cf_MaxCounters = 100000\<rparr>"

definition Config_validate :: "Config \<Rightarrow> go_error option" where
  "Config_validate c =
     (if cf_MaxEntries c < 1 then Some (Sentinel ''memory cache: max entries must be greater than zero'')
      else if cf_MaxBytes c < 1 then Some (Sentinel ''memory cache: max bytes must be greater than zero'')
      else if cf_MaxCounters c < 0 then Some (Sentinel ''memory cache: max counters must not be negative'')
      else None)"

record store =
  cs_objs :: "nat \<Rightarrow> entry"
  cs_next :: nat
  cs_values :: "(string \<times> nat) list"
  cs_recency :: "nat list"
  cs_retainedBytes :: int
  cs_counters :: int
  cs_expiries :: "nat list"
  cs_config :: Config

definition no_entry :: entry where
  "no_entry = \<lparr>ce_key = [], ce_data = [], ce_expiresAt = zero_time, ce_counter = False, ce_heapIndex = 0\<rparr>"

definition cache_New :: "Config list \<Rightarrow> go_error + store" where
  "cache_New configurations =
     (if length configurations > 1 then
        Inl (Sentinel ''memory cache: at most one configuration is allowed'')
      else let configuration = (case configurations of [] \<Rightarrow> DefaultConfig | c # _ \<Rightarrow> c)
        in case Config_validate configuration of
             Some e \<Rightarrow> Inl e
           | None \<Rightarrow> Inr \<lparr>cs_objs = (\<lambda>_. no_entry), cs_next = 0, cs_values = [], cs_recency = [],
               cs_retainedBytes = 0, cs_counters = 0, cs_expiries = [], cs_config = configuration\<rparr>)"

definition cache_Capabilities :: "store \<Rightarrow> Capabilities" where
  "cache_Capabilities s = \<lparr>cap_TTL = True, cap_ConditionalSet = True,
     cap_AtomicCounter = (cf_MaxCounters (cs_config s) > 0), cap_Purge = True\<rparr>"

section \<open>The expiry heap\<close>

type_synonym expiryHeap = "(nat \<Rightarrow> entry) \<times> nat list"

definition expiryHeap_Len :: "expiryHeap \<Rightarrow> nat" where
  "expiryHeap_Len h = length (snd h)"

definition expiryHeap_Less :: "expiryHeap \<Rightarrow> nat \<Rightarrow> nat \<Rightarrow> bool" where
  "expiryHeap_Less h i j =
     Before (ce_expiresAt (fst h (snd h ! i))) (ce_expiresAt (fst h (snd h ! j)))"

definition set_index :: "(nat \<Rightarrow> entry) \<Rightarrow> nat \<Rightarrow> int \<Rightarrow> nat \<Rightarrow> entry" where
  "set_index objs a i = objs(a := (objs a)\<lparr>ce_heapIndex := i\<rparr>)"

definition expiryHeap_Swap :: "expiryHeap \<Rightarrow> nat \<Rightarrow> nat \<Rightarrow> expiryHeap" where
  "expiryHeap_Swap h i j =
     (let xs = (snd h)[i := snd h ! j, j := snd h ! i]
      in (set_index (set_index (fst h) (xs ! i) (int i)) (xs ! j) (int j), xs))"

definition expiryHeap_Push :: "expiryHeap \<Rightarrow> nat \<Rightarrow> expiryHeap" where
  "expiryHeap_Push h a = (set_index (fst h) a (int (length (snd h))), snd h @ [a])"

definition expiryHeap_Pop :: "expiryHeap \<Rightarrow> expiryHeap" where
  "expiryHeap_Pop h = (set_index (fst h) (last (snd h)) (- 1), butlast (snd h))"

abbreviation push_expiry :: "expiryHeap \<Rightarrow> nat \<Rightarrow> expiryHeap" where
  "push_expiry \<equiv> heap_Push expiryHeap_Len expiryHeap_Less expiryHeap_Swap expiryHeap_Push"

abbreviation remove_expiry :: "expiryHeap \<Rightarrow> nat \<Rightarrow> expiryHeap" where
  "remove_expiry \<equiv> heap_Remove expiryHeap_Len expiryHeap_Less expiryHeap_Swap expiryHeap_Pop"

section \<open>Removal and eviction\<close>

definition entry_bytes :: "entry \<Rightarrow> int" where
  "entry_bytes e = int (length (ce_key e) + length (ce_data e))"

definition removeLocked :: "nat \<Rightarrow> store \<Rightarrow> store option" where
  "removeLocked a s =
     (let item = cs_objs s a;
          s1 = s\<lparr>cs_values := AList.delete (ce_key item) (cs_values s)\<rparr>
      in if ce_counter item then
           (let s2 = s1\<lparr>cs_counters := wrap64 (cs_counters s - 1)\<rparr>
            in if ce_heapIndex item \<ge> 0 then
                 (if nat (ce_heapIndex item) < length (cs_expiries s) then
                    (case remove_expiry (cs_objs s, cs_expiries s) (nat (ce_heapIndex item)) of
                       (objs, xs) \<Rightarrow> Some (s2\<lparr>cs_objs := objs, cs_expiries := xs\<rparr>))
                  else None)
               else Some s2)
         else Some (s1\<lparr>cs_recency := remove1 a (cs_recency s),
           cs_retainedBytes := wrap64 (cs_retainedBytes s - entry_bytes item)\<rparr>))"

definition value_count :: "store \<Rightarrow> int" where
  "value_count s = int (length (cs_values s)) - cs_counters s"

definition over_bounds :: "store \<Rightarrow> bool" where
  "over_bounds s \<longleftrightarrow> value_count s > cf_MaxEntries (cs_config s) \<or> cs_retainedBytes s > cf_MaxBytes (cs_config s)"

text \<open>The first loop of \<^verbatim>\<open>evictLocked\<close> walks the recency list from the back; the predecessor is
  read before an element is removed, so it visits the list as it was at the start.\<close>

fun evict_expired :: "gtime \<Rightarrow> nat list \<Rightarrow> store \<Rightarrow> store option" where
  "evict_expired now [] s = Some s"
| "evict_expired now (a # as) s =
     do { s' \<leftarrow> (if expired (cs_objs s a) now then removeLocked a s else Some s); evict_expired now as s' }"

partial_function (option) evict_oldest :: "store \<Rightarrow> store option" where
  "evict_oldest s =
     (if over_bounds s then
        (if cs_recency s = [] then Some s
         else do { s' \<leftarrow> removeLocked (last (cs_recency s)) s; evict_oldest s' })
      else Some s)"

definition evictLocked :: "gtime \<Rightarrow> store \<Rightarrow> store option" where
  "evictLocked now s =
     (if \<not> over_bounds s then Some s
      else do { s' \<leftarrow> evict_expired now (rev (cs_recency s)) s; evict_oldest s' })"

partial_function (option) expireCountersLocked :: "gtime \<Rightarrow> store \<Rightarrow> store option" where
  "expireCountersLocked now s =
     (case cs_expiries s of
        [] \<Rightarrow> Some s
      | a # _ \<Rightarrow> if expired (cs_objs s a) now
          then do { s' \<leftarrow> removeLocked a s; expireCountersLocked now s' }
          else Some s)"

section \<open>Operations\<close>

text \<open>\<^verbatim>\<open>item, found := s.values[key]; if found && item.expired(now) { s.removeLocked(item); found = false }\<close>\<close>

definition lookup_live :: "gtime \<Rightarrow> string \<Rightarrow> store \<Rightarrow> (store \<times> nat option) option" where
  "lookup_live now key s =
     (case map_of (cs_values s) key of
        None \<Rightarrow> Some (s, None)
      | Some a \<Rightarrow> if expired (cs_objs s a) now
          then do { s' \<leftarrow> removeLocked a s; Some (s', None) }
          else Some (s, Some a))"

definition cache_Get ::
    "(string \<Rightarrow> string + 'v) \<Rightarrow> string option \<Rightarrow> gtime \<Rightarrow> string \<Rightarrow> store \<Rightarrow> (store \<times> (OpError + 'v)) option" where
  "cache_Get decode ctx now key s =
     (case ctx of Some m \<Rightarrow> Some (s, Inl (cache_Error ''get'' key (ContextError m)))
      | None \<Rightarrow>
        case ValidateKey key of Some e \<Rightarrow> Some (s, Inl (cache_Error ''get'' key e))
        | None \<Rightarrow> do {
            (s', found) \<leftarrow> lookup_live now key s;
            (case found of
               None \<Rightarrow> Some (s', Inl (cache_Error ''get'' key ErrNotFound))
             | Some a \<Rightarrow>
               let item = cs_objs s' a;
                   s'' = (if \<not> ce_counter item
                     then s'\<lparr>cs_recency := a # remove1 a (cs_recency s')\<rparr> else s')
               in case decode (ce_data item) of
                    Inl m \<Rightarrow> Some (s'', Inl (cache_Error ''get'' key (CodecError m)))
                  | Inr v \<Rightarrow> Some (s'', Inr v)) })"

definition deadline :: "gtime \<Rightarrow> int \<Rightarrow> gtime" where
  "deadline now ttl = (if ttl > 0 then Add now ttl else zero_time)"

text \<open>The write of \<^verbatim>\<open>Set\<close> after its checks: replace the entry in place, or allocate one.\<close>

definition set_entry :: "string \<Rightarrow> string \<Rightarrow> gtime \<Rightarrow> nat option \<Rightarrow> store \<Rightarrow> store" where
  "set_entry key data expiresAt found s = (case found of
       Some a \<Rightarrow>
         let current = cs_objs s a
         in s\<lparr>cs_objs := (cs_objs s)(a := current\<lparr>ce_data := data, ce_expiresAt := expiresAt\<rparr>),
              cs_retainedBytes := wrap64 (wrap64 (cs_retainedBytes s - int (length (ce_data current))) + int (length data)),
              cs_recency := a # remove1 a (cs_recency s)\<rparr>
     | None \<Rightarrow>
         let a = cs_next s
         in s\<lparr>cs_objs := (cs_objs s)(a := \<lparr>ce_key = key, ce_data = data, ce_expiresAt = expiresAt,
                ce_counter = False, ce_heapIndex = 0\<rparr>),
              cs_next := Suc a, cs_recency := a # cs_recency s,
              cs_values := AList.update key a (cs_values s),
              cs_retainedBytes := wrap64 (cs_retainedBytes s + int (length key + length data))\<rparr>)"

definition cache_Set ::
    "('v \<Rightarrow> string + string) \<Rightarrow> string option \<Rightarrow> gtime \<Rightarrow> gtime \<Rightarrow> string \<Rightarrow> 'v \<Rightarrow> SetOptions \<Rightarrow> store
       \<Rightarrow> (store \<times> OpError option) option" where
  "cache_Set encode ctx now now' key v options s =
     (let fail = (\<lambda>s e. Some (s, Some (cache_Error ''set'' key e))) in
      case ctx of Some m \<Rightarrow> fail s (ContextError m)
      | None \<Rightarrow>
      case ValidateKey key of Some e \<Rightarrow> fail s e
      | None \<Rightarrow>
      case SetOptions_Validate options of Some e \<Rightarrow> fail s e
      | None \<Rightarrow>
      case NormalizedTTL (so_TTL options) of
        (_, Some e) \<Rightarrow> fail s e
      | (ttl, None) \<Rightarrow>
      case encode v of
        Inl m \<Rightarrow> fail s (CodecError m)
      | Inr data \<Rightarrow> do {
          (s1, found) \<leftarrow> lookup_live now key s;
          if so_Condition options = SetIfAbsent \<and> found \<noteq> None then fail s1 ErrNotStored
          else if so_Condition options = SetIfPresent \<and> found = None then fail s1 ErrNotStored
          else if int (length key + length data) > cf_MaxBytes (cs_config s1) then
            fail s1 (ErrInvalidValue ''encoded entry exceeds memory cache byte limit'')
          else do {
            (s2, found') \<leftarrow> (case found of
                Some a \<Rightarrow> if ce_counter (cs_objs s1 a) then do { s' \<leftarrow> removeLocked a s1; Some (s', None) }
                  else Some (s1, found)
              | None \<Rightarrow> Some (s1, None));
            s3 \<leftarrow> evictLocked now' (set_entry key data (deadline now ttl) found' s2);
            Some (s3, None) } })"

definition cache_Delete :: "string option \<Rightarrow> string \<Rightarrow> store \<Rightarrow> (store \<times> OpError option) option" where
  "cache_Delete ctx key s =
     (case ctx of Some m \<Rightarrow> Some (s, Some (cache_Error ''delete'' key (ContextError m)))
      | None \<Rightarrow>
        case ValidateKey key of Some e \<Rightarrow> Some (s, Some (cache_Error ''delete'' key e))
        | None \<Rightarrow>
          case map_of (cs_values s) key of
            None \<Rightarrow> Some (s, None)
          | Some a \<Rightarrow> do { s' \<leftarrow> removeLocked a s; Some (s', None) })"

text \<open>The write of \<^verbatim>\<open>Add\<close> after its checks.\<close>

definition update_counter :: "string \<Rightarrow> gtime \<Rightarrow> nat \<Rightarrow> store \<Rightarrow> store" where
  "update_counter data expiresAt a s =
     (let item = cs_objs s a; objs = (cs_objs s)(a := item\<lparr>ce_data := data\<rparr>)
      in if t_ns (ce_expiresAt item) \<noteq> t_ns expiresAt then
           (case push_expiry (objs(a := (objs a)\<lparr>ce_expiresAt := expiresAt\<rparr>), cs_expiries s) a of
              (objs', xs) \<Rightarrow> s\<lparr>cs_objs := objs', cs_expiries := xs\<rparr>)
         else s\<lparr>cs_objs := objs\<rparr>)"

definition create_counter :: "string \<Rightarrow> string \<Rightarrow> gtime \<Rightarrow> store \<Rightarrow> store" where
  "create_counter key data expiresAt s =
     (let a = cs_next s;
          s' = s\<lparr>cs_objs := (cs_objs s)(a := \<lparr>ce_key = key, ce_data = data, ce_expiresAt = expiresAt,
                   ce_counter = True, ce_heapIndex = - 1\<rparr>),
                 cs_next := Suc a, cs_values := AList.update key a (cs_values s),
                 cs_counters := wrap64 (cs_counters s + 1)\<rparr>
      in if \<not> IsZero expiresAt then
           (case push_expiry (cs_objs s', cs_expiries s') a of
              (objs', xs) \<Rightarrow> s'\<lparr>cs_objs := objs', cs_expiries := xs\<rparr>)
         else s')"

definition cache_Add ::
    "string option \<Rightarrow> gtime \<Rightarrow> string \<Rightarrow> int \<Rightarrow> CounterOptions \<Rightarrow> store \<Rightarrow> (store \<times> (OpError + int)) option" where
  "cache_Add ctx now key delta options s =
     (let fail = (\<lambda>s e. Some (s, Inl (cache_Error ''add'' key e))) in
      case ctx of Some m \<Rightarrow> fail s (ContextError m)
      | None \<Rightarrow>
      if cf_MaxCounters (cs_config s) = 0 then fail s ErrUnsupported else
      case ValidateKey key of Some e \<Rightarrow> fail s e
      | None \<Rightarrow>
      case CounterOptions_Validate options of Some e \<Rightarrow> fail s e
      | None \<Rightarrow>
      case NormalizedTTL (co_TTL options) of
        (_, Some e) \<Rightarrow> fail s e
      | (ttl, None) \<Rightarrow> do {
          (s1, found) \<leftarrow> lookup_live now key s;
          case (case found of None \<Rightarrow> Some 0 | Some a \<Rightarrow> ParseInt (ce_data (cs_objs s1 a))) of
            None \<Rightarrow> fail s1 (ErrInvalidValue ''counter is not an integer'')
          | Some current \<Rightarrow>
            if (delta > 0 \<and> current > wrap64 (maxInt64 - delta)) \<or> (delta < 0 \<and> current < wrap64 (minInt64 - delta)) then
              fail s1 (ErrInvalidValue ''integer overflow'')
            else (
              let result = wrap64 (current + delta);
                  expiresAt = (case found of
                      Some a \<Rightarrow> if \<not> IsZero (ce_expiresAt (cs_objs s1 a)) then ce_expiresAt (cs_objs s1 a)
                        else deadline now ttl
                    | None \<Rightarrow> deadline now ttl);
                  is_counter = (case found of Some a \<Rightarrow> ce_counter (cs_objs s1 a) | None \<Rightarrow> False);
                  data = FormatInt result
              in case found of
                Some a \<Rightarrow>
                  if is_counter then Some (update_counter data expiresAt a s1, Inr result)
                  else do {
                    s2 \<leftarrow> expireCountersLocked now s1;
                    if cs_counters s2 \<ge> cf_MaxCounters (cs_config s2) then
                      fail s2 (ErrCapacity ''every counter slot holds a live counter'')
                    else do {
                      s3 \<leftarrow> removeLocked a s2;
                      Some (create_counter key data expiresAt s3, Inr result) } }
              | None \<Rightarrow> do {
                    s2 \<leftarrow> expireCountersLocked now s1;
                    if cs_counters s2 \<ge> cf_MaxCounters (cs_config s2) then
                      fail s2 (ErrCapacity ''every counter slot holds a live counter'')
                    else Some (create_counter key data expiresAt s2, Inr result) }) })"

definition cache_Purge :: "string option \<Rightarrow> store \<Rightarrow> store \<times> OpError option" where
  "cache_Purge ctx s =
     (case ctx of Some m \<Rightarrow> (s, Some (cache_Error ''purge'' [] (ContextError m)))
      | None \<Rightarrow> (s\<lparr>cs_values := [], cs_recency := [], cs_retainedBytes := 0, cs_counters := 0,
            cs_expiries := []\<rparr>, None))"

section \<open>The expiry heap is a client of the heap algorithm\<close>

definition indexed :: "expiryHeap \<Rightarrow> bool" where
  "indexed h \<longleftrightarrow> (\<forall>i < length (snd h). ce_heapIndex (fst h (snd h ! i)) = int i)"

definition expiry_keys :: "expiryHeap \<Rightarrow> int list" where
  "expiry_keys h = map (\<lambda>a. t_ns (ce_expiresAt (fst h a))) (snd h)"

definition expiry_inv :: "expiryHeap \<Rightarrow> bool" where
  "expiry_inv h \<longleftrightarrow> distinct (snd h) \<and> indexed h"

definition fresh_expiry :: "expiryHeap \<Rightarrow> nat \<Rightarrow> bool" where
  "fresh_expiry h a \<longleftrightarrow> a \<notin> set (snd h)"

lemma set_index_sel [simp]:
  "ce_key (set_index objs a i b) = ce_key (objs b)" "ce_data (set_index objs a i b) = ce_data (objs b)"
  "ce_expiresAt (set_index objs a i b) = ce_expiresAt (objs b)" "ce_counter (set_index objs a i b) = ce_counter (objs b)"
  "ce_heapIndex (set_index objs a i b) = (if b = a then i else ce_heapIndex (objs b))"
  by (simp_all add: set_index_def)

lemma set_index_other: "b \<noteq> a \<Longrightarrow> set_index objs a i b = objs b"
  by (simp add: set_index_def)

lemma Swap_snd: "snd (expiryHeap_Swap h i j) = swapped (snd h) i j"
  by (simp add: expiryHeap_Swap_def swapped_def Let_def)

lemma Swap_sel:
  "ce_key (fst (expiryHeap_Swap h i j) b) = ce_key (fst h b)"
  "ce_data (fst (expiryHeap_Swap h i j) b) = ce_data (fst h b)"
  "ce_expiresAt (fst (expiryHeap_Swap h i j) b) = ce_expiresAt (fst h b)"
  "ce_counter (fst (expiryHeap_Swap h i j) b) = ce_counter (fst h b)"
  by (simp_all add: expiryHeap_Swap_def Let_def)

lemma swapped_perm:
  "i < length xs \<Longrightarrow> j < length xs \<Longrightarrow> distinct (swapped xs i j) = distinct xs"
  "i < length xs \<Longrightarrow> j < length xs \<Longrightarrow> set (swapped xs i j) = set xs"
  by (simp_all add: swapped_def set_swap distinct_swap)

lemma swapped_map:
  "i < length xs \<Longrightarrow> j < length xs \<Longrightarrow> map f (swapped xs i j) = swapped (map f xs) i j"
  by (simp add: swapped_def map_update)

lemma Swap_indexed:
  assumes "expiry_inv h" and "i < length (snd h)" and "j < length (snd h)"
  shows "indexed (expiryHeap_Swap h i j)"
  unfolding indexed_def Swap_snd length_swapped
proof (intro allI impI)
  fix m assume m: "m < length (snd h)"
  let ?xs = "swapped (snd h) i j"
  have d: "distinct ?xs" using assms by (simp add: swapped_perm expiry_inv_def)
  have fst: "ce_heapIndex (fst (expiryHeap_Swap h i j) b) =
      (if b = ?xs ! j then int j else if b = ?xs ! i then int i else ce_heapIndex (fst h b))" for b
    by (simp add: expiryHeap_Swap_def Let_def swapped_def)
  show "ce_heapIndex (fst (expiryHeap_Swap h i j) (?xs ! m)) = int m"
  proof (cases "m = i \<or> m = j")
    case True
    then show ?thesis using fst [of "?xs ! m"] nth_eq_iff_index_eq [OF d, of m j] m assms by auto
  next
    case False
    then have "?xs ! m \<noteq> ?xs ! j" "?xs ! m \<noteq> ?xs ! i"
      using nth_eq_iff_index_eq [OF d, of m j] nth_eq_iff_index_eq [OF d, of m i] m assms by auto
    then have "ce_heapIndex (fst (expiryHeap_Swap h i j) (?xs ! m)) = ce_heapIndex (fst h (snd h ! m))"
      using fst [of "?xs ! m"] nth_swapped [OF assms(2,3) m] False by simp
    then show ?thesis using assms(1) m by (simp add: expiry_inv_def indexed_def)
  qed
qed

interpretation xh: heap_client expiry_keys expiry_inv expiryHeap_Len expiryHeap_Less expiryHeap_Swap
  expiryHeap_Push expiryHeap_Pop fresh_expiry
proof
  show "expiryHeap_Len h = length (expiry_keys h)" for h
    by (simp add: expiryHeap_Len_def expiry_keys_def)
  show "i < expiryHeap_Len h \<Longrightarrow> j < expiryHeap_Len h \<Longrightarrow>
      expiryHeap_Less h i j \<longleftrightarrow> expiry_keys h ! i < expiry_keys h ! j" for h i j
    by (simp add: expiryHeap_Len_def expiry_keys_def expiryHeap_Less_def time_ops)
  show "expiry_keys (expiryHeap_Swap h i j) = swapped (expiry_keys h) i j"
    if "expiry_inv h" "i < expiryHeap_Len h" "j < expiryHeap_Len h" for h i j
    using that by (simp add: expiry_keys_def Swap_snd Swap_sel swapped_map expiryHeap_Len_def)
  show "expiry_inv (expiryHeap_Swap h i j)"
    if "expiry_inv h" "i < expiryHeap_Len h" "j < expiryHeap_Len h" for h i j
    using that Swap_indexed [of h i j] by (simp add: expiry_inv_def Swap_snd swapped_perm expiryHeap_Len_def)
  show "\<exists>k. expiry_keys (expiryHeap_Push h x) = expiry_keys h @ [k]"
    if "expiry_inv h" "fresh_expiry h x" for h x
    by (simp add: expiry_keys_def expiryHeap_Push_def)
  show "expiry_inv (expiryHeap_Push h x)" if "expiry_inv h" "fresh_expiry h x" for h x
    using that by (auto simp: expiry_inv_def indexed_def expiryHeap_Push_def fresh_expiry_def nth_append less_Suc_eq)
  show "expiry_keys (expiryHeap_Pop h) = butlast (expiry_keys h)"
    if "expiry_inv h" "expiry_keys h \<noteq> []" for h
    by (simp add: expiry_keys_def expiryHeap_Pop_def map_butlast)
  show "expiry_inv (expiryHeap_Pop h)" if h: "expiry_inv h" and ne: "expiry_keys h \<noteq> []" for h
  proof -
    have ne': "snd h \<noteq> []" using ne by (auto simp: expiry_keys_def)
    have ne_last: "snd h ! i = last (snd h) \<longleftrightarrow> False" if "i < length (snd h) - Suc 0" for i
      using h ne' that nth_eq_iff_index_eq [of "snd h" i "length (snd h) - 1"]
      by (simp add: last_conv_nth expiry_inv_def)
    show ?thesis using h
      by (auto simp: expiry_inv_def indexed_def expiryHeap_Pop_def nth_butlast distinct_butlast ne_last)
  qed
qed

text \<open>Two object stores that differ at most in heap indices, and only on a set of addresses.\<close>

definition reindexed :: "(nat \<Rightarrow> entry) \<Rightarrow> (nat \<Rightarrow> entry) \<Rightarrow> nat set \<Rightarrow> bool" where
  "reindexed objs objs' A \<longleftrightarrow>
     (\<forall>a. \<exists>i. objs' a = (objs a)\<lparr>ce_heapIndex := i\<rparr>) \<and> (\<forall>a. a \<notin> A \<longrightarrow> objs' a = objs a)"

lemma same_index: "(e::entry) = e\<lparr>ce_heapIndex := ce_heapIndex e\<rparr>"
  by simp

lemma reindexed_refl [simp]: "reindexed objs objs A"
  unfolding reindexed_def using same_index by blast

lemma reindexed_sel:
  assumes "reindexed objs objs' A"
  shows "ce_key (objs' a) = ce_key (objs a)" "ce_data (objs' a) = ce_data (objs a)"
    "ce_expiresAt (objs' a) = ce_expiresAt (objs a)" "ce_counter (objs' a) = ce_counter (objs a)"
    "a \<notin> A \<Longrightarrow> objs' a = objs a"
proof -
  obtain i where "objs' a = (objs a)\<lparr>ce_heapIndex := i\<rparr>" using assms unfolding reindexed_def by blast
  then show "ce_key (objs' a) = ce_key (objs a)" "ce_data (objs' a) = ce_data (objs a)"
    "ce_expiresAt (objs' a) = ce_expiresAt (objs a)" "ce_counter (objs' a) = ce_counter (objs a)"
    by simp_all
  show "a \<notin> A \<Longrightarrow> objs' a = objs a" using assms by (simp add: reindexed_def)
qed

lemma reindexed_trans:
  assumes "reindexed o1 o2 A" and "reindexed o2 o3 A"
  shows "reindexed o1 o3 A"
  unfolding reindexed_def
proof (intro conjI allI impI)
  fix a
  obtain i j where "o2 a = (o1 a)\<lparr>ce_heapIndex := i\<rparr>" "o3 a = (o2 a)\<lparr>ce_heapIndex := j\<rparr>"
    using assms unfolding reindexed_def by blast
  then have "o3 a = (o1 a)\<lparr>ce_heapIndex := j\<rparr>" by simp
  then show "\<exists>i. o3 a = (o1 a)\<lparr>ce_heapIndex := i\<rparr>" by blast
qed (use assms in \<open>simp add: reindexed_def\<close>)

lemma reindexed_set_index: "a \<in> A \<Longrightarrow> reindexed objs (set_index objs a i) A"
  unfolding reindexed_def set_index_def fun_upd_apply using same_index by (metis (full_types))

lemma reindexed_Swap:
  assumes "i < length (snd h)" and "j < length (snd h)" and "set (snd h) \<subseteq> A"
  shows "reindexed (fst h) (fst (expiryHeap_Swap h i j)) A"
proof -
  have "swapped (snd h) i j ! i \<in> A" "swapped (snd h) i j ! j \<in> A"
    using assms swapped_perm(2) [OF assms(1,2)] by (metis length_swapped nth_mem subsetD)+
  then show ?thesis
    unfolding expiryHeap_Swap_def Let_def fst_conv swapped_def [symmetric]
    by (blast intro: reindexed_trans reindexed_set_index)
qed

text \<open>A well-formed expiry heap over the addresses \<open>A\<close>.\<close>

definition heap_of :: "expiryHeap \<Rightarrow> nat set \<Rightarrow> bool" where
  "heap_of h A \<longleftrightarrow> expiry_inv h \<and> heap_ordered (expiry_keys h) (length (snd h)) \<and> set (snd h) = A"

lemma push_expiry_heap:
  assumes "heap_of (objs, xs) A" and "a \<notin> A"
  shows "heap_of (push_expiry (objs, xs) a) (insert a A)
    \<and> reindexed objs (fst (push_expiry (objs, xs) a)) (insert a A)"
proof -
  let ?h = "(objs, xs)"
  have h: "expiry_inv ?h" "fresh_expiry ?h a" "heap_ordered (expiry_keys ?h) (expiryHeap_Len ?h)" "set xs = A"
    using assms by (simp_all add: heap_of_def fresh_expiry_def expiryHeap_Len_def)
  have "set (snd (push_expiry ?h a)) = insert a A \<and> reindexed objs (fst (push_expiry ?h a)) (insert a A)"
  proof (rule xh.Push_keeps [of ?h a "\<lambda>g. set (snd g) = insert a A \<and> reindexed objs (fst g) (insert a A)", OF h(1,2)])
    show "set (snd (expiryHeap_Push ?h a)) = insert a A \<and> reindexed objs (fst (expiryHeap_Push ?h a)) (insert a A)"
      using h(4) by (simp add: expiryHeap_Push_def reindexed_set_index)
  next
    fix g i j
    assume g: "i < expiryHeap_Len g" "j < expiryHeap_Len g"
      "set (snd g) = insert a A \<and> reindexed objs (fst g) (insert a A)"
    then have ij: "i < length (snd g)" "j < length (snd g)" by (simp_all add: expiryHeap_Len_def)
    have "reindexed (fst g) (fst (expiryHeap_Swap g i j)) (insert a A)"
      using reindexed_Swap [OF ij, of "insert a A"] g(3) by simp
    then show "set (snd (expiryHeap_Swap g i j)) = insert a A \<and> reindexed objs (fst (expiryHeap_Swap g i j)) (insert a A)"
      using g(3) ij by (auto simp: Swap_snd swapped_perm intro: reindexed_trans)
  qed
  moreover have "length (snd (push_expiry ?h a)) = expiryHeap_Len (push_expiry ?h a)" by (simp add: expiryHeap_Len_def)
  ultimately show ?thesis using xh.Push_heap [OF h(1-3)] by (simp add: heap_of_def)
qed

lemma remove_expiry_heap:
  assumes "heap_of (objs, xs) A" and "i < length xs"
  shows "heap_of (remove_expiry (objs, xs) i) (A - {xs ! i})
    \<and> reindexed objs (fst (remove_expiry (objs, xs) i)) A"
proof -
  let ?h = "(objs, xs)"
  define n where "n = expiryHeap_Len ?h - 1"
  have h: "expiry_inv ?h" "i < expiryHeap_Len ?h" "heap_ordered (expiry_keys ?h) (expiryHeap_Len ?h)" "set xs = A"
    using assms by (simp_all add: heap_of_def expiryHeap_Len_def)
  have n: "n < length xs" "length xs = Suc n" using h(2) by (simp_all add: n_def expiryHeap_Len_def)
  define P where "P = (\<lambda>g::expiryHeap. set (snd g) = A \<and> length (snd g) = Suc n \<and> snd g ! n = xs ! i
     \<and> reindexed objs (fst g) A)"
  have swap_P: "P (expiryHeap_Swap g k l)"
    if g: "expiry_inv g" "k < n" "l < n" "P g" for g k l
  proof -
    have kl: "k < length (snd g)" "l < length (snd g)" "n < length (snd g)" using g by (simp_all add: P_def)
    have "reindexed (fst g) (fst (expiryHeap_Swap g k l)) A"
      using reindexed_Swap [OF kl(1,2), of A] g(4) by (simp add: P_def)
    then show ?thesis using g kl nth_swapped [OF kl]
      by (auto simp: P_def Swap_snd swapped_perm intro: reindexed_trans)
  qed
  have start: "P (if i = n then ?h else expiryHeap_Swap ?h i n)"
  proof (cases "i = n")
    case True
    then show ?thesis using h n by (simp add: P_def)
  next
    case False
    have "reindexed objs (fst (expiryHeap_Swap ?h i n)) A"
      using reindexed_Swap [of i ?h n A] assms(2) n h(4) by simp
    then show ?thesis using False h n assms(2) nth_swapped [of i xs n n]
      by (simp add: P_def Swap_snd swapped_perm)
  qed
  have "\<exists>g. remove_expiry ?h i = expiryHeap_Pop g \<and> P g \<and> expiry_inv g \<and> expiryHeap_Len g = expiryHeap_Len ?h"
    by (rule xh.Remove_keeps [OF h(1,2) n_def]) (use start swap_P in auto)
  then obtain g where g: "remove_expiry ?h i = expiryHeap_Pop g" "P g" "expiry_inv g" by blast
  have ne: "snd g \<noteq> []" using g(2) by (auto simp: P_def)
  then have last: "last (snd g) = xs ! i" using g(2) by (simp add: P_def last_conv_nth)
  have "set (butlast (snd g)) = A - {xs ! i}"
  proof -
    have "snd g = butlast (snd g) @ [xs ! i]" using ne last by (metis append_butlast_last_id)
    then have "distinct (butlast (snd g) @ [xs ! i])" "set (butlast (snd g) @ [xs ! i]) = A"
      using g by (simp_all add: P_def expiry_inv_def)
    then show ?thesis by auto
  qed
  moreover have "xs ! i \<in> A" using assms(2) h(4) by auto
  then have "reindexed objs (fst (remove_expiry ?h i)) A"
    using g(2) last unfolding g(1) by (auto simp: P_def expiryHeap_Pop_def intro: reindexed_trans reindexed_set_index)
  moreover have "length (snd (remove_expiry ?h i)) = expiryHeap_Len ?h - 1"
    unfolding g(1) using g(2) by (simp add: expiryHeap_Pop_def P_def n_def)
  moreover have "snd (remove_expiry ?h i) = butlast (snd g)" unfolding g(1) by (simp add: expiryHeap_Pop_def)
  ultimately show ?thesis using xh.Remove_heap [OF h(1-3)] by (simp add: heap_of_def)
qed

end
