(* ===== verification/CacheRefinement.thy ===== *)
theory CacheRefinement
  imports CacheMemory
begin

text \<open>
  What the in-process cache promises: an abstract cache without addresses, heap indices or
  byte counters (a map of entries and the recency order of the evictable keys), and the
  refinement of that specification by the operations of \<^verbatim>\<open>memory.go\<close>.
\<close>

section \<open>The store invariant\<close>

definition live :: "store \<Rightarrow> nat set" where
  "live s = snd ` set (cs_values s)"

definition config_ok :: "Config \<Rightarrow> bool" where
  "config_ok c \<longleftrightarrow> 1 \<le> cf_MaxEntries c \<and> 1 \<le> cf_MaxBytes c \<and> cf_MaxBytes c < 2 ^ 62
     \<and> 0 \<le> cf_MaxCounters c \<and> cf_MaxCounters c \<le> maxInt64"

definition store_wf :: "store \<Rightarrow> bool" where
  "store_wf s \<longleftrightarrow> distinct (map fst (cs_values s))
     \<and> (\<forall>(k, a) \<in> set (cs_values s). ce_key (cs_objs s a) = k \<and> a < cs_next s)
     \<and> distinct (cs_recency s) \<and> set (cs_recency s) = {a \<in> live s. \<not> ce_counter (cs_objs s a)}
     \<and> heap_of (cs_objs s, cs_expiries s)
         {a \<in> live s. ce_counter (cs_objs s a) \<and> \<not> IsZero (ce_expiresAt (cs_objs s a))}
     \<and> (\<forall>a \<in> live s. ce_counter (cs_objs s a) \<and> IsZero (ce_expiresAt (cs_objs s a)) \<longrightarrow>
          ce_heapIndex (cs_objs s a) = - 1)
     \<and> cs_retainedBytes s = (\<Sum>a\<leftarrow>cs_recency s. entry_bytes (cs_objs s a))
     \<and> cs_counters s = int (card {a \<in> live s. ce_counter (cs_objs s a)})
     \<and> config_ok (cs_config s) \<and> cs_counters s \<le> cf_MaxCounters (cs_config s)
     \<and> cs_retainedBytes s \<le> 2 * cf_MaxBytes (cs_config s)"

definition store_inv :: "store \<Rightarrow> bool" where
  "store_inv s \<longleftrightarrow> store_wf s \<and> \<not> over_bounds s"

lemma live_iff:
  assumes "store_wf s"
  shows "a \<in> live s \<longleftrightarrow> map_of (cs_values s) (ce_key (cs_objs s a)) = Some a"
    and "map_of (cs_values s) k = Some a \<Longrightarrow> ce_key (cs_objs s a) = k \<and> a \<in> live s \<and> a < cs_next s"
proof -
  have d: "distinct (map fst (cs_values s))" and k: "\<forall>(k, a) \<in> set (cs_values s). ce_key (cs_objs s a) = k \<and> a < cs_next s"
    using assms by (simp_all add: store_wf_def)
  show "a \<in> live s \<longleftrightarrow> map_of (cs_values s) (ce_key (cs_objs s a)) = Some a"
    using d k by (force simp: live_def dest: map_of_SomeD)
  show "map_of (cs_values s) k = Some a \<Longrightarrow> ce_key (cs_objs s a) = k \<and> a \<in> live s \<and> a < cs_next s"
    using k by (force simp: live_def dest: map_of_SomeD)
qed

lemma finite_live [simp]: "finite (live s)"
  by (simp add: live_def)

lemma live_inj:
  assumes "store_wf s" and "a \<in> live s" and "b \<in> live s" and "ce_key (cs_objs s a) = ce_key (cs_objs s b)"
  shows "a = b"
  using assms live_iff(1) [OF assms(1)] by (metis option.inject)

lemma card_live:
  assumes "store_wf s"
  shows "card (live s) = length (cs_values s)"
proof -
  have keys: "\<And>k a. (k, a) \<in> set (cs_values s) \<Longrightarrow> ce_key (cs_objs s a) = k"
    using assms by (auto simp: store_wf_def)
  have "inj_on snd (set (cs_values s))"
    by (rule inj_onI) (metis keys prod.collapse)
  then have "card (live s) = card (set (cs_values s))" by (simp add: live_def card_image)
  also have "\<dots> = length (cs_values s)"
    using assms by (simp add: store_wf_def distinct_card distinct_map)
  finally show ?thesis .
qed

lemma value_count_recency:
  assumes "store_wf s"
  shows "value_count s = int (length (cs_recency s))"
proof -
  let ?C = "{a \<in> live s. ce_counter (cs_objs s a)}" and ?V = "{a \<in> live s. \<not> ce_counter (cs_objs s a)}"
  have "length (cs_recency s) = card ?V"
    using assms by (metis (no_types, lifting) distinct_card store_wf_def)
  moreover have "card (live s) = card ?C + card ?V"
    by (subst card_Un_disjoint [symmetric]) (auto intro: arg_cong [of _ _ card])
  moreover have "cs_counters s = int (card ?C)" using assms by (simp add: store_wf_def)
  ultimately show ?thesis using card_live [OF assms] by (simp add: value_count_def)
qed

lemma set_AList_delete: "set (AList.delete k al) = {(k', v). (k', v) \<in> set al \<and> k' \<noteq> k}"
  by (induction al) auto

lemma live_delete:
  assumes "store_wf s" and "a \<in> live s"
  shows "snd ` set (AList.delete (ce_key (cs_objs s a)) (cs_values s)) = live s - {a}"
proof -
  have keys: "\<And>k b. (k, b) \<in> set (cs_values s) \<Longrightarrow> ce_key (cs_objs s b) = k \<and> b \<in> live s"
    using assms by (auto simp: store_wf_def live_def intro: rev_image_eqI)
  show ?thesis
  proof (intro equalityI subsetI)
    fix b assume "b \<in> snd ` set (AList.delete (ce_key (cs_objs s a)) (cs_values s))"
    then obtain k where "(k, b) \<in> set (cs_values s)" "k \<noteq> ce_key (cs_objs s a)" by (auto simp: set_AList_delete)
    then show "b \<in> live s - {a}" using keys by blast
  next
    fix b assume b: "b \<in> live s - {a}"
    then obtain k where k: "(k, b) \<in> set (cs_values s)" by (auto simp: live_def)
    then have "k \<noteq> ce_key (cs_objs s a)" using keys live_inj [OF assms(1) _ assms(2)] b by blast
    then show "b \<in> snd ` set (AList.delete (ce_key (cs_objs s a)) (cs_values s))"
      using k by (auto simp: set_AList_delete intro: rev_image_eqI)
  qed
qed

lemma remove1_notin [simp]: "a \<notin> set xs \<Longrightarrow> remove1 a xs = xs"
  by (rule remove1_idem)

lemma sum_remove1:
  "a \<in> set xs \<Longrightarrow> (\<Sum>x\<leftarrow>remove1 a xs. f x) = (\<Sum>x\<leftarrow>xs. f x) - (f a :: int)"
  by (induction xs) auto

lemma sum_bytes_nonneg: "0 \<le> (\<Sum>a\<leftarrow>xs. entry_bytes (objs a))"
  by (induction xs) (auto simp: entry_bytes_def)

lemma entry_bytes_le:
  assumes "store_wf s" and "a \<in> set (cs_recency s)"
  shows "entry_bytes (cs_objs s a) \<le> cs_retainedBytes s"
proof -
  have "cs_retainedBytes s = entry_bytes (cs_objs s a) + (\<Sum>b\<leftarrow>remove1 a (cs_recency s). entry_bytes (cs_objs s b))"
    using assms sum_remove1 [OF assms(2), of "\<lambda>b. entry_bytes (cs_objs s b)"] by (simp add: store_wf_def)
  then show ?thesis using sum_bytes_nonneg [of "cs_objs s" "remove1 a (cs_recency s)"] by simp
qed

lemma retained_int64: "store_wf s \<Longrightarrow> 0 \<le> cs_retainedBytes s \<and> is_int64 (cs_retainedBytes s)"
  using sum_bytes_nonneg [of "cs_objs s" "cs_recency s"]
  by (auto simp: store_wf_def config_ok_def is_int64_def minInt64_def maxInt64_def)

lemma counters_int64: "store_wf s \<Longrightarrow> 0 \<le> cs_counters s \<and> is_int64 (cs_counters s)"
  by (auto simp: store_wf_def config_ok_def is_int64_def minInt64_def)

section \<open>Removal\<close>

text \<open>What a removal leaves: everything but the entry, up to heap indices.\<close>

definition removes :: "nat \<Rightarrow> store \<Rightarrow> store \<Rightarrow> bool" where
  "removes a s s' \<longleftrightarrow> store_wf s' \<and> cs_config s' = cs_config s \<and> cs_next s' = cs_next s
     \<and> cs_values s' = AList.delete (ce_key (cs_objs s a)) (cs_values s) \<and> live s' = live s - {a}
     \<and> cs_recency s' = remove1 a (cs_recency s) \<and> reindexed (cs_objs s) (cs_objs s') (live s)
     \<and> set (cs_expiries s') = set (cs_expiries s) - {a}"

lemma heap_of_index:
  assumes "heap_of (objs, xs) A" and "a \<in> A"
  shows "0 \<le> ce_heapIndex (objs a) \<and> nat (ce_heapIndex (objs a)) < length xs
     \<and> xs ! nat (ce_heapIndex (objs a)) = a"
proof -
  obtain i where "i < length xs" "xs ! i = a" using assms by (auto simp: heap_of_def in_set_conv_nth)
  moreover from this have "ce_heapIndex (objs a) = int i"
    using assms(1) by (auto simp: heap_of_def expiry_inv_def indexed_def)
  ultimately show ?thesis by simp
qed

lemma reindexed_mono: "reindexed o1 o2 A \<Longrightarrow> A \<subseteq> B \<Longrightarrow> reindexed o1 o2 B"
  by (auto simp: reindexed_def)

lemma removeLocked_value:
  assumes wf: "store_wf s" and a: "a \<in> live s" and val: "\<not> ce_counter (cs_objs s a)"
  shows "\<exists>s'. removeLocked a s = Some s' \<and> removes a s s'"
proof -
  let ?e = "cs_objs s a"
  define s' where "s' = s\<lparr>cs_values := AList.delete (ce_key ?e) (cs_values s),
     cs_recency := remove1 a (cs_recency s), cs_retainedBytes := cs_retainedBytes s - entry_bytes ?e\<rparr>"
  have in_rec: "a \<in> set (cs_recency s)" using wf a val by (auto simp: store_wf_def)
  have pos: "0 \<le> entry_bytes ?e" by (simp add: entry_bytes_def)
  have "is_int64 (cs_retainedBytes s - entry_bytes ?e)"
    using retained_int64 [OF wf] entry_bytes_le [OF wf in_rec] pos by (simp add: is_int64_def minInt64_def)
  then have eq: "removeLocked a s = Some s'"
    using val by (simp add: removeLocked_def s'_def Let_def wrap64_id)
  have live': "live s' = live s - {a}" using live_delete [OF wf a] by (simp add: s'_def live_def)
  have objs': "cs_objs s' = cs_objs s" by (simp add: s'_def)
  have sel: "cs_values s' = AList.delete (ce_key ?e) (cs_values s)" "cs_recency s' = remove1 a (cs_recency s)"
    "cs_retainedBytes s' = cs_retainedBytes s - entry_bytes ?e" "cs_counters s' = cs_counters s"
    "cs_expiries s' = cs_expiries s" "cs_config s' = cs_config s" "cs_next s' = cs_next s"
    by (simp_all add: s'_def)
  have heap_set: "{b \<in> live s'. ce_counter (cs_objs s b) \<and> \<not> IsZero (ce_expiresAt (cs_objs s b))}
      = {b \<in> live s. ce_counter (cs_objs s b) \<and> \<not> IsZero (ce_expiresAt (cs_objs s b))}"
    and counter_set: "{b \<in> live s'. ce_counter (cs_objs s b)} = {b \<in> live s. ce_counter (cs_objs s b)}"
    using live' val by auto
  have "store_wf s'"
    unfolding store_wf_def objs' heap_set counter_set
    using wf pos sum_remove1 [OF in_rec, of "\<lambda>b. entry_bytes (cs_objs s b)"]
    by (auto simp: store_wf_def live' sel set_AList_delete distinct_delete)
  moreover have "a \<notin> set (cs_expiries s)" using wf val by (auto simp: store_wf_def heap_of_def)
  ultimately show ?thesis using eq live' sel objs' by (simp add: removes_def)
qed

lemma removeLocked_counter:
  assumes wf: "store_wf s" and a: "a \<in> live s" and counter: "ce_counter (cs_objs s a)"
  shows "\<exists>s'. removeLocked a s = Some s' \<and> removes a s s'"
proof -
  let ?e = "cs_objs s a"
  let ?A = "{b \<in> live s. ce_counter (cs_objs s b) \<and> \<not> IsZero (ce_expiresAt (cs_objs s b))}"
  have heap: "heap_of (cs_objs s, cs_expiries s) ?A" using wf by (simp add: store_wf_def)
  have "0 < card {b \<in> live s. ce_counter (cs_objs s b)}" using a counter by (auto simp: card_gt_0_iff)
  then have one: "1 \<le> cs_counters s" using wf by (simp add: store_wf_def)
  obtain objs xs where eq: "removeLocked a s = Some (s\<lparr>cs_values := AList.delete (ce_key ?e) (cs_values s),
       cs_counters := cs_counters s - 1, cs_objs := objs, cs_expiries := xs\<rparr>)"
    and heap': "heap_of (objs, xs) (?A - {a})" and re: "reindexed (cs_objs s) objs ?A"
  proof -
    have dec: "wrap64 (cs_counters s - 1) = cs_counters s - 1"
      using counters_int64 [OF wf] one by (intro wrap64_id) (simp add: is_int64_def minInt64_def)
    show ?thesis
    proof (cases "IsZero (ce_expiresAt ?e)")
      case True
      then have "ce_heapIndex ?e = - 1" using wf a counter by (simp add: store_wf_def)
      moreover have "?A - {a} = ?A" using True by auto
      ultimately show ?thesis
        using that [of "cs_expiries s" "cs_objs s"] heap counter dec by (simp add: removeLocked_def Let_def)
    next
      case False
      then have "a \<in> ?A" using a counter by simp
      note idx = heap_of_index [OF heap this]
      obtain objs xs where r: "remove_expiry (cs_objs s, cs_expiries s) (nat (ce_heapIndex ?e)) = (objs, xs)" by fastforce
      show ?thesis
        by (rule that [of xs objs])
          (use remove_expiry_heap [OF heap, of "nat (ce_heapIndex ?e)"] idx r counter dec in
            \<open>simp_all add: removeLocked_def Let_def\<close>)
    qed
  qed
  define s' where "s' = s\<lparr>cs_values := AList.delete (ce_key ?e) (cs_values s),
       cs_counters := cs_counters s - 1, cs_objs := objs, cs_expiries := xs\<rparr>"
  have fields: "cs_values s' = AList.delete (ce_key ?e) (cs_values s)" "cs_recency s' = cs_recency s"
    "cs_retainedBytes s' = cs_retainedBytes s" "cs_counters s' = cs_counters s - 1" "cs_objs s' = objs"
    "cs_expiries s' = xs" "cs_config s' = cs_config s" "cs_next s' = cs_next s"
    by (simp_all add: s'_def)
  note sel = reindexed_sel [OF re]
  have live': "live s' = live s - {a}" using live_delete [OF wf a] by (simp add: s'_def live_def)
  have not_rec: "a \<notin> set (cs_recency s)" using wf counter by (auto simp: store_wf_def)
  have bytes: "entry_bytes (objs b) = entry_bytes (cs_objs s b)" for b by (simp add: entry_bytes_def sel)
  have "{b \<in> live s'. ce_counter (objs b)} = {b \<in> live s. ce_counter (cs_objs s b)} - {a}"
    using live' sel by auto
  then have card: "int (card {b \<in> live s'. ce_counter (objs b)}) = cs_counters s - 1"
    using wf a counter one by (simp add: store_wf_def card_Diff_singleton of_nat_diff)
  have heap_set: "{b \<in> live s'. ce_counter (objs b) \<and> \<not> IsZero (ce_expiresAt (objs b))} = ?A - {a}"
    using live' sel by auto
  have persistent: "ce_heapIndex (objs b) = - 1"
    if "b \<in> live s'" "ce_counter (objs b)" "IsZero (ce_expiresAt (objs b))" for b
  proof -
    have "b \<notin> ?A" using that sel by auto
    then have "objs b = cs_objs s b" using sel(5) by blast
    then show ?thesis using that live' wf by (auto simp: store_wf_def)
  qed
  have "store_wf s'"
    unfolding store_wf_def fields heap_set card using heap' persistent wf not_rec
    by (auto simp: store_wf_def live' bytes sel set_AList_delete distinct_delete)
  moreover have "set (cs_expiries s') = set (cs_expiries s) - {a}"
    using heap heap' by (simp add: heap_of_def fields)
  moreover have "reindexed (cs_objs s) (cs_objs s') (live s)"
    using reindexed_mono [OF re, of "live s"] by (auto simp: fields)
  ultimately have "removes a s s'" using live' not_rec by (simp add: removes_def fields)
  then show ?thesis using eq s'_def by blast
qed

lemma removeLocked_removes:
  "store_wf s \<Longrightarrow> a \<in> live s \<Longrightarrow> \<exists>s'. removeLocked a s = Some s' \<and> removes a s s'"
  using removeLocked_value removeLocked_counter by blast

section \<open>The specification\<close>

record aentry =
  ae_data :: string
  ae_expiresAt :: gtime
  ae_counter :: bool

record acache =
  ac_map :: "string \<Rightarrow> aentry option"
  ac_order :: "string list"
  ac_config :: Config

definition a_expired :: "gtime \<Rightarrow> aentry \<Rightarrow> bool" where
  "a_expired now e \<longleftrightarrow> \<not> IsZero (ae_expiresAt e) \<and> \<not> Before now (ae_expiresAt e)"

definition a_drop :: "string set \<Rightarrow> acache \<Rightarrow> acache" where
  "a_drop K c = c\<lparr>ac_map := (\<lambda>k. if k \<in> K then None else ac_map c k),
     ac_order := filter (\<lambda>k. k \<notin> K) (ac_order c)\<rparr>"

definition a_bytes :: "acache \<Rightarrow> string \<Rightarrow> int" where
  "a_bytes c k = int (length k) + (case ac_map c k of None \<Rightarrow> 0 | Some e \<Rightarrow> int (length (ae_data e)))"

definition a_over :: "acache \<Rightarrow> bool" where
  "a_over c \<longleftrightarrow> int (length (ac_order c)) > cf_MaxEntries (ac_config c)
     \<or> (\<Sum>k\<leftarrow>ac_order c. a_bytes c k) > cf_MaxBytes (ac_config c)"

function a_trim :: "acache \<Rightarrow> acache" where
  "a_trim c = (if a_over c \<and> ac_order c \<noteq> [] then a_trim (a_drop {last (ac_order c)} c) else c)"
  by pat_completeness auto
termination
proof (relation "measure (\<lambda>c. length (ac_order c))")
  fix c :: acache
  assume "a_over c \<and> ac_order c \<noteq> []"
  then have "length (filter (\<lambda>k. k \<noteq> last (ac_order c)) (ac_order c)) < length (ac_order c)"
    by (intro length_filter_less [of "last (ac_order c)"]) auto
  then show "(a_drop {last (ac_order c)} c, c) \<in> measure (\<lambda>c. length (ac_order c))"
    by (simp add: a_drop_def)
qed simp

declare a_trim.simps [simp del]

definition a_evict :: "gtime \<Rightarrow> acache \<Rightarrow> acache" where
  "a_evict now c = (if \<not> a_over c then c
     else a_trim (a_drop {k \<in> set (ac_order c). \<exists>e. ac_map c k = Some e \<and> a_expired now e} c))"

definition a_put :: "string \<Rightarrow> aentry \<Rightarrow> acache \<Rightarrow> acache" where
  "a_put key e c = c\<lparr>ac_map := (ac_map c)(key \<mapsto> e), ac_order := key # remove1 key (ac_order c)\<rparr>"

definition a_lookup :: "gtime \<Rightarrow> string \<Rightarrow> acache \<Rightarrow> acache \<times> aentry option" where
  "a_lookup now key c = (case ac_map c key of
       None \<Rightarrow> (c, None)
     | Some e \<Rightarrow> if a_expired now e then (a_drop {key} c, None) else (c, Some e))"

definition a_counter_keys :: "acache \<Rightarrow> string set" where
  "a_counter_keys c = {k. \<exists>e. ac_map c k = Some e \<and> ae_counter e}"

definition a_expire_counters :: "gtime \<Rightarrow> acache \<Rightarrow> acache" where
  "a_expire_counters now c = a_drop {k. \<exists>e. ac_map c k = Some e \<and> ae_counter e \<and> a_expired now e} c"

section \<open>Abstraction\<close>

definition view :: "entry \<Rightarrow> aentry" where
  "view e = \<lparr>ae_data = ce_data e, ae_expiresAt = ce_expiresAt e, ae_counter = ce_counter e\<rparr>"

lemma view_sel [simp]: "ae_data (view e) = ce_data e" "ae_expiresAt (view e) = ce_expiresAt e"
  "ae_counter (view e) = ce_counter e"
  by (simp_all add: view_def)

lemma a_expired_view [simp]: "a_expired now (view e) = expired e now"
  by (simp add: a_expired_def expired_def)

definition abs_store :: "store \<Rightarrow> acache" where
  "abs_store s = \<lparr>ac_map = (\<lambda>k. map_option (\<lambda>a. view (cs_objs s a)) (map_of (cs_values s) k)),
     ac_order = map (\<lambda>a. ce_key (cs_objs s a)) (cs_recency s), ac_config = cs_config s\<rparr>"

lemma abs_store_sel [simp]:
  "ac_map (abs_store s) k = map_option (\<lambda>a. view (cs_objs s a)) (map_of (cs_values s) k)"
  "ac_order (abs_store s) = map (\<lambda>a. ce_key (cs_objs s a)) (cs_recency s)" "ac_config (abs_store s) = cs_config s"
  by (simp_all add: abs_store_def)

lemma acache_eqI:
  "(\<And>k. ac_map c k = ac_map d k) \<Longrightarrow> ac_order c = ac_order d \<Longrightarrow> ac_config c = ac_config d \<Longrightarrow> c = (d::acache)"
  by (cases c, cases d) (auto simp: fun_eq_iff)

text \<open>Removal of a set of addresses.\<close>

definition drops :: "nat set \<Rightarrow> store \<Rightarrow> store \<Rightarrow> bool" where
  "drops D s s' \<longleftrightarrow> store_wf s' \<and> cs_config s' = cs_config s \<and> cs_next s' = cs_next s
     \<and> live s' = live s - D \<and> cs_recency s' = filter (\<lambda>a. a \<notin> D) (cs_recency s)
     \<and> reindexed (cs_objs s) (cs_objs s') (live s) \<and> set (cs_expiries s') = set (cs_expiries s) - D
     \<and> (\<forall>k. map_of (cs_values s') k = (case map_of (cs_values s) k of
          None \<Rightarrow> None | Some a \<Rightarrow> if a \<in> D then None else Some a))"

lemma drops_refl [simp]: "store_wf s \<Longrightarrow> drops {} s s"
  by (simp add: drops_def split: option.split)

lemma removes_drops:
  assumes "store_wf s" and "a \<in> live s" and "removes a s s'"
  shows "drops {a} s s'"
proof -
  have d: "distinct (cs_recency s)" using assms(1) by (simp add: store_wf_def)
  have "map_of (cs_values s') k = (case map_of (cs_values s) k of
      None \<Rightarrow> None | Some b \<Rightarrow> if b \<in> {a} then None else Some b)" for k
  proof (cases "map_of (cs_values s) k")
    case None
    then show ?thesis using assms(3) by (simp add: removes_def delete_conv')
  next
    case (Some b)
    have "b = a \<longleftrightarrow> k = ce_key (cs_objs s a)"
    proof
      assume "b = a"
      then show "k = ce_key (cs_objs s a)" using live_iff(2) [OF assms(1) Some] by blast
    next
      assume k: "k = ce_key (cs_objs s a)"
      have "map_of (cs_values s) (ce_key (cs_objs s a)) = Some a"
        using live_iff(1) [OF assms(1), of a] assms(2) by blast
      then show "b = a" using Some k by simp
    qed
    then show ?thesis using assms(3) Some by (simp add: removes_def delete_conv')
  qed
  moreover have "remove1 a (cs_recency s) = filter (\<lambda>b. b \<notin> {a}) (cs_recency s)"
    using d by (auto simp: distinct_remove1_removeAll removeAll_filter_not_eq intro: filter_cong)
  ultimately show ?thesis using assms(3) by (simp add: drops_def removes_def)
qed

lemma drops_trans:
  assumes "drops D s t" and "drops E t u"
  shows "drops (D \<union> E) s u"
proof -
  have "reindexed (cs_objs s) (cs_objs u) (live s)"
    using assms by (auto simp: drops_def intro: reindexed_trans reindexed_mono)
  then show ?thesis using assms by (auto simp: drops_def split: option.splits)
qed

lemma drops_sel:
  assumes "drops D s s'"
  shows "ce_key (cs_objs s' a) = ce_key (cs_objs s a)" "view (cs_objs s' a) = view (cs_objs s a)"
    "ce_counter (cs_objs s' a) = ce_counter (cs_objs s a)" "expired (cs_objs s' a) now = expired (cs_objs s a) now"
    "entry_bytes (cs_objs s' a) = entry_bytes (cs_objs s a)" "ce_expiresAt (cs_objs s' a) = ce_expiresAt (cs_objs s a)"
  using reindexed_sel [of "cs_objs s" "cs_objs s'" "live s" a] assms
  by (simp_all add: drops_def view_def expired_def entry_bytes_def)

lemma drops_abs:
  assumes wf: "store_wf s" and D: "D \<subseteq> live s" and drops: "drops D s s'"
  shows "abs_store s' = a_drop ((\<lambda>a. ce_key (cs_objs s a)) ` D) (abs_store s)"
proof (rule acache_eqI)
  note sel = drops_sel [OF drops]
  have key_D: "ce_key (cs_objs s a) \<in> (\<lambda>a. ce_key (cs_objs s a)) ` D \<longleftrightarrow> a \<in> D" if "a \<in> live s" for a
    using that D live_inj [OF wf] by blast
  show "ac_map (abs_store s') k = ac_map (a_drop ((\<lambda>a. ce_key (cs_objs s a)) ` D) (abs_store s)) k" for k
  proof (cases "map_of (cs_values s) k")
    case None
    then show ?thesis using drops by (simp add: drops_def a_drop_def)
  next
    case (Some a)
    then have "ce_key (cs_objs s a) = k" "a \<in> live s" using live_iff(2) [OF wf] by blast+
    then show ?thesis using drops Some key_D [of a] by (auto simp: drops_def a_drop_def sel)
  qed
  have "set (cs_recency s) \<subseteq> live s" using wf by (auto simp: store_wf_def)
  then have "filter (\<lambda>a. ce_key (cs_objs s a) \<notin> (\<lambda>a. ce_key (cs_objs s a)) ` D) (cs_recency s)
      = filter (\<lambda>a. a \<notin> D) (cs_recency s)"
    using key_D by (intro filter_cong) auto
  then show "ac_order (abs_store s') = ac_order (a_drop ((\<lambda>a. ce_key (cs_objs s a)) ` D) (abs_store s))"
    using drops by (simp add: drops_def a_drop_def filter_map comp_def sel)
  show "ac_config (abs_store s') = ac_config (a_drop ((\<lambda>a. ce_key (cs_objs s a)) ` D) (abs_store s))"
    using drops by (simp add: drops_def a_drop_def)
qed

lemma a_over_abs:
  assumes "store_wf s"
  shows "a_over (abs_store s) = over_bounds s"
proof -
  have bytes: "a_bytes (abs_store s) (ce_key (cs_objs s a)) = entry_bytes (cs_objs s a)" if "a \<in> set (cs_recency s)" for a
  proof -
    have "map_of (cs_values s) (ce_key (cs_objs s a)) = Some a"
      using that assms live_iff(1) [OF assms, of a] by (simp add: store_wf_def)
    then show ?thesis by (simp add: a_bytes_def entry_bytes_def)
  qed
  have "map (\<lambda>a. a_bytes (abs_store s) (ce_key (cs_objs s a))) (cs_recency s)
      = map (\<lambda>a. entry_bytes (cs_objs s a)) (cs_recency s)" by (rule map_cong) (simp_all add: bytes)
  moreover have "cs_retainedBytes s = (\<Sum>a\<leftarrow>cs_recency s. entry_bytes (cs_objs s a))"
    using assms by (simp add: store_wf_def)
  ultimately have "(\<Sum>k\<leftarrow>ac_order (abs_store s). a_bytes (abs_store s) k) = cs_retainedBytes s"
    by (simp only: abs_store_sel map_map comp_def)
  then show ?thesis
    using value_count_recency [OF assms] by (simp add: a_over_def over_bounds_def)
qed

lemma sum_filter_le: "(\<Sum>a\<leftarrow>filter P xs. entry_bytes (objs a)) \<le> (\<Sum>a\<leftarrow>xs. entry_bytes (objs a))"
  by (induction xs) (auto simp: entry_bytes_def)

lemma drops_bounds:
  assumes wf: "store_wf s" and drops: "drops D s s'"
  shows "cs_retainedBytes s' \<le> cs_retainedBytes s" and "\<not> over_bounds s \<Longrightarrow> \<not> over_bounds s'"
proof -
  have wf': "store_wf s'" using drops by (simp add: drops_def)
  show le: "cs_retainedBytes s' \<le> cs_retainedBytes s"
    using wf wf' drops sum_filter_le [of "cs_objs s" "\<lambda>a. a \<notin> D" "cs_recency s"]
    by (simp add: store_wf_def drops_def drops_sel [OF drops])
  have "length (cs_recency s') \<le> length (cs_recency s)" "cs_config s' = cs_config s"
    using drops by (simp_all add: drops_def)
  then show "\<not> over_bounds s \<Longrightarrow> \<not> over_bounds s'"
    using le by (simp add: over_bounds_def value_count_recency wf wf')
qed

section \<open>Eviction and expiry\<close>

lemma evict_expired_drops:
  assumes "store_wf s" and "distinct as" and "set as \<subseteq> set (cs_recency s)"
  shows "\<exists>s'. evict_expired now as s = Some s' \<and> drops {a \<in> set as. expired (cs_objs s a) now} s s'"
  using assms
proof (induction as arbitrary: s)
  case Nil
  then show ?case by simp
next
  case (Cons a as)
  have a: "a \<in> live s" "a \<in> set (cs_recency s)" using Cons.prems by (auto simp: store_wf_def)
  show ?case
  proof (cases "expired (cs_objs s a) now")
    case True
    obtain s1 where s1: "removeLocked a s = Some s1" "removes a s s1"
      using removeLocked_removes [OF Cons.prems(1) a(1)] by blast
    note d = removes_drops [OF Cons.prems(1) a(1) s1(2)]
    have "set as \<subseteq> set (cs_recency s1)" "store_wf s1" using d Cons.prems by (auto simp: drops_def)
    then obtain s' where s': "evict_expired now as s1 = Some s'" "drops {b \<in> set as. expired (cs_objs s1 b) now} s1 s'"
      using Cons.IH [of s1] Cons.prems by auto
    have "{a} \<union> {b \<in> set as. expired (cs_objs s1 b) now} = {b \<in> set (a # as). expired (cs_objs s b) now}"
      using True drops_sel(4) [OF d] by auto
    then show ?thesis using drops_trans [OF d s'(2)] s1 s' True by simp
  next
    case False
    then have "{b \<in> set (a # as). expired (cs_objs s b) now} = {b \<in> set as. expired (cs_objs s b) now}" by auto
    then show ?thesis using Cons False by simp
  qed
qed

lemma evict_oldest_trims:
  assumes "store_wf s"
  shows "\<exists>s' D. evict_oldest s = Some s' \<and> D \<subseteq> set (cs_recency s) \<and> drops D s s' \<and> \<not> over_bounds s'
    \<and> abs_store s' = a_trim (abs_store s)"
  using assms
proof (induction "length (cs_recency s)" arbitrary: s rule: less_induct)
  case less
  show ?case
  proof (cases "over_bounds s")
    case False
    then show ?thesis using less.prems a_over_abs [OF less.prems]
      by (intro exI [of _ s] exI [of _ "{}"]) (simp add: evict_oldest.simps [of s] a_trim.simps [of "abs_store s"])
  next
    case True
    have ne: "cs_recency s \<noteq> []"
    proof
      assume "cs_recency s = []"
      then have "cs_retainedBytes s = 0" "value_count s = 0"
        using less.prems value_count_recency [OF less.prems] by (simp_all add: store_wf_def)
      then show False using True less.prems by (simp add: over_bounds_def store_wf_def config_ok_def)
    qed
    let ?a = "last (cs_recency s)"
    have a: "?a \<in> set (cs_recency s)" using ne by simp
    then have live: "?a \<in> live s" using less.prems by (auto simp: store_wf_def)
    obtain s1 where s1: "removeLocked ?a s = Some s1" "removes ?a s s1"
      using removeLocked_removes [OF less.prems live] by blast
    note d = removes_drops [OF less.prems live s1(2)]
    have wf1: "store_wf s1" using d by (simp add: drops_def)
    have "length (cs_recency s1) < length (cs_recency s)"
      using d a by (simp add: drops_def length_filter_less)
    from less.hyps [OF this wf1] obtain s' D where s': "evict_oldest s1 = Some s'" "D \<subseteq> set (cs_recency s1)"
      "drops D s1 s'" "\<not> over_bounds s'" "abs_store s' = a_trim (abs_store s1)" by blast
    have "abs_store s1 = a_drop {last (ac_order (abs_store s))} (abs_store s)"
      using drops_abs [OF less.prems _ d] live ne by (simp add: last_map)
    then have "abs_store s' = a_trim (abs_store s)"
      using s'(5) True ne a_over_abs [OF less.prems] by (simp add: a_trim.simps [of "abs_store s"])
    moreover have "{?a} \<union> D \<subseteq> set (cs_recency s)" using s'(2) d a by (auto simp: drops_def)
    moreover have "evict_oldest s = Some s'" using True ne s1(1) s'(1) by (simp add: evict_oldest.simps [of s])
    ultimately show ?thesis using drops_trans [OF d s'(3)] s'(4) by blast
  qed
qed

lemma evictLocked_evicts:
  assumes wf: "store_wf s"
  shows "\<exists>s' D. evictLocked now s = Some s' \<and> D \<subseteq> set (cs_recency s) \<and> drops D s s' \<and> \<not> over_bounds s'
    \<and> abs_store s' = a_evict now (abs_store s)"
proof (cases "over_bounds s")
  case False
  then show ?thesis using wf a_over_abs [OF wf]
    by (intro exI [of _ s] exI [of _ "{}"]) (simp add: evictLocked_def a_evict_def)
next
  case True
  let ?D = "{a \<in> set (cs_recency s). expired (cs_objs s a) now}"
  have "distinct (cs_recency s)" and rec: "set (cs_recency s) \<subseteq> live s" using wf by (auto simp: store_wf_def)
  then obtain s1 where s1: "evict_expired now (rev (cs_recency s)) s = Some s1" "drops ?D s s1"
    using evict_expired_drops [OF wf, of "rev (cs_recency s)" now] by auto
  have wf1: "store_wf s1" using s1 by (simp add: drops_def)
  obtain s' D where s': "evict_oldest s1 = Some s'" "D \<subseteq> set (cs_recency s1)"
    "drops D s1 s'" "\<not> over_bounds s'" "abs_store s' = a_trim (abs_store s1)" using evict_oldest_trims [OF wf1] by blast
  have keys: "(\<lambda>a. ce_key (cs_objs s a)) ` ?D
      = {k \<in> set (ac_order (abs_store s)). \<exists>e. ac_map (abs_store s) k = Some e \<and> a_expired now e}"
  proof -
    have "map_of (cs_values s) (ce_key (cs_objs s a)) = Some a" if "a \<in> set (cs_recency s)" for a
      using that rec live_iff(1) [OF wf] by blast
    then show ?thesis by (auto simp: image_iff)
  qed
  have "abs_store s1 = a_drop {k \<in> set (ac_order (abs_store s)). \<exists>e. ac_map (abs_store s) k = Some e \<and> a_expired now e} (abs_store s)"
    using drops_abs [OF wf _ s1(2)] rec unfolding keys by blast
  then have "abs_store s' = a_evict now (abs_store s)" using s'(5) True a_over_abs [OF wf] by (simp add: a_evict_def)
  moreover have "?D \<union> D \<subseteq> set (cs_recency s)" using s'(2) s1(2) by (auto simp: drops_def)
  moreover have "evictLocked now s = Some s'" using True s1(1) s'(1) by (simp add: evictLocked_def)
  ultimately show ?thesis using drops_trans [OF s1(2) s'(3)] s'(4) by blast
qed

lemma expired_iff: "expired e now \<longleftrightarrow> t_ns (ce_expiresAt e) \<noteq> 0 \<and> t_ns (ce_expiresAt e) \<le> t_ns now"
  by (auto simp: expired_def time_ops)

lemma expireCounters_drops:
  assumes "store_wf s"
  shows "\<exists>s'. expireCountersLocked now s = Some s'
    \<and> drops {a \<in> live s. ce_counter (cs_objs s a) \<and> expired (cs_objs s a) now} s s'"
  using assms
proof (induction "length (cs_expiries s)" arbitrary: s rule: less_induct)
  case less
  let ?X = "\<lambda>s. {a \<in> live s. ce_counter (cs_objs s a) \<and> expired (cs_objs s a) now}"
  let ?A = "{a \<in> live s. ce_counter (cs_objs s a) \<and> \<not> IsZero (ce_expiresAt (cs_objs s a))}"
  have heap: "heap_of (cs_objs s, cs_expiries s) ?A" using less.prems by (simp add: store_wf_def)
  then have set: "set (cs_expiries s) = ?A" and dist: "distinct (cs_expiries s)"
    by (simp_all add: heap_of_def expiry_inv_def)
  have sub: "?X s \<subseteq> set (cs_expiries s)" using set by (auto simp: expired_def)
  show ?case
  proof (cases "cs_expiries s")
    case Nil
    then have "?X s = {}" using sub by simp
    then have "drops (?X s) s s" using less.prems by (simp only: drops_refl)
    then show ?thesis using Nil by (simp add: expireCountersLocked.simps [of now s])
  next
    case (Cons a xs)
    then have a: "a \<in> live s" "ce_counter (cs_objs s a)" using set by auto
    show ?thesis
    proof (cases "expired (cs_objs s a) now")
      case True
      obtain s1 where s1: "removeLocked a s = Some s1" "removes a s s1"
        using removeLocked_removes [OF less.prems a(1)] by blast
      note d = removes_drops [OF less.prems a(1) s1(2)]
      have wf1: "store_wf s1" using d by (simp add: drops_def)
      then have "distinct (cs_expiries s1)" by (simp add: store_wf_def heap_of_def expiry_inv_def)
      then have "length (cs_expiries s1) = card (set (cs_expiries s) - {a})"
        using d by (metis (no_types, lifting) distinct_card drops_def)
      then have "length (cs_expiries s1) < length (cs_expiries s)"
        using Cons dist by (simp add: distinct_card)
      from less.hyps [OF this wf1] obtain s' where s': "expireCountersLocked now s1 = Some s'" "drops (?X s1) s1 s'"
        by blast
      have "{a} \<union> ?X s1 = ?X s" using a True d drops_sel [OF d] by (auto simp: drops_def)
      then show ?thesis using drops_trans [OF d s'(2)] s1 s' True Cons
        by (simp add: expireCountersLocked.simps [of now s])
    next
      case False
      have "b \<notin> ?X s" for b
      proof
        assume b: "b \<in> ?X s"
        then obtain i where i: "i < length (cs_expiries s)" "cs_expiries s ! i = b"
          using sub by (metis (no_types, lifting) in_set_conv_nth subsetD)
        then have "expiry_keys (cs_objs s, cs_expiries s) ! 0 \<le> expiry_keys (cs_objs s, cs_expiries s) ! i"
          using heap by (intro heap_ordered_root [of _ "length (cs_expiries s)"]) (auto simp: heap_of_def)
        then have "t_ns (ce_expiresAt (cs_objs s a)) \<le> t_ns (ce_expiresAt (cs_objs s b))"
          using i(1) nth_map [OF i(1), of "\<lambda>a. t_ns (ce_expiresAt (cs_objs s a))"] i(2)
          by (simp add: expiry_keys_def nth_map [of 0] Cons)
        moreover have "t_ns (ce_expiresAt (cs_objs s a)) \<noteq> 0" using Cons set by (auto simp: time_ops)
        ultimately show False using False b by (auto simp: expired_iff)
      qed
      then have "?X s = {}" by blast
      then have "drops (?X s) s s" using less.prems by (simp only: drops_refl)
      then show ?thesis using False Cons by (simp add: expireCountersLocked.simps [of now s])
    qed
  qed
qed

section \<open>Writes\<close>

lemma next_not_live: "store_wf s \<Longrightarrow> cs_next s \<notin> live s"
  by (force simp: store_wf_def live_def)

lemma update_fresh: "map_of al k = None \<Longrightarrow> AList.update k v al = al @ [(k, v)]"
  by (induction al) (auto split: if_splits)

lemma heap_of_cong:
  "heap_of (objs, xs) A \<Longrightarrow> (\<And>b. b \<in> A \<Longrightarrow> ce_expiresAt (objs' b) = ce_expiresAt (objs b)
     \<and> ce_heapIndex (objs' b) = ce_heapIndex (objs b)) \<Longrightarrow> heap_of (objs', xs) A"
proof -
  assume h: "heap_of (objs, xs) A"
    and eq: "\<And>b. b \<in> A \<Longrightarrow> ce_expiresAt (objs' b) = ce_expiresAt (objs b) \<and> ce_heapIndex (objs' b) = ce_heapIndex (objs b)"
  then have "expiry_keys (objs', xs) = expiry_keys (objs, xs)" by (auto simp: expiry_keys_def heap_of_def)
  moreover have "indexed (objs', xs) = indexed (objs, xs)"
    using h eq by (auto simp: indexed_def heap_of_def)
  ultimately show ?thesis using h by (simp add: heap_of_def expiry_inv_def)
qed

lemma same_address:
  assumes "store_wf s" and "map_of (cs_values s) k = Some b" and "map_of (cs_values s) key = Some a"
  shows "b = a \<longleftrightarrow> k = key"
proof
  assume "b = a"
  then show "k = key" using live_iff(2) [OF assms(1,2)] live_iff(2) [OF assms(1,3)] by blast
qed (use assms in simp)

text \<open>A fresh object under a new key.\<close>

lemma allocation:
  assumes wf: "store_wf s" and fresh: "map_of (cs_values s) key = None" and e_key: "ce_key e = key"
    and a: "a = cs_next s" and objs: "objs = (cs_objs s)(a := e)" and vals: "vals = cs_values s @ [(key, a)]"
  shows a_fresh: "a \<notin> live s" "a \<notin> set (cs_recency s)"
    and at_a: "objs a = e" "\<And>b. b \<in> live s \<Longrightarrow> objs b = cs_objs s b"
    and keys_ok: "distinct (map fst vals)" "\<forall>(k, b) \<in> set vals. ce_key (objs b) = k \<and> b < Suc a"
    and recency_bytes: "(\<Sum>b\<leftarrow>cs_recency s. entry_bytes (objs b)) = cs_retainedBytes s"
    and abs_map: "map_option (\<lambda>b. view (objs b)) (map_of vals k) = ((ac_map (abs_store s))(key \<mapsto> view e)) k"
    and abs_order: "map (\<lambda>b. ce_key (objs b)) (cs_recency s) = ac_order (abs_store s)"
    and key_not_in_order: "key \<notin> set (ac_order (abs_store s))"
proof -
  show a1: "a \<notin> live s" using next_not_live [OF wf] a by simp
  then show a2: "a \<notin> set (cs_recency s)" using wf by (auto simp: store_wf_def)
  show "objs a = e" "\<And>b. b \<in> live s \<Longrightarrow> objs b = cs_objs s b" using a1 by (auto simp: objs)
  have "key \<notin> fst ` set (cs_values s)" using fresh by (simp add: map_of_eq_None_iff)
  then show "distinct (map fst vals)" using wf by (auto simp: store_wf_def vals)
  have "\<And>k b. (k, b) \<in> set (cs_values s) \<Longrightarrow> ce_key (cs_objs s b) = k \<and> b < a" using wf a by (auto simp: store_wf_def)
  then show "\<forall>(k, b) \<in> set vals. ce_key (objs b) = k \<and> b < Suc a" using e_key objs vals by fastforce
  have "map (\<lambda>b. entry_bytes (objs b)) (cs_recency s) = map (\<lambda>b. entry_bytes (cs_objs s b)) (cs_recency s)"
    using a2 by (auto simp: objs)
  then show "(\<Sum>b\<leftarrow>cs_recency s. entry_bytes (objs b)) = cs_retainedBytes s" using wf by (simp only: store_wf_def)
  have "map_of vals k = (if k = key then Some a else map_of (cs_values s) k)"
    using fresh by (auto simp: vals map_add_def split: option.split)
  then show "map_option (\<lambda>b. view (objs b)) (map_of vals k) = ((ac_map (abs_store s))(key \<mapsto> view e)) k"
    using live_iff(2) [OF wf, of k] a1 by (cases "map_of (cs_values s) k") (auto simp: objs)
  show "map (\<lambda>b. ce_key (objs b)) (cs_recency s) = ac_order (abs_store s)" using a2 by (auto simp: objs)
  show "key \<notin> set (ac_order (abs_store s))"
  proof
    assume "key \<in> set (ac_order (abs_store s))"
    then obtain b where "b \<in> live s" "ce_key (cs_objs s b) = key" using wf by (auto simp: store_wf_def)
    then show False using live_iff(1) [OF wf, of b] fresh by simp
  qed
qed

lemma set_entry_new:
  assumes wf: "store_wf s" and fresh: "map_of (cs_values s) key = None"
    and ret: "cs_retainedBytes s \<le> cf_MaxBytes (cs_config s)"
    and size: "int (length key + length data) \<le> cf_MaxBytes (cs_config s)"
    and s': "s' = set_entry key data exp None s"
  shows "store_wf s' \<and> cs_config s' = cs_config s
    \<and> abs_store s' = a_put key \<lparr>ae_data = data, ae_expiresAt = exp, ae_counter = False\<rparr> (abs_store s)"
proof -
  define e where "e = \<lparr>ce_key = key, ce_data = data, ce_expiresAt = exp, ce_counter = False, ce_heapIndex = 0\<rparr>"
  define a where "a = cs_next s"
  define objs where "objs = (cs_objs s)(a := e)"
  define vals where "vals = cs_values s @ [(key, a)]"
  have e: "view e = \<lparr>ae_data = data, ae_expiresAt = exp, ae_counter = False\<rparr>" "\<not> ce_counter e" "ce_key e = key"
    "entry_bytes e = int (length key + length data)"
    by (simp_all add: e_def view_def entry_bytes_def)
  note A = allocation [OF wf fresh e(3) a_def objs_def vals_def]
  have "is_int64 (cs_retainedBytes s + int (length key + length data))"
    using retained_int64 [OF wf] ret size wf
    by (auto simp: store_wf_def config_ok_def is_int64_def minInt64_def maxInt64_def)
  then have fields: "cs_objs s' = objs" "cs_next s' = Suc a" "cs_recency s' = a # cs_recency s"
    "cs_values s' = vals" "cs_config s' = cs_config s" "cs_counters s' = cs_counters s"
    "cs_retainedBytes s' = cs_retainedBytes s + int (length key + length data)" "cs_expiries s' = cs_expiries s"
    using fresh by (simp_all add: s' set_entry_def Let_def update_fresh wrap64_id e_def objs_def a_def vals_def)
  have live': "live s' = insert a (live s)" by (auto simp: live_def fields vals_def)
  have counters: "{b \<in> live s'. ce_counter (objs b)} = {b \<in> live s. ce_counter (cs_objs s b)}"
    and expiring: "{b \<in> live s'. ce_counter (objs b) \<and> \<not> IsZero (ce_expiresAt (objs b))}
      = {b \<in> live s. ce_counter (cs_objs s b) \<and> \<not> IsZero (ce_expiresAt (cs_objs s b))}"
    and rec_set: "{b \<in> live s'. \<not> ce_counter (objs b)} = insert a {b \<in> live s. \<not> ce_counter (cs_objs s b)}"
    using A(1,3,4) e(2) live' by auto
  have heap: "heap_of (objs, cs_expiries s) {b \<in> live s. ce_counter (cs_objs s b) \<and> \<not> IsZero (ce_expiresAt (cs_objs s b))}"
    by (rule heap_of_cong [of "cs_objs s"]) (use wf A(4) in \<open>auto simp: store_wf_def\<close>)
  have persistent: "ce_heapIndex (objs b) = - 1"
    if "b \<in> live s'" "ce_counter (objs b)" "IsZero (ce_expiresAt (objs b))" for b
  proof -
    have "b \<in> live s" using that e(2) A(3) live' by auto
    then show ?thesis using that wf A(4) by (simp add: store_wf_def)
  qed
  have "store_wf s'"
    unfolding store_wf_def fields counters expiring rec_set
    using A(2,3,5,6,7) heap persistent wf ret size by (simp add: store_wf_def e(4))
  moreover have "abs_store s' = a_put key \<lparr>ae_data = data, ae_expiresAt = exp, ae_counter = False\<rparr> (abs_store s)"
  proof (rule acache_eqI)
    show "ac_map (abs_store s') k = ac_map (a_put key \<lparr>ae_data = data, ae_expiresAt = exp, ae_counter = False\<rparr> (abs_store s)) k" for k
      using A(8) [of k] by (simp add: fields a_put_def e(1))
    show "ac_order (abs_store s') = ac_order (a_put key \<lparr>ae_data = data, ae_expiresAt = exp, ae_counter = False\<rparr> (abs_store s))"
      using A(3,9,10) by (simp add: fields a_put_def e(3) remove1_idem)
  qed (simp add: fields a_put_def)
  ultimately show ?thesis by (simp add: fields)
qed

text \<open>Replacing the data and deadline of an evictable entry in place.\<close>

lemma map_remove1:
  "inj_on f (insert a (set xs)) \<Longrightarrow> map f (remove1 a xs) = remove1 (f a) (map f xs)"
  by (induction xs) (auto simp: inj_on_def)

lemma keys_inj: "store_wf s \<Longrightarrow> A \<subseteq> live s \<Longrightarrow> inj_on (\<lambda>a. ce_key (cs_objs s a)) A"
  unfolding inj_on_def using live_inj by blast

lemma touch_order:
  assumes wf: "store_wf s" and "a \<in> set (cs_recency s)"
  shows "map (\<lambda>b. ce_key (cs_objs s b)) (a # remove1 a (cs_recency s))
     = ce_key (cs_objs s a) # remove1 (ce_key (cs_objs s a)) (ac_order (abs_store s))"
proof -
  have "insert a (set (cs_recency s)) \<subseteq> live s" using assms by (auto simp: store_wf_def)
  from map_remove1 [OF keys_inj [OF wf this]] show ?thesis by simp
qed

lemma touch_set: "a \<in> set xs \<Longrightarrow> distinct xs \<Longrightarrow> set (a # remove1 a xs) = set xs \<and> distinct (a # remove1 a xs)"
  by (auto simp: distinct_remove1)

lemma sum_touch: "a \<in> set xs \<Longrightarrow> (\<Sum>x\<leftarrow>a # remove1 a xs. f x) = (\<Sum>x\<leftarrow>xs. (f x :: int))"
  by (simp add: sum_remove1)

lemma touch_wf:
  assumes wf: "store_wf s" and a: "a \<in> set (cs_recency s)" and s': "s' = s\<lparr>cs_recency := a # remove1 a (cs_recency s)\<rparr>"
  shows "store_wf s' \<and> (over_bounds s' \<longleftrightarrow> over_bounds s)
    \<and> abs_store s' = (abs_store s)\<lparr>ac_order := ce_key (cs_objs s a) # remove1 (ce_key (cs_objs s a)) (ac_order (abs_store s))\<rparr>"
proof -
  have fields: "cs_objs s' = cs_objs s" "cs_next s' = cs_next s" "cs_values s' = cs_values s"
    "cs_config s' = cs_config s" "cs_counters s' = cs_counters s" "cs_expiries s' = cs_expiries s"
    "cs_retainedBytes s' = cs_retainedBytes s" "cs_recency s' = a # remove1 a (cs_recency s)"
    by (simp_all add: s')
  have live': "live s' = live s" by (simp add: live_def fields)
  have d: "distinct (cs_recency s)" using wf by (simp add: store_wf_def)
  have "store_wf s'"
    unfolding store_wf_def fields live' sum_touch [OF a] using wf touch_set [OF a d] by (simp add: store_wf_def)
  moreover have "over_bounds s' \<longleftrightarrow> over_bounds s" by (simp add: over_bounds_def value_count_def fields)
  moreover have "abs_store s' = (abs_store s)\<lparr>ac_order := ce_key (cs_objs s a) # remove1 (ce_key (cs_objs s a)) (ac_order (abs_store s))\<rparr>"
    using touch_order [OF wf a] by (intro acache_eqI) (simp_all add: fields)
  ultimately show ?thesis by blast
qed

lemma set_entry_replace:
  assumes wf: "store_wf s" and at_a: "map_of (cs_values s) key = Some a" and val: "\<not> ce_counter (cs_objs s a)"
    and ret: "cs_retainedBytes s \<le> cf_MaxBytes (cs_config s)"
    and size: "int (length key + length data) \<le> cf_MaxBytes (cs_config s)"
    and s': "s' = set_entry key data exp (Some a) s"
  shows "store_wf s' \<and> cs_config s' = cs_config s
    \<and> abs_store s' = a_put key \<lparr>ae_data = data, ae_expiresAt = exp, ae_counter = False\<rparr> (abs_store s)"
proof -
  have a: "ce_key (cs_objs s a) = key" "a \<in> live s" using live_iff(2) [OF wf at_a] by blast+
  then have rec: "a \<in> set (cs_recency s)" using wf val by (simp add: store_wf_def)
  define e where "e = (cs_objs s a)\<lparr>ce_data := data, ce_expiresAt := exp\<rparr>"
  define objs where "objs = (cs_objs s)(a := e)"
  have e: "view e = \<lparr>ae_data = data, ae_expiresAt = exp, ae_counter = False\<rparr>" "\<not> ce_counter e" "ce_key e = key"
    using val a(1) by (simp_all add: e_def view_def)
  define t where "t = cs_retainedBytes s - int (length (ce_data (cs_objs s a))) + int (length data)"
  have le: "entry_bytes (cs_objs s a) \<le> cs_retainedBytes s" by (rule entry_bytes_le [OF wf rec])
  have "is_int64 (cs_retainedBytes s - int (length (ce_data (cs_objs s a))))" "is_int64 t" "t \<le> 2 * cf_MaxBytes (cs_config s)"
    using retained_int64 [OF wf] ret size wf le
    by (auto simp: t_def store_wf_def config_ok_def is_int64_def minInt64_def maxInt64_def entry_bytes_def)
  note t = this
  have fields: "cs_objs s' = objs" "cs_next s' = cs_next s" "cs_recency s' = a # remove1 a (cs_recency s)"
    "cs_values s' = cs_values s" "cs_config s' = cs_config s" "cs_counters s' = cs_counters s"
    "cs_retainedBytes s' = t" "cs_expiries s' = cs_expiries s"
    using t by (simp_all add: s' set_entry_def Let_def wrap64_id e_def objs_def t_def)
  have live': "live s' = live s" by (simp add: live_def fields)
  have keys: "ce_key (objs b) = ce_key (cs_objs s b)" "ce_counter (objs b) = ce_counter (cs_objs s b)" for b
    using e a(1) val by (auto simp: objs_def)
  have others: "objs b = cs_objs s b" if "b \<noteq> a" for b using that by (simp add: objs_def)
  have heap: "heap_of (objs, cs_expiries s) {b \<in> live s. ce_counter (cs_objs s b) \<and> \<not> IsZero (ce_expiresAt (cs_objs s b))}"
  proof (rule heap_of_cong [of "cs_objs s"])
    fix b assume "b \<in> {b \<in> live s. ce_counter (cs_objs s b) \<and> \<not> IsZero (ce_expiresAt (cs_objs s b))}"
    then have "b \<noteq> a" using val by auto
    then show "ce_expiresAt (objs b) = ce_expiresAt (cs_objs s b) \<and> ce_heapIndex (objs b) = ce_heapIndex (cs_objs s b)"
      by (simp add: others)
  qed (use wf in \<open>simp add: store_wf_def\<close>)
  have expiring: "{b \<in> live s. ce_counter (cs_objs s b) \<and> \<not> IsZero (ce_expiresAt (objs b))}
      = {b \<in> live s. ce_counter (cs_objs s b) \<and> \<not> IsZero (ce_expiresAt (cs_objs s b))}"
    using val others by (metis (no_types, lifting))
  have persistent: "ce_heapIndex (objs b) = - 1"
    if "b \<in> live s" "ce_counter (objs b)" "IsZero (ce_expiresAt (objs b))" for b
  proof -
    have "b \<noteq> a" using that(2) keys val by auto
    then show ?thesis using that wf others by (simp add: store_wf_def)
  qed
  have d: "distinct (cs_recency s)" using wf by (simp add: store_wf_def)
  have "a \<notin> set (remove1 a (cs_recency s))" using d by simp
  then have "map (\<lambda>b. entry_bytes (objs b)) (remove1 a (cs_recency s))
      = map (\<lambda>b. entry_bytes (cs_objs s b)) (remove1 a (cs_recency s))"
    using others by (intro map_cong refl) metis
  then have "(\<Sum>b\<leftarrow>remove1 a (cs_recency s). entry_bytes (objs b))
      = (\<Sum>b\<leftarrow>remove1 a (cs_recency s). entry_bytes (cs_objs s b))" by (rule arg_cong)
  also have "\<dots> = cs_retainedBytes s - entry_bytes (cs_objs s a)"
    using wf sum_remove1 [OF rec] by (simp add: store_wf_def)
  finally have "(\<Sum>b\<leftarrow>remove1 a (cs_recency s). entry_bytes (objs b)) = cs_retainedBytes s - entry_bytes (cs_objs s a)" .
  moreover have "entry_bytes (objs a) = entry_bytes (cs_objs s a) - int (length (ce_data (cs_objs s a))) + int (length data)"
    by (simp add: objs_def e_def entry_bytes_def)
  ultimately have sum: "(\<Sum>b\<leftarrow>a # remove1 a (cs_recency s). entry_bytes (objs b)) = t" by (simp add: t_def)
  have "store_wf s'"
    unfolding store_wf_def fields live' keys expiring sum
    using heap persistent wf t(3) touch_set [OF rec d] by (auto simp: store_wf_def keys)
  moreover have "abs_store s' = a_put key \<lparr>ae_data = data, ae_expiresAt = exp, ae_counter = False\<rparr> (abs_store s)"
  proof (rule acache_eqI)
    show "ac_map (abs_store s') k = ac_map (a_put key \<lparr>ae_data = data, ae_expiresAt = exp, ae_counter = False\<rparr> (abs_store s)) k" for k
    proof (cases "map_of (cs_values s) k")
      case None
      then show ?thesis using at_a by (auto simp: fields a_put_def)
    next
      case (Some b)
      note eq = same_address [OF wf Some at_a]
      show ?thesis using Some e(1) others eq by (auto simp: fields a_put_def objs_def)
    qed
    show "ac_order (abs_store s') = ac_order (a_put key \<lparr>ae_data = data, ae_expiresAt = exp, ae_counter = False\<rparr> (abs_store s))"
      using touch_order [OF wf rec] by (simp add: fields a_put_def keys a(1))
  qed (simp add: fields a_put_def)
  ultimately show ?thesis by (simp add: fields)
qed


text \<open>Counters.\<close>

definition a_count :: "string \<Rightarrow> aentry \<Rightarrow> acache \<Rightarrow> acache" where
  "a_count key e c = c\<lparr>ac_map := (ac_map c)(key \<mapsto> e)\<rparr>"

lemma create_counter_new:
  assumes wf: "store_wf s" and fresh: "map_of (cs_values s) key = None"
    and room: "cs_counters s < cf_MaxCounters (cs_config s)"
    and s': "s' = create_counter key data exp s"
  shows "store_wf s' \<and> (over_bounds s' \<longleftrightarrow> over_bounds s)
    \<and> abs_store s' = a_count key \<lparr>ae_data = data, ae_expiresAt = exp, ae_counter = True\<rparr> (abs_store s)"
proof -
  define e where "e = \<lparr>ce_key = key, ce_data = data, ce_expiresAt = exp, ce_counter = True, ce_heapIndex = - 1\<rparr>"
  define a where "a = cs_next s"
  define objs where "objs = (cs_objs s)(a := e)"
  define vals where "vals = cs_values s @ [(key, a)]"
  have e: "view e = \<lparr>ae_data = data, ae_expiresAt = exp, ae_counter = True\<rparr>" "ce_counter e" "ce_key e = key"
    "ce_expiresAt e = exp" "ce_heapIndex e = - 1"
    by (simp_all add: e_def view_def)
  note A = allocation [OF wf fresh e(3) a_def objs_def vals_def]
  let ?A = "{b \<in> live s. ce_counter (cs_objs s b) \<and> \<not> IsZero (ce_expiresAt (cs_objs s b))}"
  have heap: "heap_of (objs, cs_expiries s) ?A"
    by (rule heap_of_cong [of "cs_objs s"]) (use wf A(4) in \<open>auto simp: store_wf_def\<close>)
  define h where "h = (if IsZero exp then (objs, cs_expiries s) else push_expiry (objs, cs_expiries s) a)"
  define B where "B = (if IsZero exp then ?A else insert a ?A)"
  have "a \<notin> ?A" using A(1) by blast
  then have hB: "heap_of h B \<and> reindexed objs (fst h) B"
    using push_expiry_heap [OF heap, of a] heap by (auto simp: h_def B_def)
  note sel = reindexed_sel [of objs "fst h" B, OF conjunct2 [OF hB]]
  have "is_int64 (cs_counters s + 1)"
    using room wf counters_int64 [OF wf] by (simp add: store_wf_def config_ok_def is_int64_def minInt64_def)
  then have fields: "cs_objs s' = fst h" "cs_next s' = Suc a" "cs_recency s' = cs_recency s"
    "cs_values s' = vals" "cs_config s' = cs_config s" "cs_counters s' = cs_counters s + 1"
    "cs_retainedBytes s' = cs_retainedBytes s" "cs_expiries s' = snd h"
    using fresh by (simp_all add: s' create_counter_def Let_def update_fresh wrap64_id e_def objs_def a_def vals_def h_def
        split: prod.split)
  have live': "live s' = insert a (live s)" by (auto simp: live_def fields vals_def)
  have "{b \<in> live s'. ce_counter (fst h b)} = insert a {b \<in> live s. ce_counter (cs_objs s b)}"
    using A(1,3,4) e(2) live' by (auto simp: sel)
  then have counters: "int (card {b \<in> live s'. ce_counter (fst h b)}) = cs_counters s + 1"
    using A(1) wf by (simp add: store_wf_def)
  have expiring: "{b \<in> live s'. ce_counter (fst h b) \<and> \<not> IsZero (ce_expiresAt (fst h b))} = B"
    and rec_set: "{b \<in> live s'. \<not> ce_counter (fst h b)} = {b \<in> live s. \<not> ce_counter (cs_objs s b)}"
    using A(1,3,4) e live' by (auto simp: B_def sel)
  have persistent: "ce_heapIndex (fst h b) = - 1"
    if "b \<in> live s'" "ce_counter (fst h b)" "IsZero (ce_expiresAt (fst h b))" for b
  proof -
    have "b \<notin> B" using that expiring by blast
    then have same: "fst h b = objs b" by (rule sel(5))
    show ?thesis
    proof (cases "b = a")
      case True
      then show ?thesis using same A(3) e(5) by simp
    next
      case False
      then show ?thesis using same that live' A(4) wf by (auto simp: store_wf_def)
    qed
  qed
  have keys: "\<forall>(k, b) \<in> set vals. ce_key (fst h b) = k \<and> b < Suc a" using A(6) by (simp add: sel)
  have bytes: "(\<Sum>b\<leftarrow>cs_recency s. entry_bytes (fst h b)) = cs_retainedBytes s"
    using A(7) by (simp add: entry_bytes_def sel)
  have hp: "heap_of (fst h, snd h) B" using hB by simp
  have "store_wf s'"
    unfolding store_wf_def fields counters expiring rec_set bytes
    using A(5) keys hp persistent wf room by (simp add: store_wf_def)
  moreover have "over_bounds s' \<longleftrightarrow> over_bounds s"
    using calculation wf by (simp add: over_bounds_def value_count_recency fields)
  moreover have "abs_store s' = a_count key \<lparr>ae_data = data, ae_expiresAt = exp, ae_counter = True\<rparr> (abs_store s)"
  proof (rule acache_eqI)
    have "view (fst h b) = view (objs b)" for b by (simp add: view_def sel)
    then show "ac_map (abs_store s') k = ac_map (a_count key \<lparr>ae_data = data, ae_expiresAt = exp, ae_counter = True\<rparr> (abs_store s)) k" for k
      using A(8) [of k] by (simp add: fields a_count_def e(1))
    show "ac_order (abs_store s') = ac_order (a_count key \<lparr>ae_data = data, ae_expiresAt = exp, ae_counter = True\<rparr> (abs_store s))"
      using A(9) by (simp add: fields a_count_def sel)
  qed (simp add: fields a_count_def)
  ultimately show ?thesis by blast
qed

lemma update_counter_wf:
  assumes wf: "store_wf s" and at_a: "map_of (cs_values s) key = Some a" and counter: "ce_counter (cs_objs s a)"
    and exp: "\<not> IsZero (ce_expiresAt (cs_objs s a)) \<Longrightarrow> exp = ce_expiresAt (cs_objs s a)"
    and s': "s' = update_counter data exp a s"
  shows "store_wf s' \<and> (over_bounds s' \<longleftrightarrow> over_bounds s)
    \<and> abs_store s' = a_count key \<lparr>ae_data = data,
        ae_expiresAt = (if t_ns (ce_expiresAt (cs_objs s a)) \<noteq> t_ns exp then exp else ce_expiresAt (cs_objs s a)),
        ae_counter = True\<rparr> (abs_store s)"
proof -
  have a: "ce_key (cs_objs s a) = key" "a \<in> live s" using live_iff(2) [OF wf at_a] by blast+
  have not_rec: "a \<notin> set (cs_recency s)" using wf counter by (simp add: store_wf_def)
  let ?ch = "t_ns (ce_expiresAt (cs_objs s a)) \<noteq> t_ns exp"
  define x where "x = (if ?ch then exp else ce_expiresAt (cs_objs s a))"
  define e where "e = (cs_objs s a)\<lparr>ce_data := data, ce_expiresAt := x\<rparr>"
  define objs where "objs = (cs_objs s)(a := e)"
  have e: "view e = \<lparr>ae_data = data, ae_expiresAt = x, ae_counter = True\<rparr>" "ce_counter e" "ce_key e = key"
    "ce_heapIndex e = ce_heapIndex (cs_objs s a)" "ce_expiresAt e = x"
    using counter a(1) by (simp_all add: e_def view_def)
  let ?A = "{b \<in> live s. ce_counter (cs_objs s b) \<and> \<not> IsZero (ce_expiresAt (cs_objs s b))}"
  have zero: "IsZero (ce_expiresAt (cs_objs s a)) \<and> \<not> IsZero exp" if ?ch
    using that exp by (auto simp: time_ops)
  have heapA: "heap_of (cs_objs s, cs_expiries s) ?A" using wf by (simp add: store_wf_def)
  have heap: "heap_of (objs, cs_expiries s) ?A"
    by (rule heap_of_cong [OF heapA]) (use zero e in \<open>auto simp: objs_def x_def\<close>)
  define h where "h = (if ?ch then push_expiry (objs, cs_expiries s) a else (objs, cs_expiries s))"
  define B where "B = (if ?ch then insert a ?A else ?A)"
  have hB: "heap_of h B \<and> reindexed objs (fst h) B"
    using push_expiry_heap [OF heap, of a] heap zero by (auto simp: h_def B_def)
  note sel = reindexed_sel [of objs "fst h" B, OF conjunct2 [OF hB]]
  have upd: "(cs_objs s)(a := (cs_objs s a)\<lparr>ce_data := data, ce_expiresAt := exp\<rparr>) = objs" if ?ch
    using that by (simp add: objs_def e_def x_def)
  have upd': "(cs_objs s)(a := (cs_objs s a)\<lparr>ce_data := data\<rparr>) = objs" if "\<not> ?ch"
    using that by (simp add: objs_def e_def x_def)
  have s'_eq: "s' = s\<lparr>cs_objs := fst h, cs_expiries := snd h\<rparr>"
    using upd upd' by (cases ?ch) (simp_all add: s' update_counter_def Let_def h_def split: prod.split)
  have fields: "cs_objs s' = fst h" "cs_next s' = cs_next s" "cs_recency s' = cs_recency s"
    "cs_values s' = cs_values s" "cs_config s' = cs_config s" "cs_counters s' = cs_counters s"
    "cs_retainedBytes s' = cs_retainedBytes s" "cs_expiries s' = snd h"
    by (simp_all add: s'_eq)
  have live': "live s' = live s" by (simp add: live_def fields)
  have keys: "ce_key (fst h b) = ce_key (cs_objs s b)" "ce_counter (fst h b) = ce_counter (cs_objs s b)" for b
    using e a(1) counter by (auto simp: sel objs_def)
  have others: "objs b = cs_objs s b" if "b \<noteq> a" for b using that by (simp add: objs_def)
  have expiring: "{b \<in> live s. ce_counter (cs_objs s b) \<and> \<not> IsZero (ce_expiresAt (fst h b))} = B"
  proof -
    have "ce_expiresAt (fst h b) = (if b = a then x else ce_expiresAt (cs_objs s b))" for b
      using e(5) by (simp add: sel objs_def)
    then show ?thesis using zero a(2) counter by (auto simp: B_def x_def)
  qed
  have persistent: "ce_heapIndex (fst h b) = - 1"
    if "b \<in> live s" "ce_counter (cs_objs s b)" "IsZero (ce_expiresAt (fst h b))" for b
  proof -
    have nB: "b \<notin> B" using that expiring by blast
    then have same: "fst h b = objs b" by (rule sel(5))
    show ?thesis
    proof (cases "b = a")
      case True
      then have "IsZero (ce_expiresAt (cs_objs s a))" using that zero same e(5) by (auto simp: objs_def x_def split: if_splits)
      then show ?thesis using True same e(4) wf a(2) counter by (simp add: store_wf_def objs_def)
    next
      case False
      then show ?thesis using same others [of b] that wf by (simp add: store_wf_def)
    qed
  qed
  have "map (\<lambda>b. entry_bytes (fst h b)) (cs_recency s) = map (\<lambda>b. entry_bytes (cs_objs s b)) (cs_recency s)"
  proof (rule map_cong [OF refl])
    fix b assume "b \<in> set (cs_recency s)"
    then have "b \<noteq> a" using not_rec by auto
    then show "entry_bytes (fst h b) = entry_bytes (cs_objs s b)" by (simp add: entry_bytes_def sel others)
  qed
  then have bytes: "(\<Sum>b\<leftarrow>cs_recency s. entry_bytes (fst h b)) = cs_retainedBytes s"
    using wf by (simp only: store_wf_def)
  have hp: "heap_of (fst h, snd h) B" using hB by simp
  have "store_wf s'"
    unfolding store_wf_def fields live' keys expiring bytes
    using hp persistent wf by (simp add: store_wf_def keys)
  moreover have "over_bounds s' \<longleftrightarrow> over_bounds s" by (simp add: over_bounds_def value_count_def fields)
  moreover have "abs_store s' = a_count key \<lparr>ae_data = data, ae_expiresAt = x, ae_counter = True\<rparr> (abs_store s)"
  proof (rule acache_eqI)
    have v: "view (fst h b) = (if b = a then view e else view (cs_objs s b))" for b
      by (simp add: view_def sel objs_def)
    show "ac_map (abs_store s') k = ac_map (a_count key \<lparr>ae_data = data, ae_expiresAt = x, ae_counter = True\<rparr> (abs_store s)) k" for k
    proof (cases "map_of (cs_values s) k")
      case None
      then show ?thesis using at_a by (auto simp: fields a_count_def)
    next
      case (Some b)
      note eq = same_address [OF wf Some at_a]
      show ?thesis using Some e(1) v eq by (auto simp: fields a_count_def)
    qed
  qed (simp_all add: fields a_count_def keys)
  ultimately show ?thesis by (simp add: x_def)
qed

end
