(* ===== verification/CacheProperties.thy ===== *)
theory CacheProperties
  imports CacheRefinement
begin

text \<open>
  The operations of the specification, the refinement theorem of the in-process cache, and what
  follows for its clients.
\<close>

section \<open>Operations of the specification\<close>

definition a_get ::
    "(string \<Rightarrow> string + 'v) \<Rightarrow> string option \<Rightarrow> gtime \<Rightarrow> string \<Rightarrow> acache \<Rightarrow> acache \<times> (OpError + 'v)" where
  "a_get decode ctx now key c =
     (case ctx of Some m \<Rightarrow> (c, Inl (cache_Error ''get'' key (ContextError m)))
      | None \<Rightarrow>
        case ValidateKey key of Some e \<Rightarrow> (c, Inl (cache_Error ''get'' key e))
        | None \<Rightarrow>
          case a_lookup now key c of
            (c', None) \<Rightarrow> (c', Inl (cache_Error ''get'' key ErrNotFound))
          | (c', Some e) \<Rightarrow>
              (if ae_counter e then c' else c'\<lparr>ac_order := key # remove1 key (ac_order c')\<rparr>,
               case decode (ae_data e) of
                 Inl m \<Rightarrow> Inl (cache_Error ''get'' key (CodecError m)) | Inr v \<Rightarrow> Inr v))"

definition a_set ::
    "('v \<Rightarrow> string + string) \<Rightarrow> string option \<Rightarrow> gtime \<Rightarrow> gtime \<Rightarrow> string \<Rightarrow> 'v \<Rightarrow> SetOptions \<Rightarrow> acache
       \<Rightarrow> acache \<times> OpError option" where
  "a_set encode ctx now now' key v options c =
     (let fail = (\<lambda>c e. (c, Some (cache_Error ''set'' key e))) in
      case ctx of Some m \<Rightarrow> fail c (ContextError m)
      | None \<Rightarrow>
      case ValidateKey key of Some e \<Rightarrow> fail c e
      | None \<Rightarrow>
      case SetOptions_Validate options of Some e \<Rightarrow> fail c e
      | None \<Rightarrow>
      case NormalizedTTL (so_TTL options) of
        (_, Some e) \<Rightarrow> fail c e
      | (ttl, None) \<Rightarrow>
      case encode v of
        Inl m \<Rightarrow> fail c (CodecError m)
      | Inr data \<Rightarrow>
        case a_lookup now key c of (c1, found) \<Rightarrow>
          if so_Condition options = SetIfAbsent \<and> found \<noteq> None then fail c1 ErrNotStored
          else if so_Condition options = SetIfPresent \<and> found = None then fail c1 ErrNotStored
          else if int (length key + length data) > cf_MaxBytes (ac_config c1) then
            fail c1 (ErrInvalidValue ''encoded entry exceeds memory cache byte limit'')
          else (a_evict now' (a_put key \<lparr>ae_data = data, ae_expiresAt = deadline now ttl, ae_counter = False\<rparr> c1), None))"

definition a_delete :: "string option \<Rightarrow> string \<Rightarrow> acache \<Rightarrow> acache \<times> OpError option" where
  "a_delete ctx key c =
     (case ctx of Some m \<Rightarrow> (c, Some (cache_Error ''delete'' key (ContextError m)))
      | None \<Rightarrow>
        case ValidateKey key of Some e \<Rightarrow> (c, Some (cache_Error ''delete'' key e))
        | None \<Rightarrow> (a_drop {key} c, None))"

definition a_add ::
    "string option \<Rightarrow> gtime \<Rightarrow> string \<Rightarrow> int \<Rightarrow> CounterOptions \<Rightarrow> acache \<Rightarrow> acache \<times> (OpError + int)" where
  "a_add ctx now key delta options c =
     (let fail = (\<lambda>c e. (c, Inl (cache_Error ''add'' key e))) in
      case ctx of Some m \<Rightarrow> fail c (ContextError m)
      | None \<Rightarrow>
      if cf_MaxCounters (ac_config c) = 0 then fail c ErrUnsupported else
      case ValidateKey key of Some e \<Rightarrow> fail c e
      | None \<Rightarrow>
      case CounterOptions_Validate options of Some e \<Rightarrow> fail c e
      | None \<Rightarrow>
      case NormalizedTTL (co_TTL options) of
        (_, Some e) \<Rightarrow> fail c e
      | (ttl, None) \<Rightarrow>
        case a_lookup now key c of (c1, found) \<Rightarrow>
          case (case found of None \<Rightarrow> Some 0 | Some e \<Rightarrow> ParseInt (ae_data e)) of
            None \<Rightarrow> fail c1 (ErrInvalidValue ''counter is not an integer'')
          | Some current \<Rightarrow>
            if \<not> is_int64 (current + delta) then fail c1 (ErrInvalidValue ''integer overflow'')
            else
              let exp = (case found of
                    Some e \<Rightarrow> if \<not> IsZero (ae_expiresAt e) then ae_expiresAt e else deadline now ttl
                  | None \<Rightarrow> deadline now ttl);
                  entry = \<lparr>ae_data = FormatInt (current + delta), ae_expiresAt = exp, ae_counter = True\<rparr>
              in case found of
                Some e \<Rightarrow>
                  if ae_counter e then
                    (a_count key (entry\<lparr>ae_expiresAt := (if t_ns (ae_expiresAt e) \<noteq> t_ns exp then exp else ae_expiresAt e)\<rparr>) c1,
                     Inr (current + delta))
                  else let c2 = a_expire_counters now c1 in
                    if int (card (a_counter_keys c2)) \<ge> cf_MaxCounters (ac_config c2) then
                      fail c2 (ErrCapacity ''every counter slot holds a live counter'')
                    else (a_count key entry (a_drop {key} c2), Inr (current + delta))
              | None \<Rightarrow> let c2 = a_expire_counters now c1 in
                    if int (card (a_counter_keys c2)) \<ge> cf_MaxCounters (ac_config c2) then
                      fail c2 (ErrCapacity ''every counter slot holds a live counter'')
                    else (a_count key entry c2, Inr (current + delta)))"

definition a_purge :: "string option \<Rightarrow> acache \<Rightarrow> acache \<times> OpError option" where
  "a_purge ctx c =
     (case ctx of Some m \<Rightarrow> (c, Some (cache_Error ''purge'' [] (ContextError m)))
      | None \<Rightarrow> (c\<lparr>ac_map := Map.empty, ac_order := []\<rparr>, None))"

section \<open>Refinement\<close>

text \<open>A result of the implementation that is a correct step of the specification.\<close>

definition refines :: "(store \<times> 'r) option \<Rightarrow> acache \<times> 'r \<Rightarrow> bool" where
  "refines r ar \<longleftrightarrow> (\<exists>s x. r = Some (s, x) \<and> store_inv s \<and> ar = (abs_store s, x))"

lemma refinesI: "store_inv s \<Longrightarrow> refines (Some (s, x)) (abs_store s, x)"
  by (auto simp: refines_def)

lemma drops_inv: "store_inv s \<Longrightarrow> drops D s s' \<Longrightarrow> store_inv s'"
  unfolding store_inv_def using drops_bounds(2) by (auto simp: drops_def)

lemma lookup_live_refines:
  assumes inv: "store_inv s"
  obtains (absent) s' where "lookup_live now key s = Some (s', None)" "store_inv s'" "map_of (cs_values s') key = None"
      "a_lookup now key (abs_store s) = (abs_store s', None)"
    | (present) a where "lookup_live now key s = Some (s, Some a)" "map_of (cs_values s) key = Some a"
      "\<not> expired (cs_objs s a) now" "a_lookup now key (abs_store s) = (abs_store s, Some (view (cs_objs s a)))"
proof -
  have wf: "store_wf s" using inv by (simp add: store_inv_def)
  show thesis
  proof (cases "map_of (cs_values s) key")
    case None
    then show thesis using absent [of s] inv by (simp add: lookup_live_def a_lookup_def)
  next
    case (Some a)
    then have a: "a \<in> live s" "ce_key (cs_objs s a) = key" using live_iff(2) [OF wf Some] by blast+
    show thesis
    proof (cases "expired (cs_objs s a) now")
      case False
      then show thesis using present [of a] Some by (simp add: lookup_live_def a_lookup_def)
    next
      case True
      obtain s' where s': "removeLocked a s = Some s'" "removes a s s'"
        using removeLocked_removes [OF wf a(1)] by blast
      note d = removes_drops [OF wf a(1) s'(2)]
      have "abs_store s' = a_drop {key} (abs_store s)" using drops_abs [OF wf _ d] a by simp
      moreover have "map_of (cs_values s') key = None" using d Some by (simp add: drops_def)
      ultimately show thesis
        using absent [of s'] Some True s'(1) drops_inv [OF inv d] by (simp add: lookup_live_def a_lookup_def)
    qed
  qed
qed

lemma Get_refines:
  assumes inv: "store_inv s"
  shows "refines (cache_Get decode ctx now key s) (a_get decode ctx now key (abs_store s))"
proof (cases "ctx = None \<and> ValidateKey key = None")
  case False
  then show ?thesis using inv
    by (cases ctx; cases "ValidateKey key") (auto simp: cache_Get_def a_get_def intro: refinesI)
next
  case ok: True
  show ?thesis
    using inv
  proof (cases rule: lookup_live_refines [where now = now and key = key])
    case (absent s')
    then show ?thesis using ok by (auto simp: cache_Get_def a_get_def intro: refinesI)
  next
    case (present a)
    have wf: "store_wf s" using inv by (simp add: store_inv_def)
    have a: "ce_key (cs_objs s a) = key" "a \<in> live s" using live_iff(2) [OF wf present(2)] by blast+
    define s' where "s' = (if \<not> ce_counter (cs_objs s a) then s\<lparr>cs_recency := a # remove1 a (cs_recency s)\<rparr> else s)"
    have "store_inv s' \<and> abs_store s' = (if ce_counter (cs_objs s a) then abs_store s
        else (abs_store s)\<lparr>ac_order := key # remove1 key (ac_order (abs_store s))\<rparr>)"
    proof (cases "ce_counter (cs_objs s a)")
      case False
      then have "a \<in> set (cs_recency s)" using a wf by (simp add: store_wf_def)
      from touch_wf [OF wf this refl] show ?thesis using inv False a(1) by (simp add: s'_def store_inv_def)
    qed (use inv in \<open>simp add: s'_def\<close>)
    note s' = this
    define r where "r = (case decode (ce_data (cs_objs s a)) of
        Inl m \<Rightarrow> Inl (cache_Error ''get'' key (CodecError m)) | Inr v \<Rightarrow> Inr v)"
    have "cache_Get decode ctx now key s = Some (s', r)"
      using ok present by (simp add: cache_Get_def Let_def s'_def r_def split: sum.split)
    moreover have "a_get decode ctx now key (abs_store s) = (abs_store s', r)"
      using ok present s' by (simp add: a_get_def r_def del: abs_store_sel)
    ultimately show ?thesis using s' by (auto simp: refines_def)
  qed
qed

lemma removed_key:
  assumes inv: "store_inv s" and at_a: "map_of (cs_values s) key = Some a"
  obtains s' where "removeLocked a s = Some s'" "store_inv s'" "abs_store s' = a_drop {key} (abs_store s)"
    "map_of (cs_values s') key = None" "drops {a} s s'"
proof -
  have wf: "store_wf s" using inv by (simp add: store_inv_def)
  have a: "a \<in> live s" "ce_key (cs_objs s a) = key" using live_iff(2) [OF wf at_a] by blast+
  obtain s' where s': "removeLocked a s = Some s'" "removes a s s'"
    using removeLocked_removes [OF wf a(1)] by blast
  note d = removes_drops [OF wf a(1) s'(2)]
  have "abs_store s' = a_drop {key} (abs_store s)" using drops_abs [OF wf _ d] a by simp
  moreover have "map_of (cs_values s') key = None" using d at_a by (simp add: drops_def)
  ultimately show thesis using that s'(1) drops_inv [OF inv d] d by blast
qed

lemma a_drop_absent:
  "ac_map c key = None \<Longrightarrow> key \<notin> set (ac_order c) \<Longrightarrow> a_drop {key} c = c"
  by (intro acache_eqI) (auto simp: a_drop_def intro: filter_True)

lemma absent_order: "store_wf s \<Longrightarrow> map_of (cs_values s) key = None \<Longrightarrow> key \<notin> set (ac_order (abs_store s))"
  using allocation(10) [where e = "\<lparr>ce_key = key, ce_data = [], ce_expiresAt = zero_time, ce_counter = False, ce_heapIndex = 0\<rparr>"]
  by fastforce

lemma Delete_refines:
  assumes inv: "store_inv s"
  shows "refines (cache_Delete ctx key s) (a_delete ctx key (abs_store s))"
proof (cases "ctx = None \<and> ValidateKey key = None")
  case False
  then show ?thesis using inv
    by (cases ctx; cases "ValidateKey key") (auto simp: cache_Delete_def a_delete_def intro: refinesI)
next
  case ok: True
  have wf: "store_wf s" using inv by (simp add: store_inv_def)
  show ?thesis
  proof (cases "map_of (cs_values s) key")
    case None
    then have "a_drop {key} (abs_store s) = abs_store s"
      using absent_order [OF wf None] by (intro a_drop_absent) simp_all
    then show ?thesis using ok None inv by (auto simp: cache_Delete_def a_delete_def intro: refinesI)
  next
    case (Some a)
    then obtain s' where "removeLocked a s = Some s'" "store_inv s'" "abs_store s' = a_drop {key} (abs_store s)"
      using removed_key [OF inv] by metis
    then show ?thesis using ok Some by (auto simp: cache_Delete_def a_delete_def refines_def)
  qed
qed

lemma Purge_refines:
  assumes inv: "store_inv s"
  shows "refines (Some (cache_Purge ctx s)) (a_purge ctx (abs_store s))"
proof (cases ctx)
  case (Some m)
  then show ?thesis using inv by (auto simp: cache_Purge_def a_purge_def intro: refinesI)
next
  case None
  have "heap_of (cs_objs s, []) {}" by (simp add: heap_of_def expiry_inv_def indexed_def heap_ordered_def)
  moreover have "abs_store (fst (cache_Purge None s)) = fst (a_purge None (abs_store s))"
    by (intro acache_eqI) (simp_all add: cache_Purge_def a_purge_def)
  ultimately show ?thesis using inv None
    by (auto simp: refines_def cache_Purge_def a_purge_def store_inv_def store_wf_def live_def over_bounds_def
        value_count_def config_ok_def)
qed


lemma a_put_drop: "distinct (ac_order c) \<Longrightarrow> a_put key e (a_drop {key} c) = a_put key e c"
  by (intro acache_eqI)
    (auto simp: a_put_def a_drop_def distinct_remove1_removeAll removeAll_filter_not_eq eq_commute intro: filter_cong)

lemma order_distinct: "store_wf s \<Longrightarrow> distinct (ac_order (abs_store s))"
  using keys_inj [of s "set (cs_recency s)"] by (auto simp: store_wf_def distinct_map)

lemma evict_after_write:
  assumes "store_wf s" and "abs_store s = c"
  shows "refines (do { s' \<leftarrow> evictLocked now s; Some (s', x) }) (a_evict now c, x)"
proof -
  obtain s' D where "evictLocked now s = Some s'" "drops D s s'" "\<not> over_bounds s'" "abs_store s' = a_evict now (abs_store s)"
    using evictLocked_evicts [OF assms(1)] by blast
  then show ?thesis using assms(2) by (auto simp: refines_def store_inv_def drops_def)
qed

lemma Set_refines:
  assumes inv: "store_inv s"
  shows "refines (cache_Set encode ctx now now' key v options s) (a_set encode ctx now now' key v options (abs_store s))"
proof (cases "ctx = None \<and> ValidateKey key = None \<and> SetOptions_Validate options = None
    \<and> snd (NormalizedTTL (so_TTL options)) = None \<and> (\<exists>data. encode v = Inr data)")
  case False
  then show ?thesis using inv
    by (cases ctx; cases "ValidateKey key"; cases "SetOptions_Validate options"; cases "NormalizedTTL (so_TTL options)";
        cases "encode v") (auto simp: cache_Set_def a_set_def intro: refinesI split: option.split)
next
  case True
  then obtain data ttl where ok: "ctx = None" "ValidateKey key = None" "SetOptions_Validate options = None"
    "NormalizedTTL (so_TTL options) = (ttl, None)" "encode v = Inr data" by (metis prod.collapse)
  let ?e = "\<lparr>ae_data = data, ae_expiresAt = deadline now ttl, ae_counter = False\<rparr>"
  have bytes: "cs_retainedBytes t \<le> cf_MaxBytes (cs_config t)" if "store_inv t" for t
    using that by (simp add: store_inv_def over_bounds_def)
  show ?thesis
    using inv
  proof (cases rule: lookup_live_refines [where now = now and key = key])
    case (absent s')
    show ?thesis
    proof (cases "so_Condition options = SetIfPresent \<or> int (length key + length data) > cf_MaxBytes (cs_config s')")
      case True
      then show ?thesis using absent ok inv
        by (auto simp: cache_Set_def a_set_def intro: refinesI)
    next
      case False
      have wf: "store_wf s'" using absent(2) by (simp add: store_inv_def)
      note w = set_entry_new [OF wf absent(3) bytes [OF absent(2)] _ refl, where data = data and exp = "deadline now ttl"]
      have "refines (do { s3 \<leftarrow> evictLocked now' (set_entry key data (deadline now ttl) None s'); Some (s3, None) })
          (a_evict now' (a_put key ?e (abs_store s')), None)"
        using w False by (intro evict_after_write) auto
      then show ?thesis using False absent(1,4) ok by (simp add: cache_Set_def a_set_def)
    qed
  next
    case (present a)
    have wf: "store_wf s" using inv by (simp add: store_inv_def)
    show ?thesis
    proof (cases "so_Condition options = SetIfAbsent \<or> int (length key + length data) > cf_MaxBytes (cs_config s)")
      case True
      then show ?thesis using present ok inv
        by (auto simp: cache_Set_def a_set_def intro: refinesI)
    next
      case False
      then have size: "int (length key + length data) \<le> cf_MaxBytes (cs_config s)" by simp
      show ?thesis
      proof (cases "ce_counter (cs_objs s a)")
        case counter: True
        obtain s' where s': "removeLocked a s = Some s'" "store_inv s'" "abs_store s' = a_drop {key} (abs_store s)"
          "map_of (cs_values s') key = None" "drops {a} s s'" using removed_key [OF inv present(2)] by metis
        have wf': "store_wf s'" and cfg: "cs_config s' = cs_config s" using s'(2,5) by (simp_all add: store_inv_def drops_def)
        note w = set_entry_new [OF wf' s'(4) bytes [OF s'(2)] _ refl, where data = data and exp = "deadline now ttl"]
        have "refines (do { s3 \<leftarrow> evictLocked now' (set_entry key data (deadline now ttl) None s'); Some (s3, None) })
            (a_evict now' (a_put key ?e (abs_store s)), None)"
          using w size cfg s'(3) a_put_drop [OF order_distinct [OF wf]] by (intro evict_after_write) auto
        then show ?thesis using False present(1,4) ok counter s'(1) by (simp add: cache_Set_def a_set_def)
      next
        case val: False
        note w = set_entry_replace [OF wf present(2) val bytes [OF inv] size refl, where exp = "deadline now ttl"]
        have "refines (do { s3 \<leftarrow> evictLocked now' (set_entry key data (deadline now ttl) (Some a) s); Some (s3, None) })
            (a_evict now' (a_put key ?e (abs_store s)), None)"
          using w by (intro evict_after_write) auto
        then show ?thesis using False present(1,4) ok val by (simp add: cache_Set_def a_set_def)
      qed
    qed
  qed
qed

lemma counter_keys_abs:
  assumes "store_wf s"
  shows "a_counter_keys (abs_store s) = (\<lambda>a. ce_key (cs_objs s a)) ` {a \<in> live s. ce_counter (cs_objs s a)}"
proof (intro equalityI subsetI)
  fix k assume "k \<in> a_counter_keys (abs_store s)"
  then obtain a where "map_of (cs_values s) k = Some a" "ce_counter (cs_objs s a)" by (auto simp: a_counter_keys_def)
  then show "k \<in> (\<lambda>a. ce_key (cs_objs s a)) ` {a \<in> live s. ce_counter (cs_objs s a)}"
    using live_iff(2) [OF assms, of k a] by auto
next
  fix k assume "k \<in> (\<lambda>a. ce_key (cs_objs s a)) ` {a \<in> live s. ce_counter (cs_objs s a)}"
  then obtain a where "a \<in> live s" "ce_counter (cs_objs s a)" "k = ce_key (cs_objs s a)" by blast
  then show "k \<in> a_counter_keys (abs_store s)" using live_iff(1) [OF assms, of a] by (simp add: a_counter_keys_def)
qed

lemma counters_abs: "store_wf s \<Longrightarrow> cs_counters s = int (card (a_counter_keys (abs_store s)))"
  using keys_inj [of s "{a \<in> live s. ce_counter (cs_objs s a)}"]
  by (simp add: counter_keys_abs card_image) (simp add: store_wf_def)

lemma expireCounters_refines:
  assumes inv: "store_inv s"
  obtains s' where "expireCountersLocked now s = Some s'" "store_inv s'" "abs_store s' = a_expire_counters now (abs_store s)"
    "\<And>k a. map_of (cs_values s) k = Some a \<Longrightarrow> \<not> ce_counter (cs_objs s a) \<Longrightarrow> map_of (cs_values s') k = Some a"
    "\<And>k. map_of (cs_values s) k = None \<Longrightarrow> map_of (cs_values s') k = None" "cs_config s' = cs_config s"
proof -
  have wf: "store_wf s" using inv by (simp add: store_inv_def)
  let ?X = "{a \<in> live s. ce_counter (cs_objs s a) \<and> expired (cs_objs s a) now}"
  obtain s' where s': "expireCountersLocked now s = Some s'" "drops ?X s s'" using expireCounters_drops [OF wf] by blast
  have keys: "(\<lambda>a. ce_key (cs_objs s a)) ` ?X = {k. \<exists>e. ac_map (abs_store s) k = Some e \<and> ae_counter e \<and> a_expired now e}"
  proof (intro equalityI subsetI)
    fix k assume "k \<in> (\<lambda>a. ce_key (cs_objs s a)) ` ?X"
    then obtain a where "a \<in> ?X" "k = ce_key (cs_objs s a)" by blast
    then show "k \<in> {k. \<exists>e. ac_map (abs_store s) k = Some e \<and> ae_counter e \<and> a_expired now e}"
      using live_iff(1) [OF wf, of a] by simp
  next
    fix k assume "k \<in> {k. \<exists>e. ac_map (abs_store s) k = Some e \<and> ae_counter e \<and> a_expired now e}"
    then obtain a where "map_of (cs_values s) k = Some a" "ce_counter (cs_objs s a)" "expired (cs_objs s a) now" by auto
    then show "k \<in> (\<lambda>a. ce_key (cs_objs s a)) ` ?X" using live_iff(2) [OF wf, of k a] by auto
  qed
  have "abs_store s' = a_expire_counters now (abs_store s)"
    using drops_abs [OF wf _ s'(2)] unfolding keys a_expire_counters_def by blast
  then show thesis
    using that [of s'] s' drops_inv [OF inv s'(2)] by (auto simp: drops_def)
qed

lemma add_overflow_iff:
  assumes "is_int64 x" and "is_int64 d"
  shows "(d > 0 \<and> x > wrap64 (maxInt64 - d)) \<or> (d < 0 \<and> x < wrap64 (minInt64 - d)) \<longleftrightarrow> \<not> is_int64 (x + d)"
proof -
  have "d > 0 \<Longrightarrow> wrap64 (maxInt64 - d) = maxInt64 - d" "d < 0 \<Longrightarrow> wrap64 (minInt64 - d) = minInt64 - d"
    using assms by (auto intro!: wrap64_id simp: is_int64_def minInt64_def maxInt64_def)
  then show ?thesis using assms by (auto simp: is_int64_def)
qed

lemma Add_refines:
  assumes inv: "store_inv s" and delta: "is_int64 delta"
  shows "refines (cache_Add ctx now key delta options s) (a_add ctx now key delta options (abs_store s))"
proof (cases "ctx = None \<and> cf_MaxCounters (cs_config s) \<noteq> 0 \<and> ValidateKey key = None
    \<and> CounterOptions_Validate options = None \<and> snd (NormalizedTTL (co_TTL options)) = None")
  case False
  then show ?thesis using inv
    by (cases ctx; cases "ValidateKey key"; cases "CounterOptions_Validate options"; cases "NormalizedTTL (co_TTL options)")
      (auto simp: cache_Add_def a_add_def intro: refinesI split: option.split)
next
  case True
  then obtain ttl where ok: "ctx = None" "cf_MaxCounters (cs_config s) \<noteq> 0" "ValidateKey key = None"
    "CounterOptions_Validate options = None" "NormalizedTTL (co_TTL options) = (ttl, None)" by (metis prod.collapse)
  show ?thesis
    using inv
  proof (cases rule: lookup_live_refines [where now = now and key = key])
    case (absent s')
    obtain s2 where s2: "expireCountersLocked now s' = Some s2" "store_inv s2" "abs_store s2 = a_expire_counters now (abs_store s')"
      "map_of (cs_values s2) key = None" using expireCounters_refines [OF absent(2)] absent(3) by metis
    have wf2: "store_wf s2" using s2 by (simp add: store_inv_def)
    have zero: "is_int64 0" by (simp add: is_int64_def minInt64_def maxInt64_def)
    note ov = add_overflow_iff [OF zero delta]
    show ?thesis
    proof (cases "cs_counters s2 \<ge> cf_MaxCounters (cs_config s2)")
      case full: True
      then show ?thesis using s2(1,2) absent(1,4) ok ov delta counters_abs [OF wf2]
        by (simp add: cache_Add_def a_add_def Let_def wrap64_id refines_def s2(3) [symmetric] del: abs_store_sel(1,2)) blast
    next
      case room: False
      note w = create_counter_new [OF wf2 s2(4) _ refl, where data = "FormatInt delta" and exp = "deadline now ttl"]
      have inv3: "store_inv (create_counter key (FormatInt delta) (deadline now ttl) s2)"
        using w room s2(2) by (simp add: store_inv_def)
      show ?thesis using s2 absent(1,4) ok ov delta counters_abs [OF wf2] room w inv3
        by (simp add: cache_Add_def a_add_def Let_def wrap64_id refines_def s2(3) [symmetric] del: abs_store_sel(1,2))
    qed
  next
    case (present a)
    have wf: "store_wf s" using inv by (simp add: store_inv_def)
    show ?thesis
    proof (cases "ParseInt (ce_data (cs_objs s a))")
      case None
      then show ?thesis using present ok inv by (auto simp: cache_Add_def a_add_def intro: refinesI)
    next
      case (Some x)
      note ov = add_overflow_iff [OF ParseInt_range [OF Some] delta]
      define exp where "exp = (if \<not> IsZero (ce_expiresAt (cs_objs s a)) then ce_expiresAt (cs_objs s a) else deadline now ttl)"
      show ?thesis
      proof (cases "is_int64 (x + delta)")
        case False
        then show ?thesis using present ok inv Some ov
          by (simp add: cache_Add_def a_add_def refines_def del: abs_store_sel(1,2))
      next
        case fits: True
        show ?thesis
        proof (cases "ce_counter (cs_objs s a)")
          case counter: True
          note w = update_counter_wf [OF wf present(2) counter _ refl, where data = "FormatInt (x + delta)" and exp = exp]
          have w': "store_inv (update_counter (FormatInt (x + delta)) exp a s)"
            "abs_store (update_counter (FormatInt (x + delta)) exp a s) = a_count key \<lparr>ae_data = FormatInt (x + delta),
              ae_expiresAt = (if t_ns (ce_expiresAt (cs_objs s a)) \<noteq> t_ns exp then exp else ce_expiresAt (cs_objs s a)),
              ae_counter = True\<rparr> (abs_store s)"
            using w inv by (auto simp: store_inv_def exp_def)
          have "cache_Add ctx now key delta options s
              = Some (update_counter (FormatInt (x + delta)) exp a s, Inr (x + delta))"
            using present ok Some ov fits counter by (simp add: cache_Add_def Let_def wrap64_id exp_def)
          moreover have "a_add ctx now key delta options (abs_store s)
              = (abs_store (update_counter (FormatInt (x + delta)) exp a s), Inr (x + delta))"
            unfolding w'(2) using present ok Some fits counter
            by (simp add: a_add_def Let_def exp_def del: abs_store_sel(1,2))
          ultimately show ?thesis using w'(1) by (auto simp: refines_def)
        next
          case val: False
          obtain s2 where s2: "expireCountersLocked now s = Some s2" "store_inv s2"
            "abs_store s2 = a_expire_counters now (abs_store s)" "map_of (cs_values s2) key = Some a" "cs_config s2 = cs_config s"
            using expireCounters_refines [OF inv] present(2) val by metis
          have wf2: "store_wf s2" using s2 by (simp add: store_inv_def)
          show ?thesis
          proof (cases "cs_counters s2 \<ge> cf_MaxCounters (cs_config s2)")
            case full: True
            then show ?thesis using s2(1,2,5) present(1,4) ok ov fits Some val counters_abs [OF wf2]
              by (simp add: cache_Add_def a_add_def Let_def wrap64_id refines_def s2(3) [symmetric] del: abs_store_sel(1,2)) blast
          next
            case room: False
            obtain s3 where s3: "removeLocked a s2 = Some s3" "store_inv s3" "abs_store s3 = a_drop {key} (abs_store s2)"
              "map_of (cs_values s3) key = None" "drops {a} s2 s3" using removed_key [OF s2(2,4)] by metis
            have wf3: "store_wf s3" using s3 by (simp add: store_inv_def)
            have "card (a_counter_keys (abs_store s3)) \<le> card (a_counter_keys (abs_store s2))"
            proof (rule card_mono)
              show "finite (a_counter_keys (abs_store s2))" by (simp add: counter_keys_abs [OF wf2])
              show "a_counter_keys (abs_store s3) \<subseteq> a_counter_keys (abs_store s2)"
                unfolding s3(3) by (auto simp: a_counter_keys_def a_drop_def split: if_splits)
            qed
            then have room3: "cs_counters s3 < cf_MaxCounters (cs_config s3)"
              using room counters_abs [OF wf2] counters_abs [OF wf3] s3(5) by (simp add: drops_def)
            note w = create_counter_new [OF wf3 s3(4) room3 refl, where data = "FormatInt (x + delta)" and exp = exp]
            have inv4: "store_inv (create_counter key (FormatInt (x + delta)) exp s3)"
              using w s3(2) by (simp add: store_inv_def)
            have "cache_Add ctx now key delta options s
                = Some (create_counter key (FormatInt (x + delta)) exp s3, Inr (x + delta))"
              using present ok Some ov fits val s2(1) s3(1) room by (simp add: cache_Add_def Let_def wrap64_id exp_def)
            moreover have "a_add ctx now key delta options (abs_store s)
                = (abs_store (create_counter key (FormatInt (x + delta)) exp s3), Inr (x + delta))"
              using present ok Some fits val room counters_abs [OF wf2] w s3(3)
              by (simp add: a_add_def Let_def exp_def s2(3) [symmetric] del: abs_store_sel(1,2))
            ultimately show ?thesis using inv4 by (auto simp: refines_def)
          qed
        qed
      qed
    qed
  qed
qed

section \<open>Eviction order\<close>

lemma a_drop_order: "ac_order (a_drop K c) = filter (\<lambda>k. k \<notin> K) (ac_order c)"
  by (simp add: a_drop_def)

lemma a_drop_config [simp]: "ac_config (a_drop K c) = ac_config c"
  by (simp add: a_drop_def)

lemma a_drop_drop: "a_drop K (a_drop L c) = a_drop (K \<union> L) c"
  by (intro acache_eqI) (auto simp: a_drop_def intro: filter_cong)

lemma a_drop_empty [simp]: "a_drop {} c = c"
  by (intro acache_eqI) (auto simp: a_drop_def)

lemma take_drop_order:
  assumes "distinct (ac_order c)"
  shows "ac_order (a_drop (set (drop n (ac_order c))) c) = take n (ac_order c)"
proof -
  have disjoint: "set (take n (ac_order c)) \<inter> set (drop n (ac_order c)) = {}"
    using assms by (metis append_take_drop_id distinct_append)
  have "filter (\<lambda>k. k \<notin> set (drop n (ac_order c))) (take n (ac_order c) @ drop n (ac_order c)) = take n (ac_order c)"
    unfolding filter_append using disjoint by (subst filter_True, blast, subst filter_False, blast) simp
  then show ?thesis by (simp add: a_drop_order)
qed

text \<open>Trimming removes the least recently used suffix, and the shortest one that restores the bounds.\<close>

lemma a_trim_suffix:
  assumes "distinct (ac_order c)"
  shows "\<exists>n \<le> length (ac_order c). a_trim c = a_drop (set (drop n (ac_order c))) c
    \<and> (\<not> a_over (a_trim c) \<or> n = 0)
    \<and> (\<forall>m. n < m \<and> m \<le> length (ac_order c) \<longrightarrow> a_over (a_drop (set (drop m (ac_order c))) c))"
  using assms
proof (induction c rule: a_trim.induct)
  case (1 c)
  show ?case
  proof (cases "a_over c \<and> ac_order c \<noteq> []")
    case False
    then have "a_trim c = c" by (subst a_trim.simps) (rule if_not_P)
    then show ?thesis using False by (intro exI [of _ "length (ac_order c)"]) auto
  next
    case True
    let ?l = "last (ac_order c)" and ?c = "a_drop {last (ac_order c)} c"
    define N where "N = length (ac_order c)"
    have N: "N = Suc (length (ac_order c) - 1)" using True by (simp add: N_def)
    have last_set: "set (drop (N - 1) (ac_order c)) = {?l}"
      using True by (simp add: N_def last_conv_nth Cons_nth_drop_Suc [symmetric])
    have order: "ac_order ?c = take (N - 1) (ac_order c)"
      using take_drop_order [OF 1(2), of "N - 1"] last_set by simp
    have dist: "distinct (ac_order ?c)" using 1(2) order by simp
    obtain n where n: "n \<le> length (ac_order ?c)" "a_trim ?c = a_drop (set (drop n (ac_order ?c))) ?c"
      "\<not> a_over (a_trim ?c) \<or> n = 0"
      "\<forall>m. n < m \<and> m \<le> length (ac_order ?c) \<longrightarrow> a_over (a_drop (set (drop m (ac_order ?c))) ?c)"
      using 1(1) [OF True dist] by blast
    have len: "length (ac_order ?c) = N - 1" using order by (simp add: N_def)
    have same: "a_drop (set (drop m (ac_order ?c))) ?c = a_drop (set (drop m (ac_order c))) c" if "m \<le> N - 1" for m
    proof -
      have "drop m (ac_order c) = drop m (take (N - 1) (ac_order c)) @ drop (N - 1) (ac_order c)"
        using that by (metis append_take_drop_id drop_append drop_drop length_take le_add_diff_inverse N_def
            min.absorb2 diff_le_self diff_is_0_eq drop0)
      then have "set (drop m (ac_order c)) = set (drop m (ac_order ?c)) \<union> {?l}" using last_set order by simp
      then show ?thesis by (simp add: a_drop_drop)
    qed
    have step: "a_trim c = a_trim ?c" using True by (simp add: a_trim.simps [of c])
    have "a_over (a_drop (set (drop m (ac_order c))) c)" if "n < m" "m \<le> N" for m
    proof (cases "m = N")
      case True
      then show ?thesis using \<open>a_over c \<and> ac_order c \<noteq> []\<close> by (simp add: N_def)
    next
      case False
      then have "m \<le> N - 1" using that by simp
      then show ?thesis using n(4) that same [of m] len by auto
    qed
    then show ?thesis using n step same [of n] len N_def by (intro exI [of _ n]) auto
  qed
qed

lemma single_fits:
  assumes "config_ok (ac_config c)" and "ac_order c = [k]" and "a_bytes c k \<le> cf_MaxBytes (ac_config c)"
  shows "\<not> a_over c"
  using assms by (simp add: a_over_def config_ok_def)

lemma a_trim_keeps_head:
  assumes "config_ok (ac_config c)" and "distinct (ac_order c)" and order: "ac_order c = k # ks"
    and fits: "a_bytes c k \<le> cf_MaxBytes (ac_config c)"
  shows "ac_map (a_trim c) k = ac_map c k \<and> k \<in> set (ac_order (a_trim c))"
proof -
  obtain n where n: "a_trim c = a_drop (set (drop n (ac_order c))) c" "\<not> a_over (a_trim c) \<or> n = 0"
    "\<forall>m. n < m \<and> m \<le> length (ac_order c) \<longrightarrow> a_over (a_drop (set (drop m (ac_order c))) c)"
    using a_trim_suffix [OF assms(2)] by blast
  have "k \<notin> set (drop 1 (ac_order c))" using assms(2) order by simp
  then have one: "\<not> a_over (a_drop (set (drop 1 (ac_order c))) c)"
    using assms(1) order fits take_drop_order [OF assms(2), of 1]
    by (intro single_fits [of _ k]) (auto simp: a_drop_def a_bytes_def)
  have "n \<noteq> 0"
  proof
    assume "n = 0"
    then have "a_over (a_drop (set (drop 1 (ac_order c))) c)" using n(3) [rule_format, of 1] order by simp
    then show False using one by simp
  qed
  then obtain n' where "n = Suc n'" by (cases n) auto
  then have "set (drop n (ac_order c)) \<subseteq> set ks" using order set_drop_subset [of n' ks] by simp
  then have "k \<notin> set (drop n (ac_order c))" using assms(2) order by auto
  moreover have "k \<in> set (take n (ac_order c))" using \<open>n = Suc n'\<close> order by simp
  ultimately show ?thesis using n(1) take_drop_order [OF assms(2), of n] by (simp add: a_drop_def)
qed


section \<open>Calls and runs\<close>

datatype 'v cache_op =
    GetCall "string option" gtime string
  | SetCall "string option" gtime gtime string 'v SetOptions
  | DeleteCall "string option" string
  | AddCall "string option" gtime string int CounterOptions
  | PurgeCall "string option"

fun cache_exec ::
    "('v \<Rightarrow> string + string) \<Rightarrow> (string \<Rightarrow> string + 'v) \<Rightarrow> 'v cache_op \<Rightarrow> store \<Rightarrow> store option" where
  "cache_exec encode decode (GetCall ctx now key) s = map_option fst (cache_Get decode ctx now key s)"
| "cache_exec encode decode (SetCall ctx now now' key v opts) s = map_option fst (cache_Set encode ctx now now' key v opts s)"
| "cache_exec encode decode (DeleteCall ctx key) s = map_option fst (cache_Delete ctx key s)"
| "cache_exec encode decode (AddCall ctx now key delta opts) s = map_option fst (cache_Add ctx now key delta opts s)"
| "cache_exec encode decode (PurgeCall ctx) s = Some (fst (cache_Purge ctx s))"

fun cache_run ::
    "('v \<Rightarrow> string + string) \<Rightarrow> (string \<Rightarrow> string + 'v) \<Rightarrow> 'v cache_op list \<Rightarrow> store \<Rightarrow> store option" where
  "cache_run encode decode [] s = Some s"
| "cache_run encode decode (c # cs) s = do { s' \<leftarrow> cache_exec encode decode c s; cache_run encode decode cs s' }"

fun op_in_range :: "'v cache_op \<Rightarrow> bool" where
  "op_in_range (AddCall ctx now key delta opts) \<longleftrightarrow> is_int64 delta"
| "op_in_range _ \<longleftrightarrow> True"

fun a_exec ::
    "('v \<Rightarrow> string + string) \<Rightarrow> (string \<Rightarrow> string + 'v) \<Rightarrow> 'v cache_op \<Rightarrow> acache \<Rightarrow> acache" where
  "a_exec encode decode (GetCall ctx now key) c = fst (a_get decode ctx now key c)"
| "a_exec encode decode (SetCall ctx now now' key v opts) c = fst (a_set encode ctx now now' key v opts c)"
| "a_exec encode decode (DeleteCall ctx key) c = fst (a_delete ctx key c)"
| "a_exec encode decode (AddCall ctx now key delta opts) c = fst (a_add ctx now key delta opts c)"
| "a_exec encode decode (PurgeCall ctx) c = fst (a_purge ctx c)"

lemma refines_fst: "refines r ar \<Longrightarrow> \<exists>s'. map_option fst r = Some s' \<and> store_inv s' \<and> abs_store s' = fst ar"
  by (auto simp: refines_def)

lemma exec_refines:
  assumes inv: "store_inv s" and "op_in_range c"
  shows "\<exists>s'. cache_exec encode decode c s = Some s' \<and> store_inv s' \<and> abs_store s' = a_exec encode decode c (abs_store s)"
proof (cases c)
  case (GetCall ctx now key)
  show ?thesis unfolding GetCall cache_exec.simps a_exec.simps by (rule refines_fst [OF Get_refines [OF inv]])
next
  case (SetCall ctx now now' key v opts)
  show ?thesis unfolding SetCall cache_exec.simps a_exec.simps by (rule refines_fst [OF Set_refines [OF inv]])
next
  case (DeleteCall ctx key)
  show ?thesis unfolding DeleteCall cache_exec.simps a_exec.simps by (rule refines_fst [OF Delete_refines [OF inv]])
next
  case (AddCall ctx now key delta opts)
  then have "is_int64 delta" using assms(2) by simp
  then show ?thesis unfolding AddCall cache_exec.simps a_exec.simps by (rule refines_fst [OF Add_refines [OF inv]])
next
  case (PurgeCall ctx)
  show ?thesis unfolding PurgeCall cache_exec.simps a_exec.simps
    using refines_fst [OF Purge_refines [OF inv], of ctx] unfolding option.map .
qed

lemma run_refines:
  assumes "store_inv s" and "list_all op_in_range cs"
  shows "\<exists>s'. cache_run encode decode cs s = Some s' \<and> store_inv s'
    \<and> abs_store s' = fold (a_exec encode decode) cs (abs_store s)"
  using assms
proof (induction cs arbitrary: s)
  case (Cons c cs)
  then obtain s1 where "cache_exec encode decode c s = Some s1" "store_inv s1"
      "abs_store s1 = a_exec encode decode c (abs_store s)"
    using exec_refines [of s c encode decode] by auto
  then show ?case using Cons.IH [of s1] Cons.prems by simp
qed simp

lemma a_trim_config [simp]: "ac_config (a_trim c) = ac_config c"
proof (induction c rule: a_trim.induct)
  case (1 c)
  show ?case
  proof (cases "a_over c \<and> ac_order c \<noteq> []")
    case True
    then have "a_trim c = a_trim (a_drop {last (ac_order c)} c)" by (subst a_trim.simps) (rule if_P)
    then show ?thesis using 1 [OF True] by simp
  next
    case False
    then have "a_trim c = c" by (subst a_trim.simps) (rule if_not_P)
    then show ?thesis by simp
  qed
qed

lemma lookup_config: "ac_config (fst (a_lookup now key c)) = ac_config c"
  by (simp add: a_lookup_def split: option.split)

lemma a_exec_config: "ac_config (a_exec encode decode op c) = ac_config c"
proof (cases op)
  case (GetCall ctx now key)
  then show ?thesis using lookup_config [of now key c]
    by (auto simp: a_get_def split: option.split prod.split)
next
  case (SetCall ctx now now' key v opts)
  then show ?thesis using lookup_config [of now key c]
    by (auto simp: a_set_def a_evict_def a_put_def Let_def split: option.split prod.split sum.split)
next
  case (AddCall ctx now key delta opts)
  then show ?thesis using lookup_config [of now key c]
    by (auto simp: a_add_def a_count_def a_expire_counters_def Let_def split: option.split prod.split)
qed (simp_all add: a_delete_def a_purge_def split: option.split)

lemma a_run_config: "ac_config (fold (a_exec encode decode) cs c) = ac_config c"
  by (induction cs arbitrary: c) (simp_all add: a_exec_config)

lemma New_inv:
  assumes "cache_New cfgs = Inr s" and "\<forall>c \<in> set cfgs. cf_MaxBytes c < 2 ^ 62 \<and> cf_MaxCounters c \<le> maxInt64"
  shows "store_inv s \<and> abs_store s = \<lparr>ac_map = Map.empty, ac_order = [], ac_config = cs_config s\<rparr>"
proof -
  obtain cfg where cfg: "Config_validate cfg = None" "cf_MaxBytes cfg < 2 ^ 62" "cf_MaxCounters cfg \<le> maxInt64"
    and s: "s = \<lparr>cs_objs = (\<lambda>_. no_entry), cs_next = 0, cs_values = [], cs_recency = [],
               cs_retainedBytes = 0, cs_counters = 0, cs_expiries = [], cs_config = cfg\<rparr>"
    using assms
    by (auto simp: cache_New_def Let_def DefaultConfig_def maxInt64_def split: if_splits option.splits list.splits)
  have "config_ok cfg" using cfg by (auto simp: config_ok_def Config_validate_def split: if_splits)
  moreover have "heap_of ((\<lambda>_. no_entry), []) {}" by (simp add: heap_of_def expiry_inv_def indexed_def heap_ordered_def)
  ultimately show ?thesis
    by (auto simp: s store_inv_def store_wf_def live_def over_bounds_def value_count_def config_ok_def abs_store_def)
qed

section \<open>Properties\<close>

text \<open>C36. The in-process cache implements its specification.  On every store that satisfies the
  invariant each operation returns (no index is out of range and no loop runs on), with the very
  result of the abstract operation (a map of entries with the recency order of the evictable
  keys, and no heap, indices, addresses or byte counters), and leaves a store that satisfies the
  invariant and represents the abstract successor.  A newly made store represents the empty
  cache.\<close>

theorem cache_refinement:
  assumes "store_inv s" and "is_int64 delta"
  shows "refines (cache_Get decode ctx now key s) (a_get decode ctx now key (abs_store s))
    \<and> refines (cache_Set encode ctx now now' key v options s) (a_set encode ctx now now' key v options (abs_store s))
    \<and> refines (cache_Delete ctx key s) (a_delete ctx key (abs_store s))
    \<and> refines (cache_Add ctx now key delta copts s) (a_add ctx now key delta copts (abs_store s))
    \<and> refines (Some (cache_Purge ctx s)) (a_purge ctx (abs_store s))
    \<and> (\<forall>cfgs s0. cache_New cfgs = Inr s0 \<and> (\<forall>c \<in> set cfgs. cf_MaxBytes c < 2 ^ 62 \<and> cf_MaxCounters c \<le> maxInt64) \<longrightarrow>
        store_inv s0 \<and> abs_store s0 = \<lparr>ac_map = Map.empty, ac_order = [], ac_config = cs_config s0\<rparr>)"
  using Get_refines Set_refines Delete_refines Add_refines Purge_refines New_inv assms by metis

text \<open>C37. Every sequence of calls on a new store returns, whatever the clock readings, contexts
  and codec results: the loops that restore the bounds and that expire counters end, and no slice
  index is out of range.  Afterwards the store is within its configuration: at most
  \<^verbatim>\<open>MaxEntries\<close> values, at most \<^verbatim>\<open>MaxBytes\<close> bytes of keys and values, at most
  \<^verbatim>\<open>MaxCounters\<close> counters; the running byte counter is the exact sum over the retained values
  and the counter count is exact.\<close>

theorem cache_runs_bounded:
  assumes "cache_New [cfg] = Inr s" and "cf_MaxBytes cfg < 2 ^ 62" and "cf_MaxCounters cfg \<le> maxInt64"
    and "list_all op_in_range calls"
  shows "\<exists>s'. cache_run encode decode calls s = Some s'
    \<and> int (length (cs_values s')) - cs_counters s' = int (length (cs_recency s'))
    \<and> int (length (cs_recency s')) \<le> cf_MaxEntries cfg
    \<and> cs_retainedBytes s' = (\<Sum>a\<leftarrow>cs_recency s'. int (length (ce_key (cs_objs s' a)) + length (ce_data (cs_objs s' a))))
    \<and> cs_retainedBytes s' \<le> cf_MaxBytes cfg
    \<and> cs_counters s' = int (card {a \<in> snd ` set (cs_values s'). ce_counter (cs_objs s' a)})
    \<and> cs_counters s' \<le> cf_MaxCounters cfg
    \<and> (\<forall>i < length (cs_expiries s'). ce_heapIndex (cs_objs s' (cs_expiries s' ! i)) = int i)"
proof -
  have inv: "store_inv s" using New_inv [OF assms(1)] assms(2,3) by simp
  then obtain s' where s': "cache_run encode decode calls s = Some s'" "store_inv s'"
      "abs_store s' = fold (a_exec encode decode) calls (abs_store s)"
    using run_refines [OF inv assms(4)] by blast
  have "cs_config s = cfg" using assms(1) by (auto simp: cache_New_def split: option.splits)
  then have cfg: "cs_config s' = cfg" using arg_cong [OF s'(3), of ac_config] by (simp add: a_run_config)
  have wf: "store_wf s'" and bounds: "\<not> over_bounds s'" using s'(2) by (simp_all add: store_inv_def)
  note count = value_count_recency [OF wf]
  have "cs_retainedBytes s' = (\<Sum>a\<leftarrow>cs_recency s'. int (length (ce_key (cs_objs s' a)) + length (ce_data (cs_objs s' a))))"
    "cs_counters s' = int (card {a \<in> snd ` set (cs_values s'). ce_counter (cs_objs s' a)})"
    "cs_counters s' \<le> cf_MaxCounters cfg"
    using wf cfg by (simp_all add: store_wf_def live_def entry_bytes_def)
  moreover have "\<forall>i < length (cs_expiries s'). ce_heapIndex (cs_objs s' (cs_expiries s' ! i)) = int i"
    using wf by (simp add: store_wf_def heap_of_def expiry_inv_def indexed_def)
  ultimately show ?thesis using s'(1) count bounds cfg
    by (simp add: over_bounds_def value_count_def)
qed


text \<open>C38. What was set is found again: after a \<^verbatim>\<open>Set\<close> that reports success, a \<^verbatim>\<open>Get\<close> of the
  same key at any time before the entry's deadline returns the value, for every codec that
  decodes what it encodes; in particular the eviction that \<^verbatim>\<open>Set\<close> performs never removes the
  entry it has just written, however full the store was.\<close>

theorem cache_Set_Get:
  assumes inv: "store_inv s" and set: "cache_Set encode None now now' key v opts s = Some (s', None)"
    and codec: "\<And>d. encode v = Inr d \<Longrightarrow> decode d = Inr v"
    and live: "so_TTL opts = 0 \<or> (0 < t_ns now \<and> t_ns now' < t_ns now + so_TTL opts \<and> t_ns t < t_ns now + so_TTL opts)"
    and range: "is_int64 (so_TTL opts)"
  shows "\<exists>s''. cache_Get decode None t key s' = Some (s'', Inr v) \<and> store_inv s''"
proof -
  have ref: "refines (cache_Set encode None now now' key v opts s) (a_set encode None now now' key v opts (abs_store s))"
    by (rule Set_refines [OF inv])
  then have inv': "store_inv s'" and aset: "a_set encode None now now' key v opts (abs_store s) = (abs_store s', None)"
    using set by (auto simp: refines_def)
  have wf: "store_wf s" using inv by (simp add: store_inv_def)
  obtain c1 found where lk: "a_lookup now key (abs_store s) = (c1, found)" by fastforce
  obtain ttl where ttl: "NormalizedTTL (so_TTL opts) = (ttl, None)"
    using aset by (auto simp: a_set_def Let_def split: option.splits prod.splits)
  obtain data where data: "encode v = Inr data"
    using aset ttl by (auto simp: a_set_def Let_def split: option.splits sum.splits)
  let ?e = "\<lparr>ae_data = data, ae_expiresAt = deadline now ttl, ae_counter = False\<rparr>"
  have key: "ValidateKey key = None" and size: "int (length key + length data) \<le> cf_MaxBytes (ac_config c1)"
    and result: "abs_store s' = a_evict now' (a_put key ?e c1)"
    using aset ttl data lk by (auto simp: a_set_def Let_def split: option.splits if_splits)
  have norm: "so_TTL opts \<le> ttl" "ttl = 0 \<longleftrightarrow> so_TTL opts = 0"
    using NormalizedTTL_cases [OF range] ttl by simp_all
  have fresh: "\<not> a_expired x ?e" if "x = now' \<or> x = t" for x
    using live norm that by (auto simp: a_expired_def deadline_def time_ops)
  have c1: "ac_config c1 = cs_config s" "distinct (ac_order c1)"
    using lk lookup_config [of now key "abs_store s"] order_distinct [OF wf]
    by (auto simp: a_lookup_def a_drop_def split: option.splits if_splits)
  let ?c = "a_put key ?e c1"
  let ?X = "{k \<in> set (ac_order ?c). \<exists>e. ac_map ?c k = Some e \<and> a_expired now' e}"
  have cfg: "config_ok (ac_config ?c)" using wf c1 by (simp add: a_put_def store_wf_def)
  have notX: "key \<notin> ?X" using fresh by (auto simp: a_put_def)
  have "ac_map (a_trim (a_drop ?X ?c)) key = ac_map (a_drop ?X ?c) key"
  proof (rule conjunct1 [OF a_trim_keeps_head])
    show "ac_order (a_drop ?X ?c) = key # filter (\<lambda>k. k \<notin> ?X) (remove1 key (ac_order c1))"
      using notX by (simp add: a_drop_order) (simp add: a_put_def)
    show "distinct (ac_order (a_drop ?X ?c))"
      using c1(2) by (simp add: a_drop_order) (simp add: a_put_def distinct_remove1)
    show "a_bytes (a_drop ?X ?c) key \<le> cf_MaxBytes (ac_config (a_drop ?X ?c))"
      using size notX by (simp add: a_bytes_def a_drop_def) (simp add: a_put_def)
  qed (use cfg in simp)
  then have "ac_map (abs_store s') key = Some ?e"
    unfolding result a_evict_def using notX by (simp add: a_drop_def) (simp add: a_put_def)
  then have "a_get decode None t key (abs_store s')
      = ((abs_store s')\<lparr>ac_order := key # remove1 key (ac_order (abs_store s'))\<rparr>, Inr v)"
    using key fresh codec [OF data] by (simp add: a_get_def a_lookup_def del: abs_store_sel)
  then show ?thesis using Get_refines [OF inv', of decode None t key] by (auto simp: refines_def)
qed

section \<open>Counter windows\<close>

text \<open>
  Calls that leave a counter alone: readings of the clock before its deadline, and no call that
  replaces or removes the key explicitly.
\<close>

fun spares :: "string \<Rightarrow> gtime \<Rightarrow> 'v cache_op \<Rightarrow> bool" where
  "spares key d (GetCall ctx now k) \<longleftrightarrow> Before now d"
| "spares key d (SetCall ctx now now' k v opts) \<longleftrightarrow> k \<noteq> key"
| "spares key d (DeleteCall ctx k) \<longleftrightarrow> k \<noteq> key"
| "spares key d (AddCall ctx now k delta opts) \<longleftrightarrow> Before now d"
| "spares key d (PurgeCall ctx) \<longleftrightarrow> ctx \<noteq> None"

text \<open>What the accepted additions of a run add to the counter.\<close>

fun counted :: "('v \<Rightarrow> string + string) \<Rightarrow> (string \<Rightarrow> string + 'v) \<Rightarrow> string \<Rightarrow> 'v cache_op list \<Rightarrow> store \<Rightarrow> int" where
  "counted encode decode key [] s = 0"
| "counted encode decode key (c # cs) s =
     (case c of
        AddCall ctx now k delta opts \<Rightarrow>
          (case cache_Add ctx now k delta opts s of
             Some (_, Inr _) \<Rightarrow> if k = key then delta else 0
           | _ \<Rightarrow> 0)
      | _ \<Rightarrow> 0)
     + (case cache_exec encode decode c s of None \<Rightarrow> 0 | Some s' \<Rightarrow> counted encode decode key cs s')"

lemma a_trim_map: "k \<notin> set (ac_order c) \<Longrightarrow> ac_map (a_trim c) k = ac_map c k"
proof (induction c rule: a_trim.induct)
  case (1 c)
  show ?case
  proof (cases "a_over c \<and> ac_order c \<noteq> []")
    case True
    then have step: "a_trim c = a_trim (a_drop {last (ac_order c)} c)" by (subst a_trim.simps) (rule if_P)
    have "k \<noteq> last (ac_order c)" using 1(2) True by auto
    then show ?thesis using 1(1) [OF True] 1(2) step by (simp add: a_drop_def)
  next
    case False
    then have "a_trim c = c" by (subst a_trim.simps) (rule if_not_P)
    then show ?thesis by simp
  qed
qed

lemma a_evict_map: "k \<notin> set (ac_order c) \<Longrightarrow> ac_map (a_evict now c) k = ac_map c k"
  by (simp add: a_evict_def a_trim_map a_drop_order) (simp add: a_drop_def)

lemma lookup_other: "k \<noteq> key \<Longrightarrow> ac_map (fst (a_lookup now k c)) key = ac_map c key
    \<and> set (ac_order (fst (a_lookup now k c))) \<subseteq> set (ac_order c)"
  by (auto simp: a_lookup_def a_drop_def split: option.split)

lemma lookup_live_entry:
  "ac_map c key = Some e \<Longrightarrow> \<not> a_expired now e \<Longrightarrow> a_lookup now key c = (c, Some e)"
  by (simp add: a_lookup_def)

lemma Before_not_expired: "Before now (ae_expiresAt e) \<Longrightarrow> \<not> a_expired now e"
  by (simp add: a_expired_def)

lemma get_spares:
  assumes "ac_map c key = Some e" and "Before now (ae_expiresAt e)"
  shows "ac_map (fst (a_get decode ctx now k c)) key = Some e"
proof (cases "k = key")
  case True
  then show ?thesis using assms lookup_live_entry [OF assms(1) Before_not_expired [OF assms(2)]]
    by (auto simp: a_get_def split: option.split)
next
  case False
  obtain c1 f where lk: "a_lookup now k c = (c1, f)" by fastforce
  then have "ac_map c1 key = Some e" using lookup_other [OF False, of now c] assms by simp
  then show ?thesis using lk assms by (auto simp: a_get_def split: option.split)
qed

lemma set_spares:
  assumes "ac_map c key = Some e" and "key \<notin> set (ac_order c)" and k: "k \<noteq> key"
  shows "ac_map (fst (a_set encode ctx now now' k v opts c)) key = Some e"
proof -
  obtain c1 f where lk: "a_lookup now k c = (c1, f)" by fastforce
  then have c1: "ac_map c1 key = Some e" "key \<notin> set (ac_order c1)"
    using lookup_other [OF k, of now c] assms by auto
  have "ac_map (a_evict now' (a_put k x c1)) key = Some e" for x
    using c1 k by (subst a_evict_map) (auto simp: a_put_def dest: notin_set_remove1)
  then show ?thesis using assms(1) c1(1)
    unfolding a_set_def lk Let_def by (simp split: option.split prod.split sum.split)
qed

lemma expire_spares:
  assumes "ac_map c key = Some e" and "Before now (ae_expiresAt e)"
  shows "ac_map (a_expire_counters now c) key = Some e"
  using assms Before_not_expired by (auto simp: a_expire_counters_def a_drop_def)

lemma add_other_spares:
  assumes "ac_map c key = Some e" and "Before now (ae_expiresAt e)" and k: "k \<noteq> key"
  shows "ac_map (fst (a_add ctx now k delta opts c)) key = Some e"
proof -
  obtain c1 f where lk: "a_lookup now k c = (c1, f)" by fastforce
  then have c1: "ac_map c1 key = Some e" using lookup_other [OF k, of now c] assms by auto
  have c2: "ac_map (a_expire_counters now c1) key = Some e" by (rule expire_spares [OF c1 assms(2)])
  have w: "ac_map (a_count k x d) key = ac_map d key" "ac_map (a_drop {k} d) key = ac_map d key" for x d
    using k by (simp_all add: a_count_def a_drop_def)
  show ?thesis
  proof (cases "ctx = None \<and> cf_MaxCounters (ac_config c) \<noteq> 0 \<and> ValidateKey k = None
    \<and> CounterOptions_Validate opts = None \<and> snd (NormalizedTTL (co_TTL opts)) = None")
    case False
    then have "fst (a_add ctx now k delta opts c) = c"
      by (cases ctx; cases "ValidateKey k"; cases "CounterOptions_Validate opts"; cases "NormalizedTTL (co_TTL opts)")
        (auto simp: a_add_def split: option.split)
    then show ?thesis using assms(1) by simp
  next
    case True
    then obtain ttl where ok: "ctx = None" "cf_MaxCounters (ac_config c) \<noteq> 0" "ValidateKey k = None"
      "CounterOptions_Validate opts = None" "NormalizedTTL (co_TTL opts) = (ttl, None)" by (metis prod.collapse)
    show ?thesis
    proof (cases f)
      case None
      then show ?thesis using ok lk c1 c2 by (simp add: a_add_def Let_def w)
    next
      case (Some x)
      then show ?thesis using ok lk c1 c2
        by (cases "ParseInt (ae_data x)"; cases "ae_counter x") (simp_all add: a_add_def Let_def w)
    qed
  qed
qed

lemma add_counts:
  assumes e: "ac_map c key = Some e" "ae_counter e" "ParseInt (ae_data e) = Some n" "\<not> IsZero (ae_expiresAt e)"
    and "Before now (ae_expiresAt e)"
  shows "\<exists>e'. ac_map (fst (a_add ctx now key delta opts c)) key = Some e' \<and> ae_counter e'
    \<and> ae_expiresAt e' = ae_expiresAt e
    \<and> ParseInt (ae_data e') = Some (n + (case snd (a_add ctx now key delta opts c) of Inl _ \<Rightarrow> 0 | Inr _ \<Rightarrow> delta))"
proof (cases "ctx = None \<and> cf_MaxCounters (ac_config c) \<noteq> 0 \<and> ValidateKey key = None
    \<and> CounterOptions_Validate opts = None \<and> snd (NormalizedTTL (co_TTL opts)) = None \<and> is_int64 (n + delta)")
  case False
  note lk = lookup_live_entry [OF e(1) Before_not_expired [OF assms(5)]]
  have "\<exists>x. a_add ctx now key delta opts c = (c, Inl x)"
    using False e(3) lk
    by (cases ctx; cases "ValidateKey key"; cases "CounterOptions_Validate opts"; cases "NormalizedTTL (co_TTL opts)")
      (auto simp: a_add_def split: option.split)
  then show ?thesis using e by auto
next
  case True
  note lk = lookup_live_entry [OF e(1) Before_not_expired [OF assms(5)]]
  obtain ttl where ttl: "NormalizedTTL (co_TTL opts) = (ttl, None)" using True by (metis prod.collapse)
  have "a_add ctx now key delta opts c = (a_count key \<lparr>ae_data = FormatInt (n + delta),
      ae_expiresAt = ae_expiresAt e, ae_counter = True\<rparr> c, Inr (n + delta))"
    using True ttl e unfolding a_add_def lk Let_def by simp
  then show ?thesis using True ParseInt_FormatInt [of "n + delta"] by (simp add: a_count_def)
qed


lemma counter_step:
  assumes inv: "store_inv s" and c: "op_in_range c" and at_a: "map_of (cs_values s) key = Some a"
    and e: "ce_counter (cs_objs s a)" "ParseInt (ce_data (cs_objs s a)) = Some n"
      "\<not> IsZero (ce_expiresAt (cs_objs s a))" and sp: "spares key (ce_expiresAt (cs_objs s a)) c"
  shows "\<exists>s' b m. cache_exec encode decode c s = Some s' \<and> store_inv s' \<and> map_of (cs_values s') key = Some b
    \<and> ce_counter (cs_objs s' b) \<and> ce_expiresAt (cs_objs s' b) = ce_expiresAt (cs_objs s a)
    \<and> ParseInt (ce_data (cs_objs s' b)) = Some m
    \<and> (\<forall>cs. n + counted encode decode key (c # cs) s = m + counted encode decode key cs s')"
proof -
  have wf: "store_wf s" using inv by (simp add: store_inv_def)
  let ?c = "abs_store s" and ?e = "view (cs_objs s a)"
  have map: "ac_map ?c key = Some ?e" using at_a by simp
  have "key \<notin> set (ac_order ?c)"
  proof
    assume "key \<in> set (ac_order ?c)"
    then obtain b where "b \<in> live s" "ce_key (cs_objs s b) = key" "\<not> ce_counter (cs_objs s b)"
      using wf by (auto simp: store_wf_def)
    then show False using live_iff(1) [OF wf, of b] at_a e(1) by simp
  qed
  note order = this
  obtain s' where s': "cache_exec encode decode c s = Some s'" "store_inv s'" "abs_store s' = a_exec encode decode c ?c"
    using exec_refines [OF inv c] by blast
  note cnt = counted.simps(2) [of encode decode key c _ s, unfolded s'(1) option.case]
  have "\<exists>e' m. ac_map (abs_store s') key = Some e' \<and> ae_counter e' \<and> ae_expiresAt e' = ce_expiresAt (cs_objs s a)
      \<and> ParseInt (ae_data e') = Some m
      \<and> (\<forall>cs. n + counted encode decode key (c # cs) s = m + counted encode decode key cs s')"
  proof (cases c)
    case (AddCall ctx now k delta opts)
    have bef: "Before now (ae_expiresAt ?e)" using sp AddCall by simp
    obtain t r where add: "cache_Add ctx now k delta opts s = Some (t, r)" "a_add ctx now k delta opts ?c = (abs_store t, r)"
      using Add_refines [OF inv, of delta ctx now k opts] c AddCall by (auto simp: refines_def)
    have st: "t = s'" using s'(1) add(1) AddCall by simp
    show ?thesis
    proof (cases "k = key")
      case True
      obtain e' where "ac_map (abs_store s') key = Some e'" "ae_counter e'" "ae_expiresAt e' = ce_expiresAt (cs_objs s a)"
        "ParseInt (ae_data e') = Some (n + (case r of Inl _ \<Rightarrow> 0 | Inr _ \<Rightarrow> delta))"
        using add_counts [OF map _ _ _ bef, of n ctx delta opts] e add(2) st True by auto
      then show ?thesis using AddCall add(1) st True cnt
        by (intro exI [of _ e'] exI [of _ "n + (case r of Inl _ \<Rightarrow> 0 | Inr _ \<Rightarrow> delta)"])
          (simp del: abs_store_sel counted.simps split: sum.split)
    next
      case False
      then have "ac_map (abs_store s') key = Some ?e"
        using add_other_spares [OF map bef False, of ctx delta opts] add(2) st by simp
      then show ?thesis using AddCall add(1) st False cnt e
        by (intro exI [of _ ?e] exI [of _ n]) (simp del: abs_store_sel counted.simps split: sum.split)
    qed
  next
    case (GetCall ctx now k)
    then have "ac_map (abs_store s') key = Some ?e"
      using get_spares [OF map, of now decode ctx k] sp unfolding s'(3) by simp
    then show ?thesis using GetCall cnt e by (intro exI [of _ ?e] exI [of _ n]) (simp del: abs_store_sel counted.simps)
  next
    case (SetCall ctx now now' k v opts)
    then have "ac_map (abs_store s') key = Some ?e"
      using set_spares [OF map order, of k encode ctx now now' v opts] sp unfolding s'(3) by simp
    then show ?thesis using SetCall cnt e by (intro exI [of _ ?e] exI [of _ n]) (simp del: abs_store_sel counted.simps)
  next
    case (DeleteCall ctx k)
    then have "ac_map (abs_store s') key = Some ?e"
      using sp map unfolding s'(3) by (simp add: a_delete_def a_drop_def split: option.split)
    then show ?thesis using DeleteCall cnt e by (intro exI [of _ ?e] exI [of _ n]) (simp del: abs_store_sel counted.simps)
  next
    case (PurgeCall ctx)
    then have "ac_map (abs_store s') key = Some ?e"
      using sp map unfolding s'(3) by (auto simp: a_purge_def)
    then show ?thesis using PurgeCall cnt e by (intro exI [of _ ?e] exI [of _ n]) (simp del: abs_store_sel counted.simps)
  qed
  then show ?thesis using s'(1,2) by (auto simp: view_def)
qed

text \<open>C39. A counter is never pushed out.  Let the store hold a live counter with a deadline.  Then
  after every sequence of reads, writes and deletions of other keys, additions to any key, at
  clock readings before the deadline, whatever the pressure on the bounds, the counter is still
  there with the same deadline, and its value is the old one plus exactly the accepted
  additions: the window is fixed and the count is exact.\<close>

theorem counter_window:
  assumes "store_inv s" and "list_all op_in_range calls" and "map_of (cs_values s) key = Some a"
    and "ce_counter (cs_objs s a)" and "ParseInt (ce_data (cs_objs s a)) = Some n"
    and "\<not> IsZero (ce_expiresAt (cs_objs s a))" and "list_all (spares key (ce_expiresAt (cs_objs s a))) calls"
  shows "\<exists>s' b. cache_run encode decode calls s = Some s' \<and> map_of (cs_values s') key = Some b
    \<and> ce_counter (cs_objs s' b) \<and> ce_expiresAt (cs_objs s' b) = ce_expiresAt (cs_objs s a)
    \<and> ParseInt (ce_data (cs_objs s' b)) = Some (n + counted encode decode key calls s)"
  using assms
proof (induction calls arbitrary: s a n)
  case Nil
  then show ?case by simp
next
  case (Cons c cs)
  obtain s1 b m where s1: "cache_exec encode decode c s = Some s1" "store_inv s1" "map_of (cs_values s1) key = Some b"
    "ce_counter (cs_objs s1 b)" "ce_expiresAt (cs_objs s1 b) = ce_expiresAt (cs_objs s a)"
    "ParseInt (ce_data (cs_objs s1 b)) = Some m"
    "\<forall>cs. n + counted encode decode key (c # cs) s = m + counted encode decode key cs s1"
    using counter_step [of s c key a n encode decode] Cons.prems by auto
  then show ?case using Cons.IH [of s1 b m] Cons.prems by (simp del: counted.simps)
qed


section \<open>Least recently used first\<close>

lemma remove1_last: "distinct xs \<Longrightarrow> xs \<noteq> [] \<Longrightarrow> remove1 (last xs) xs = butlast xs"
  by (cases xs rule: rev_cases) (simp_all add: remove1_append)

lemma evict_oldest_lru:
  assumes "store_wf s" and "evict_oldest s = Some s'"
  shows "\<exists>n \<le> length (cs_recency s). cs_recency s' = take n (cs_recency s) \<and> live s' = live s - set (drop n (cs_recency s))
    \<and> (\<forall>m. n < m \<and> m \<le> length (cs_recency s) \<longrightarrow> int m > cf_MaxEntries (cs_config s)
        \<or> (\<Sum>a\<leftarrow>take m (cs_recency s). entry_bytes (cs_objs s a)) > cf_MaxBytes (cs_config s))"
  using assms
proof (induction "length (cs_recency s)" arbitrary: s rule: less_induct)
  case less
  let ?r = "cs_recency s"
  show ?case
  proof (cases "over_bounds s \<and> ?r \<noteq> []")
    case False
    then have "s' = s" using less.prems(2) by (auto simp: evict_oldest.simps [of s] split: if_splits)
    then show ?thesis by (intro exI [of _ "length ?r"]) simp
  next
    case True
    have a: "last ?r \<in> set ?r" using True by simp
    have live: "last ?r \<in> live s" using a less.prems(1) by (auto simp: store_wf_def)
    obtain s1 where s1: "removeLocked (last ?r) s = Some s1" "removes (last ?r) s s1"
      using removeLocked_removes [OF less.prems(1) live] by blast
    note d = removes_drops [OF less.prems(1) live s1(2)]
    have dist: "distinct ?r" using less.prems(1) by (simp add: store_wf_def)
    have r: "?r = butlast ?r @ [last ?r]" using True by simp
    have rec1: "cs_recency s1 = butlast ?r"
      using s1(2) remove1_last [OF dist] True by (simp add: removes_def)
    have wf1: "store_wf s1" and cfg: "cs_config s1 = cs_config s" using d by (simp_all add: drops_def)
    have run: "evict_oldest s1 = Some s'" using less.prems(2) True s1(1) by (simp add: evict_oldest.simps [of s])
    have "length (cs_recency s1) < length ?r" using rec1 True by simp
    from less.hyps [OF this wf1 run] obtain n where n: "n \<le> length (cs_recency s1)"
      "cs_recency s' = take n (cs_recency s1)" "live s' = live s1 - set (drop n (cs_recency s1))"
      "\<forall>m. n < m \<and> m \<le> length (cs_recency s1) \<longrightarrow> int m > cf_MaxEntries (cs_config s1)
        \<or> (\<Sum>a\<leftarrow>take m (cs_recency s1). entry_bytes (cs_objs s1 a)) > cf_MaxBytes (cs_config s1)" by blast
    have len: "length (butlast ?r) = length ?r - 1" by simp
    have take_same: "take m (butlast ?r) = take m ?r" if "m \<le> length ?r - 1" for m
      using that by (simp add: butlast_conv_take)
    have "drop n ?r = drop n (butlast ?r) @ [last ?r]"
      using n(1) rec1 r by (metis drop_append diff_is_0_eq drop0)
    then have "live s' = live s - set (drop n ?r)" using n(3) d rec1 by (auto simp: drops_def)
    moreover have "int m > cf_MaxEntries (cs_config s) \<or> (\<Sum>a\<leftarrow>take m ?r. entry_bytes (cs_objs s a)) > cf_MaxBytes (cs_config s)"
      if "n < m" "m \<le> length ?r" for m
    proof (cases "m = length ?r")
      case full: True
      then show ?thesis using True value_count_recency [OF less.prems(1)] less.prems(1)
        by (simp add: over_bounds_def store_wf_def)
    next
      case False
      then have "m \<le> length ?r - 1" using that by simp
      then show ?thesis using n(4) [rule_format, of m] that rec1 take_same [of m] cfg
        by (simp add: drops_sel(5) [OF d])
    qed
    ultimately show ?thesis using n(1,2) rec1 take_same [of n] by (intro exI [of _ n]) auto
  qed
qed

text \<open>C40. Eviction is exact.  Within the bounds nothing is evicted.  Otherwise the expired values go
  first, and of the remaining ones exactly a least recently used suffix: keeping one more would
  exceed the entry or the byte bound.  Counters are never evicted.\<close>

theorem evictLocked_lru:
  assumes "store_wf s" and "kept = (if over_bounds s then filter (\<lambda>a. \<not> expired (cs_objs s a) now) (cs_recency s) else cs_recency s)"
  shows "\<exists>s' n. evictLocked now s = Some s' \<and> \<not> over_bounds s' \<and> n \<le> length kept \<and> cs_recency s' = take n kept
    \<and> (\<forall>m. n < m \<and> m \<le> length kept \<longrightarrow> int m > cf_MaxEntries (cs_config s)
        \<or> (\<Sum>a\<leftarrow>take m kept. int (length (ce_key (cs_objs s a)) + length (ce_data (cs_objs s a)))) > cf_MaxBytes (cs_config s))
    \<and> (\<forall>a \<in> live s. ce_counter (cs_objs s a) \<longrightarrow> a \<in> live s')"
proof (cases "over_bounds s")
  case False
  then show ?thesis using assms by (intro exI [of _ s] exI [of _ "length kept"]) (simp add: evictLocked_def)
next
  case True
  let ?D = "{a \<in> set (cs_recency s). expired (cs_objs s a) now}"
  have "distinct (cs_recency s)" using assms(1) by (simp add: store_wf_def)
  then obtain s1 where s1: "evict_expired now (rev (cs_recency s)) s = Some s1" "drops ?D s s1"
    using evict_expired_drops [OF assms(1), of "rev (cs_recency s)" now] by auto
  have wf1: "store_wf s1" and cfg: "cs_config s1 = cs_config s" using s1 by (simp_all add: drops_def)
  obtain s' D where s': "evict_oldest s1 = Some s'" "drops D s1 s'" "\<not> over_bounds s'"
    using evict_oldest_trims [OF wf1] by blast
  have rec1: "cs_recency s1 = kept"
    using s1(2) True assms(2) by (auto simp: drops_def intro!: filter_cong)
  obtain n where n: "n \<le> length kept" "cs_recency s' = take n kept" "live s' = live s1 - set (drop n kept)"
    "\<forall>m. n < m \<and> m \<le> length kept \<longrightarrow> int m > cf_MaxEntries (cs_config s1)
        \<or> (\<Sum>a\<leftarrow>take m kept. entry_bytes (cs_objs s1 a)) > cf_MaxBytes (cs_config s1)"
    using evict_oldest_lru [OF wf1 s'(1)] unfolding rec1 by blast
  have "a \<in> live s'" if "a \<in> live s" "ce_counter (cs_objs s a)" for a
  proof -
    have "a \<notin> set (cs_recency s)" using assms(1) that by (simp add: store_wf_def)
    moreover have "set (drop n kept) \<subseteq> set (cs_recency s)" using assms(2) set_drop_subset [of n kept] by (auto split: if_splits)
    ultimately show ?thesis using that n(3) s1(2) by (auto simp: drops_def)
  qed
  moreover have "evictLocked now s = Some s'" using True s1(1) s'(1) by (simp add: evictLocked_def)
  moreover have "(\<Sum>a\<leftarrow>take m kept. entry_bytes (cs_objs s1 a))
      = (\<Sum>a\<leftarrow>take m kept. int (length (ce_key (cs_objs s a)) + length (ce_data (cs_objs s a))))" for m
    by (simp add: drops_sel(5) [OF s1(2)]) (simp add: entry_bytes_def)
  ultimately show ?thesis using n s'(3) cfg by (intro exI [of _ s'] exI [of _ n]) simp
qed


section \<open>Instances\<close>

definition sample_config :: Config where
  "sample_config = \<lparr>cf_MaxEntries = 2, cf_MaxBytes = 64, cf_MaxCounters = 1\<rparr>"

definition sample_store :: store where
  "sample_store = \<lparr>cs_objs = (\<lambda>_. no_entry), cs_next = 0, cs_values = [], cs_recency = [],
     cs_retainedBytes = 0, cs_counters = 0, cs_expiries = [], cs_config = sample_config\<rparr>"

lemma sample_New: "cache_New [sample_config] = Inr sample_store"
  by (simp add: cache_New_def Config_validate_def sample_config_def sample_store_def)

lemma sample_inv: "store_inv sample_store"
  using New_inv [OF sample_New] by (simp add: sample_config_def maxInt64_def)

lemma sample_key: "ValidateKey ''k'' = None"
  by (simp add: ValidateKey_def validateIdentifier_def MaximumKeyBytes_def ascii_eval IsControl_def)

definition sample_options :: SetOptions where
  "sample_options = \<lparr>so_TTL = 5000000, so_Condition = SetAlways\<rparr>"

lemma sample_ttl: "NormalizedTTL 5000000 = (5000000, None)"
  by (simp add: NormalizedTTL_def)

theorem cache_refinement_witness:
  "refines (cache_Get (Inr :: string \<Rightarrow> string + string) None (sample_instant 1) ''k'' sample_store)
     (a_get Inr None (sample_instant 1) ''k'' (abs_store sample_store))"
proof -
  have "is_int64 1" by (simp add: is_int64_def minInt64_def maxInt64_def)
  from conjunct1 [OF cache_refinement [OF sample_inv this]] show ?thesis .
qed

theorem cache_runs_bounded_witness:
  "\<exists>s'. cache_run (Inr :: string \<Rightarrow> string + string) Inr
       [SetCall None (sample_instant 1) (sample_instant 1) ''k'' ''v'' sample_options] sample_store = Some s'
     \<and> int (length (cs_recency s')) \<le> 2"
  using cache_runs_bounded [OF sample_New, of "[SetCall None (sample_instant 1) (sample_instant 1) ''k'' ''v'' sample_options]" Inr Inr]
  by (auto simp: sample_config_def maxInt64_def)

lemma sample_Set:
  "\<exists>s'. cache_Set Inr None (sample_instant 1) (sample_instant 1) ''k'' ''v'' sample_options sample_store = Some (s', None)"
  by (simp add: cache_Set_def sample_key SetOptions_Validate_def sample_options_def sample_ttl lookup_live_def
      sample_store_def sample_config_def Let_def evictLocked_def set_entry_def over_bounds_def value_count_def
      wrap64_id is_int64_def minInt64_def maxInt64_def)

theorem cache_Set_Get_witness:
  "\<exists>s' s''. cache_Set Inr None (sample_instant 1) (sample_instant 1) ''k'' ''v'' sample_options sample_store = Some (s', None)
     \<and> cache_Get Inr None (sample_instant 4) ''k'' s' = Some (s'', Inr ''v'')"
proof -
  obtain s' where s': "cache_Set Inr None (sample_instant 1) (sample_instant 1) ''k'' ''v'' sample_options sample_store = Some (s', None)"
    using sample_Set by blast
  from cache_Set_Get [OF sample_inv this, of Inr "sample_instant 4"] s' show ?thesis
    by (auto simp: sample_options_def is_int64_def minInt64_def maxInt64_def)
qed

definition counter_options :: CounterOptions where
  "counter_options = \<lparr>co_TTL = 5000000\<rparr>"

definition counter_store :: store where
  "counter_store = create_counter ''k'' (FormatInt 1) (deadline (sample_instant 1) 5000000) sample_store"

lemma counter_store_facts:
  "store_inv counter_store" "map_of (cs_values counter_store) ''k'' = Some 0"
  "ce_counter (cs_objs counter_store 0)" "ParseInt (ce_data (cs_objs counter_store 0)) = Some 1"
  "ce_expiresAt (cs_objs counter_store 0) = deadline (sample_instant 1) 5000000"
proof -
  have wf: "store_wf sample_store" using sample_inv by (simp add: store_inv_def)
  note w = create_counter_new [OF wf _ _ counter_store_def]
  have "map_of (cs_values sample_store) ''k'' = None" "cs_counters sample_store < cf_MaxCounters (cs_config sample_store)"
    by (simp_all add: sample_store_def sample_config_def)
  note w = w [OF this]
  show "store_inv counter_store" using w sample_inv by (simp add: store_inv_def)
  have vals: "cs_values counter_store = [(''k'', 0)]"
    by (simp add: counter_store_def create_counter_def sample_store_def Let_def split: prod.split)
  then show "map_of (cs_values counter_store) ''k'' = Some 0" by simp
  have "ac_map (abs_store counter_store) ''k'' = Some \<lparr>ae_data = FormatInt 1,
      ae_expiresAt = deadline (sample_instant 1) 5000000, ae_counter = True\<rparr>"
    using w by (simp add: a_count_def del: abs_store_sel)
  then have "view (cs_objs counter_store 0) = \<lparr>ae_data = FormatInt 1,
      ae_expiresAt = deadline (sample_instant 1) 5000000, ae_counter = True\<rparr>" using vals by simp
  then show "ce_counter (cs_objs counter_store 0)" "ParseInt (ce_data (cs_objs counter_store 0)) = Some 1"
    "ce_expiresAt (cs_objs counter_store 0) = deadline (sample_instant 1) 5000000"
    using ParseInt_FormatInt [of 1] by (simp_all add: view_def is_int64_def minInt64_def maxInt64_def)
qed

theorem counter_window_witness:
  "\<exists>s' b. cache_run (Inr :: string \<Rightarrow> string + string) Inr
        [SetCall None (sample_instant 2) (sample_instant 2) ''x'' ''v'' sample_options, GetCall None (sample_instant 3) ''k'']
        counter_store = Some s'
     \<and> map_of (cs_values s') ''k'' = Some b \<and> ParseInt (ce_data (cs_objs s' b)) = Some 1"
proof -
  let ?calls = "[SetCall None (sample_instant 2) (sample_instant 2) ''x'' ''v'' sample_options, GetCall None (sample_instant 3) ''k'']"
  have "counted (Inr :: string \<Rightarrow> string + string) Inr ''k'' ?calls counter_store = 0"
    by (simp split: option.split)
  then show ?thesis
    using counter_window [OF counter_store_facts(1) _ counter_store_facts(2-4), of ?calls Inr Inr]
    by (fastforce simp: counter_store_facts(5) deadline_def time_ops simp del: cache_run.simps counted.simps)
qed

theorem evictLocked_lru_witness: "\<exists>s'. evictLocked (sample_instant 1) sample_store = Some s' \<and> cs_recency s' = []"
proof -
  have "store_wf sample_store" using sample_inv by (simp add: store_inv_def)
  moreover have "[] = (if over_bounds sample_store then filter (\<lambda>a. \<not> expired (cs_objs sample_store a) (sample_instant 1))
      (cs_recency sample_store) else cs_recency sample_store)" by (simp add: sample_store_def)
  ultimately show ?thesis using evictLocked_lru [of sample_store "[]" "sample_instant 1"] by auto
qed

end
