(* ===== verification/Json.thy ===== *)
theory Json
  imports Text
begin

text \<open>
  Go's \<^verbatim>\<open>json.Valid\<close>: the byte scanner of \<^verbatim>\<open>encoding/json\<close> as a pushdown automaton, with its
  stack of open containers and its nesting limit.  Bytes above the controls are accepted inside
  strings without decoding, as the scanner does.
\<close>

datatype json_context = ParseObjectKey | ParseObjectValue | ParseArrayValue

datatype json_state =
    BeginValueOrEmpty
  | BeginValue
  | BeginStringOrEmpty
  | BeginString
  | EndValue
  | EndTop
  | InString
  | InStringEsc
  | InStringEscU nat
  | NumNeg
  | Num1
  | Num0
  | NumDot
  | NumDot0
  | NumE
  | NumESign
  | NumE0
  | InLiteral string

type_synonym json_scanner = "json_state \<times> json_context list"

definition maxNestingDepth :: nat where "maxNestingDepth = 10000"

definition json_space :: "char \<Rightarrow> bool" where
  "json_space c \<longleftrightarrow> c = CHR '' '' \<or> c = CHR 0x09 \<or> c = CHR 0x0D \<or> c = CHR 0x0A"

definition json_digit :: "char \<Rightarrow> bool" where
  "json_digit c \<longleftrightarrow> CHR ''0'' \<le> c \<and> c \<le> CHR ''9''"

definition push_context :: "json_context \<Rightarrow> json_state \<Rightarrow> json_context list \<Rightarrow> json_scanner option" where
  "push_context k st stack = (if length stack + 1 \<le> maxNestingDepth then Some (st, k # stack) else None)"

definition pop_context :: "json_context list \<Rightarrow> json_scanner" where
  "pop_context stack = (case stack of [] \<Rightarrow> (EndTop, []) | [_] \<Rightarrow> (EndTop, []) | _ # rest \<Rightarrow> (EndValue, rest))"

fun end_value :: "json_context list \<Rightarrow> char \<Rightarrow> json_scanner option" where
  "end_value [] c = (if json_space c then Some (EndTop, []) else None)"
| "end_value (k # rest) c =
     (if json_space c then Some (EndValue, k # rest)
      else case k of
        ParseObjectKey \<Rightarrow> if c = CHR '':'' then Some (BeginValue, ParseObjectValue # rest) else None
      | ParseObjectValue \<Rightarrow>
          if c = CHR '','' then Some (BeginString, ParseObjectKey # rest)
          else if c = CHR ''}'' then Some (pop_context (k # rest)) else None
      | ParseArrayValue \<Rightarrow>
          if c = CHR '','' then Some (BeginValue, k # rest)
          else if c = CHR '']'' then Some (pop_context (k # rest)) else None)"

definition begin_string :: "json_context list \<Rightarrow> json_state \<Rightarrow> char \<Rightarrow> json_scanner option" where
  "begin_string stack here c =
     (if json_space c then Some (here, stack)
      else if c = CHR 0x22 then Some (InString, stack) else None)"

definition begin_value :: "json_context list \<Rightarrow> json_state \<Rightarrow> char \<Rightarrow> json_scanner option" where
  "begin_value stack here c =
     (if json_space c then Some (here, stack)
      else if c = CHR ''{'' then push_context ParseObjectKey BeginStringOrEmpty stack
      else if c = CHR ''['' then push_context ParseArrayValue BeginValueOrEmpty stack
      else if c = CHR 0x22 then Some (InString, stack)
      else if c = CHR ''-'' then Some (NumNeg, stack)
      else if c = CHR ''0'' then Some (Num0, stack)
      else if c = CHR ''t'' then Some (InLiteral ''rue'', stack)
      else if c = CHR ''f'' then Some (InLiteral ''alse'', stack)
      else if c = CHR ''n'' then Some (InLiteral ''ull'', stack)
      else if json_digit c then Some (Num1, stack)
      else None)"

definition num_0 :: "json_context list \<Rightarrow> char \<Rightarrow> json_scanner option" where
  "num_0 stack c = (if c = CHR ''.'' then Some (NumDot, stack)
     else if c = CHR ''e'' \<or> c = CHR ''E'' then Some (NumE, stack) else end_value stack c)"

definition num_e_sign :: "json_context list \<Rightarrow> char \<Rightarrow> json_scanner option" where
  "num_e_sign stack c = (if json_digit c then Some (NumE0, stack) else None)"

fun json_step :: "char \<Rightarrow> json_scanner \<Rightarrow> json_scanner option" where
  "json_step c (BeginValueOrEmpty, stack) =
     (if json_space c then Some (BeginValueOrEmpty, stack)
      else if c = CHR '']'' then end_value stack c else begin_value stack BeginValue c)"
| "json_step c (BeginValue, stack) = begin_value stack BeginValue c"
| "json_step c (BeginStringOrEmpty, stack) =
     (if json_space c then Some (BeginStringOrEmpty, stack)
      else if c = CHR ''}'' then end_value (case stack of [] \<Rightarrow> [] | _ # r \<Rightarrow> ParseObjectValue # r) c
      else begin_string stack BeginString c)"
| "json_step c (BeginString, stack) = begin_string stack BeginString c"
| "json_step c (EndValue, stack) = end_value stack c"
| "json_step c (EndTop, stack) = (if json_space c then Some (EndTop, stack) else None)"
| "json_step c (InString, stack) =
     (if c = CHR 0x22 then Some (EndValue, stack)
      else if c = CHR 0x5C then Some (InStringEsc, stack)
      else if c < CHR 0x20 then None else Some (InString, stack))"
| "json_step c (InStringEsc, stack) =
     (if c \<in> {CHR ''b'', CHR ''f'', CHR ''n'', CHR ''r'', CHR ''t'', CHR 0x5C, CHR ''/'', CHR 0x22} then Some (InString, stack)
      else if c = CHR ''u'' then Some (InStringEscU 4, stack) else None)"
| "json_step c (InStringEscU n, stack) =
     (if is_hex c then Some (if n \<le> 1 then InString else InStringEscU (n - 1), stack) else None)"
| "json_step c (NumNeg, stack) =
     (if c = CHR ''0'' then Some (Num0, stack) else if json_digit c then Some (Num1, stack) else None)"
| "json_step c (Num1, stack) = (if json_digit c then Some (Num1, stack) else num_0 stack c)"
| "json_step c (Num0, stack) = num_0 stack c"
| "json_step c (NumDot, stack) = (if json_digit c then Some (NumDot0, stack) else None)"
| "json_step c (NumDot0, stack) =
     (if json_digit c then Some (NumDot0, stack)
      else if c = CHR ''e'' \<or> c = CHR ''E'' then Some (NumE, stack) else end_value stack c)"
| "json_step c (NumE, stack) =
     (if c = CHR ''+'' \<or> c = CHR ''-'' then Some (NumESign, stack) else num_e_sign stack c)"
| "json_step c (NumESign, stack) = num_e_sign stack c"
| "json_step c (NumE0, stack) = (if json_digit c then Some (NumE0, stack) else end_value stack c)"
| "json_step c (InLiteral w, stack) =
     (case w of [] \<Rightarrow> None
      | d # ds \<Rightarrow> if c = d then Some (if ds = [] then EndValue else InLiteral ds, stack) else None)"

fun json_scan :: "json_scanner \<Rightarrow> string \<Rightarrow> json_scanner option" where
  "json_scan st [] = Some st"
| "json_scan st (c # cs) = (case json_step c st of None \<Rightarrow> None | Some st' \<Rightarrow> json_scan st' cs)"

text \<open>At the end of the input the scanner is fed one space and must have reached the top level.\<close>

definition json_Valid :: "string \<Rightarrow> bool" where
  "json_Valid data = (case json_scan (BeginValue, []) data of
       None \<Rightarrow> False
     | Some st \<Rightarrow> (case json_step CHR '' '' st of None \<Rightarrow> False | Some (st', _) \<Rightarrow> st' = EndTop))"

end
