(* ===== verification/Job.thy ===== *)
theory Job
  imports Json Instants Sha256
begin

text \<open>
  \<^verbatim>\<open>server/model/job.go\<close>: durable jobs and their attempts.  Methods take the receiver
  pointer and return a pointer to a changed copy together with an error; a copy that does not
  validate is returned with its error, and the callers store a result only when the error is nil
  (\<open>job_exec\<close>, \<open>job_attempt_exec\<close>).
\<close>

section \<open>Data\<close>

definition JobMaximumDocumentBytes :: nat where "JobMaximumDocumentBytes = 65536"

datatype JobStatus =
    JobStatusQueued
  | JobStatusRunning
  | JobStatusCancelRequested
  | JobStatusSucceeded
  | JobStatusFailed
  | JobStatusCanceled
  | JobStatusOther string

datatype JobAttemptStatus =
    JobAttemptStatusRunning
  | JobAttemptStatusSucceeded
  | JobAttemptStatusFailed
  | JobAttemptStatusCanceled
  | JobAttemptStatusLeaseExpired
  | JobAttemptStatusIncompatible
  | JobAttemptStatusOther string

datatype JobDedupePolicy =
    JobDedupeActive
  | JobDedupePermanent
  | JobDedupeOther string

datatype JobType =
    JobTypeProfilePictureGenerateDefault
  | JobTypeProfilePictureReconcile
  | JobTypeFilePurgeExpiredContent
  | JobTypeCleanup
  | JobTypeRetentionReconcile
  | JobTypeRetentionPurge
  | JobTypeRetentionNotices
  | JobTypeRetentionExpire
  | JobTypeCommandOutcomeCleanup
  | JobTypeAuditAttemptSweep
  | JobTypeSessionPurgeRetired
  | JobTypeExamSittingLifecycle
  | JobTypeExamSittingLifecycleRecovery
  | JobTypeExamSittingSealing
  | JobTypeMailDeliver
  | JobTypeMailDeliverCredential
  | JobTypeMailCleanup
  | JobTypeMailRekey
  | JobTypeMFARekey
  | JobTypeMailExpandSitting
  | JobTypeInvitationMaintenance
  | JobTypeOnboardingImportParse
  | JobTypeOnboardingImportExecute
  | JobTypeStudentProgressionPreview
  | JobTypeExamExportBuild
  | JobTypeExamExportCleanup
  | JobTypeOther string

record JobProgress =
  jp_Current :: int
  jp_Total :: int
  jp_Stage :: string

record Job =
  jb_ID :: string
  jb_Type :: JobType
  jb_Status :: JobStatus
  jb_CreatedAt :: gtime
  jb_UpdatedAt :: gtime
  jb_AvailableAt :: gtime
  jb_StartedAt :: optional_time
  jb_CompletedAt :: optional_time
  jb_Command :: string
  jb_Checkpoint :: string
  jb_Result :: string
  jb_PublicErrorCode :: string
  jb_DedupeKey :: string
  jb_DedupePolicy :: JobDedupePolicy
  jb_AttemptCount :: int
  jb_MaximumAttempts :: int
  jb_WorkReserved :: int
  jb_Progress :: "JobProgress option"
  jb_Revision :: int

record JobAttempt =
  ja_ID :: string
  ja_JobID :: string
  ja_Number :: int
  ja_Status :: JobAttemptStatus
  ja_NodeID :: string
  ja_ClaimToken :: string
  ja_StartedAt :: gtime
  ja_HeartbeatAt :: gtime
  ja_LeaseExpiresAt :: gtime
  ja_CompletedAt :: optional_time
  ja_PublicErrorCode :: string

section \<open>Validation\<close>

definition jobTypes :: "JobType list" where
  "jobTypes = [
     JobTypeProfilePictureGenerateDefault, JobTypeProfilePictureReconcile, JobTypeFilePurgeExpiredContent,
     JobTypeCleanup, JobTypeRetentionReconcile, JobTypeRetentionPurge, JobTypeRetentionNotices,
     JobTypeRetentionExpire, JobTypeCommandOutcomeCleanup, JobTypeAuditAttemptSweep, JobTypeSessionPurgeRetired,
     JobTypeExamSittingLifecycle, JobTypeExamSittingLifecycleRecovery, JobTypeExamSittingSealing,
     JobTypeMailDeliver, JobTypeMailDeliverCredential, JobTypeMailCleanup, JobTypeMailRekey, JobTypeMFARekey,
     JobTypeMailExpandSitting, JobTypeInvitationMaintenance, JobTypeOnboardingImportParse,
     JobTypeOnboardingImportExecute, JobTypeStudentProgressionPreview, JobTypeExamExportBuild,
     JobTypeExamExportCleanup]"

definition jobStatuses :: "JobStatus list" where
  "jobStatuses = [JobStatusQueued, JobStatusRunning, JobStatusCancelRequested, JobStatusSucceeded,
     JobStatusFailed, JobStatusCanceled]"

definition JobType_IsValid :: "JobType \<Rightarrow> bool" where
  "JobType_IsValid t \<longleftrightarrow> List.member jobTypes t"

definition JobStatus_IsValid :: "JobStatus \<Rightarrow> bool" where
  "JobStatus_IsValid s \<longleftrightarrow> List.member jobStatuses s"

definition validJobDedupePolicy :: "JobDedupePolicy \<Rightarrow> bool" where
  "validJobDedupePolicy policy \<longleftrightarrow> policy = JobDedupeActive \<or> policy = JobDedupePermanent"

definition validJobAttemptStatus :: "JobAttemptStatus \<Rightarrow> bool" where
  "validJobAttemptStatus s \<longleftrightarrow> s = JobAttemptStatusRunning \<or> s = JobAttemptStatusSucceeded
     \<or> s = JobAttemptStatusFailed \<or> s = JobAttemptStatusCanceled \<or> s = JobAttemptStatusLeaseExpired
     \<or> s = JobAttemptStatusIncompatible"

text \<open>The regular expressions \<^verbatim>\<open>^[a-z][a-z0-9_.-]{0,127}$\<close> and \<^verbatim>\<open>^[a-z][a-z0-9_.-]{0,63}$\<close>.\<close>

definition safe_char :: "char \<Rightarrow> bool" where
  "safe_char c \<longleftrightarrow> lower_alnum c \<or> c = CHR ''_'' \<or> c = CHR ''.'' \<or> c = CHR ''-''"

definition safe_word :: "nat \<Rightarrow> string \<Rightarrow> bool" where
  "safe_word n s = (case s of [] \<Rightarrow> False
     | c # cs \<Rightarrow> CHR ''a'' \<le> c \<and> c \<le> CHR ''z'' \<and> length cs \<le> n \<and> list_all safe_char cs)"

definition jobSafeCode :: "string \<Rightarrow> bool" where
  "jobSafeCode = safe_word 127"

definition jobSafeStage :: "string \<Rightarrow> bool" where
  "jobSafeStage = safe_word 63"

definition validJobDocument :: "string \<Rightarrow> bool \<Rightarrow> bool" where
  "validJobDocument value optional =
     (if length value = 0 then optional
      else length value \<le> JobMaximumDocumentBytes \<and> json_Valid value)"

definition validPublicJobCode :: "string \<Rightarrow> bool" where
  "validPublicJobCode value \<longleftrightarrow> value = '''' \<or> jobSafeCode value"

definition validJobProgress :: "JobProgress option \<Rightarrow> bool" where
  "validJobProgress value = (case value of None \<Rightarrow> True
     | Some p \<Rightarrow> 0 \<le> jp_Current p \<and> 0 < jp_Total p \<and> jp_Current p \<le> jp_Total p \<and> jobSafeStage (jp_Stage p))"

definition JobClaimToken_IsValid :: "string \<Rightarrow> bool" where
  "JobClaimToken_IsValid t = (if length t \<noteq> 64 then False else hex_decodes t)"

text \<open>The random bytes are an argument.\<close>

definition NewJobClaimToken :: "nat list \<Rightarrow> string" where
  "NewJobClaimToken bytes = hex_encode bytes"

definition cloneJSON :: "string \<Rightarrow> string" where
  "cloneJSON value = [] @ value"

definition Job_Validate :: "Job option \<Rightarrow> go_error option" where
  "Job_Validate receiver = (case receiver of
       None \<Rightarrow> Some (invalidModelError ''Job.Validate'' ''job'' '''' ''invalid job'' '''')
     | Some j \<Rightarrow>
         if \<not> IsValidOpaqueID (jb_ID j) \<or> \<not> JobType_IsValid (jb_Type j) \<or> \<not> JobStatus_IsValid (jb_Status j)
            \<or> IsZero (jb_CreatedAt j) \<or> Before (jb_UpdatedAt j) (jb_CreatedAt j) \<or> IsZero (jb_AvailableAt j)
            \<or> \<not> validJobDocument (jb_Command j) False \<or> length (jb_DedupeKey j) = 0
            \<or> length (jb_DedupeKey j) > 255 \<or> \<not> validJobDedupePolicy (jb_DedupePolicy j)
            \<or> jb_AttemptCount j < 0 \<or> jb_MaximumAttempts j \<le> 0
            \<or> jb_AttemptCount j > jb_MaximumAttempts j \<or> jb_WorkReserved j < 0 \<or> jb_Revision j \<le> 0 then
           Some (invalidModelError ''Job.Validate'' ''job'' '''' ''invalid job'' '''')
         else if \<not> validJobDocument (jb_Checkpoint j) True \<or> \<not> validJobDocument (jb_Result j) True
            \<or> \<not> validPublicJobCode (jb_PublicErrorCode j) \<or> \<not> validJobProgress (jb_Progress j) then
           Some (invalidModelError ''Job.Validate'' ''job'' '''' ''invalid job result state'' '''')
         else
           let terminal = (jb_Status j = JobStatusSucceeded \<or> jb_Status j = JobStatusFailed
                 \<or> jb_Status j = JobStatusCanceled)
           in if terminal \<noteq> ot_Valid (jb_CompletedAt j)
                 \<or> (jb_Status j = JobStatusRunning \<and> jb_AttemptCount j = 0) then
                Some (invalidModelError ''Job.Validate'' ''job'' '''' ''invalid job lifecycle'' '''')
              else None)"

section \<open>Operations\<close>

text \<open>\<^verbatim>\<open>return &result, result.Validate()\<close>\<close>

definition validated :: "('s option \<Rightarrow> go_error option) \<Rightarrow> 's \<Rightarrow> 's option \<times> go_error option" where
  "validated validate result = (Some result, validate (Some result))"

definition NewJobWithDedupePolicy ::
    "string \<Rightarrow> JobType \<Rightarrow> string \<Rightarrow> string \<Rightarrow> JobDedupePolicy \<Rightarrow> gtime \<Rightarrow> gtime \<Rightarrow> int
     \<Rightarrow> Job option \<times> go_error option" where
  "NewJobWithDedupePolicy ident jobType command dedupeKey dedupePolicy createdAt availableAt maximumAttempts =
     (let job = \<lparr>jb_ID = ident, jb_Type = jobType, jb_Status = JobStatusQueued,
            jb_CreatedAt = TimeUTC createdAt, jb_UpdatedAt = TimeUTC createdAt,
            jb_AvailableAt = TimeUTC availableAt, jb_StartedAt = no_time, jb_CompletedAt = no_time,
            jb_Command = cloneJSON command, jb_Checkpoint = '''', jb_Result = '''',
            jb_PublicErrorCode = '''', jb_DedupeKey = TrimSpace dedupeKey, jb_DedupePolicy = dedupePolicy,
            jb_AttemptCount = 0, jb_MaximumAttempts = maximumAttempts, jb_WorkReserved = 0,
            jb_Progress = None, jb_Revision = 1\<rparr>
      in case Job_Validate (Some job) of
           Some e \<Rightarrow> (None, Some e)
         | None \<Rightarrow> (Some job, None))"

definition NewJob ::
    "string \<Rightarrow> JobType \<Rightarrow> string \<Rightarrow> string \<Rightarrow> gtime \<Rightarrow> gtime \<Rightarrow> int \<Rightarrow> Job option \<times> go_error option" where
  "NewJob ident jobType command dedupeKey createdAt availableAt maximumAttempts =
     NewJobWithDedupePolicy ident jobType command dedupeKey JobDedupeActive createdAt availableAt maximumAttempts"

definition Job_Start :: "Job option \<Rightarrow> gtime \<Rightarrow> Job option \<times> go_error option" where
  "Job_Start receiver at' = (case receiver of
       None \<Rightarrow> (None, Some (invalidModelError ''Job.Start'' ''job'' '''' ''job cannot start'' ''''))
     | Some j \<Rightarrow>
         if jb_Status j \<noteq> JobStatusQueued \<or> jb_AttemptCount j \<ge> jb_MaximumAttempts j
            \<or> Before (TimeUTC at') (jb_AvailableAt j) then
           (None, Some (invalidModelError ''Job.Start'' ''job'' '''' ''job cannot start'' ''''))
         else validated Job_Validate (j\<lparr>
           jb_Status := JobStatusRunning,
           jb_UpdatedAt := TimeUTC at',
           jb_StartedAt := (if \<not> ot_Valid (jb_StartedAt j) then OptionalTimeFrom at' else jb_StartedAt j),
           jb_AttemptCount := inc64 (jb_AttemptCount j),
           jb_Revision := inc64 (jb_Revision j)\<rparr>))"

definition Job_UpdateProgress ::
    "Job option \<Rightarrow> JobProgress option \<Rightarrow> string \<Rightarrow> gtime \<Rightarrow> Job option \<times> go_error option" where
  "Job_UpdateProgress receiver progress checkpoint at' = (case receiver of
       None \<Rightarrow> (None, Some (invalidModelError ''Job.UpdateProgress'' ''job'' '''' ''job progress cannot be updated'' ''''))
     | Some j \<Rightarrow>
         if (jb_Status j \<noteq> JobStatusRunning \<and> jb_Status j \<noteq> JobStatusCancelRequested)
            \<or> \<not> validJobProgress progress \<or> \<not> validJobDocument checkpoint True
            \<or> Before (TimeUTC at') (jb_UpdatedAt j) then
           (None, Some (invalidModelError ''Job.UpdateProgress'' ''job'' '''' ''job progress cannot be updated'' ''''))
         else validated Job_Validate (j\<lparr>
           jb_Progress := progress,
           jb_Checkpoint := cloneJSON checkpoint,
           jb_UpdatedAt := TimeUTC at',
           jb_Revision := inc64 (jb_Revision j)\<rparr>))"

definition Job_Succeed :: "Job option \<Rightarrow> string \<Rightarrow> gtime \<Rightarrow> Job option \<times> go_error option" where
  "Job_Succeed receiver document at' = (case receiver of
       None \<Rightarrow> (None, Some (invalidModelError ''Job.Succeed'' ''job'' '''' ''job cannot succeed'' ''''))
     | Some j \<Rightarrow>
         if (jb_Status j \<noteq> JobStatusRunning \<and> jb_Status j \<noteq> JobStatusCancelRequested)
            \<or> \<not> validJobDocument document False \<or> Before (TimeUTC at') (jb_UpdatedAt j) then
           (None, Some (invalidModelError ''Job.Succeed'' ''job'' '''' ''job cannot succeed'' ''''))
         else validated Job_Validate (j\<lparr>
           jb_Status := JobStatusSucceeded,
           jb_Result := cloneJSON document,
           jb_PublicErrorCode := '''',
           jb_CompletedAt := OptionalTimeFrom at',
           jb_UpdatedAt := TimeUTC at',
           jb_Revision := inc64 (jb_Revision j)\<rparr>))"

definition Job_Retry :: "Job option \<Rightarrow> string \<Rightarrow> gtime \<Rightarrow> gtime \<Rightarrow> Job option \<times> go_error option" where
  "Job_Retry receiver publicErrorCode availableAt at' = (case receiver of
       None \<Rightarrow> (None, Some (invalidModelError ''Job.Retry'' ''job'' '''' ''job cannot retry'' ''''))
     | Some j \<Rightarrow>
         if jb_Status j \<noteq> JobStatusRunning \<or> jb_AttemptCount j \<ge> jb_MaximumAttempts j
            \<or> \<not> validPublicJobCode publicErrorCode \<or> \<not> After (TimeUTC availableAt) (TimeUTC at')
            \<or> Before (TimeUTC at') (jb_UpdatedAt j) then
           (None, Some (invalidModelError ''Job.Retry'' ''job'' '''' ''job cannot retry'' ''''))
         else validated Job_Validate (j\<lparr>
           jb_Status := JobStatusQueued,
           jb_AvailableAt := TimeUTC availableAt,
           jb_UpdatedAt := TimeUTC at',
           jb_PublicErrorCode := TrimSpace publicErrorCode,
           jb_Revision := inc64 (jb_Revision j)\<rparr>))"

definition Job_Relinquish :: "Job option \<Rightarrow> string \<Rightarrow> gtime \<Rightarrow> gtime \<Rightarrow> Job option \<times> go_error option" where
  "Job_Relinquish receiver publicErrorCode availableAt at' = (case receiver of
       None \<Rightarrow> (None, Some (invalidModelError ''Job.Relinquish'' ''job'' '''' ''job cannot be relinquished'' ''''))
     | Some j \<Rightarrow>
         if jb_Status j \<noteq> JobStatusRunning \<or> jb_MaximumAttempts j = maxInt64
            \<or> \<not> validPublicJobCode publicErrorCode \<or> publicErrorCode = ''''
            \<or> \<not> After (TimeUTC availableAt) (TimeUTC at') \<or> Before (TimeUTC at') (jb_UpdatedAt j) then
           (None, Some (invalidModelError ''Job.Relinquish'' ''job'' '''' ''job cannot be relinquished'' ''''))
         else validated Job_Validate (j\<lparr>
           jb_Status := JobStatusQueued,
           jb_AvailableAt := TimeUTC availableAt,
           jb_UpdatedAt := TimeUTC at',
           jb_PublicErrorCode := TrimSpace publicErrorCode,
           jb_MaximumAttempts := inc64 (jb_MaximumAttempts j),
           jb_Revision := inc64 (jb_Revision j)\<rparr>))"

definition Job_Fail :: "Job option \<Rightarrow> string \<Rightarrow> gtime \<Rightarrow> Job option \<times> go_error option" where
  "Job_Fail receiver publicErrorCode at' = (case receiver of
       None \<Rightarrow> (None, Some (invalidModelError ''Job.Fail'' ''job'' '''' ''job cannot fail'' ''''))
     | Some j \<Rightarrow>
         if (jb_Status j \<noteq> JobStatusRunning \<and> jb_Status j \<noteq> JobStatusCancelRequested)
            \<or> \<not> validPublicJobCode publicErrorCode \<or> publicErrorCode = ''''
            \<or> Before (TimeUTC at') (jb_UpdatedAt j) then
           (None, Some (invalidModelError ''Job.Fail'' ''job'' '''' ''job cannot fail'' ''''))
         else validated Job_Validate (j\<lparr>
           jb_Status := JobStatusFailed,
           jb_UpdatedAt := TimeUTC at',
           jb_CompletedAt := OptionalTimeFrom at',
           jb_PublicErrorCode := TrimSpace publicErrorCode,
           jb_Revision := inc64 (jb_Revision j)\<rparr>))"

definition Job_Cancel :: "Job option \<Rightarrow> string \<Rightarrow> gtime \<Rightarrow> Job option \<times> go_error option" where
  "Job_Cancel receiver publicErrorCode at' = (case receiver of
       None \<Rightarrow> (None, Some (invalidModelError ''Job.Cancel'' ''job'' '''' ''job cannot cancel'' ''''))
     | Some j \<Rightarrow>
         if (jb_Status j \<noteq> JobStatusRunning \<and> jb_Status j \<noteq> JobStatusCancelRequested
              \<and> jb_Status j \<noteq> JobStatusQueued)
            \<or> \<not> validPublicJobCode publicErrorCode \<or> Before (TimeUTC at') (jb_UpdatedAt j) then
           (None, Some (invalidModelError ''Job.Cancel'' ''job'' '''' ''job cannot cancel'' ''''))
         else validated Job_Validate (j\<lparr>
           jb_Status := JobStatusCanceled,
           jb_UpdatedAt := TimeUTC at',
           jb_CompletedAt := OptionalTimeFrom at',
           jb_PublicErrorCode := TrimSpace publicErrorCode,
           jb_Revision := inc64 (jb_Revision j)\<rparr>))"

definition Job_RequestCancellation :: "Job option \<Rightarrow> gtime \<Rightarrow> Job option \<times> go_error option" where
  "Job_RequestCancellation receiver at' = (case receiver of
       None \<Rightarrow> (None, Some (invalidModelError ''Job.RequestCancellation'' ''job'' '''' ''job cancellation cannot be requested'' ''''))
     | Some j \<Rightarrow>
         if (jb_Status j \<noteq> JobStatusQueued \<and> jb_Status j \<noteq> JobStatusRunning)
            \<or> Before (TimeUTC at') (jb_UpdatedAt j) then
           (None, Some (invalidModelError ''Job.RequestCancellation'' ''job'' '''' ''job cancellation cannot be requested'' ''''))
         else if jb_Status j = JobStatusQueued then Job_Cancel (Some j) ''job.canceled'' at'
         else validated Job_Validate (j\<lparr>
           jb_Status := JobStatusCancelRequested,
           jb_UpdatedAt := TimeUTC at',
           jb_Revision := inc64 (jb_Revision j)\<rparr>))"

definition Job_ExplicitRetry :: "Job option \<Rightarrow> gtime \<Rightarrow> Job option \<times> go_error option" where
  "Job_ExplicitRetry receiver at' = (case receiver of
       None \<Rightarrow> (None, Some (invalidModelError ''Job.ExplicitRetry'' ''job'' '''' ''job cannot be explicitly retried'' ''''))
     | Some j \<Rightarrow>
         if (jb_Status j \<noteq> JobStatusFailed \<and> jb_Status j \<noteq> JobStatusCanceled)
            \<or> Before (TimeUTC at') (jb_UpdatedAt j) then
           (None, Some (invalidModelError ''Job.ExplicitRetry'' ''job'' '''' ''job cannot be explicitly retried'' ''''))
         else validated Job_Validate (j\<lparr>
           jb_Status := JobStatusQueued,
           jb_AvailableAt := TimeUTC at',
           jb_UpdatedAt := TimeUTC at',
           jb_CompletedAt := no_time,
           jb_MaximumAttempts := inc64 (jb_AttemptCount j),
           jb_Revision := inc64 (jb_Revision j)\<rparr>))"

section \<open>Attempts\<close>

definition JobAttempt_Validate :: "JobAttempt option \<Rightarrow> go_error option" where
  "JobAttempt_Validate receiver = (case receiver of
       None \<Rightarrow> Some (invalidModelError ''JobAttempt.Validate'' ''job_attempt'' '''' ''invalid job attempt'' '''')
     | Some a \<Rightarrow>
         if \<not> IsValidOpaqueID (ja_ID a) \<or> \<not> IsValidOpaqueID (ja_JobID a) \<or> ja_Number a \<le> 0
            \<or> \<not> validJobAttemptStatus (ja_Status a) \<or> ja_NodeID a = '''' \<or> length (ja_NodeID a) > 255
            \<or> \<not> JobClaimToken_IsValid (ja_ClaimToken a) \<or> IsZero (ja_StartedAt a)
            \<or> Before (ja_HeartbeatAt a) (ja_StartedAt a) \<or> \<not> After (ja_LeaseExpiresAt a) (ja_HeartbeatAt a)
            \<or> \<not> validPublicJobCode (ja_PublicErrorCode a) then
           Some (invalidModelError ''JobAttempt.Validate'' ''job_attempt'' '''' ''invalid job attempt'' '''')
         else if (ja_Status a = JobAttemptStatusRunning) = ot_Valid (ja_CompletedAt a) then
           Some (invalidModelError ''JobAttempt.Validate'' ''job_attempt'' '''' ''invalid job attempt lifecycle'' '''')
         else None)"

definition NewJobAttempt ::
    "string \<Rightarrow> string \<Rightarrow> int \<Rightarrow> string \<Rightarrow> string \<Rightarrow> gtime \<Rightarrow> gtime \<Rightarrow> JobAttempt option \<times> go_error option" where
  "NewJobAttempt ident jobID number nodeID token startedAt leaseExpiresAt =
     (let attempt = \<lparr>ja_ID = ident, ja_JobID = jobID, ja_Number = number, ja_Status = JobAttemptStatusRunning,
            ja_NodeID = TrimSpace nodeID, ja_ClaimToken = token, ja_StartedAt = TimeUTC startedAt,
            ja_HeartbeatAt = TimeUTC startedAt, ja_LeaseExpiresAt = TimeUTC leaseExpiresAt,
            ja_CompletedAt = no_time, ja_PublicErrorCode = ''''\<rparr>
      in case JobAttempt_Validate (Some attempt) of
           Some e \<Rightarrow> (None, Some e)
         | None \<Rightarrow> (Some attempt, None))"

definition JobAttempt_Heartbeat :: "JobAttempt option \<Rightarrow> gtime \<Rightarrow> gtime \<Rightarrow> JobAttempt option \<times> go_error option" where
  "JobAttempt_Heartbeat receiver at' leaseExpiresAt = (case receiver of
       None \<Rightarrow> (None, Some (invalidModelError ''JobAttempt.Heartbeat'' ''job_attempt'' '''' ''job attempt cannot heartbeat'' ''''))
     | Some a \<Rightarrow>
         if ja_Status a \<noteq> JobAttemptStatusRunning \<or> Before (TimeUTC at') (ja_HeartbeatAt a)
            \<or> \<not> After (TimeUTC leaseExpiresAt) (TimeUTC at') then
           (None, Some (invalidModelError ''JobAttempt.Heartbeat'' ''job_attempt'' '''' ''job attempt cannot heartbeat'' ''''))
         else validated JobAttempt_Validate (a\<lparr>
           ja_HeartbeatAt := TimeUTC at',
           ja_LeaseExpiresAt := TimeUTC leaseExpiresAt\<rparr>))"

definition JobAttempt_Complete ::
    "JobAttempt option \<Rightarrow> JobAttemptStatus \<Rightarrow> string \<Rightarrow> gtime \<Rightarrow> JobAttempt option \<times> go_error option" where
  "JobAttempt_Complete receiver status publicErrorCode at' = (case receiver of
       None \<Rightarrow> (None, Some (invalidModelError ''JobAttempt.Complete'' ''job_attempt'' '''' ''job attempt cannot complete'' ''''))
     | Some a \<Rightarrow>
         if ja_Status a \<noteq> JobAttemptStatusRunning \<or> status = JobAttemptStatusRunning
            \<or> \<not> validJobAttemptStatus status \<or> Before (TimeUTC at') (ja_HeartbeatAt a) then
           (None, Some (invalidModelError ''JobAttempt.Complete'' ''job_attempt'' '''' ''job attempt cannot complete'' ''''))
         else validated JobAttempt_Validate (a\<lparr>
           ja_Status := status,
           ja_PublicErrorCode := TrimSpace publicErrorCode,
           ja_CompletedAt := OptionalTimeFrom at'\<rparr>))"

section \<open>Calls\<close>

datatype job_op =
    StartCall gtime
  | UpdateProgressCall "JobProgress option" string gtime
  | SucceedCall string gtime
  | RetryCall string gtime gtime
  | RelinquishCall string gtime gtime
  | FailCall string gtime
  | CancelCall string gtime
  | RequestCancellationCall gtime
  | ExplicitRetryCall gtime

fun job_call :: "job_op \<Rightarrow> Job option \<Rightarrow> Job option \<times> go_error option" where
  "job_call (StartCall t) p = Job_Start p t"
| "job_call (UpdateProgressCall g k t) p = Job_UpdateProgress p g k t"
| "job_call (SucceedCall d t) p = Job_Succeed p d t"
| "job_call (RetryCall e v t) p = Job_Retry p e v t"
| "job_call (RelinquishCall e v t) p = Job_Relinquish p e v t"
| "job_call (FailCall e t) p = Job_Fail p e t"
| "job_call (CancelCall e t) p = Job_Cancel p e t"
| "job_call (RequestCancellationCall t) p = Job_RequestCancellation p t"
| "job_call (ExplicitRetryCall t) p = Job_ExplicitRetry p t"

text \<open>A caller keeps the returned copy when the error is nil, and the old value otherwise.\<close>

definition job_exec :: "job_op \<Rightarrow> Job \<Rightarrow> Job outcome" where
  "job_exec c j = (case job_call c (Some j) of
       (Some r, None) \<Rightarrow> (r, None)
     | (_, e) \<Rightarrow> (j, e))"

lemma Job_Validate_ok:
  "Job_Validate (Some j) = None \<longleftrightarrow>
     IsValidOpaqueID (jb_ID j) \<and> JobType_IsValid (jb_Type j) \<and> JobStatus_IsValid (jb_Status j)
     \<and> \<not> IsZero (jb_CreatedAt j) \<and> \<not> Before (jb_UpdatedAt j) (jb_CreatedAt j) \<and> \<not> IsZero (jb_AvailableAt j)
     \<and> validJobDocument (jb_Command j) False \<and> 0 < length (jb_DedupeKey j) \<and> length (jb_DedupeKey j) \<le> 255
     \<and> validJobDedupePolicy (jb_DedupePolicy j) \<and> 0 \<le> jb_AttemptCount j \<and> 0 < jb_MaximumAttempts j
     \<and> jb_AttemptCount j \<le> jb_MaximumAttempts j \<and> 0 \<le> jb_WorkReserved j \<and> 0 < jb_Revision j
     \<and> validJobDocument (jb_Checkpoint j) True \<and> validJobDocument (jb_Result j) True
     \<and> validPublicJobCode (jb_PublicErrorCode j) \<and> validJobProgress (jb_Progress j)
     \<and> (jb_Status j \<in> {JobStatusSucceeded, JobStatusFailed, JobStatusCanceled} \<longleftrightarrow> ot_Valid (jb_CompletedAt j))
     \<and> (jb_Status j = JobStatusRunning \<longrightarrow> jb_AttemptCount j \<noteq> 0)"
  unfolding Job_Validate_def option.case Let_def guard_ok de_Morgan_disj not_less not_le not_not neq0_conv insert_iff empty_iff
  by blast

text \<open>The guard of a call, the copy it prepares, and the error of its guard.\<close>

fun job_guard :: "job_op \<Rightarrow> Job \<Rightarrow> bool" where
  "job_guard (StartCall t) j \<longleftrightarrow> jb_Status j = JobStatusQueued \<and> jb_AttemptCount j < jb_MaximumAttempts j
     \<and> \<not> Before (TimeUTC t) (jb_AvailableAt j)"
| "job_guard (UpdateProgressCall g k t) j \<longleftrightarrow> jb_Status j \<in> {JobStatusRunning, JobStatusCancelRequested}
     \<and> validJobProgress g \<and> validJobDocument k True \<and> \<not> Before (TimeUTC t) (jb_UpdatedAt j)"
| "job_guard (SucceedCall d t) j \<longleftrightarrow> jb_Status j \<in> {JobStatusRunning, JobStatusCancelRequested}
     \<and> validJobDocument d False \<and> \<not> Before (TimeUTC t) (jb_UpdatedAt j)"
| "job_guard (RetryCall e v t) j \<longleftrightarrow> jb_Status j = JobStatusRunning \<and> jb_AttemptCount j < jb_MaximumAttempts j
     \<and> validPublicJobCode e \<and> After (TimeUTC v) (TimeUTC t) \<and> \<not> Before (TimeUTC t) (jb_UpdatedAt j)"
| "job_guard (RelinquishCall e v t) j \<longleftrightarrow> jb_Status j = JobStatusRunning \<and> jb_MaximumAttempts j \<noteq> maxInt64
     \<and> validPublicJobCode e \<and> e \<noteq> '''' \<and> After (TimeUTC v) (TimeUTC t) \<and> \<not> Before (TimeUTC t) (jb_UpdatedAt j)"
| "job_guard (FailCall e t) j \<longleftrightarrow> jb_Status j \<in> {JobStatusRunning, JobStatusCancelRequested}
     \<and> validPublicJobCode e \<and> e \<noteq> '''' \<and> \<not> Before (TimeUTC t) (jb_UpdatedAt j)"
| "job_guard (CancelCall e t) j \<longleftrightarrow> jb_Status j \<in> {JobStatusRunning, JobStatusCancelRequested, JobStatusQueued}
     \<and> validPublicJobCode e \<and> \<not> Before (TimeUTC t) (jb_UpdatedAt j)"
| "job_guard (RequestCancellationCall t) j \<longleftrightarrow> jb_Status j \<in> {JobStatusQueued, JobStatusRunning}
     \<and> \<not> Before (TimeUTC t) (jb_UpdatedAt j)"
| "job_guard (ExplicitRetryCall t) j \<longleftrightarrow> jb_Status j \<in> {JobStatusFailed, JobStatusCanceled}
     \<and> \<not> Before (TimeUTC t) (jb_UpdatedAt j)"

abbreviation job_stamp :: "gtime \<Rightarrow> Job \<Rightarrow> Job" where
  "job_stamp t j \<equiv> j\<lparr>jb_UpdatedAt := TimeUTC t, jb_Revision := inc64 (jb_Revision j)\<rparr>"

fun job_next :: "job_op \<Rightarrow> Job \<Rightarrow> Job" where
  "job_next (StartCall t) j = (job_stamp t j)\<lparr>jb_Status := JobStatusRunning,
     jb_StartedAt := (if ot_Valid (jb_StartedAt j) then jb_StartedAt j else OptionalTimeFrom t),
     jb_AttemptCount := inc64 (jb_AttemptCount j)\<rparr>"
| "job_next (UpdateProgressCall g k t) j = (job_stamp t j)\<lparr>jb_Progress := g, jb_Checkpoint := k\<rparr>"
| "job_next (SucceedCall d t) j = (job_stamp t j)\<lparr>jb_Status := JobStatusSucceeded, jb_Result := d,
     jb_PublicErrorCode := '''', jb_CompletedAt := OptionalTimeFrom t\<rparr>"
| "job_next (RetryCall e v t) j = (job_stamp t j)\<lparr>jb_Status := JobStatusQueued,
     jb_AvailableAt := TimeUTC v, jb_PublicErrorCode := e\<rparr>"
| "job_next (RelinquishCall e v t) j = (job_stamp t j)\<lparr>jb_Status := JobStatusQueued,
     jb_AvailableAt := TimeUTC v, jb_PublicErrorCode := e, jb_MaximumAttempts := inc64 (jb_MaximumAttempts j)\<rparr>"
| "job_next (FailCall e t) j = (job_stamp t j)\<lparr>jb_Status := JobStatusFailed,
     jb_CompletedAt := OptionalTimeFrom t, jb_PublicErrorCode := e\<rparr>"
| "job_next (CancelCall e t) j = (job_stamp t j)\<lparr>jb_Status := JobStatusCanceled,
     jb_CompletedAt := OptionalTimeFrom t, jb_PublicErrorCode := e\<rparr>"
| "job_next (RequestCancellationCall t) j = (if jb_Status j = JobStatusQueued
     then (job_stamp t j)\<lparr>jb_Status := JobStatusCanceled, jb_CompletedAt := OptionalTimeFrom t,
       jb_PublicErrorCode := ''job.canceled''\<rparr>
     else (job_stamp t j)\<lparr>jb_Status := JobStatusCancelRequested\<rparr>)"
| "job_next (ExplicitRetryCall t) j = (job_stamp t j)\<lparr>jb_Status := JobStatusQueued,
     jb_AvailableAt := TimeUTC t, jb_CompletedAt := no_time, jb_MaximumAttempts := inc64 (jb_AttemptCount j)\<rparr>"

text \<open>A code of the safe alphabet has no space to trim.\<close>

lemma safe_char_ascii:
  "safe_char c \<Longrightarrow> of_char c < (128::nat) \<and> \<not> IsSpace (of_char c)"
  by (auto simp: safe_char_def lower_alnum_def less_eq_char_def IsSpace_def)

lemma TrimSpace_ascii:
  assumes "list_all safe_char s"
  shows "TrimSpace s = s"
proof -
  have "chunks (bytes_of s) = map (\<lambda>b. (b, [b])) (bytes_of s)"
    using assms by (intro chunks_ascii) (auto simp: bytes_of_def list_all_iff dest: safe_char_ascii)
  moreover have "dropWhile (\<lambda>c. IsSpace (fst c)) (map (\<lambda>b. (b, [b])) bs) = map (\<lambda>b. (b, [b])) bs"
    if "\<forall>b \<in> set bs. \<not> IsSpace b" for bs
    using that by (cases bs) simp_all
  moreover have "\<forall>b \<in> set (bytes_of s). \<not> IsSpace b"
    using assms by (auto simp: bytes_of_def list_all_iff dest: safe_char_ascii)
  ultimately show ?thesis
    by (simp add: TrimSpace_def rev_map comp_def to_string_bytes_of)
qed

lemma validPublicJobCode_safe: "validPublicJobCode e \<Longrightarrow> list_all safe_char e"
  by (auto simp: validPublicJobCode_def jobSafeCode_def safe_word_def safe_char_def lower_alnum_def
      split: list.splits)

lemma TrimSpace_code: "validPublicJobCode e \<Longrightarrow> TrimSpace e = e"
  by (simp add: TrimSpace_ascii validPublicJobCode_safe)

lemma job_canceled_code: "validPublicJobCode ''job.canceled''"
  by (simp add: validPublicJobCode_def jobSafeCode_def safe_word_def safe_char_def lower_alnum_def)

lemma job_call_accepted:
  "job_guard c j \<Longrightarrow> job_call c (Some j) = validated Job_Validate (job_next c j)"
  by (cases c; cases j)
    (auto simp: Job_Start_def Job_UpdateProgress_def Job_Succeed_def Job_Retry_def Job_Relinquish_def
      Job_Fail_def Job_Cancel_def Job_RequestCancellation_def Job_ExplicitRetry_def cloneJSON_def
      TrimSpace_code job_canceled_code)

lemma job_call_refused: "\<not> job_guard c j \<Longrightarrow> fst (job_call c (Some j)) = None \<and> snd (job_call c (Some j)) \<noteq> None"
  by (cases c)
    (auto simp: Job_Start_def Job_UpdateProgress_def Job_Succeed_def Job_Retry_def Job_Relinquish_def
      Job_Fail_def Job_Cancel_def Job_RequestCancellation_def Job_ExplicitRetry_def)

lemma job_exec_cases:
  "job_exec c j = (if job_guard c j \<and> Job_Validate (Some (job_next c j)) = None
     then (job_next c j, None) else (j, snd (job_call c (Some j))))"
proof (cases "job_guard c j")
  case True
  then show ?thesis
    by (simp add: job_exec_def job_call_accepted validated_def split: option.split)
next
  case False
  with job_call_refused [OF False] show ?thesis
    by (auto simp: job_exec_def split: prod.split)
qed

lemma job_exec_ok_iff:
  "snd (job_exec c j) = None \<longleftrightarrow> job_guard c j \<and> Job_Validate (Some (job_next c j)) = None"
proof (cases "job_guard c j")
  case True
  then show ?thesis by (auto simp: job_exec_cases job_call_accepted validated_def)
next
  case False
  with job_call_refused [OF False] show ?thesis by (simp add: job_exec_cases)
qed

lemma job_exec_ok: "snd (job_exec c j) = None \<Longrightarrow> fst (job_exec c j) = job_next c j"
  by (simp add: job_exec_ok_iff) (simp add: job_exec_cases)

lemma job_exec_atomic: "snd (job_exec c j) \<noteq> None \<Longrightarrow> fst (job_exec c j) = j"
  by (auto simp: job_exec_ok_iff job_exec_cases)

text \<open>
  A job in good order: it validates, its counters are machine integers, its instants are after
  the zero time, and a queued job that has run before is not available before its last change.
\<close>

definition job_wf :: "Job \<Rightarrow> bool" where
  "job_wf j \<longleftrightarrow> Job_Validate (Some j) = None \<and> is_int64 (jb_Revision j) \<and> is_int64 (jb_AttemptCount j)
     \<and> is_int64 (jb_MaximumAttempts j) \<and> 0 < t_ns (jb_CreatedAt j)
     \<and> (jb_Status j = JobStatusQueued \<longrightarrow>
          t_ns (jb_UpdatedAt j) \<le> t_ns (jb_AvailableAt j) \<or> jb_UpdatedAt j = jb_CreatedAt j)"

text \<open>What a guarded call still needs so that its result validates.\<close>

fun job_room :: "job_op \<Rightarrow> Job \<Rightarrow> bool" where
  "job_room (StartCall t) j \<longleftrightarrow> jb_Revision j < maxInt64 \<and> \<not> Before (TimeUTC t) (jb_CreatedAt j)"
| "job_room (ExplicitRetryCall t) j \<longleftrightarrow> jb_Revision j < maxInt64 \<and> jb_AttemptCount j < maxInt64"
| "job_room _ j \<longleftrightarrow> jb_Revision j < maxInt64"

lemma JobStatus_valid [simp]:
  "JobStatus_IsValid JobStatusQueued" "JobStatus_IsValid JobStatusRunning"
  "JobStatus_IsValid JobStatusCancelRequested" "JobStatus_IsValid JobStatusSucceeded"
  "JobStatus_IsValid JobStatusFailed" "JobStatus_IsValid JobStatusCanceled"
  by (simp_all add: JobStatus_IsValid_def jobStatuses_def)

lemma inc64_room: "is_int64 x \<Longrightarrow> 0 \<le> x \<Longrightarrow> 0 < inc64 x \<longleftrightarrow> x < maxInt64"
  by (cases "x < maxInt64") (auto simp: inc64_below_max is_int64_def inc64_max minInt64_def)

lemma job_next_valid:
  assumes wf: "job_wf j" and g: "job_guard c j"
  shows "Job_Validate (Some (job_next c j)) = None \<longleftrightarrow> job_room c j"
proof -
  have v: "Job_Validate (Some j) = None" and ints: "is_int64 (jb_Revision j)" "is_int64 (jb_AttemptCount j)"
    "is_int64 (jb_MaximumAttempts j)" and pos: "0 < t_ns (jb_CreatedAt j)"
    using wf by (simp_all add: job_wf_def)
  note v' = v [unfolded Job_Validate_ok]
  have le: "jb_AttemptCount j < jb_MaximumAttempts j \<Longrightarrow> inc64 (jb_AttemptCount j) = jb_AttemptCount j + 1"
    using ints by (intro inc64_below_max) (auto simp: is_int64_def)
  have mx: "jb_MaximumAttempts j \<noteq> maxInt64 \<Longrightarrow> inc64 (jb_MaximumAttempts j) = jb_MaximumAttempts j + 1"
    using ints by (intro inc64_below_max) (auto simp: is_int64_def)
  have rev: "0 < inc64 (jb_Revision j) \<longleftrightarrow> jb_Revision j < maxInt64"
    using ints v' by (intro inc64_room) auto
  have att: "0 < inc64 (jb_AttemptCount j) \<longleftrightarrow> jb_AttemptCount j < maxInt64"
    using ints v' by (intro inc64_room) auto
  have att1: "jb_AttemptCount j < maxInt64 \<Longrightarrow> inc64 (jb_AttemptCount j) = jb_AttemptCount j + 1"
    using ints by (intro inc64_below_max) auto
  show ?thesis
  proof (cases c)
    case (StartCall t)
    with g v' show ?thesis by (auto simp: Job_Validate_ok rev le time_ops)
  next
    case (UpdateProgressCall p k t)
    with g v' show ?thesis by (auto simp: Job_Validate_ok rev time_ops)
  next
    case (SucceedCall d t)
    with g v' show ?thesis
      by (auto simp: Job_Validate_ok rev time_ops validPublicJobCode_def validJobDocument_def split: if_splits)
  next
    case (RetryCall e w t)
    with g v' pos show ?thesis by (auto simp: Job_Validate_ok rev time_ops)
  next
    case (RelinquishCall e w t)
    with g v' pos show ?thesis by (auto simp: Job_Validate_ok rev mx time_ops)
  next
    case (FailCall e t)
    with g v' show ?thesis by (auto simp: Job_Validate_ok rev time_ops)
  next
    case (CancelCall e t)
    with g v' show ?thesis by (auto simp: Job_Validate_ok rev time_ops)
  next
    case (RequestCancellationCall t)
    with g v' show ?thesis by (auto simp: Job_Validate_ok rev time_ops job_canceled_code)
  next
    case (ExplicitRetryCall t)
    with g v' pos att1 show ?thesis by (auto simp: Job_Validate_ok rev att time_ops)
  qed
qed

section \<open>Histories\<close>

lemma job_success:
  assumes "job_wf j" and "snd (job_exec c j) = None"
  shows "job_guard c j" and "job_room c j" and "fst (job_exec c j) = job_next c j"
    and "Job_Validate (Some (job_next c j)) = None"
proof -
  show g: "job_guard c j" and v: "Job_Validate (Some (job_next c j)) = None"
    using assms(2) by (simp_all add: job_exec_ok_iff)
  show "job_room c j" using v by (simp add: job_next_valid [OF assms(1) g])
  show "fst (job_exec c j) = job_next c j" by (rule job_exec_ok [OF assms(2)])
qed

lemma job_counters:
  assumes "job_wf j" and "job_guard c j" and "job_room c j"
  shows "jb_Revision (job_next c j) = jb_Revision j + 1"
    and "jb_AttemptCount (job_next c j) = jb_AttemptCount j + (case c of StartCall _ \<Rightarrow> 1 | _ \<Rightarrow> 0)"
    and "jb_MaximumAttempts (job_next c j) = (case c of RelinquishCall _ _ _ \<Rightarrow> jb_MaximumAttempts j + 1
       | ExplicitRetryCall _ \<Rightarrow> jb_AttemptCount j + 1 | _ \<Rightarrow> jb_MaximumAttempts j)"
proof -
  have ints: "is_int64 (jb_Revision j)" "is_int64 (jb_AttemptCount j)" "is_int64 (jb_MaximumAttempts j)"
    using assms(1) by (simp_all add: job_wf_def)
  show "jb_Revision (job_next c j) = jb_Revision j + 1"
    using ints assms(3) by (cases c) (auto simp: inc64_below_max)
  show "jb_AttemptCount (job_next c j) = jb_AttemptCount j + (case c of StartCall _ \<Rightarrow> 1 | _ \<Rightarrow> 0)"
    using ints assms(2) inc64_below_max [of "jb_AttemptCount j"] by (cases c) (auto simp: is_int64_def)
  show "jb_MaximumAttempts (job_next c j) = (case c of RelinquishCall _ _ _ \<Rightarrow> jb_MaximumAttempts j + 1
       | ExplicitRetryCall _ \<Rightarrow> jb_AttemptCount j + 1 | _ \<Rightarrow> jb_MaximumAttempts j)"
    using ints assms(2,3) inc64_below_max [of "jb_MaximumAttempts j"]
    by (cases c) (auto simp: inc64_below_max is_int64_def)
qed

lemma job_next_int64:
  assumes "job_wf j"
  shows "is_int64 (jb_Revision (job_next c j))" "is_int64 (jb_AttemptCount (job_next c j))"
    "is_int64 (jb_MaximumAttempts (job_next c j))"
  using assms by (cases c; simp add: job_wf_def)+

lemma job_exec_wf:
  assumes "job_wf j" and "snd (job_exec c j) = None"
  shows "job_wf (fst (job_exec c j))"
proof -
  note ok = job_success [OF assms]
  have "jb_CreatedAt (job_next c j) = jb_CreatedAt j" by (cases c) auto
  moreover have "jb_Status (job_next c j) = JobStatusQueued \<Longrightarrow>
      t_ns (jb_UpdatedAt (job_next c j)) \<le> t_ns (jb_AvailableAt (job_next c j))"
    using ok(1) by (cases c) (auto simp: time_ops)
  ultimately show ?thesis
    using ok assms(1) job_next_int64 [OF assms(1), of c] by (simp add: job_wf_def)
qed

interpretation job: aggregate job_exec job_wf
  by unfold_locales (simp_all add: job_exec_atomic job_exec_wf)

lemma job_bumps:
  assumes "job_wf j" and "fst (job_exec c j) \<noteq> j"
  shows "jb_Revision (fst (job_exec c j)) = jb_Revision j + 1"
proof -
  have "snd (job_exec c j) = None" using assms(2) job_exec_atomic by blast
  with job_success [OF assms(1)] assms(1) show ?thesis by (simp add: job_counters)
qed

interpretation job_versions: versioned_aggregate job_exec job_wf jb_Revision
  by unfold_locales (rule job_bumps)

fun job_edge :: "JobStatus \<Rightarrow> JobStatus \<Rightarrow> bool" where
  "job_edge JobStatusQueued s \<longleftrightarrow> s = JobStatusRunning \<or> s = JobStatusCanceled"
| "job_edge JobStatusRunning s \<longleftrightarrow> s = JobStatusRunning \<or> s = JobStatusQueued \<or> s = JobStatusSucceeded
     \<or> s = JobStatusFailed \<or> s = JobStatusCanceled \<or> s = JobStatusCancelRequested"
| "job_edge JobStatusCancelRequested s \<longleftrightarrow> s = JobStatusCancelRequested \<or> s = JobStatusSucceeded
     \<or> s = JobStatusFailed \<or> s = JobStatusCanceled"
| "job_edge JobStatusFailed s \<longleftrightarrow> s = JobStatusQueued"
| "job_edge JobStatusCanceled s \<longleftrightarrow> s = JobStatusQueued"
| "job_edge _ s \<longleftrightarrow> False"

lemma job_guard_edge: "job_guard c j \<Longrightarrow> job_edge (jb_Status j) (jb_Status (job_next c j))"
  by (cases c) auto

interpretation job_life: lifecycle job_exec job_wf jb_Status job_edge
  by unfold_locales (simp add: job_success job_guard_edge)

definition job_evolves :: "Job \<Rightarrow> Job \<Rightarrow> bool" where
  "job_evolves j k \<longleftrightarrow> jb_ID k = jb_ID j \<and> jb_Type k = jb_Type j \<and> jb_CreatedAt k = jb_CreatedAt j
     \<and> jb_Command k = jb_Command j \<and> jb_DedupeKey k = jb_DedupeKey j \<and> jb_DedupePolicy k = jb_DedupePolicy j
     \<and> jb_WorkReserved k = jb_WorkReserved j
     \<and> t_ns (jb_UpdatedAt j) \<le> t_ns (jb_UpdatedAt k)
     \<and> jb_AttemptCount j \<le> jb_AttemptCount k
     \<and> (ot_Valid (jb_StartedAt j) \<longrightarrow> jb_StartedAt k = jb_StartedAt j)"

lemma job_evolves_step:
  assumes "job_wf j" and "snd (job_exec c j) = None"
  shows "job_evolves j (fst (job_exec c j))"
proof -
  note ok = job_success [OF assms]
  have "t_ns (jb_UpdatedAt j) \<le> t_ns (jb_UpdatedAt (job_next c j))"
    using ok(1,2) assms(1) by (cases c) (auto simp: job_wf_def time_ops)
  moreover have "jb_AttemptCount j \<le> jb_AttemptCount (job_next c j)"
    using job_counters(2) [OF assms(1) ok(1,2)] by (auto split: job_op.splits)
  ultimately show ?thesis
    unfolding ok(3) job_evolves_def by (cases c) auto
qed

lemma job_evolves_run: "job_wf j \<Longrightarrow> job_evolves j (run job_exec cs j)"
  by (rule job.run_relation) (auto simp: job_evolves_step, auto simp: job_evolves_def)


text \<open>The number of accepted calls of a kind in a run.\<close>

fun accepted :: "(job_op \<Rightarrow> bool) \<Rightarrow> job_op list \<Rightarrow> Job \<Rightarrow> nat" where
  "accepted kind [] j = 0"
| "accepted kind (c # cs) j = (if kind c \<and> snd (job_exec c j) = None then 1 else 0)
     + accepted kind cs (fst (job_exec c j))"

fun is_start :: "job_op \<Rightarrow> bool" where
  "is_start (StartCall _) = True" | "is_start _ = False"

fun is_relinquish :: "job_op \<Rightarrow> bool" where
  "is_relinquish (RelinquishCall _ _ _) = True" | "is_relinquish _ = False"

fun is_explicit :: "job_op \<Rightarrow> bool" where
  "is_explicit (ExplicitRetryCall _) = True" | "is_explicit _ = False"

lemma job_budget_step:
  fixes c :: job_op
  assumes "job_wf j"
  defines "k \<equiv> fst (job_exec c j)" and "n \<equiv> \<lambda>kind. int (if kind c \<and> snd (job_exec c j) = None then 1 else 0)"
  shows "jb_AttemptCount k = jb_AttemptCount j + n is_start"
    and "\<not> is_explicit c \<Longrightarrow> jb_MaximumAttempts k = jb_MaximumAttempts j + n is_relinquish"
proof -
  have "jb_AttemptCount k = jb_AttemptCount j + n is_start
      \<and> (\<not> is_explicit c \<longrightarrow> jb_MaximumAttempts k = jb_MaximumAttempts j + n is_relinquish)"
  proof (cases "snd (job_exec c j) = None")
    case True
    note ok = job_success [OF assms(1) True]
    show ?thesis
      unfolding k_def n_def ok(3) job_counters [OF assms(1) ok(1,2)] using True by (cases c) simp_all
  next
    case False
    then show ?thesis by (auto simp: k_def n_def job_exec_atomic)
  qed
  then show "jb_AttemptCount k = jb_AttemptCount j + n is_start"
    and "\<not> is_explicit c \<Longrightarrow> jb_MaximumAttempts k = jb_MaximumAttempts j + n is_relinquish" by simp_all
qed

lemma job_budget_run:
  assumes "job_wf j"
  shows "jb_AttemptCount (run job_exec cs j) = jb_AttemptCount j + int (accepted is_start cs j)"
    and "list_all (\<lambda>c. \<not> is_explicit c) cs \<Longrightarrow>
      jb_MaximumAttempts (run job_exec cs j) = jb_MaximumAttempts j + int (accepted is_relinquish cs j)"
  using assms
proof (induction cs arbitrary: j)
  case (Cons c cs)
  case 1
  show ?case
    using Cons.IH(1) [OF job.exec_wf [OF 1]] job_budget_step(1) [OF 1, of c] by simp
next
  case (Cons c cs)
  case 2
  then show ?case
    using Cons.IH(2) [OF _ job.exec_wf [OF 2(2), of c]] job_budget_step(2) [OF 2(2), of c] by simp
qed simp_all

text \<open>C16. The failure budget.  In any run without an operator's explicit retry, the claims that were
  accepted and not given back by an incompatible worker never exceed what was left of the job's
  maximum number of attempts: a relinquished claim restores its slot, and nothing else does.\<close>

theorem job_failure_budget:
  assumes "job_wf j" and "list_all (\<lambda>c. \<not> is_explicit c) cs"
  shows "int (accepted is_start cs j)
    \<le> jb_MaximumAttempts j - jb_AttemptCount j + int (accepted is_relinquish cs j)"
proof -
  have "jb_AttemptCount (run job_exec cs j) \<le> jb_MaximumAttempts (run job_exec cs j)"
    using job.run_wf [OF assms(1), of cs] by (simp add: job_wf_def Job_Validate_ok)
  then show ?thesis using job_budget_run [OF assms(1)] assms(2) by simp
qed


text \<open>Where a job may stand once its cancellation has been requested and no operator retries it.\<close>

lemma job_cancel_statuses:
  assumes "job_wf j" and "jb_Status j \<in> {JobStatusCancelRequested, JobStatusSucceeded, JobStatusFailed, JobStatusCanceled}"
    and "list_all (\<lambda>c. \<not> is_explicit c) cs"
  shows "jb_Status (run job_exec cs j) \<in> {JobStatusCancelRequested, JobStatusSucceeded, JobStatusFailed, JobStatusCanceled}
    \<and> (jb_Status j \<noteq> JobStatusCancelRequested \<longrightarrow> run job_exec cs j = j)"
  using assms
proof (induction cs arbitrary: j)
  case (Cons c cs)
  show ?case
  proof (cases "snd (job_exec c j) = None")
    case True
    note ok = job_success [OF Cons.prems(1) True]
    have "jb_Status j = JobStatusCancelRequested"
      using ok(1) Cons.prems by (cases c) auto
    moreover have "jb_Status (job_next c j) \<in> {JobStatusCancelRequested, JobStatusSucceeded, JobStatusFailed, JobStatusCanceled}"
      using job_guard_edge [OF ok(1)] calculation by auto
    ultimately show ?thesis
      using Cons.IH [OF job.exec_wf [OF Cons.prems(1), of c]] Cons.prems(3) ok(3) by simp
  next
    case False
    then show ?thesis using Cons.IH [OF Cons.prems(1,2)] Cons.prems(3) by (simp add: job_exec_atomic)
  qed
qed simp

text \<open>C17. Cancellation.  A request to cancel a queued or running job that is not older than the job's
  last change is always accepted while the revision has room; a queued job is canceled at once; a
  running job is marked, and from then on no calls short of an explicit retry queue or start it again,
  while it can be canceled at any later instant.\<close>

theorem job_cancellation:
  assumes wf: "job_wf j" and live: "jb_Status j \<in> {JobStatusQueued, JobStatusRunning}"
    and room: "jb_Revision j < maxInt64 - 1" and t: "t_ns (jb_UpdatedAt j) \<le> trunc_us (t_ns t)"
    and cs: "list_all (\<lambda>c. \<not> is_explicit c) cs"
  shows "\<exists>k. Job_RequestCancellation (Some j) t = (Some k, None)
    \<and> jb_Status k = (if jb_Status j = JobStatusQueued then JobStatusCanceled else JobStatusCancelRequested)
    \<and> jb_Status (run job_exec cs k) \<notin> {JobStatusQueued, JobStatusRunning}
    \<and> (jb_Status j = JobStatusQueued \<longrightarrow> run job_exec cs k = k)
    \<and> (jb_Status j = JobStatusRunning \<longrightarrow> (\<forall>u e. trunc_us (t_ns t) \<le> trunc_us (t_ns u) \<and> validPublicJobCode e \<longrightarrow>
          (\<exists>l. Job_Cancel (Some k) e u = (Some l, None) \<and> jb_Status l = JobStatusCanceled)))"
proof -
  let ?c = "RequestCancellationCall t"
  define k where "k = job_next ?c j"
  have g: "job_guard ?c j" using live t by (auto simp: Before_def)
  have r: "job_room ?c j" using room by simp
  have v: "Job_Validate (Some k) = None" unfolding k_def using job_next_valid [OF wf g] r by simp
  have call: "Job_RequestCancellation (Some j) t = (Some k, None)"
    using job_call_accepted [OF g] v by (simp add: validated_def k_def del: job_next.simps)
  have "job_exec ?c j = (k, None)" using g v by (simp add: job_exec_cases k_def del: job_next.simps)
  then have wk: "job_wf k" using job_exec_wf [OF wf, of ?c] by simp
  have st: "jb_Status k = (if jb_Status j = JobStatusQueued then JobStatusCanceled else JobStatusCancelRequested)"
    by (simp add: k_def)
  have up: "jb_UpdatedAt k = TimeUTC t" and rk: "jb_Revision k < maxInt64"
    using room wf by (simp_all add: k_def job_wf_def inc64_below_max)
  have stays: "jb_Status (run job_exec cs k) \<in> {JobStatusCancelRequested, JobStatusSucceeded, JobStatusFailed, JobStatusCanceled}
      \<and> (jb_Status k \<noteq> JobStatusCancelRequested \<longrightarrow> run job_exec cs k = k)"
    by (rule job_cancel_statuses [OF wk _ cs]) (simp add: st)
  have close: "\<exists>l. Job_Cancel (Some k) e u = (Some l, None) \<and> jb_Status l = JobStatusCanceled"
    if "jb_Status j = JobStatusRunning" "trunc_us (t_ns t) \<le> trunc_us (t_ns u)" "validPublicJobCode e" for u e
  proof -
    have g': "job_guard (CancelCall e u) k" using that st up by (simp add: Before_def)
    then have "Job_Validate (Some (job_next (CancelCall e u) k)) = None"
      using job_next_valid [OF wk g'] rk by simp
    with job_call_accepted [OF g'] show ?thesis by (simp add: validated_def)
  qed
  show ?thesis using call st stays close by auto
qed

text \<open>C18. Errors of the job methods.  On a job in good order a call whose guard fails returns no job
  and an error.  A call whose guard holds returns a changed copy in every case; the error beside it is
  nil exactly when the revision counter has room and, for a start, the start is not before the creation
  of the job, or, for an explicit retry, the attempt counter has room; otherwise the returned copy is
  one that does not validate, and storing it would be wrong.\<close>

theorem job_call_errors:
  assumes "job_wf j"
  shows "(fst (job_call c (Some j)) = None \<longleftrightarrow> \<not> job_guard c j)
    \<and> (snd (job_call c (Some j)) = None \<longleftrightarrow> job_guard c j \<and> job_room c j)
    \<and> (\<forall>k. fst (job_call c (Some j)) = Some k \<longrightarrow> snd (job_call c (Some j)) = Job_Validate (Some k))
    \<and> fst (job_call c None) = None \<and> snd (job_call c None) \<noteq> None"
proof -
  have "fst (job_call c None) = None \<and> snd (job_call c None) \<noteq> None"
    by (cases c) (simp_all add: Job_Start_def Job_UpdateProgress_def Job_Succeed_def Job_Retry_def
        Job_Relinquish_def Job_Fail_def Job_Cancel_def Job_RequestCancellation_def Job_ExplicitRetry_def)
  then show ?thesis
    by (cases "job_guard c j")
      (simp_all add: job_call_accepted validated_def job_next_valid [OF assms] job_call_refused)
qed

section \<open>New jobs\<close>

lemma NewJob_ok:
  assumes "NewJobWithDedupePolicy i ty cmd key pol cr av mx = (Some j, e)"
  shows "e = None" and "Job_Validate (Some j) = None"
    and "j = \<lparr>jb_ID = i, jb_Type = ty, jb_Status = JobStatusQueued,
            jb_CreatedAt = TimeUTC cr, jb_UpdatedAt = TimeUTC cr,
            jb_AvailableAt = TimeUTC av, jb_StartedAt = no_time, jb_CompletedAt = no_time,
            jb_Command = cmd, jb_Checkpoint = '''', jb_Result = '''',
            jb_PublicErrorCode = '''', jb_DedupeKey = TrimSpace key, jb_DedupePolicy = pol,
            jb_AttemptCount = 0, jb_MaximumAttempts = mx, jb_WorkReserved = 0,
            jb_Progress = None, jb_Revision = 1\<rparr>"
  using assms by (auto simp: NewJobWithDedupePolicy_def Let_def cloneJSON_def split: option.splits)

lemma NewJob_wf:
  assumes "NewJobWithDedupePolicy i ty cmd key pol cr av mx = (Some j, e)" and "is_int64 mx" and "0 < trunc_us (t_ns cr)"
  shows "job_wf j"
  using NewJob_ok(2) [OF assms(1)] assms(2,3) unfolding NewJob_ok(3) [OF assms(1)]
  by (simp add: job_wf_def is_int64_def maxInt64_def minInt64_def)

definition sample_job :: Job where
  "sample_job = \<lparr>jb_ID = replicate 26 CHR ''a'', jb_Type = JobTypeMailDeliver, jb_Status = JobStatusQueued,
     jb_CreatedAt = sample_instant 10, jb_UpdatedAt = sample_instant 10, jb_AvailableAt = sample_instant 10,
     jb_StartedAt = no_time, jb_CompletedAt = no_time, jb_Command = ''{}'', jb_Checkpoint = '''',
     jb_Result = '''', jb_PublicErrorCode = '''', jb_DedupeKey = ''k'', jb_DedupePolicy = JobDedupeActive,
     jb_AttemptCount = 0, jb_MaximumAttempts = 3, jb_WorkReserved = 0, jb_Progress = None, jb_Revision = 1\<rparr>"

lemma empty_document: "json_Valid ''{}''"
  by (simp add: json_Valid_def begin_value_def push_context_def pop_context_def json_space_def maxNestingDepth_def)

lemma sample_job_wf: "job_wf sample_job"
  by (simp add: job_wf_def sample_job_def Job_Validate_ok IsZero_def Before_def JobType_IsValid_def jobTypes_def
      validJobDocument_def empty_document JobMaximumDocumentBytes_def validJobDedupePolicy_def
      validPublicJobCode_def validJobProgress_def is_int64_def maxInt64_def minInt64_def)


theorem job_failure_budget_witness:
  "job_wf sample_job \<and> int (accepted is_start [StartCall (sample_instant 20)] sample_job)
    \<le> 3 + int (accepted is_relinquish [StartCall (sample_instant 20)] sample_job)"
  using job_failure_budget [OF sample_job_wf, of "[StartCall (sample_instant 20)]"] sample_job_wf
  by (simp add: sample_job_def)

theorem job_cancellation_witness:
  "\<exists>k. Job_RequestCancellation (Some sample_job) (sample_instant 20) = (Some k, None)
    \<and> jb_Status (run job_exec [StartCall (sample_instant 30)] k) \<noteq> JobStatusRunning"
proof -
  have "jb_Status sample_job = JobStatusQueued" "jb_Revision sample_job = 1" "jb_UpdatedAt sample_job = sample_instant 10"
    by (simp_all add: sample_job_def)
  then show ?thesis
    using job_cancellation [OF sample_job_wf, of "sample_instant 20" "[StartCall (sample_instant 30)]"]
    by (auto simp: maxInt64_def)
qed

theorem job_call_errors_witness:
  "fst (job_call (SucceedCall ''{}'' (sample_instant 30)) (Some sample_job)) = None
   \<and> snd (job_call (SucceedCall ''{}'' (sample_instant 30)) (Some sample_job)) \<noteq> None"
proof -
  have "\<not> job_guard (SucceedCall ''{}'' (sample_instant 30)) sample_job" by (simp add: sample_job_def)
  then show ?thesis using job_call_errors [OF sample_job_wf, of "SucceedCall ''{}'' (sample_instant 30)"] by blast
qed

end
