(* ===== verification/SqlTransactions.thy ===== *)
theory SqlTransactions
  imports Instants
begin

text \<open>
  What the stores of \<^verbatim>\<open>server/store/sqlstore\<close> share: times read from nullable columns (\<^verbatim>\<open>time.go\<close>), the
  transaction lifecycle (\<^verbatim>\<open>transaction_execution.go\<close>) and the check of a row that was read
  (\<^verbatim>\<open>rehydration.go\<close>).  A database is an arbitrary state \<open>'s\<close> here; each store names the tables it uses.
\<close>

definition OptionalTimeFromNullTime :: "optional_time \<Rightarrow> optional_time" where
  "OptionalTimeFromNullTime value = (if \<not> ot_Valid value then no_time else OptionalTimeFrom (ot_Time value))"

definition latestTime :: "gtime \<Rightarrow> gtime \<Rightarrow> gtime" where
  "latestTime persisted requested =
     (if After requested persisted then TimeUTC requested else TimeUTC persisted)"

text \<open>A body that returns an error is rolled back; a body of a policy without commit never writes.\<close>

definition executeSQLTransaction ::
    "bool \<Rightarrow> ('s \<Rightarrow> go_error + 's \<times> 'a) \<Rightarrow> 's \<Rightarrow> 's \<times> (go_error + 'a)" where
  "executeSQLTransaction commits body db = (case body db of
       Inl e \<Rightarrow> (db, Inl e)
     | Inr (db', result) \<Rightarrow> if \<not> commits then (db, Inr result) else (db', Inr result))"

definition runSQLTransaction :: "('s \<Rightarrow> go_error + 's \<times> 'a) \<Rightarrow> 's \<Rightarrow> 's \<times> (go_error + 'a)" where
  "runSQLTransaction body db = executeSQLTransaction True body db"

text \<open>The error names the field that the validation error names, if it names one.\<close>

definition validatePersistedModel :: "string \<Rightarrow> go_error option \<Rightarrow> go_error option" where
  "validatePersistedModel entity invalid = (case invalid of
       None \<Rightarrow> None
     | Some e \<Rightarrow> Some (StoreError ErrInvalidState entity
         (case e of ValidationError _ f _ _ _ _ \<Rightarrow> if f \<noteq> '''' then f else ''value'' | _ \<Rightarrow> ''value'')))"

text \<open>The loop over the selected rows: the first row that cannot be read ends it.\<close>

fun rehydrate :: "('r \<Rightarrow> go_error + 'a) \<Rightarrow> 'r list \<Rightarrow> go_error + 'a list" where
  "rehydrate read [] = Inr []"
| "rehydrate read (r # rs) = (case read r of
     Inl e \<Rightarrow> Inl e
   | Inr x \<Rightarrow> (case rehydrate read rs of Inl e \<Rightarrow> Inl e | Inr xs \<Rightarrow> Inr (x # xs)))"

lemma rehydrate_ok: "list_all (\<lambda>r. read r = Inr r) rs \<Longrightarrow> rehydrate read rs = Inr rs"
  by (induction rs) simp_all

end
