(* ===== verification/JobStore.thy ===== *)
theory JobStore
  imports Job SqlTransactions "HOL-Library.Product_Lexorder"
begin

text \<open>
  \<^verbatim>\<open>server/store/sqlstore/job_store.go\<close>: the durable queue of jobs.  The state is the part of
  the database that the job store reads and writes; every method is one transaction, and
  transactions take effect one after another (they lock the rows they change).  A row is represented
  by the domain value it is read as.  Arguments of the environment are explicit: the database clock
  \<open>now\<close> of the transaction (\<^verbatim>\<open>CURRENT_TIMESTAMP\<close>, which need not be monotone across transactions),
  the rows that other transactions hold locked (\<^verbatim>\<open>SKIP LOCKED\<close>), fresh identifiers, and \<open>jsonb\<close>, the
  text under which the database gives back a stored JSON document, or \<open>None\<close> when it refuses it.
\<close>

section \<open>Tables\<close>

record occurrence =
  oc_Type :: JobType
  oc_DedupeKey :: string
  oc_JobID :: string
  oc_CreatedAt :: gtime

text \<open>
  The jobs and their attempts, the reserved occurrences, and of the other tables the job
  identifiers that keep a job from being deleted.
\<close>

record job_db =
  db_jobs :: "Job list"
  db_attempts :: "JobAttempt list"
  db_occurrences :: "occurrence list"
  db_onboarding_jobs :: "string list"
  db_mail_jobs :: "string list"
  db_rekey_jobs :: "string list"

definition int4 :: "int \<Rightarrow> bool" where
  "int4 x \<longleftrightarrow> -2147483648 \<le> x \<and> x \<le> 2147483647"

definition terminal_status :: "JobStatus \<Rightarrow> bool" where
  "terminal_status s \<longleftrightarrow> s = JobStatusSucceeded \<or> s = JobStatusFailed \<or> s = JobStatusCanceled"

definition active_status :: "JobStatus \<Rightarrow> bool" where
  "active_status s \<longleftrightarrow> s = JobStatusQueued \<or> s = JobStatusRunning \<or> s = JobStatusCancelRequested"

text \<open>
  The integer columns and the CHECK constraints of the table \<^verbatim>\<open>jobs\<close>, whose sizes are those of the stored
  text of a document.  The other checks (vocabularies, text lengths, progress) repeat
  \<^verbatim>\<open>Job.Validate\<close>, which every written value has passed.
\<close>

definition jobs_reject :: "Job \<Rightarrow> go_error option" where
  "jobs_reject r =
     (if \<not> int4 (jb_AttemptCount r) \<or> \<not> int4 (jb_MaximumAttempts r) \<or> \<not> int4 (jb_WorkReserved r) then
        Some (StoreError ErrDriver ''job'' ''integer out of range'')
      else if jb_AttemptCount r < 0 \<or> jb_MaximumAttempts r \<le> 0 \<or> jb_WorkReserved r < 0 \<or> jb_Revision r \<le> 0
         \<or> Before (jb_UpdatedAt r) (jb_CreatedAt r) \<or> jb_AttemptCount r > jb_MaximumAttempts r
         \<or> terminal_status (jb_Status r) \<noteq> ot_Valid (jb_CompletedAt r)
         \<or> length (jb_Command r) > 65536 \<or> length (jb_Checkpoint r) > 65536 \<or> length (jb_Result r) > 65536 then
        Some (StoreError ErrInvalidInput ''job'' ''jobs_lifecycle_check'')
      else None)"

text \<open>The partial unique indexes on the type and the deduplication key.\<close>

definition active_conflict :: "Job list \<Rightarrow> Job \<Rightarrow> bool" where
  "active_conflict rows r \<longleftrightarrow> jb_DedupePolicy r = JobDedupeActive \<and> active_status (jb_Status r)
     \<and> list_ex (\<lambda>x. jb_DedupePolicy x = JobDedupeActive \<and> active_status (jb_Status x)
          \<and> jb_Type x = jb_Type r \<and> jb_DedupeKey x = jb_DedupeKey r) rows"

definition permanent_conflict :: "Job list \<Rightarrow> Job \<Rightarrow> bool" where
  "permanent_conflict rows r \<longleftrightarrow> jb_DedupePolicy r = JobDedupePermanent
     \<and> list_ex (\<lambda>x. jb_DedupePolicy x = JobDedupePermanent
          \<and> jb_Type x = jb_Type r \<and> jb_DedupeKey x = jb_DedupeKey r) rows"

definition put_job :: "Job \<Rightarrow> Job list \<Rightarrow> Job list" where
  "put_job r rows = map (\<lambda>x. if jb_ID x = jb_ID r then r else x) rows"

definition other_jobs :: "Job \<Rightarrow> Job list \<Rightarrow> Job list" where
  "other_jobs r rows = filter (\<lambda>x. jb_ID x \<noteq> jb_ID r) rows"

text \<open>A nullable JSON column: the empty document is NULL.\<close>

definition nullableJSON :: "(string \<Rightarrow> string option) \<Rightarrow> string \<Rightarrow> string option" where
  "nullableJSON jsonb value = (if length value = 0 then Some '''' else jsonb value)"

section \<open>Transactions\<close>

definition jobDatabaseNow :: "gtime \<Rightarrow> gtime" where
  "jobDatabaseNow now = in_UTC now"

definition jobRow_model :: "Job \<Rightarrow> go_error + Job" where
  "jobRow_model r = (case Job_Validate (Some r) of
       None \<Rightarrow> Inr r
     | Some _ \<Rightarrow> Inl (StoreError ErrInvalidState ''job'' ''value''))"

definition jobAttemptRow_model :: "JobAttempt \<Rightarrow> go_error + JobAttempt" where
  "jobAttemptRow_model r = (case JobAttempt_Validate (Some r) of
       None \<Rightarrow> Inr r
     | Some _ \<Rightarrow> Inl (StoreError ErrInvalidState ''job_attempt'' ''value''))"

definition getJob :: "job_db \<Rightarrow> string \<Rightarrow> go_error + Job" where
  "getJob db ident =
     (if \<not> IsValidOpaqueID ident then Inl (StoreError ErrInvalidInput ''job'' ''id'')
      else case find (\<lambda>r. jb_ID r = ident) (db_jobs db) of
        None \<Rightarrow> Inl (StoreError ErrNotFound ''job'' ident)
      | Some r \<Rightarrow> jobRow_model r)"

definition getFencedAttempt :: "job_db \<Rightarrow> string \<Rightarrow> string \<Rightarrow> gtime \<Rightarrow> go_error + JobAttempt" where
  "getFencedAttempt db ident token at' = (case find (\<lambda>r. ja_ID r = ident) (db_attempts db) of
       None \<Rightarrow> Inl (StoreError ErrNotFound ''job_attempt'' ident)
     | Some r \<Rightarrow> (case jobAttemptRow_model r of
         Inl e \<Rightarrow> Inl e
       | Inr attempt \<Rightarrow>
           if ja_ClaimToken attempt \<noteq> token \<or> ja_Status attempt \<noteq> JobAttemptStatusRunning
              \<or> \<not> Before (TimeUTC at') (ja_LeaseExpiresAt attempt) then
             Inl (StoreError ErrConflict ''job_attempt'' ''claim_lost'')
           else Inr attempt))"

definition updateJob :: "(string \<Rightarrow> string option) \<Rightarrow> Job \<Rightarrow> job_db \<Rightarrow> go_error + job_db" where
  "updateJob jsonb job db = (case (nullableJSON jsonb (jb_Checkpoint job), nullableJSON jsonb (jb_Result job)) of
       (Some checkpoint, Some result) \<Rightarrow>
         (case find (\<lambda>r. jb_ID r = jb_ID job \<and> jb_Revision r = wrap64 (jb_Revision job - 1)) (db_jobs db) of
            None \<Rightarrow> Inl (StoreError ErrConflict ''job'' ''job_changed'')
          | Some r \<Rightarrow>
              let row = r\<lparr>jb_Status := jb_Status job, jb_UpdatedAt := jb_UpdatedAt job,
                    jb_AvailableAt := jb_AvailableAt job,
                    jb_StartedAt := OptionalTimeFromNullTime (jb_StartedAt job),
                    jb_CompletedAt := OptionalTimeFromNullTime (jb_CompletedAt job),
                    jb_Checkpoint := checkpoint, jb_Result := result,
                    jb_PublicErrorCode := jb_PublicErrorCode job, jb_AttemptCount := jb_AttemptCount job,
                    jb_MaximumAttempts := jb_MaximumAttempts job, jb_WorkReserved := jb_WorkReserved job,
                    jb_Progress := jb_Progress job, jb_Revision := jb_Revision job\<rparr>
              in case jobs_reject row of
                   Some e \<Rightarrow> Inl e
                 | None \<Rightarrow>
                     if active_conflict (other_jobs row (db_jobs db)) row then
                       Inl (StoreError ErrConflict ''job'' ''jobs_active_type_dedupe_key_idx'')
                     else Inr (db\<lparr>db_jobs := put_job row (db_jobs db)\<rparr>))
     | _ \<Rightarrow> Inl (StoreError ErrDriver ''job'' ''invalid json''))"

section \<open>Enqueue\<close>

text \<open>The rows the statement inserts, and the database after it.  Columns not listed are NULL or zero.\<close>

definition insertQueuedJob ::
    "(string \<Rightarrow> string option) \<Rightarrow> Job \<Rightarrow> bool \<Rightarrow> job_db \<Rightarrow> go_error + job_db \<times> nat" where
  "insertQueuedJob jsonb job deduplicate db = (case jsonb (jb_Command job) of
       None \<Rightarrow> Inl (StoreError ErrDriver ''job'' ''invalid json'')
     | Some command \<Rightarrow>
         let row = job\<lparr>jb_StartedAt := no_time, jb_CompletedAt := no_time, jb_Command := command,
               jb_Checkpoint := '''', jb_Result := '''', jb_PublicErrorCode := '''', jb_AttemptCount := 0,
               jb_WorkReserved := 0, jb_Progress := None\<rparr>
         in case jobs_reject row of
              Some e \<Rightarrow> Inl e
            | None \<Rightarrow>
                if deduplicate \<and> (active_conflict (db_jobs db) row \<or> permanent_conflict (db_jobs db) row) then Inr (db, 0)
                else if list_ex (\<lambda>x. jb_ID x = jb_ID row) (db_jobs db) then
                  Inl (StoreError ErrConflict ''job'' ''jobs_pkey'')
                else if active_conflict (db_jobs db) row \<or> permanent_conflict (db_jobs db) row then
                  Inl (StoreError ErrConflict ''job'' ''jobs_type_dedupe_key_idx'')
                else Inr (db\<lparr>db_jobs := db_jobs db @ [row]\<rparr>, 1))"

definition enqueuePermanent ::
    "(string \<Rightarrow> string option) \<Rightarrow> Job \<Rightarrow> job_db \<Rightarrow> go_error + job_db \<times> (Job option \<times> bool)" where
  "enqueuePermanent jsonb proposed db =
     (case find (\<lambda>x. oc_Type x = jb_Type proposed \<and> oc_DedupeKey x = jb_DedupeKey proposed) (db_occurrences db) of
        None \<Rightarrow>
          let reserved = db\<lparr>db_occurrences := db_occurrences db @
                [\<lparr>oc_Type = jb_Type proposed, oc_DedupeKey = jb_DedupeKey proposed,
                  oc_JobID = jb_ID proposed, oc_CreatedAt = jb_CreatedAt proposed\<rparr>]\<rparr>
          in (case insertQueuedJob jsonb proposed False reserved of
                Inl e \<Rightarrow> Inl e
              | Inr (db', _) \<Rightarrow> Inr (db', (Some proposed, True)))
      | Some x \<Rightarrow> (case find (\<lambda>r. jb_ID r = oc_JobID x) (db_jobs db) of
            None \<Rightarrow> Inr (db, (None, False))
          | Some r \<Rightarrow> Inr (db, (Some r, False))))"

definition Enqueue ::
    "(string \<Rightarrow> string option) \<Rightarrow> Job option \<Rightarrow> job_db \<Rightarrow> job_db \<times> (go_error + Job option \<times> bool)" where
  "Enqueue jsonb input db = (case input of
       None \<Rightarrow> (db, Inl (StoreError ErrInvalidInput ''job'' ''enqueue''))
     | Some job \<Rightarrow>
         if Job_Validate (Some job) \<noteq> None \<or> jb_Status job \<noteq> JobStatusQueued \<or> jb_AttemptCount job \<noteq> 0 then
           (db, Inl (StoreError ErrInvalidInput ''job'' ''enqueue''))
         else if jb_DedupePolicy job = JobDedupePermanent then
           (case executeSQLTransaction True (enqueuePermanent jsonb job) db of
              (db', Inl e) \<Rightarrow> (db', Inl e)
            | (db', Inr (None, _)) \<Rightarrow> (db', Inr (None, False))
            | (db', Inr (Some r, True)) \<Rightarrow> (db', Inr (Some r, True))
            | (db', Inr (Some r, False)) \<Rightarrow> (case jobRow_model r of
                Inl e \<Rightarrow> (db', Inl e)
              | Inr found \<Rightarrow> (db', Inr (Some found, False))))
         else (case insertQueuedJob jsonb job True db of
             Inl e \<Rightarrow> (db, Inl e)
           | Inr (db', affected) \<Rightarrow>
               if affected = 1 then (db', Inr (Some job, True))
               else (case find (\<lambda>r. jb_Type r = jb_Type job \<and> jb_DedupeKey r = jb_DedupeKey job
                        \<and> jb_DedupePolicy r = jb_DedupePolicy job
                        \<and> (jb_DedupePolicy job = JobDedupeActive \<longrightarrow> active_status (jb_Status r))) (db_jobs db') of
                   None \<Rightarrow> (db', Inl (StoreError ErrNotFound ''job'' (jb_DedupeKey job)))
                 | Some r \<Rightarrow> (case jobRow_model r of
                     Inl e \<Rightarrow> (db', Inl e)
                   | Inr found \<Rightarrow> (db', Inr (Some found, False))))))"

section \<open>ClaimNext\<close>

record JobClaimRequest =
  cr_Types :: "JobType list"
  cr_NodeID :: string
  cr_ClaimToken :: string
  cr_LeaseDuration :: int

text \<open>\<^verbatim>\<open>UPDATE job_attempts SET status = 'lease_expired' ... RETURNING job_id\<close>\<close>

definition lease_lost :: "gtime \<Rightarrow> JobAttempt \<Rightarrow> bool" where
  "lease_lost now a \<longleftrightarrow> ja_Status a = JobAttemptStatusRunning \<and> \<not> After (ja_LeaseExpiresAt a) now"

definition expire_attempts :: "gtime \<Rightarrow> job_db \<Rightarrow> job_db \<times> string list" where
  "expire_attempts now db =
     (db\<lparr>db_attempts := map (\<lambda>a. if lease_lost now a
        then a\<lparr>ja_Status := JobAttemptStatusLeaseExpired, ja_CompletedAt := OptionalTimeFrom now\<rparr> else a) (db_attempts db)\<rparr>,
      map ja_JobID (filter (lease_lost now) (db_attempts db)))"

text \<open>The delay in nanoseconds: the length of the latest expired lease, doubled with each attempt, at most an hour.\<close>

definition leaseExpiryBackoff :: "JobAttempt list \<Rightarrow> Job \<Rightarrow> int" where
  "leaseExpiryBackoff attempts j =
     (let expired = filter (\<lambda>a. ja_JobID a = jb_ID j \<and> ja_Status a = JobAttemptStatusLeaseExpired) attempts;
          base = (case rev (sort_key ja_Number expired) of
              [] \<Rightarrow> 0
            | a # _ \<Rightarrow> t_ns (ja_LeaseExpiresAt a) - t_ns (ja_HeartbeatAt a))
      in min (base * 2 ^ nat (min (max (jb_AttemptCount j - 1) 0) 10)) Hour)"

definition recovered_job :: "JobAttempt list \<Rightarrow> gtime \<Rightarrow> Job \<Rightarrow> Job" where
  "recovered_job attempts now j = j\<lparr>
     jb_Status := (if jb_Status j = JobStatusCancelRequested then JobStatusCanceled
       else if jb_AttemptCount j \<ge> jb_MaximumAttempts j then JobStatusFailed else JobStatusQueued),
     jb_CompletedAt := (if jb_Status j = JobStatusCancelRequested \<or> jb_AttemptCount j \<ge> jb_MaximumAttempts j
       then OptionalTimeFrom now else no_time),
     jb_PublicErrorCode := (if jb_Status j = JobStatusCancelRequested then ''job.canceled''
       else if jb_AttemptCount j \<ge> jb_MaximumAttempts j then ''job.lease_expired'' else jb_PublicErrorCode j),
     jb_AvailableAt := Add (TimeUTC now) (leaseExpiryBackoff attempts j),
     jb_UpdatedAt := (if After now (jb_UpdatedAt j) then TimeUTC now else jb_UpdatedAt j),
     jb_Revision := jb_Revision j + 1\<rparr>"

definition recover_expired :: "gtime \<Rightarrow> string \<Rightarrow> job_db \<Rightarrow> go_error + job_db" where
  "recover_expired now jobID db =
     (let hit = (\<lambda>r. jb_ID r = jobID \<and> (jb_Status r = JobStatusRunning \<or> jb_Status r = JobStatusCancelRequested))
      in if list_ex (\<lambda>r. hit r \<and> jb_Revision r = maxInt64) (db_jobs db) then
           Inl (StoreError ErrDriver ''job'' ''bigint out of range'')
         else Inr (db\<lparr>db_jobs := map (\<lambda>r. if hit r then recovered_job (db_attempts db) now r else r) (db_jobs db)\<rparr>))"

fun recover_all :: "gtime \<Rightarrow> string list \<Rightarrow> job_db \<Rightarrow> go_error + job_db" where
  "recover_all now [] db = Inr db"
| "recover_all now (i # is) db = (case recover_expired now i db of
     Inl e \<Rightarrow> Inl e
   | Inr db' \<Rightarrow> recover_all now is db')"

definition claimable :: "JobClaimRequest \<Rightarrow> gtime \<Rightarrow> job_db \<Rightarrow> Job \<Rightarrow> bool" where
  "claimable request now db j \<longleftrightarrow> jb_Status j = JobStatusQueued \<and> \<not> After (jb_AvailableAt j) now
     \<and> jb_AttemptCount j < jb_MaximumAttempts j \<and> List.member (cr_Types request) (jb_Type j)
     \<and> \<not> list_ex (\<lambda>a. ja_JobID a = jb_ID j \<and> ja_NodeID a = TrimSpace (cr_NodeID request)
          \<and> ja_Status a = JobAttemptStatusIncompatible) (db_attempts db)"

definition claim_order :: "Job \<Rightarrow> int \<times> int \<times> string" where
  "claim_order j = (t_ns (jb_AvailableAt j), t_ns (jb_CreatedAt j), jb_ID j)"

definition insert_attempt :: "JobAttempt \<Rightarrow> job_db \<Rightarrow> go_error + job_db" where
  "insert_attempt a db =
     (if \<not> int4 (ja_Number a) then Inl (StoreError ErrDriver ''job_attempt'' ''integer out of range'')
      else if list_ex (\<lambda>x. ja_ID x = ja_ID a \<or> ja_ClaimToken x = ja_ClaimToken a
                \<or> (ja_JobID x = ja_JobID a \<and> ja_Number x = ja_Number a)) (db_attempts db) then
        Inl (StoreError ErrConflict ''job_attempt'' ''unique'')
      else Inr (db\<lparr>db_attempts := db_attempts db @ [a]\<rparr>))"

datatype claim_outcome = Claimed Job JobAttempt | PostCommitErr go_error

definition claim_job ::
    "(string \<Rightarrow> string option) \<Rightarrow> JobClaimRequest \<Rightarrow> gtime \<Rightarrow> string \<Rightarrow> Job \<Rightarrow> job_db \<Rightarrow> go_error + job_db \<times> claim_outcome" where
  "claim_job jsonb request databaseNow attemptID row db = (case jobRow_model row of
       Inl e \<Rightarrow> Inl e
     | Inr job \<Rightarrow> (case Job_Start (Some job) (latestTime (jb_UpdatedAt job) databaseNow) of
         (Some running, None) \<Rightarrow> (case updateJob jsonb running db of
             Inl e \<Rightarrow> Inl e
           | Inr db' \<Rightarrow> (case NewJobAttempt attemptID (jb_ID running) (jb_AttemptCount running) (cr_NodeID request)
                 (cr_ClaimToken request) databaseNow (Add databaseNow (cr_LeaseDuration request)) of
               (Some attempt, None) \<Rightarrow> (case insert_attempt attempt db' of
                   Inl e \<Rightarrow> Inl e
                 | Inr db'' \<Rightarrow> Inr (db'', Claimed running attempt))
             | _ \<Rightarrow> Inl (StoreError ErrInvalidInput ''job_attempt'' ''claim'')))
       | _ \<Rightarrow> Inl (StoreError ErrConflict ''job'' ''not_claimable'')))"

definition claim_body ::
    "(string \<Rightarrow> string option) \<Rightarrow> JobClaimRequest \<Rightarrow> gtime \<Rightarrow> string \<Rightarrow> string list \<Rightarrow> job_db
     \<Rightarrow> go_error + job_db \<times> claim_outcome" where
  "claim_body jsonb request now attemptID locked db =
     (let databaseNow = jobDatabaseNow now;
          (expired, expiredJobIDs) = expire_attempts databaseNow db
      in case recover_all databaseNow expiredJobIDs expired of
           Inl e \<Rightarrow> Inl e
         | Inr db' \<Rightarrow> (case sort_key claim_order (filter (\<lambda>j. claimable request databaseNow db' j
                  \<and> \<not> List.member locked (jb_ID j)) (db_jobs db')) of
             [] \<Rightarrow> if expiredJobIDs \<noteq> [] then Inr (db', PostCommitErr (StoreError ErrNotFound ''job'' ''claimable''))
                   else Inl (StoreError ErrNotFound ''job'' ''claimable'')
           | row # _ \<Rightarrow> claim_job jsonb request databaseNow attemptID row db'))"

definition ClaimNext ::
    "(string \<Rightarrow> string option) \<Rightarrow> JobClaimRequest option \<Rightarrow> gtime \<Rightarrow> string \<Rightarrow> string list \<Rightarrow> job_db
     \<Rightarrow> job_db \<times> (go_error + Job \<times> JobAttempt)" where
  "ClaimNext jsonb input now attemptID locked db = (case input of
       None \<Rightarrow> (db, Inl (StoreError ErrInvalidInput ''job'' ''claim''))
     | Some request \<Rightarrow>
         if length (cr_Types request) = 0 \<or> TrimSpace (cr_NodeID request) = ''''
            \<or> \<not> JobClaimToken_IsValid (cr_ClaimToken request)
            \<or> cr_LeaseDuration request \<le> 0 \<or> cr_LeaseDuration request > Hour then
           (db, Inl (StoreError ErrInvalidInput ''job'' ''claim''))
         else (case executeSQLTransaction True (claim_body jsonb request now attemptID locked) db of
             (db', Inl e) \<Rightarrow> (db', Inl e)
           | (db', Inr (PostCommitErr e)) \<Rightarrow> (db', Inl e)
           | (db', Inr (Claimed job attempt)) \<Rightarrow> (db', Inr (job, attempt))))"

section \<open>Calls of a worker\<close>

record JobHeartbeat =
  hb_AttemptID :: string
  hb_ClaimToken :: string
  hb_LeaseDuration :: int

definition heartbeat_body :: "JobHeartbeat \<Rightarrow> gtime \<Rightarrow> job_db \<Rightarrow> go_error + job_db \<times> JobAttempt" where
  "heartbeat_body input now db =
     (let databaseNow = jobDatabaseNow now
      in case getFencedAttempt db (hb_AttemptID input) (hb_ClaimToken input) databaseNow of
           Inl e \<Rightarrow> Inl e
         | Inr attempt \<Rightarrow>
             let heartbeatAt = latestTime (ja_HeartbeatAt attempt) databaseNow
             in (case JobAttempt_Heartbeat (Some attempt) heartbeatAt (Add heartbeatAt (hb_LeaseDuration input)) of
                   (Some heartbeat, None) \<Rightarrow>
                     Inr (db\<lparr>db_attempts := map (\<lambda>a. if ja_ID a = ja_ID heartbeat
                         \<and> ja_ClaimToken a = ja_ClaimToken heartbeat \<and> ja_Status a = JobAttemptStatusRunning
                         then a\<lparr>ja_HeartbeatAt := ja_HeartbeatAt heartbeat,
                                ja_LeaseExpiresAt := ja_LeaseExpiresAt heartbeat\<rparr> else a) (db_attempts db)\<rparr>, heartbeat)
                 | _ \<Rightarrow> Inl (StoreError ErrConflict ''job_attempt'' ''not_running'')))"

definition Heartbeat :: "JobHeartbeat option \<Rightarrow> gtime \<Rightarrow> job_db \<Rightarrow> job_db \<times> (go_error + JobAttempt)" where
  "Heartbeat input now db = (case input of
       None \<Rightarrow> (db, Inl (StoreError ErrInvalidInput ''job_attempt'' ''heartbeat''))
     | Some i \<Rightarrow>
         if \<not> IsValidOpaqueID (hb_AttemptID i) \<or> \<not> JobClaimToken_IsValid (hb_ClaimToken i)
            \<or> hb_LeaseDuration i \<le> 0 \<or> hb_LeaseDuration i > Hour then
           (db, Inl (StoreError ErrInvalidInput ''job_attempt'' ''heartbeat''))
         else executeSQLTransaction True (heartbeat_body i now) db)"

record JobCheckpoint =
  cp_AttemptID :: string
  cp_ClaimToken :: string
  cp_Progress :: "JobProgress option"
  cp_Checkpoint :: string

definition checkpoint_body ::
    "(string \<Rightarrow> string option) \<Rightarrow> JobCheckpoint \<Rightarrow> gtime \<Rightarrow> job_db \<Rightarrow> go_error + job_db \<times> Job" where
  "checkpoint_body jsonb input now db =
     (let databaseNow = jobDatabaseNow now
      in case getFencedAttempt db (cp_AttemptID input) (cp_ClaimToken input) databaseNow of
           Inl e \<Rightarrow> Inl e
         | Inr attempt \<Rightarrow> (case getJob db (ja_JobID attempt) of
             Inl e \<Rightarrow> Inl e
           | Inr job \<Rightarrow> (case Job_UpdateProgress (Some job) (cp_Progress input) (cp_Checkpoint input)
                  (latestTime (jb_UpdatedAt job) databaseNow) of
               (Some updated, None) \<Rightarrow> (case updateJob jsonb updated db of
                   Inl e \<Rightarrow> Inl e
                 | Inr db' \<Rightarrow> Inr (db', updated))
             | _ \<Rightarrow> Inl (StoreError ErrInvalidInput ''job'' ''checkpoint''))))"

definition Checkpoint ::
    "(string \<Rightarrow> string option) \<Rightarrow> JobCheckpoint option \<Rightarrow> gtime \<Rightarrow> job_db \<Rightarrow> job_db \<times> (go_error + Job)" where
  "Checkpoint jsonb input now db = (case input of
       None \<Rightarrow> (db, Inl (StoreError ErrInvalidInput ''job'' ''checkpoint''))
     | Some i \<Rightarrow>
         if \<not> IsValidOpaqueID (cp_AttemptID i) \<or> \<not> JobClaimToken_IsValid (cp_ClaimToken i) then
           (db, Inl (StoreError ErrInvalidInput ''job'' ''checkpoint''))
         else executeSQLTransaction True (checkpoint_body jsonb i now) db)"

record JobWorkReservation =
  rw_AttemptID :: string
  rw_ClaimToken :: string
  rw_Units :: int
  rw_Limit :: int

definition reserve_body :: "JobWorkReservation \<Rightarrow> gtime \<Rightarrow> job_db \<Rightarrow> go_error + job_db \<times> (bool \<times> int)" where
  "reserve_body input now db =
     (let databaseNow = jobDatabaseNow now
      in case getFencedAttempt db (rw_AttemptID input) (rw_ClaimToken input) databaseNow of
           Inl e \<Rightarrow> Inl e
         | Inr attempt \<Rightarrow>
             (case find (\<lambda>r. jb_ID r = ja_JobID attempt \<and> jb_WorkReserved r + rw_Units input \<le> rw_Limit input) (db_jobs db) of
                Some r \<Rightarrow>
                  if jb_Revision r = maxInt64 then Inl (StoreError ErrDriver ''job'' ''bigint out of range'')
                  else
                    let row = r\<lparr>jb_WorkReserved := jb_WorkReserved r + rw_Units input,
                          jb_UpdatedAt := (if After databaseNow (jb_UpdatedAt r) then TimeUTC databaseNow else jb_UpdatedAt r),
                          jb_Revision := jb_Revision r + 1\<rparr>
                    in Inr (db\<lparr>db_jobs := put_job row (db_jobs db)\<rparr>,
                            (True, jb_WorkReserved row))
              | None \<Rightarrow> (case find (\<lambda>r. jb_ID r = ja_JobID attempt) (db_jobs db) of
                    None \<Rightarrow> Inl (StoreError ErrNotFound ''job'' (ja_JobID attempt))
                  | Some r \<Rightarrow> Inr (db, (False, jb_WorkReserved r)))))"

definition ReserveWork ::
    "JobWorkReservation option \<Rightarrow> gtime \<Rightarrow> job_db \<Rightarrow> job_db \<times> (go_error + bool \<times> int)" where
  "ReserveWork input now db = (case input of
       None \<Rightarrow> (db, Inl (StoreError ErrInvalidInput ''job'' ''reserve_work''))
     | Some i \<Rightarrow>
         if \<not> IsValidOpaqueID (rw_AttemptID i) \<or> \<not> JobClaimToken_IsValid (rw_ClaimToken i) \<or> rw_Units i \<le> 0
            \<or> rw_Limit i \<le> 0 \<or> rw_Units i > rw_Limit i \<or> rw_Limit i > 1000000 then
           (db, Inl (StoreError ErrInvalidInput ''job'' ''reserve_work''))
         else executeSQLTransaction True (reserve_body i now) db)"

datatype JobCompletionKind =
    JobCompletionSucceeded
  | JobCompletionRetryableFailure
  | JobCompletionRelinquished
  | JobCompletionPermanentFailure
  | JobCompletionCanceled
  | JobCompletionOther string

record JobCompletion =
  cm_AttemptID :: string
  cm_ClaimToken :: string
  cm_Kind :: JobCompletionKind
  cm_RetryDelay :: int
  cm_Result :: string
  cm_PublicErrorCode :: string

text \<open>The attempt status, the public code and the outcome of the job that a completion asks for.\<close>

definition completion_kind :: "JobCompletion \<Rightarrow> Job \<Rightarrow> JobCompletionKind \<times> string" where
  "completion_kind input job =
     (if jb_Status job = JobStatusCancelRequested
         \<and> (cm_Kind input = JobCompletionRetryableFailure \<or> cm_Kind input = JobCompletionRelinquished)
      then (JobCompletionCanceled, ''job.canceled'')
      else (cm_Kind input, cm_PublicErrorCode input))"

definition completion_transition ::
    "JobCompletion \<Rightarrow> JobCompletionKind \<Rightarrow> string \<Rightarrow> Job \<Rightarrow> gtime
     \<Rightarrow> JobAttemptStatus \<times> (Job option \<times> go_error option)" where
  "completion_transition input kind code job jobAt = (case kind of
       JobCompletionSucceeded \<Rightarrow> (JobAttemptStatusSucceeded, Job_Succeed (Some job) (cm_Result input) jobAt)
     | JobCompletionRetryableFailure \<Rightarrow> (JobAttemptStatusFailed,
         if jb_AttemptCount job < jb_MaximumAttempts job
         then Job_Retry (Some job) code (Add jobAt (cm_RetryDelay input)) jobAt
         else Job_Fail (Some job) code jobAt)
     | JobCompletionRelinquished \<Rightarrow> (JobAttemptStatusIncompatible,
         Job_Relinquish (Some job) code (Add jobAt (cm_RetryDelay input)) jobAt)
     | JobCompletionPermanentFailure \<Rightarrow> (JobAttemptStatusFailed, Job_Fail (Some job) code jobAt)
     | JobCompletionCanceled \<Rightarrow> (JobAttemptStatusCanceled, Job_Cancel (Some job) code jobAt)
     | JobCompletionOther s \<Rightarrow> (JobAttemptStatusOther '''', (None, Some (Sentinel ''unknown completion kind''))))"

definition complete_body ::
    "(string \<Rightarrow> string option) \<Rightarrow> JobCompletion \<Rightarrow> gtime \<Rightarrow> job_db \<Rightarrow> go_error + job_db \<times> Job" where
  "complete_body jsonb input now db =
     (let databaseNow = jobDatabaseNow now
      in case getFencedAttempt db (cm_AttemptID input) (cm_ClaimToken input) databaseNow of
           Inl e \<Rightarrow> Inl e
         | Inr attempt \<Rightarrow> (case getJob db (ja_JobID attempt) of
             Inl e \<Rightarrow> Inl e
           | Inr job \<Rightarrow>
               let jobAt = latestTime (jb_UpdatedAt job) databaseNow;
                   (kind, code) = completion_kind input job;
                   (attemptStatus, transition) = completion_transition input kind code job jobAt
               in (case transition of
                     (Some updated, None) \<Rightarrow>
                       (case JobAttempt_Complete (Some attempt) attemptStatus code
                               (latestTime (ja_HeartbeatAt attempt) databaseNow) of
                          (Some completed, None) \<Rightarrow>
                            (case updateJob jsonb updated (db\<lparr>db_attempts :=
                                  map (\<lambda>a. if ja_ID a = ja_ID completed \<and> ja_ClaimToken a = ja_ClaimToken completed
                                        \<and> ja_Status a = JobAttemptStatusRunning
                                      then a\<lparr>ja_Status := ja_Status completed, ja_CompletedAt := ja_CompletedAt completed,
                                             ja_PublicErrorCode := ja_PublicErrorCode completed\<rparr> else a) (db_attempts db)\<rparr>) of
                               Inl e \<Rightarrow> Inl e
                             | Inr db' \<Rightarrow> Inr (db', updated))
                        | _ \<Rightarrow> Inl (StoreError ErrInvalidInput ''job_attempt'' ''completion''))
                   | _ \<Rightarrow> Inl (StoreError ErrInvalidInput ''job'' ''completion''))))"

definition Complete ::
    "(string \<Rightarrow> string option) \<Rightarrow> JobCompletion option \<Rightarrow> gtime \<Rightarrow> job_db \<Rightarrow> job_db \<times> (go_error + Job)" where
  "Complete jsonb input now db = (case input of
       None \<Rightarrow> (db, Inl (StoreError ErrInvalidInput ''job'' ''completion''))
     | Some i \<Rightarrow>
         if \<not> IsValidOpaqueID (cm_AttemptID i) \<or> \<not> JobClaimToken_IsValid (cm_ClaimToken i) \<or> cm_RetryDelay i < 0
            \<or> cm_RetryDelay i > 24 * Hour then
           (db, Inl (StoreError ErrInvalidInput ''job'' ''completion''))
         else executeSQLTransaction True (complete_body jsonb i now) db)"

definition CancellationRequested ::
    "string \<Rightarrow> string \<Rightarrow> gtime \<Rightarrow> job_db \<Rightarrow> job_db \<times> (go_error + bool)" where
  "CancellationRequested attemptID token now db =
     (if \<not> IsValidOpaqueID attemptID \<or> \<not> JobClaimToken_IsValid token then
        (db, Inl (StoreError ErrInvalidInput ''job_attempt'' ''observe_cancellation''))
      else executeSQLTransaction False (\<lambda>db. case getFencedAttempt db attemptID token (jobDatabaseNow now) of
          Inl e \<Rightarrow> Inl e
        | Inr attempt \<Rightarrow> (case getJob db (ja_JobID attempt) of
            Inl e \<Rightarrow> Inl e
          | Inr job \<Rightarrow> Inr (db, jb_Status job = JobStatusCancelRequested))) db)"

section \<open>Operators\<close>

record JobMutation =
  mu_ID :: string
  mu_ExpectedRevision :: int
  mu_AuditEventID :: string
  mu_AuditAt :: gtime

text \<open>
  The audit event of the operation is completed in the same transaction, in the audit table, which
  is not part of this state; its outcome is the argument \<open>audit\<close>, and an error there rolls back.
\<close>

definition mutate_body ::
    "(string \<Rightarrow> string option) \<Rightarrow> JobMutation \<Rightarrow> string \<Rightarrow> (Job option \<Rightarrow> gtime \<Rightarrow> Job option \<times> go_error option)
     \<Rightarrow> go_error option \<Rightarrow> gtime \<Rightarrow> job_db \<Rightarrow> go_error + job_db \<times> Job" where
  "mutate_body jsonb input operation mutate audit now db =
     (let databaseNow = jobDatabaseNow now
      in case getJob db (mu_ID input) of
           Inl e \<Rightarrow> Inl e
         | Inr job \<Rightarrow>
             if jb_Revision job \<noteq> mu_ExpectedRevision input then Inl (StoreError ErrConflict ''job'' ''job_changed'')
             else (case mutate (Some job) (latestTime (jb_UpdatedAt job) databaseNow) of
                 (Some updated, None) \<Rightarrow> (case updateJob jsonb updated db of
                     Inl e \<Rightarrow> Inl e
                   | Inr db' \<Rightarrow> (case audit of
                       Some e \<Rightarrow> Inl e
                     | None \<Rightarrow> Inr (db', updated)))
               | _ \<Rightarrow> Inl (StoreError ErrConflict ''job'' (operation @ ''_unsupported''))))"

definition mutateOperatorJob ::
    "(string \<Rightarrow> string option) \<Rightarrow> JobMutation option \<Rightarrow> string \<Rightarrow> (Job option \<Rightarrow> gtime \<Rightarrow> Job option \<times> go_error option)
     \<Rightarrow> go_error option \<Rightarrow> gtime \<Rightarrow> job_db \<Rightarrow> job_db \<times> (go_error + Job)" where
  "mutateOperatorJob jsonb input operation mutate audit now db = (case input of
       None \<Rightarrow> (db, Inl (StoreError ErrInvalidInput ''job'' operation))
     | Some i \<Rightarrow>
         if \<not> IsValidOpaqueID (mu_ID i) \<or> mu_ExpectedRevision i \<le> 0 \<or> \<not> IsValidOpaqueID (mu_AuditEventID i)
            \<or> IsZero (mu_AuditAt i) then
           (db, Inl (StoreError ErrInvalidInput ''job'' operation))
         else executeSQLTransaction True (mutate_body jsonb i operation mutate audit now) db)"

definition JobStore_Cancel ::
    "(string \<Rightarrow> string option) \<Rightarrow> JobMutation option \<Rightarrow> go_error option \<Rightarrow> gtime \<Rightarrow> job_db \<Rightarrow> job_db \<times> (go_error + Job)" where
  "JobStore_Cancel jsonb input audit now db =
     mutateOperatorJob jsonb input ''cancel'' Job_RequestCancellation audit now db"

definition JobStore_Retry ::
    "(string \<Rightarrow> string option) \<Rightarrow> JobMutation option \<Rightarrow> go_error option \<Rightarrow> gtime \<Rightarrow> job_db \<Rightarrow> job_db \<times> (go_error + Job)" where
  "JobStore_Retry jsonb input audit now db =
     mutateOperatorJob jsonb input ''retry'' Job_ExplicitRetry audit now db"

section \<open>History cleanup\<close>

record JobRetentionPolicy =
  rp_Type :: JobType
  rp_SucceededCanceledAge :: int
  rp_FailedAge :: int

record JobHistoryCleanup =
  hc_ExcludeJobID :: string
  hc_Policies :: "JobRetentionPolicy list"
  hc_AfterCompletedAt :: gtime
  hc_AfterJobID :: string
  hc_Limit :: int

record JobHistoryCleanupResult =
  hr_Deleted :: nat
  hr_LastCompletedAt :: gtime
  hr_LastJobID :: string
  hr_Done :: bool

fun policies_ok :: "JobType list \<Rightarrow> JobRetentionPolicy list \<Rightarrow> bool" where
  "policies_ok seen [] = True"
| "policies_ok seen (p # ps) =
     (if List.member seen (rp_Type p) \<or> rp_SucceededCanceledAge p \<le> 0 \<or> rp_FailedAge p < rp_SucceededCanceledAge p
      then False else policies_ok (rp_Type p # seen) ps)"

definition policy_expired :: "gtime \<Rightarrow> Job \<Rightarrow> JobRetentionPolicy \<Rightarrow> bool" where
  "policy_expired now j p \<longleftrightarrow> jb_Type j = rp_Type p
     \<and> (((jb_Status j = JobStatusSucceeded \<or> jb_Status j = JobStatusCanceled)
           \<and> t_ns (ot_Time (jb_CompletedAt j)) \<le> t_ns now - rp_SucceededCanceledAge p)
        \<or> (jb_Status j = JobStatusFailed \<and> t_ns (ot_Time (jb_CompletedAt j)) \<le> t_ns now - rp_FailedAge p))"

definition unreferencedJob :: "job_db \<Rightarrow> Job \<Rightarrow> bool" where
  "unreferencedJob db j \<longleftrightarrow> \<not> List.member (db_onboarding_jobs db) (jb_ID j) \<and> \<not> List.member (db_mail_jobs db) (jb_ID j)"

definition removable :: "JobHistoryCleanup \<Rightarrow> job_db \<Rightarrow> Job \<Rightarrow> bool" where
  "removable input db j \<longleftrightarrow> jb_ID j \<noteq> hc_ExcludeJobID input \<and> terminal_status (jb_Status j)
     \<and> \<not> List.member (db_rekey_jobs db) (jb_ID j) \<and> unreferencedJob db j"

definition cleanup_after :: "JobHistoryCleanup \<Rightarrow> Job \<Rightarrow> bool" where
  "cleanup_after input j \<longleftrightarrow> IsZero (hc_AfterCompletedAt input)
     \<or> t_ns (ot_Time (jb_CompletedAt j)) > t_ns (TimeUTC (hc_AfterCompletedAt input))
     \<or> (t_ns (ot_Time (jb_CompletedAt j)) = t_ns (TimeUTC (hc_AfterCompletedAt input)) \<and> jb_ID j > hc_AfterJobID input)"

definition cleanup_page :: "JobHistoryCleanup \<Rightarrow> gtime \<Rightarrow> string list \<Rightarrow> job_db \<Rightarrow> Job list" where
  "cleanup_page input now locked db =
     take (nat (hc_Limit input))
       (sort_key (\<lambda>j. (t_ns (ot_Time (jb_CompletedAt j)), jb_ID j))
         (filter (\<lambda>j. removable input db j \<and> ot_Valid (jb_CompletedAt j) \<and> cleanup_after input j
            \<and> list_ex (policy_expired now j) (hc_Policies input) \<and> \<not> List.member locked (jb_ID j)) (db_jobs db)))"

definition cleanup_body ::
    "JobHistoryCleanup \<Rightarrow> gtime \<Rightarrow> string list \<Rightarrow> job_db \<Rightarrow> go_error + job_db \<times> JobHistoryCleanupResult" where
  "cleanup_body input now locked db =
     (let databaseNow = jobDatabaseNow now
      in if \<not> policies_ok [] (hc_Policies input) then Inl (StoreError ErrInvalidInput ''job'' ''retention_policy'')
         else
           let rows = cleanup_page input databaseNow locked db;
               finished = (int (length rows) < hc_Limit input)
           in if rows = [] then
                Inr (db, \<lparr>hr_Deleted = 0, hr_LastCompletedAt = zero_time, hr_LastJobID = '''', hr_Done = finished\<rparr>)
              else
                let ids = map jb_ID rows;
                    attempts = filter (\<lambda>a. \<not> List.member ids (ja_JobID a)) (db_attempts db);
                    doomed = (\<lambda>j. List.member ids (jb_ID j) \<and> removable input db j);
                    jobs = filter (\<lambda>j. \<not> doomed j) (db_jobs db);
                    latest = last rows
                in Inr (db\<lparr>db_attempts := attempts, db_jobs := jobs\<rparr>,
                     \<lparr>hr_Deleted = length (filter doomed (db_jobs db)),
                      hr_LastCompletedAt = in_UTC (ot_Time (jb_CompletedAt latest)),
                      hr_LastJobID = jb_ID latest, hr_Done = finished\<rparr>))"

definition DeleteTerminalHistory ::
    "JobHistoryCleanup option \<Rightarrow> gtime \<Rightarrow> string list \<Rightarrow> job_db \<Rightarrow> job_db \<times> (go_error + JobHistoryCleanupResult)" where
  "DeleteTerminalHistory input now locked db = (case input of
       None \<Rightarrow> (db, Inl (StoreError ErrInvalidInput ''job'' ''history_cleanup''))
     | Some i \<Rightarrow>
         if \<not> IsValidOpaqueID (hc_ExcludeJobID i) \<or> hc_Limit i < 1 \<or> hc_Limit i > 200 \<or> hc_Policies i = []
            \<or> IsZero (hc_AfterCompletedAt i) \<noteq> (hc_AfterJobID i = '''')
            \<or> (hc_AfterJobID i \<noteq> '''' \<and> \<not> IsValidOpaqueID (hc_AfterJobID i)) then
           (db, Inl (StoreError ErrInvalidInput ''job'' ''history_cleanup''))
         else executeSQLTransaction True (cleanup_body i now locked) db)"

section \<open>Reads\<close>

definition JobStore_Get :: "string \<Rightarrow> job_db \<Rightarrow> go_error + Job" where
  "JobStore_Get ident db = getJob db ident"

definition ListAttempts :: "string \<Rightarrow> job_db \<Rightarrow> go_error + JobAttempt list" where
  "ListAttempts jobID db =
     (if \<not> IsValidOpaqueID jobID then Inl (StoreError ErrInvalidInput ''job'' ''id'')
      else rehydrate jobAttemptRow_model (sort_key ja_Number (filter (\<lambda>a. ja_JobID a = jobID) (db_attempts db))))"

record JobListOptions =
  lo_Types :: "JobType list"
  lo_Statuses :: "JobStatus list"
  lo_BeforeCreatedAt :: gtime
  lo_BeforeID :: string
  lo_Limit :: int

definition list_key :: "Job \<Rightarrow> int \<times> string" where
  "list_key j = (t_ns (jb_CreatedAt j), jb_ID j)"

definition listed :: "JobListOptions \<Rightarrow> Job \<Rightarrow> bool" where
  "listed options j \<longleftrightarrow> List.member (lo_Types options) (jb_Type j)
     \<and> (length (lo_Statuses options) > 0 \<longrightarrow> List.member (lo_Statuses options) (jb_Status j))
     \<and> (lo_BeforeID options \<noteq> '''' \<longrightarrow> list_key j < (t_ns (lo_BeforeCreatedAt options), lo_BeforeID options))"

definition JobStore_List :: "JobListOptions \<Rightarrow> job_db \<Rightarrow> go_error + Job list" where
  "JobStore_List options db =
     (if lo_Limit options < 1 \<or> lo_Limit options > 201 \<or> length (lo_Types options) = 0
         \<or> (lo_BeforeID options \<noteq> '''' \<and> (\<not> IsValidOpaqueID (lo_BeforeID options) \<or> IsZero (lo_BeforeCreatedAt options))) then
        Inl (StoreError ErrInvalidInput ''job'' ''list'')
      else rehydrate jobRow_model (take (nat (lo_Limit options))
        (rev (sort_key list_key (filter (listed options) (db_jobs db))))))"

record JobAttemptListOptions =
  la_JobID :: string
  la_BeforeNumber :: int
  la_Limit :: int

definition attempt_listed :: "JobAttemptListOptions \<Rightarrow> JobAttempt \<Rightarrow> bool" where
  "attempt_listed options a \<longleftrightarrow> ja_JobID a = la_JobID options
     \<and> (la_BeforeNumber options > 0 \<longrightarrow> ja_Number a < la_BeforeNumber options)"

definition ListAttemptsPage :: "JobAttemptListOptions \<Rightarrow> job_db \<Rightarrow> go_error + JobAttempt list" where
  "ListAttemptsPage options db =
     (if \<not> IsValidOpaqueID (la_JobID options) \<or> la_BeforeNumber options < 0 \<or> la_Limit options < 1 \<or> la_Limit options > 201 then
        Inl (StoreError ErrInvalidInput ''job_attempt'' ''list'')
      else rehydrate jobAttemptRow_model (take (nat (la_Limit options))
        (rev (sort_key ja_Number (filter (attempt_listed options) (db_attempts db))))))"

end
