(* ===== verification/JobLedger.thy ===== *)
theory JobLedger
  imports JobStore
begin

text \<open>
  The invariant of the durable job queue and that every transaction keeps it: the rows validate, the
  unique indexes hold, and the job table and the attempt table agree on who executes what.
\<close>

section \<open>The invariant\<close>

text \<open>What the database documents of its JSON type: it gives back valid JSON, in a form it gives back unchanged.\<close>

definition jsonb_doc :: "(string \<Rightarrow> string option) \<Rightarrow> bool" where
  "jsonb_doc jsonb \<longleftrightarrow> (\<forall>s t. jsonb s = Some t \<longrightarrow> t \<noteq> '''' \<and> json_Valid t \<and> jsonb t = Some t)"

definition executing :: "Job \<Rightarrow> bool" where
  "executing j \<longleftrightarrow> jb_Status j = JobStatusRunning \<or> jb_Status j = JobStatusCancelRequested"

definition attempt_running :: "JobAttempt \<Rightarrow> bool" where
  "attempt_running a \<longleftrightarrow> ja_Status a = JobAttemptStatusRunning"

definition claims :: "JobAttempt list \<Rightarrow> string \<Rightarrow> JobAttempt list" where
  "claims as i = filter (\<lambda>a. ja_JobID a = i) as"

definition job_row_ok :: "(string \<Rightarrow> string option) \<Rightarrow> Job \<Rightarrow> bool" where
  "job_row_ok jsonb j \<longleftrightarrow> Job_Validate (Some j) = None \<and> jobs_reject j = None \<and> is_int64 (jb_Revision j)
     \<and> nullableJSON jsonb (jb_Checkpoint j) = Some (jb_Checkpoint j) \<and> nullableJSON jsonb (jb_Result j) = Some (jb_Result j)"

definition numbered :: "Job \<Rightarrow> JobAttempt list \<Rightarrow> bool" where
  "numbered j as \<longleftrightarrow> distinct (map ja_Number as) \<and> (\<forall>a \<in> set as. ja_Number a \<le> jb_AttemptCount j)"

text \<open>
  The job is executing exactly when one of its attempts runs, and then it is the latest one.  While
  lost leases are being recovered, the jobs in \<open>S\<close> still execute but have no running attempt.
\<close>

definition claim_owned :: "string set \<Rightarrow> Job \<Rightarrow> JobAttempt list \<Rightarrow> bool" where
  "claim_owned S j as \<longleftrightarrow> (executing j \<longleftrightarrow> jb_ID j \<in> S \<or> (\<exists>a \<in> set as. attempt_running a))
     \<and> (\<forall>a \<in> set as. attempt_running a \<longrightarrow> ja_Number a = jb_AttemptCount j \<and> jb_ID j \<notin> S)"

definition jobs_ok :: "(string \<Rightarrow> string option) \<Rightarrow> Job list \<Rightarrow> bool" where
  "jobs_ok jsonb js \<longleftrightarrow> distinct (map jb_ID js) \<and> (\<forall>j \<in> set js. job_row_ok jsonb j
     \<and> \<not> active_conflict (other_jobs j js) j \<and> \<not> permanent_conflict (other_jobs j js) j)"

definition attempts_ok :: "Job list \<Rightarrow> JobAttempt list \<Rightarrow> bool" where
  "attempts_ok js as \<longleftrightarrow> distinct (map ja_ID as) \<and> distinct (map ja_ClaimToken as)
     \<and> (\<forall>a \<in> set as. JobAttempt_Validate (Some a) = None \<and> ja_JobID a \<in> jb_ID ` set js)"

definition ledger_ok :: "string set \<Rightarrow> Job list \<Rightarrow> JobAttempt list \<Rightarrow> bool" where
  "ledger_ok S js as \<longleftrightarrow> (\<forall>j \<in> set js. numbered j (claims as (jb_ID j)) \<and> claim_owned S j (claims as (jb_ID j)))"

definition occurrences_ok :: "Job list \<Rightarrow> occurrence list \<Rightarrow> bool" where
  "occurrences_ok js xs \<longleftrightarrow> (\<forall>j \<in> set js. jb_DedupePolicy j = JobDedupePermanent \<longrightarrow>
     (\<exists>x \<in> set xs. oc_Type x = jb_Type j \<and> oc_DedupeKey x = jb_DedupeKey j))"

definition db_inv_except :: "string set \<Rightarrow> (string \<Rightarrow> string option) \<Rightarrow> job_db \<Rightarrow> bool" where
  "db_inv_except S jsonb db \<longleftrightarrow> jobs_ok jsonb (db_jobs db) \<and> attempts_ok (db_jobs db) (db_attempts db)
     \<and> ledger_ok S (db_jobs db) (db_attempts db) \<and> occurrences_ok (db_jobs db) (db_occurrences db)"

abbreviation db_inv :: "(string \<Rightarrow> string option) \<Rightarrow> job_db \<Rightarrow> bool" where
  "db_inv \<equiv> db_inv_except {}"

section \<open>Rows\<close>

lemma JobAttempt_Validate_ok:
  "JobAttempt_Validate (Some a) = None \<longleftrightarrow>
     IsValidOpaqueID (ja_ID a) \<and> IsValidOpaqueID (ja_JobID a) \<and> 0 < ja_Number a
     \<and> validJobAttemptStatus (ja_Status a) \<and> ja_NodeID a \<noteq> '''' \<and> length (ja_NodeID a) \<le> 255
     \<and> JobClaimToken_IsValid (ja_ClaimToken a) \<and> \<not> IsZero (ja_StartedAt a)
     \<and> \<not> Before (ja_HeartbeatAt a) (ja_StartedAt a) \<and> After (ja_LeaseExpiresAt a) (ja_HeartbeatAt a)
     \<and> validPublicJobCode (ja_PublicErrorCode a)
     \<and> (ja_Status a = JobAttemptStatusRunning \<longleftrightarrow> \<not> ot_Valid (ja_CompletedAt a))"
  unfolding JobAttempt_Validate_def option.case guard_ok de_Morgan_disj not_less not_le not_not by blast

lemma jobs_reject_ok:
  "jobs_reject r = None \<longleftrightarrow> int4 (jb_AttemptCount r) \<and> int4 (jb_MaximumAttempts r) \<and> int4 (jb_WorkReserved r)
     \<and> 0 \<le> jb_AttemptCount r \<and> 0 < jb_MaximumAttempts r \<and> 0 \<le> jb_WorkReserved r \<and> 0 < jb_Revision r
     \<and> \<not> Before (jb_UpdatedAt r) (jb_CreatedAt r) \<and> jb_AttemptCount r \<le> jb_MaximumAttempts r
     \<and> (terminal_status (jb_Status r) \<longleftrightarrow> ot_Valid (jb_CompletedAt r))
     \<and> length (jb_Command r) \<le> 65536 \<and> length (jb_Checkpoint r) \<le> 65536 \<and> length (jb_Result r) \<le> 65536"
  unfolding jobs_reject_def guard_ok de_Morgan_disj not_less not_le not_not by blast

lemma int4_int64: "int4 x \<Longrightarrow> is_int64 x"
  by (simp add: int4_def is_int64_def maxInt64_def minInt64_def)

lemma jobRow_model_ok [simp]: "jobRow_model r = Inr j \<longleftrightarrow> j = r \<and> Job_Validate (Some r) = None"
  by (auto simp: jobRow_model_def split: option.splits)

lemma jobAttemptRow_model_ok [simp]: "jobAttemptRow_model r = Inr a \<longleftrightarrow> a = r \<and> JobAttempt_Validate (Some r) = None"
  by (auto simp: jobAttemptRow_model_def split: option.splits)

lemma unique_job: "distinct (map jb_ID js) \<Longrightarrow> j \<in> set js \<Longrightarrow> k \<in> set js \<Longrightarrow> jb_ID j = jb_ID k \<Longrightarrow> j = k"
  by (metis distinct_map inj_onD)

lemma getJob_ok:
  assumes "getJob db i = Inr j"
  shows "j \<in> set (db_jobs db)" and "jb_ID j = i" and "Job_Validate (Some j) = None"
  using assms by (auto simp: getJob_def find_Some_iff split: if_splits option.splits)

lemma getFencedAttempt_ok:
  assumes "getFencedAttempt db i token now = Inr a"
  shows "a \<in> set (db_attempts db)" and "ja_ID a = i" and "ja_ClaimToken a = token" and "attempt_running a"
    and "Before (TimeUTC now) (ja_LeaseExpiresAt a)" and "JobAttempt_Validate (Some a) = None"
  using assms by (auto simp: getFencedAttempt_def find_Some_iff attempt_running_def split: if_splits option.splits sum.splits)

lemma set_put_job:
  "distinct (map jb_ID js) \<Longrightarrow> r \<in> set js \<Longrightarrow> jb_ID r = jb_ID row \<Longrightarrow>
     set (put_job row js) = insert row (set js - {r})"
  by (auto simp: put_job_def dest: unique_job)

lemma put_job_ids [simp]: "map jb_ID (put_job row js) = map jb_ID js"
  by (simp add: put_job_def)

lemma put_job_id_set [simp]: "jb_ID ` set (put_job row js) = jb_ID ` set js"
  by (metis put_job_ids set_map)

lemma other_jobs_put [simp]: "jb_ID j = jb_ID row \<Longrightarrow> other_jobs j (put_job row js) = other_jobs row js"
  by (induction js) (auto simp: other_jobs_def put_job_def)

lemma active_conflict_iff:
  "active_conflict rows r \<longleftrightarrow> jb_DedupePolicy r = JobDedupeActive \<and> active_status (jb_Status r)
     \<and> (\<exists>x \<in> set rows. jb_DedupePolicy x = JobDedupeActive \<and> active_status (jb_Status x)
          \<and> jb_Type x = jb_Type r \<and> jb_DedupeKey x = jb_DedupeKey r)"
  by (auto simp: active_conflict_def list_ex_iff)

lemma permanent_conflict_iff:
  "permanent_conflict rows r \<longleftrightarrow> jb_DedupePolicy r = JobDedupePermanent
     \<and> (\<exists>x \<in> set rows. jb_DedupePolicy x = JobDedupePermanent
          \<and> jb_Type x = jb_Type r \<and> jb_DedupeKey x = jb_DedupeKey r)"
  by (auto simp: permanent_conflict_def list_ex_iff)

lemma set_other_jobs [simp]: "set (other_jobs r js) = {x \<in> set js. jb_ID x \<noteq> jb_ID r}"
  by (auto simp: other_jobs_def)

text \<open>Replacing a row by one with the same identity and key, which the indexes accept.\<close>

definition same_key :: "Job \<Rightarrow> Job \<Rightarrow> bool" where
  "same_key r row \<longleftrightarrow> jb_ID row = jb_ID r \<and> jb_Type row = jb_Type r \<and> jb_DedupeKey row = jb_DedupeKey r
     \<and> jb_DedupePolicy row = jb_DedupePolicy r"

lemma jobs_ok_put:
  assumes ok: "jobs_ok jsonb js" and r: "r \<in> set js" and k: "same_key r row" and row: "job_row_ok jsonb row"
    and free: "\<not> active_conflict (other_jobs row js) row"
  shows "jobs_ok jsonb (put_job row js)"
proof -
  have dist: "distinct (map jb_ID js)" using ok by (simp add: jobs_ok_def)
  have set: "set (put_job row js) = insert row (set js - {r})"
    using set_put_job [OF dist r] k by (simp add: same_key_def)
  have "\<not> active_conflict (other_jobs j (put_job row js)) j \<and> \<not> permanent_conflict (other_jobs j (put_job row js)) j"
    if "j \<in> set (put_job row js)" for j
  proof (cases "j = row")
    case True
    have "\<not> permanent_conflict (other_jobs r js) r" using ok r by (simp add: jobs_ok_def)
    with True free k show ?thesis by (auto simp: permanent_conflict_iff same_key_def)
  next
    case False
    then have j: "j \<in> set js" "j \<noteq> r" using that set by auto
    then have ids: "jb_ID j \<noteq> jb_ID r" using unique_job [OF dist] r by blast
    have "\<not> active_conflict (other_jobs j js) j" "\<not> permanent_conflict (other_jobs j js) j"
      using ok j by (simp_all add: jobs_ok_def)
    moreover have "active_conflict (other_jobs j js) j" if "active_conflict (other_jobs j (put_job row js)) j"
      using that free j ids k unfolding active_conflict_iff set_other_jobs set same_key_def by auto
    moreover have "permanent_conflict (other_jobs j js) j" if "permanent_conflict (other_jobs j (put_job row js)) j"
      using that j ids k r unfolding permanent_conflict_iff set_other_jobs set same_key_def by auto
    ultimately show ?thesis by blast
  qed
  with ok row dist show ?thesis by (auto simp: jobs_ok_def set)
qed

lemma occurrences_ok_put:
  assumes "jobs_ok jsonb js" and "occurrences_ok js xs" and "r \<in> set js" and "same_key r row"
  shows "occurrences_ok (put_job row js) xs"
  using assms set_put_job [of js r row] by (auto simp: occurrences_ok_def same_key_def jobs_ok_def)

lemma attempts_ok_put [simp]: "attempts_ok (put_job row js) as \<longleftrightarrow> attempts_ok js as"
  by (simp add: attempts_ok_def)

lemma ledger_ok_put:
  assumes "distinct (map jb_ID js)" and "ledger_ok S js as" and "r \<in> set js" and "jb_ID row = jb_ID r"
    and "numbered row (claims as (jb_ID r))" and "claim_owned S row (claims as (jb_ID r))"
  shows "ledger_ok S (put_job row js) as"
  using assms set_put_job [of js r row] by (auto simp: ledger_ok_def)

text \<open>A job value that a domain method derived from a stored row.\<close>

definition derived :: "Job \<Rightarrow> Job \<Rightarrow> bool" where
  "derived r job \<longleftrightarrow> same_key r job \<and> jb_CreatedAt job = jb_CreatedAt r \<and> jb_Command job = jb_Command r
     \<and> is_int64 (jb_Revision job) \<and> Job_Validate (Some job) = None"

lemma nullableJSON_ok:
  assumes "jsonb_doc jsonb" and "nullableJSON jsonb s = Some t" and "length t \<le> 65536"
  shows "nullableJSON jsonb t = Some t" and "validJobDocument t True"
  using assms by (auto simp: nullableJSON_def jsonb_doc_def validJobDocument_def JobMaximumDocumentBytes_def split: if_splits)

lemma OptionalTimeFromNullTime_valid [simp]: "ot_Valid (OptionalTimeFromNullTime t) = ot_Valid t"
  by (simp add: OptionalTimeFromNullTime_def)

lemma updateJob_ok:
  assumes jsonb: "jsonb_doc jsonb" and ok: "jobs_ok jsonb (db_jobs db)" and r: "r \<in> set (db_jobs db)"
    and d: "derived r job" and up: "updateJob jsonb job db = Inr db'"
  obtains row where "db' = db\<lparr>db_jobs := put_job row (db_jobs db)\<rparr>" and "same_key r row"
    and "job_row_ok jsonb row" and "\<not> active_conflict (other_jobs row (db_jobs db)) row"
    and "jb_Status row = jb_Status job" and "jb_AttemptCount row = jb_AttemptCount job"
    and "jb_MaximumAttempts row = jb_MaximumAttempts job" and "jb_WorkReserved row = jb_WorkReserved job"
    and "jb_Revision row = jb_Revision job" and "jb_CreatedAt row = jb_CreatedAt r" and "jb_UpdatedAt row = jb_UpdatedAt job"
    and "jb_AvailableAt row = jb_AvailableAt job"
proof -
  obtain cp rs where cols: "nullableJSON jsonb (jb_Checkpoint job) = Some cp" "nullableJSON jsonb (jb_Result job) = Some rs"
    using up by (auto simp: updateJob_def split: option.splits prod.splits)
  obtain r' where f: "find (\<lambda>r. jb_ID r = jb_ID job \<and> jb_Revision r = wrap64 (jb_Revision job - 1)) (db_jobs db) = Some r'"
    using up cols by (auto simp: updateJob_def split: option.splits)
  have "r' \<in> set (db_jobs db)" "jb_ID r' = jb_ID r"
    using f d by (auto simp: find_Some_iff derived_def same_key_def)
  then have r': "r' = r" using unique_job ok r by (auto simp: jobs_ok_def)
  define row where "row = r\<lparr>jb_Status := jb_Status job, jb_UpdatedAt := jb_UpdatedAt job,
                    jb_AvailableAt := jb_AvailableAt job,
                    jb_StartedAt := OptionalTimeFromNullTime (jb_StartedAt job),
                    jb_CompletedAt := OptionalTimeFromNullTime (jb_CompletedAt job),
                    jb_Checkpoint := cp, jb_Result := rs,
                    jb_PublicErrorCode := jb_PublicErrorCode job, jb_AttemptCount := jb_AttemptCount job,
                    jb_MaximumAttempts := jb_MaximumAttempts job, jb_WorkReserved := jb_WorkReserved job,
                    jb_Progress := jb_Progress job, jb_Revision := jb_Revision job\<rparr>"
  have rej: "jobs_reject row = None" and free: "\<not> active_conflict (other_jobs row (db_jobs db)) row"
    and db': "db' = db\<lparr>db_jobs := put_job row (db_jobs db)\<rparr>"
    using up unfolding updateJob_def cols f r' option.case prod.case Let_def row_def [symmetric]
    by (auto split: option.splits if_splits)
  have len: "length cp \<le> 65536" "length rs \<le> 65536"
    using rej by (simp_all add: jobs_reject_ok row_def)
  have eqs: "jb_ID job = jb_ID r" "jb_Type job = jb_Type r" "jb_DedupeKey job = jb_DedupeKey r"
    "jb_DedupePolicy job = jb_DedupePolicy r" "jb_CreatedAt job = jb_CreatedAt r" "jb_Command job = jb_Command r"
    and v: "Job_Validate (Some job) = None"
    using d by (simp_all add: derived_def same_key_def)
  have "Job_Validate (Some row) = None"
    using v [unfolded Job_Validate_ok eqs] nullableJSON_ok(2) [OF jsonb cols(1) len(1)]
      nullableJSON_ok(2) [OF jsonb cols(2) len(2)]
    by (simp add: Job_Validate_ok row_def)
  then have "job_row_ok jsonb row"
    using rej d nullableJSON_ok(1) [OF jsonb cols(1) len(1)] nullableJSON_ok(1) [OF jsonb cols(2) len(2)]
    by (simp add: job_row_ok_def row_def derived_def)
  moreover have "same_key r row" by (simp add: same_key_def row_def)
  ultimately show thesis using that db' free by (simp add: row_def)
qed

section \<open>Steps on the tables\<close>

lemma job_call_ok:
  assumes "job_call c (Some r) = (Some k, None)"
  shows "job_guard c r" and "k = job_next c r" and "derived r k" and "jb_WorkReserved k = jb_WorkReserved r"
proof -
  show g: "job_guard c r" using job_call_refused [of c r] assms by fastforce
  from assms job_call_accepted [OF g] show k: "k = job_next c r" by (simp add: validated_def)
  have "Job_Validate (Some k) = None" using assms job_call_accepted [OF g] by (auto simp: validated_def)
  then show "derived r k" unfolding derived_def same_key_def k by (cases c) simp_all
  show "jb_WorkReserved k = jb_WorkReserved r" unfolding k by (cases c) auto
qed

lemma claims_map:
  "(\<And>a. a \<in> set as \<Longrightarrow> ja_JobID (f a) = ja_JobID a) \<Longrightarrow> claims (map f as) i = map f (claims as i)"
  by (induction as) (auto simp: claims_def)

lemma set_claims: "set (claims as i) = {a \<in> set as. ja_JobID a = i}"
  by (auto simp: claims_def)

lemma attempts_ok_map:
  assumes "attempts_ok js as"
    and "\<And>a. a \<in> set as \<Longrightarrow> ja_ID (f a) = ja_ID a \<and> ja_ClaimToken (f a) = ja_ClaimToken a \<and> ja_JobID (f a) = ja_JobID a
      \<and> JobAttempt_Validate (Some (f a)) = None"
  shows "attempts_ok js (map f as)"
proof -
  have "map ja_ID (map f as) = map ja_ID as" "map ja_ClaimToken (map f as) = map ja_ClaimToken as"
    using assms(2) by auto
  with assms show ?thesis by (auto simp: attempts_ok_def simp del: map_map)
qed

lemma numbered_map:
  "(\<And>a. a \<in> set as \<Longrightarrow> ja_Number (f a) = ja_Number a) \<Longrightarrow> numbered j (map f as) \<longleftrightarrow> numbered j as"
  by (simp add: numbered_def comp_def cong: map_cong)

text \<open>A change of attempts that keeps their job, their number and whether they run.\<close>

lemma ledger_ok_map:
  assumes "\<And>a. a \<in> set as \<Longrightarrow> ja_JobID (f a) = ja_JobID a \<and> ja_Number (f a) = ja_Number a
      \<and> (attempt_running (f a) \<longleftrightarrow> attempt_running a)"
  shows "ledger_ok S js (map f as) \<longleftrightarrow> ledger_ok S js as"
proof -
  have c: "claims (map f as) i = map f (claims as i)" for i by (rule claims_map) (simp add: assms)
  have "numbered j (map f (claims as i)) \<longleftrightarrow> numbered j (claims as i)" for j i
    by (rule numbered_map) (simp add: assms set_claims)
  moreover have "claim_owned S j (map f (claims as i)) \<longleftrightarrow> claim_owned S j (claims as i)" for j i
    using assms by (auto simp: set_claims claim_owned_def)
  ultimately show ?thesis by (simp add: ledger_ok_def c)
qed

lemma db_inv_except_put:
  assumes inv: "jobs_ok jsonb (db_jobs db)" "occurrences_ok (db_jobs db) (db_occurrences db)"
    and r: "r \<in> set (db_jobs db)" and row: "same_key r row" "job_row_ok jsonb row"
      "\<not> active_conflict (other_jobs row (db_jobs db)) row"
    and as: "attempts_ok (db_jobs db) (db_attempts db)"
    and others: "\<And>j. j \<in> set (db_jobs db) \<Longrightarrow> jb_ID j \<noteq> jb_ID r \<Longrightarrow>
      numbered j (claims (db_attempts db) (jb_ID j)) \<and> claim_owned S j (claims (db_attempts db) (jb_ID j))"
    and this_one: "numbered row (claims (db_attempts db) (jb_ID r))" "claim_owned S row (claims (db_attempts db) (jb_ID r))"
  shows "db_inv_except S jsonb (db\<lparr>db_jobs := put_job row (db_jobs db)\<rparr>)"
proof -
  have dist: "distinct (map jb_ID (db_jobs db))" using inv by (simp add: jobs_ok_def)
  have "set (put_job row (db_jobs db)) = insert row (set (db_jobs db) - {r})"
    using set_put_job [OF dist r] row by (simp add: same_key_def)
  moreover have "jb_ID j \<noteq> jb_ID r" if "j \<in> set (db_jobs db)" "j \<noteq> r" for j
    using that unique_job [OF dist _ r] by blast
  ultimately have "ledger_ok S (put_job row (db_jobs db)) (db_attempts db)"
    using others this_one row by (simp add: ledger_ok_def same_key_def)
  then show ?thesis
    using jobs_ok_put [OF inv(1) r row] occurrences_ok_put [OF inv r row(1)] as by (simp add: db_inv_except_def)
qed

text \<open>A change of a job that keeps its attempt count and whether it executes.\<close>

lemma db_inv_quiet:
  assumes inv: "db_inv_except S jsonb db" and r: "r \<in> set (db_jobs db)" and row: "same_key r row" "job_row_ok jsonb row"
      "\<not> active_conflict (other_jobs row (db_jobs db)) row"
    and same: "jb_AttemptCount row = jb_AttemptCount r" "executing row \<longleftrightarrow> executing r"
  shows "db_inv_except S jsonb (db\<lparr>db_jobs := put_job row (db_jobs db)\<rparr>)"
proof (rule db_inv_except_put [OF _ _ r row])
  have l: "numbered j (claims (db_attempts db) (jb_ID j)) \<and> claim_owned S j (claims (db_attempts db) (jb_ID j))"
    if "j \<in> set (db_jobs db)" for j
    using inv that by (auto simp: db_inv_except_def ledger_ok_def)
  then show "numbered j (claims (db_attempts db) (jb_ID j)) \<and> claim_owned S j (claims (db_attempts db) (jb_ID j))"
    if "j \<in> set (db_jobs db)" for j using that .
  show "numbered row (claims (db_attempts db) (jb_ID r))" "claim_owned S row (claims (db_attempts db) (jb_ID r))"
    using l [OF r] same row by (auto simp: numbered_def claim_owned_def same_key_def)
qed (use inv in \<open>simp_all add: db_inv_except_def\<close>)

lemma updateJob_quiet:
  assumes jsonb: "jsonb_doc jsonb" and inv: "db_inv_except S jsonb db" and r: "r \<in> set (db_jobs db)"
    and d: "derived r job" and up: "updateJob jsonb job db = Inr db'"
    and same: "jb_AttemptCount job = jb_AttemptCount r" "executing job \<longleftrightarrow> executing r"
  shows "db_inv_except S jsonb db'"
proof -
  have ok: "jobs_ok jsonb (db_jobs db)" using inv by (simp add: db_inv_except_def)
  obtain row where row: "db' = db\<lparr>db_jobs := put_job row (db_jobs db)\<rparr>" "same_key r row"
    "job_row_ok jsonb row" "\<not> active_conflict (other_jobs row (db_jobs db)) row"
    "jb_Status row = jb_Status job" "jb_AttemptCount row = jb_AttemptCount job"
    by (rule updateJob_ok [OF jsonb ok r d up])
  then show ?thesis
    using db_inv_quiet [OF inv r row(2-4)] same by (simp add: executing_def)
qed

section \<open>Each call keeps the invariant\<close>

lemma checkpoint_inv:
  assumes jsonb: "jsonb_doc jsonb" and inv: "db_inv jsonb db" and c: "checkpoint_body jsonb i now db = Inr (db', k)"
  shows "db_inv jsonb db'"
proof -
  obtain a :: JobAttempt and j k where j: "getJob db (ja_JobID a) = Inr j"
    and k: "Job_UpdateProgress (Some j) (cp_Progress i) (cp_Checkpoint i) (latestTime (jb_UpdatedAt j) (jobDatabaseNow now)) = (Some k, None)"
    and up: "updateJob jsonb k db = Inr db'"
    using c unfolding checkpoint_body_def Let_def by (auto split: sum.splits prod.splits option.splits)
  note ok = job_call_ok [of "UpdateProgressCall _ _ _", unfolded job_call.simps, OF k]
  show ?thesis
    by (rule updateJob_quiet [OF jsonb inv getJob_ok(1) [OF j] ok(3) up]) (simp_all add: ok(2) executing_def)
qed

lemma operator_inv:
  assumes jsonb: "jsonb_doc jsonb" and inv: "db_inv jsonb db"
    and m: "mutate_body jsonb i operation (\<lambda>p t. job_call (c t) p) audit now db = Inr (db', k)"
    and c: "(\<forall>t. c t = RequestCancellationCall t) \<or> (\<forall>t. c t = ExplicitRetryCall t)"
  shows "db_inv jsonb db'"
proof -
  define t where "t j = latestTime (jb_UpdatedAt j) (jobDatabaseNow now)" for j :: Job
  obtain j k where j: "getJob db (mu_ID i) = Inr j" and k: "job_call (c (t j)) (Some j) = (Some k, None)"
    and up: "updateJob jsonb k db = Inr db'"
    using m unfolding mutate_body_def Let_def t_def [symmetric]
    by (auto split: sum.splits prod.splits option.splits if_splits)
  note ok = job_call_ok [OF k]
  show ?thesis
  proof (rule updateJob_quiet [OF jsonb inv getJob_ok(1) [OF j] ok(3) up])
    show "jb_AttemptCount k = jb_AttemptCount j" using c ok(2) by auto
    show "executing k \<longleftrightarrow> executing j" using c ok(1,2) by (auto simp: executing_def)
  qed
qed

lemma unique_attempt: "attempts_ok js as \<Longrightarrow> a \<in> set as \<Longrightarrow> b \<in> set as \<Longrightarrow> ja_ID a = ja_ID b \<Longrightarrow> a = b"
  unfolding attempts_ok_def by (metis distinct_map inj_onD)

text \<open>Writing back a changed copy of one attempt.\<close>

definition put_attempt :: "JobAttempt \<Rightarrow> JobAttempt \<Rightarrow> JobAttempt list \<Rightarrow> JobAttempt list" where
  "put_attempt a b as = map (\<lambda>x. if x = a then b else x) as"

definition same_attempt :: "JobAttempt \<Rightarrow> JobAttempt \<Rightarrow> bool" where
  "same_attempt a b \<longleftrightarrow> ja_ID b = ja_ID a \<and> ja_ClaimToken b = ja_ClaimToken a \<and> ja_JobID b = ja_JobID a
     \<and> ja_Number b = ja_Number a"

lemma put_attempt_ok:
  assumes "attempts_ok js as" and "same_attempt a b" and "JobAttempt_Validate (Some b) = None"
  shows "attempts_ok js (put_attempt a b as)"
  unfolding put_attempt_def using assms by (intro attempts_ok_map [OF assms(1)]) (auto simp: attempts_ok_def same_attempt_def)

lemma claims_put: "same_attempt a b \<Longrightarrow> claims (put_attempt a b as) i = put_attempt a b (claims as i)"
  unfolding put_attempt_def by (rule claims_map) (simp add: same_attempt_def)

lemma numbered_put: "same_attempt a b \<Longrightarrow> numbered j (put_attempt a b as) \<longleftrightarrow> numbered j as"
  unfolding put_attempt_def by (rule numbered_map) (simp add: same_attempt_def)

text \<open>The statements that write an attempt back name it by its identifier, its token and its status.\<close>

lemma fenced_update:
  assumes as: "attempts_ok js as" and a: "a \<in> set as" "attempt_running a" and b: "same_attempt a b" and g: "g a = b"
  shows "map (\<lambda>x. if ja_ID x = ja_ID b \<and> ja_ClaimToken x = ja_ClaimToken b \<and> ja_Status x = JobAttemptStatusRunning
      then g x else x) as = put_attempt a b as"
  unfolding put_attempt_def
proof (rule map_cong [OF refl])
  fix x assume "x \<in> set as"
  with unique_attempt [OF as this a(1)] a b g
  show "(if ja_ID x = ja_ID b \<and> ja_ClaimToken x = ja_ClaimToken b \<and> ja_Status x = JobAttemptStatusRunning
      then g x else x) = (if x = a then b else x)"
    by (auto simp: same_attempt_def attempt_running_def)
qed

lemma heartbeat_inv:
  assumes inv: "db_inv jsonb db" and h: "heartbeat_body i now db = Inr (db', u)"
  shows "db_inv jsonb db'"
proof -
  define n where "n = jobDatabaseNow now"
  obtain a b where a: "getFencedAttempt db (hb_AttemptID i) (hb_ClaimToken i) n = Inr a"
    and b: "JobAttempt_Heartbeat (Some a) (latestTime (ja_HeartbeatAt a) n)
      (Add (latestTime (ja_HeartbeatAt a) n) (hb_LeaseDuration i)) = (Some b, None)"
    and db': "db' = db\<lparr>db_attempts := map (\<lambda>x. if ja_ID x = ja_ID b \<and> ja_ClaimToken x = ja_ClaimToken b
        \<and> ja_Status x = JobAttemptStatusRunning
        then x\<lparr>ja_HeartbeatAt := ja_HeartbeatAt b, ja_LeaseExpiresAt := ja_LeaseExpiresAt b\<rparr> else x) (db_attempts db)\<rparr>"
    using h unfolding heartbeat_body_def Let_def n_def [symmetric]
    by (auto split: sum.splits prod.splits option.splits)
  note aa = getFencedAttempt_ok [OF a]
  have as: "attempts_ok (db_jobs db) (db_attempts db)" using inv by (simp add: db_inv_except_def)
  have bv: "JobAttempt_Validate (Some b) = None" and same: "same_attempt a b" and run: "attempt_running b"
    and beq: "a\<lparr>ja_HeartbeatAt := ja_HeartbeatAt b, ja_LeaseExpiresAt := ja_LeaseExpiresAt b\<rparr> = b"
    using b by (auto simp: JobAttempt_Heartbeat_def validated_def same_attempt_def attempt_running_def split: if_splits)
  have db': "db' = db\<lparr>db_attempts := put_attempt a b (db_attempts db)\<rparr>"
    unfolding db' by (subst fenced_update [OF as aa(1,4) same]) (simp_all add: beq)
  have "ledger_ok {} (db_jobs db) (put_attempt a b (db_attempts db))"
    using inv same run aa(4) unfolding put_attempt_def
    by (subst ledger_ok_map) (auto simp: same_attempt_def db_inv_except_def)
  then show ?thesis using inv put_attempt_ok [OF as same bv] by (simp add: db_inv_except_def db')
qed

lemma completion_call:
  assumes "completion_transition i kind code j t = (st, (Some k, None))"
  shows "\<exists>c. job_call c (Some j) = (Some k, None) \<and> (\<forall>x. job_guard c x \<longrightarrow> \<not> executing (job_next c x))
      \<and> (\<forall>x. jb_AttemptCount (job_next c x) = jb_AttemptCount x)"
  using assms unfolding completion_transition_def
  by (cases kind)
    (auto split: if_splits simp: executing_def intro: exI [of _ "SucceedCall (cm_Result i) t"]
      exI [of _ "RetryCall code (Add t (cm_RetryDelay i)) t"] exI [of _ "RelinquishCall code (Add t (cm_RetryDelay i)) t"]
      exI [of _ "FailCall code t"] exI [of _ "CancelCall code t"])

text \<open>Closing the running attempt of a job together with the job.\<close>

lemma complete_inv:
  assumes jsonb: "jsonb_doc jsonb" and inv: "db_inv jsonb db" and c: "complete_body jsonb i now db = Inr (db', u)"
  shows "db_inv jsonb db'"
proof -
  define n where "n = jobDatabaseNow now"
  obtain a j kind code st k b where a: "getFencedAttempt db (cm_AttemptID i) (cm_ClaimToken i) n = Inr a"
    and j: "getJob db (ja_JobID a) = Inr j" and kc: "completion_kind i j = (kind, code)"
    and k: "completion_transition i kind code j (latestTime (jb_UpdatedAt j) n) = (st, (Some k, None))"
    and b: "JobAttempt_Complete (Some a) st code (latestTime (ja_HeartbeatAt a) n) = (Some b, None)"
    and up: "updateJob jsonb k (db\<lparr>db_attempts := map (\<lambda>x. if ja_ID x = ja_ID b \<and> ja_ClaimToken x = ja_ClaimToken b
        \<and> ja_Status x = JobAttemptStatusRunning
      then x\<lparr>ja_Status := ja_Status b, ja_CompletedAt := ja_CompletedAt b, ja_PublicErrorCode := ja_PublicErrorCode b\<rparr> else x)
        (db_attempts db)\<rparr>) = Inr db'"
    using c unfolding complete_body_def Let_def n_def [symmetric]
    by (auto split: sum.splits prod.splits option.splits)
  have as: "attempts_ok (db_jobs db) (db_attempts db)" and led: "ledger_ok {} (db_jobs db) (db_attempts db)"
    and jobs: "jobs_ok jsonb (db_jobs db)" and occ: "occurrences_ok (db_jobs db) (db_occurrences db)"
    using inv by (simp_all add: db_inv_except_def)
  note aa = getFencedAttempt_ok [OF a] and jj = getJob_ok [OF j]
  note completion_call [OF k]
  then obtain d where d: "job_call d (Some j) = (Some k, None)" "job_guard d j \<Longrightarrow> \<not> executing (job_next d j)"
    "jb_AttemptCount (job_next d j) = jb_AttemptCount j" by blast
  note dd = job_call_ok [OF d(1)]
  have bv: "JobAttempt_Validate (Some b) = None" and same: "same_attempt a b" and stop: "\<not> attempt_running b"
    and beq: "a\<lparr>ja_Status := ja_Status b, ja_CompletedAt := ja_CompletedAt b, ja_PublicErrorCode := ja_PublicErrorCode b\<rparr> = b"
    using b by (auto simp: JobAttempt_Complete_def validated_def same_attempt_def attempt_running_def split: if_splits)
  define as' where "as' = put_attempt a b (db_attempts db)"
  have up: "updateJob jsonb k (db\<lparr>db_attempts := as'\<rparr>) = Inr db'"
    using up unfolding as'_def by (subst (asm) fenced_update [OF as aa(1,4) same]) (simp_all add: beq)
  have as': "attempts_ok (db_jobs db) as'" unfolding as'_def by (rule put_attempt_ok [OF as same bv])
  have cl: "claims as' m = put_attempt a b (claims (db_attempts db) m)" for m
    unfolding as'_def by (rule claims_put [OF same])
  have own: "numbered j (claims (db_attempts db) (jb_ID j)) \<and> claim_owned {} j (claims (db_attempts db) (jb_ID j))"
    using led jj(1) by (auto simp: ledger_ok_def)
  have only: "x = a" if "x \<in> set (claims (db_attempts db) (jb_ID j))" "attempt_running x" for x
  proof -
    have mem: "a \<in> set (claims (db_attempts db) (jb_ID j))" using aa jj by (simp add: set_claims)
    then have "ja_Number x = ja_Number a" using own that aa(4) by (auto simp: claim_owned_def)
    with own that mem show ?thesis unfolding numbered_def by (metis distinct_map inj_onD)
  qed
  obtain row where row: "db' = db\<lparr>db_attempts := as', db_jobs := put_job row (db_jobs db)\<rparr>" "same_key j row"
    "job_row_ok jsonb row" "\<not> active_conflict (other_jobs row (db_jobs db)) row"
    "jb_Status row = jb_Status k" "jb_AttemptCount row = jb_AttemptCount k"
    using updateJob_ok [OF jsonb, of "db\<lparr>db_attempts := as'\<rparr>" j k db'] jobs jj(1) dd(3) up by auto
  have "db_inv_except {} jsonb ((db\<lparr>db_attempts := as'\<rparr>)\<lparr>db_jobs := put_job row (db_jobs (db\<lparr>db_attempts := as'\<rparr>))\<rparr>)"
  proof (rule db_inv_except_put [where r = j])
    show "numbered x (claims (db_attempts (db\<lparr>db_attempts := as'\<rparr>)) (jb_ID x))
        \<and> claim_owned {} x (claims (db_attempts (db\<lparr>db_attempts := as'\<rparr>)) (jb_ID x))"
      if x: "x \<in> set (db_jobs (db\<lparr>db_attempts := as'\<rparr>))" "jb_ID x \<noteq> jb_ID j" for x
    proof -
      have "a \<notin> set (claims (db_attempts db) (jb_ID x))" using x jj by (auto simp: set_claims)
      then have "claims as' (jb_ID x) = claims (db_attempts db) (jb_ID x)"
        unfolding cl put_attempt_def by (intro map_idI) auto
      then show ?thesis using led x by (auto simp: ledger_ok_def)
    qed
    show "numbered row (claims (db_attempts (db\<lparr>db_attempts := as'\<rparr>)) (jb_ID j))"
      using own row(6) dd(2) d(3) numbered_put [OF same] by (simp add: cl) (simp add: numbered_def)
    show "claim_owned {} row (claims (db_attempts (db\<lparr>db_attempts := as'\<rparr>)) (jb_ID j))"
      using d(2) [OF dd(1)] dd(2) row(5) only stop by (auto simp: claim_owned_def cl put_attempt_def executing_def)
  qed (use row jobs occ jj(1) as' in simp_all)
  then show ?thesis using row(1) by simp
qed

text \<open>The clock of a transaction: an instant after the zero time, in UTC and whole microseconds.\<close>

definition clock_ok :: "gtime \<Rightarrow> bool" where
  "clock_ok now \<longleftrightarrow> canonical now \<and> 0 < t_ns now"

lemma clock_ok_simps [simp]:
  "clock_ok now \<Longrightarrow> jobDatabaseNow now = now" "clock_ok now \<Longrightarrow> TimeUTC now = now"
  by (cases now; simp add: clock_ok_def jobDatabaseNow_def in_UTC_def canonical_def)+

lemma job_row_ok_stamp:
  assumes ok: "job_row_ok jsonb r" and now: "clock_ok now" and work: "0 \<le> w" "w \<le> 1000000" and rev: "jb_Revision r \<noteq> maxInt64"
  defines "row \<equiv> r\<lparr>jb_WorkReserved := w,
      jb_UpdatedAt := (if After now (jb_UpdatedAt r) then TimeUTC now else jb_UpdatedAt r), jb_Revision := jb_Revision r + 1\<rparr>"
  shows "job_row_ok jsonb row"
proof -
  have v: "Job_Validate (Some r) = None" and j: "jobs_reject r = None" and i: "is_int64 (jb_Revision r)"
    using ok by (simp_all add: job_row_ok_def)
  have "Job_Validate (Some row) = None"
    using v work now by (simp add: Job_Validate_ok row_def After_def Before_def)
  moreover have "jobs_reject row = None"
    using j work now by (simp add: jobs_reject_ok row_def After_def Before_def int4_def)
  ultimately show ?thesis
    using ok i rev by (simp add: job_row_ok_def row_def is_int64_def minInt64_def)
qed

lemma reserve_effect:
  assumes inv: "db_inv_except S jsonb db" and now: "clock_ok now" and r: "reserve_body i now db = Inr (db', ok, n)"
  obtains (taken) j row where "ok" and "j \<in> set (db_jobs db)" and "n = jb_WorkReserved j + rw_Units i"
      and "n \<le> rw_Limit i" and "db' = db\<lparr>db_jobs := put_job row (db_jobs db)\<rparr>"
      and "row = j\<lparr>jb_WorkReserved := n, jb_UpdatedAt := (if After now (jb_UpdatedAt j) then TimeUTC now else jb_UpdatedAt j),
        jb_Revision := jb_Revision j + 1\<rparr>" and "jb_Revision j \<noteq> maxInt64"
      and "\<exists>a \<in> set (db_attempts db). ja_ID a = rw_AttemptID i \<and> ja_JobID a = jb_ID j \<and> attempt_running a"
  | (full) j where "\<not> ok" and "j \<in> set (db_jobs db)" and "n = jb_WorkReserved j" and "n + rw_Units i > rw_Limit i" and "db' = db"
proof -
  obtain a where a: "getFencedAttempt db (rw_AttemptID i) (rw_ClaimToken i) now = Inr a"
    using r now by (auto simp: reserve_body_def split: sum.splits)
  note aa = getFencedAttempt_ok [OF a]
  let ?P = "\<lambda>r. jb_ID r = ja_JobID a \<and> jb_WorkReserved r + rw_Units i \<le> rw_Limit i"
  show thesis
  proof (cases "find ?P (db_jobs db)")
    case (Some j)
    then have j: "j \<in> set (db_jobs db)" "?P j" by (auto simp: find_Some_iff)
    have "jb_Revision j \<noteq> maxInt64" using r now a Some by (auto simp: reserve_body_def)
    with r now a Some j aa show thesis
      by (intro taken [of j]) (auto simp: reserve_body_def Let_def)
  next
    case None
    then obtain j where j: "find (\<lambda>r. jb_ID r = ja_JobID a) (db_jobs db) = Some j" and eqs: "\<not> ok" "n = jb_WorkReserved j" "db' = db"
      using r now a by (auto simp: reserve_body_def split: option.splits)
    then have "j \<in> set (db_jobs db)" "jb_ID j = ja_JobID a" by (auto simp: find_Some_iff)
    with None eqs show thesis by (intro full [of j]) (auto simp: find_None_iff)
  qed
qed

lemma active_conflict_cong:
  "jb_ID row = jb_ID r \<Longrightarrow> jb_DedupePolicy row = jb_DedupePolicy r \<Longrightarrow> jb_Type row = jb_Type r \<Longrightarrow>
     jb_DedupeKey row = jb_DedupeKey r \<Longrightarrow> (active_status (jb_Status row) \<Longrightarrow> active_status (jb_Status r)) \<Longrightarrow>
     \<not> active_conflict (other_jobs r js) r \<Longrightarrow> \<not> active_conflict (other_jobs row js) row"
  by (auto simp: active_conflict_iff)

lemma reserve_inv:
  assumes inv: "db_inv_except S jsonb db" and now: "clock_ok now" and lim: "rw_Limit i \<le> 1000000" "0 < rw_Units i"
    and r: "reserve_body i now db = Inr (db', ok, n)"
  shows "db_inv_except S jsonb db'"
  using inv now r
proof (cases rule: reserve_effect)
  case (taken j row)
  have j: "job_row_ok jsonb j" "\<not> active_conflict (other_jobs j (db_jobs db)) j"
    using inv taken(2) by (auto simp: db_inv_except_def jobs_ok_def)
  have "0 \<le> jb_WorkReserved j" using j(1) by (simp add: job_row_ok_def Job_Validate_ok)
  then have "job_row_ok jsonb row" unfolding taken(6)
    by (intro job_row_ok_stamp [OF j(1) now]) (use taken lim in auto)
  then show ?thesis unfolding taken(5)
    by (intro db_inv_quiet [OF inv taken(2)] active_conflict_cong [OF _ _ _ _ _ j(2)])
      (simp_all add: taken(6) same_key_def executing_def)
qed (use inv in simp)

section \<open>Enqueue and cleanup\<close>

lemma insert_effect:
  assumes "insertQueuedJob jsonb job dd db = Inr (db', n)"
  obtains (taken) "db' = db" and "n = 0" and "dd" and "active_conflict (db_jobs db) job \<or> permanent_conflict (db_jobs db) job"
  | (added) row where "n = 1" and "db' = db\<lparr>db_jobs := db_jobs db @ [row]\<rparr>" and "same_key job row"
      and "jb_Status row = jb_Status job" and "jb_AttemptCount row = 0"
      and "jsonb (jb_Command job) = Some (jb_Command row)" and "jobs_reject row = None"
      and "row = job\<lparr>jb_StartedAt := no_time, jb_CompletedAt := no_time, jb_Command := jb_Command row,
               jb_Checkpoint := '''', jb_Result := '''', jb_PublicErrorCode := '''', jb_AttemptCount := 0,
               jb_WorkReserved := 0, jb_Progress := None\<rparr>"
      and "jb_ID row \<notin> jb_ID ` set (db_jobs db)"
      and "\<not> active_conflict (db_jobs db) row" and "\<not> permanent_conflict (db_jobs db) row"
proof -
  obtain c where c: "jsonb (jb_Command job) = Some c"
    using assms by (auto simp: insertQueuedJob_def split: option.splits)
  define row where "row = job\<lparr>jb_StartedAt := no_time, jb_CompletedAt := no_time, jb_Command := c,
               jb_Checkpoint := '''', jb_Result := '''', jb_PublicErrorCode := '''', jb_AttemptCount := 0,
               jb_WorkReserved := 0, jb_Progress := None\<rparr>"
  note body = assms [unfolded insertQueuedJob_def c option.case Let_def, folded row_def]
  have rej: "jobs_reject row = None" using body by (auto split: option.splits)
  show thesis
  proof (cases "dd \<and> (active_conflict (db_jobs db) row \<or> permanent_conflict (db_jobs db) row)")
    case True
    moreover have "active_conflict (db_jobs db) row = active_conflict (db_jobs db) job"
      "permanent_conflict (db_jobs db) row = permanent_conflict (db_jobs db) job"
      by (simp_all add: row_def active_conflict_iff permanent_conflict_iff)
    ultimately show thesis using body rej by (intro taken) auto
  next
    case False
    have "\<not> list_ex (\<lambda>x. jb_ID x = jb_ID row) (db_jobs db)" "\<not> (active_conflict (db_jobs db) row \<or> permanent_conflict (db_jobs db) row)"
      "db' = db\<lparr>db_jobs := db_jobs db @ [row]\<rparr>" "n = 1"
      using body False rej by (auto split: if_splits)
    then show thesis
      using rej c by (intro added [of row]) (auto simp: row_def same_key_def list_ex_iff)
  qed
qed

lemma insert_inv:
  assumes jsonb: "jsonb_doc jsonb" and inv: "db_inv jsonb db" and v: "Job_Validate (Some job) = None"
    and rev: "is_int64 (jb_Revision job)" and st: "jb_Status job = JobStatusQueued"
    and occ: "jb_DedupePolicy job = JobDedupePermanent \<Longrightarrow>
      \<exists>x \<in> set (db_occurrences db). oc_Type x = jb_Type job \<and> oc_DedupeKey x = jb_DedupeKey job"
    and i: "insertQueuedJob jsonb job dd db = Inr (db', n)"
  shows "db_inv jsonb db'"
  using i
proof (cases rule: insert_effect)
  case (added row)
  have sel: "jb_Checkpoint row = ''''" "jb_Result row = ''''" "jb_Revision row = jb_Revision job"
    by (subst added(8), simp)+
  have cmd: "validJobDocument (jb_Command row) False"
    using jsonb added(6,7) by (auto simp: jsonb_doc_def validJobDocument_def JobMaximumDocumentBytes_def jobs_reject_ok)
  have "Job_Validate (Some row) = None"
    using v cmd st by (subst added(8)) (simp add: Job_Validate_ok validJobDocument_def validPublicJobCode_def validJobProgress_def)
  then have row: "job_row_ok jsonb row"
    using added(7) rev sel by (simp add: job_row_ok_def nullableJSON_def)
  have jobs: "jobs_ok jsonb (db_jobs db)" using inv by (simp add: db_inv_except_def)
  have others: "other_jobs row (db_jobs db @ [row]) = db_jobs db"
    using added(9) by (simp add: other_jobs_def filter_id_conv) (metis image_eqI)
  have "\<not> active_conflict (other_jobs j (db_jobs db @ [row])) j \<and> \<not> permanent_conflict (other_jobs j (db_jobs db @ [row])) j"
    if "j \<in> set (db_jobs db)" for j
    using that jobs added(9,10,11)
    by (auto simp: jobs_ok_def active_conflict_iff permanent_conflict_iff)
  then have "jobs_ok jsonb (db_jobs db @ [row])"
    using jobs row added(9,10,11) by (auto simp: jobs_ok_def others)
  moreover have "attempts_ok (db_jobs db @ [row]) (db_attempts db)"
    using inv by (auto simp: db_inv_except_def attempts_ok_def)
  moreover have "claims (db_attempts db) (jb_ID row) = []"
    using inv added(9) unfolding claims_def filter_empty_conv db_inv_except_def attempts_ok_def by metis
  then have "ledger_ok {} (db_jobs db @ [row]) (db_attempts db)"
    using inv added(4) st by (auto simp: db_inv_except_def ledger_ok_def numbered_def claim_owned_def executing_def)
  moreover have "occurrences_ok (db_jobs db @ [row]) (db_occurrences db)"
    using inv occ added(3) by (auto simp: db_inv_except_def occurrences_ok_def same_key_def)
  ultimately show ?thesis by (simp add: db_inv_except_def added(2))
qed (use inv in simp)


lemma Enqueue_inv:
  assumes jsonb: "jsonb_doc jsonb" and inv: "db_inv jsonb db" and rev: "is_int64 (jb_Revision job)"
  shows "db_inv jsonb (fst (Enqueue jsonb (Some job) db))"
proof (cases "Job_Validate (Some job) \<noteq> None \<or> jb_Status job \<noteq> JobStatusQueued \<or> jb_AttemptCount job \<noteq> 0")
  case True
  then show ?thesis using inv by (auto simp: Enqueue_def)
next
  case False
  then have v: "Job_Validate (Some job) = None" "jb_Status job = JobStatusQueued" by auto
  show ?thesis
  proof (cases "jb_DedupePolicy job = JobDedupePermanent")
    case True
    have "db_inv jsonb db'" if p: "enqueuePermanent jsonb job db = Inr (db', u)" for db' u
    proof (cases "find (\<lambda>x. oc_Type x = jb_Type job \<and> oc_DedupeKey x = jb_DedupeKey job) (db_occurrences db)")
      case None
      define db1 where "db1 = db\<lparr>db_occurrences := db_occurrences db @
                [\<lparr>oc_Type = jb_Type job, oc_DedupeKey = jb_DedupeKey job, oc_JobID = jb_ID job, oc_CreatedAt = jb_CreatedAt job\<rparr>]\<rparr>"
      obtain n where n: "insertQueuedJob jsonb job False db1 = Inr (db', n)"
        using p None by (auto simp: enqueuePermanent_def db1_def Let_def split: sum.splits)
      have "db_inv jsonb db1" using inv by (auto simp: db1_def db_inv_except_def occurrences_ok_def)
      then show ?thesis
        by (rule insert_inv [OF jsonb _ v(1) rev v(2) _ n]) (simp add: db1_def)
    next
      case (Some x)
      then show ?thesis using p inv by (auto simp: enqueuePermanent_def split: option.splits)
    qed
    then show ?thesis
      using False True inv
      by (auto simp: Enqueue_def executeSQLTransaction_def split: sum.splits prod.splits option.splits bool.splits)
  next
    case active: False
    have "db_inv jsonb db'" if "insertQueuedJob jsonb job True db = Inr (db', n)" for db' n
      using insert_inv [OF jsonb inv v(1) rev v(2) _ that] active by simp
    then show ?thesis
      using False active inv by (auto simp: Enqueue_def split: sum.splits prod.splits option.splits)
  qed
qed

text \<open>What a page of history holds and what its deletion leaves.\<close>

lemma cleanup_page_mem:
  "j \<in> set (cleanup_page i now locked db) \<Longrightarrow> j \<in> set (db_jobs db) \<and> removable i db j
     \<and> ot_Valid (jb_CompletedAt j) \<and> cleanup_after i j \<and> (\<exists>p \<in> set (hc_Policies i). policy_expired now j p) \<and> jb_ID j \<notin> set locked"
  by (auto simp: cleanup_page_def list_ex_iff List.member_iff dest!: in_set_takeD)

lemma cleanup_effect:
  assumes c: "cleanup_body i now locked db = Inr (db', res)" and dist: "distinct (map jb_ID (db_jobs db))"
  defines "page \<equiv> cleanup_page i (jobDatabaseNow now) locked db"
  shows "db' = db\<lparr>db_attempts := filter (\<lambda>a. ja_JobID a \<notin> jb_ID ` set page) (db_attempts db),
      db_jobs := filter (\<lambda>j. j \<notin> set page) (db_jobs db)\<rparr>"
    and "hr_Deleted res = length page"
proof -
  have doomed: "jb_ID j \<in> jb_ID ` set page \<and> removable i db j \<longleftrightarrow> j \<in> set page" if "j \<in> set (db_jobs db)" for j
    using that cleanup_page_mem [of _ i "jobDatabaseNow now" locked db] unique_job [OF dist that]
    by (auto simp: page_def)
  have pdist: "distinct page" unfolding page_def cleanup_page_def
    using dist by (intro distinct_take) (simp add: distinct_map)
  have "filter (\<lambda>j. List.member (map jb_ID page) (jb_ID j) \<and> removable i db j) (db_jobs db) = filter (\<lambda>j. j \<in> set page) (db_jobs db)"
    by (rule filter_cong [OF refl]) (simp add: doomed)
  moreover have "length (filter (\<lambda>j. j \<in> set page) (db_jobs db)) = length page"
  proof -
    have "set (filter (\<lambda>j. j \<in> set page) (db_jobs db)) = set page"
      using cleanup_page_mem [of _ i "jobDatabaseNow now" locked db] by (auto simp: page_def)
    moreover have "distinct (filter (\<lambda>j. j \<in> set page) (db_jobs db))" using dist by (simp add: distinct_map)
    ultimately show ?thesis using pdist by (metis distinct_card)
  qed
  moreover have "filter (\<lambda>j. \<not> (List.member (map jb_ID page) (jb_ID j) \<and> removable i db j)) (db_jobs db)
      = filter (\<lambda>j. j \<notin> set page) (db_jobs db)"
    by (rule filter_cong [OF refl]) (simp add: doomed)
  ultimately show "db' = db\<lparr>db_attempts := filter (\<lambda>a. ja_JobID a \<notin> jb_ID ` set page) (db_attempts db),
      db_jobs := filter (\<lambda>j. j \<notin> set page) (db_jobs db)\<rparr>" and "hr_Deleted res = length page"
    using c unfolding cleanup_body_def Let_def page_def [symmetric] by (auto simp: List.member_iff split: if_splits)
qed

lemma cleanup_inv:
  assumes inv: "db_inv_except S jsonb db" and c: "cleanup_body i now locked db = Inr (db', res)"
  shows "db_inv_except S jsonb db'"
proof -
  define page where "page = cleanup_page i (jobDatabaseNow now) locked db"
  have jobs: "jobs_ok jsonb (db_jobs db)" using inv by (simp add: db_inv_except_def)
  then have dist: "distinct (map jb_ID (db_jobs db))" by (simp add: jobs_ok_def)
  have sub: "set page \<subseteq> set (db_jobs db)" using cleanup_page_mem page_def by blast
  let ?js = "filter (\<lambda>j. j \<notin> set page) (db_jobs db)" and ?as = "filter (\<lambda>a. ja_JobID a \<notin> jb_ID ` set page) (db_attempts db)"
  have keep: "jb_ID j \<notin> jb_ID ` set page" if "j \<in> set ?js" for j
    using that sub unique_job [OF dist] by (auto simp: subset_iff)
  have "jobs_ok jsonb ?js"
    using jobs unfolding jobs_ok_def
    by (auto simp: active_conflict_iff permanent_conflict_iff distinct_map inj_on_def)
  moreover have "attempts_ok ?js ?as"
    using inv sub unfolding db_inv_except_def attempts_ok_def by (auto simp: distinct_map inj_on_def image_iff) blast+
  moreover have "claims ?as (jb_ID j) = claims (db_attempts db) (jb_ID j)" if "j \<in> set ?js" for j
    unfolding claims_def filter_filter by (rule filter_cong [OF refl]) (use keep [OF that] in metis)
  then have "ledger_ok S ?js ?as" using inv by (auto simp: db_inv_except_def ledger_ok_def)
  moreover have "occurrences_ok ?js (db_occurrences db)" using inv by (auto simp: db_inv_except_def occurrences_ok_def)
  ultimately show ?thesis
    using cleanup_effect(1) [OF c dist] by (simp add: db_inv_except_def page_def)
qed

section \<open>Claims\<close>

lemma same_claim:
  assumes "numbered j (claims as i)" and "claim_owned S j (claims as i)"
    and "a \<in> set as" "b \<in> set as" "ja_JobID a = i" "ja_JobID b = i" "attempt_running a" "attempt_running b"
  shows "a = b"
proof -
  have mem: "a \<in> set (claims as i)" "b \<in> set (claims as i)" using assms by (simp_all add: set_claims)
  then have "ja_Number a = ja_Number b" using assms by (simp add: claim_owned_def)
  with mem assms(1) show ?thesis unfolding numbered_def by (metis distinct_map inj_onD)
qed

lemma expire_inv:
  assumes inv: "db_inv jsonb db" and now: "clock_ok now" and e: "expire_attempts now db = (db1, ids)"
  shows "db_inv_except (set ids) jsonb db1" and "distinct ids" and "set ids \<subseteq> jb_ID ` set (db_jobs db1)"
    and "\<forall>a \<in> set (db_attempts db1). \<not> lease_lost now a" and "db_jobs db1 = db_jobs db"
    and "db_occurrences db1 = db_occurrences db"
proof -
  define f where "f a = (if lease_lost now a
     then a\<lparr>ja_Status := JobAttemptStatusLeaseExpired, ja_CompletedAt := OptionalTimeFrom now\<rparr> else a)" for a
  have db1: "db1 = db\<lparr>db_attempts := map f (db_attempts db)\<rparr>" and ids: "ids = map ja_JobID (filter (lease_lost now) (db_attempts db))"
    using e by (auto simp: expire_attempts_def f_def)
  have as: "attempts_ok (db_jobs db) (db_attempts db)" and led: "ledger_ok {} (db_jobs db) (db_attempts db)"
    using inv by (simp_all add: db_inv_except_def)
  have fsel: "ja_ID (f a) = ja_ID a" "ja_ClaimToken (f a) = ja_ClaimToken a" "ja_JobID (f a) = ja_JobID a" "ja_Number (f a) = ja_Number a"
    "attempt_running (f a) \<longleftrightarrow> attempt_running a \<and> \<not> lease_lost now a" for a
    by (simp_all add: f_def attempt_running_def lease_lost_def)
  have lost: "attempt_running a" if "lease_lost now a" for a using that by (simp add: lease_lost_def attempt_running_def)
  have "JobAttempt_Validate (Some (f a)) = None" if "a \<in> set (db_attempts db)" for a
    using that as by (auto simp: attempts_ok_def f_def JobAttempt_Validate_ok validJobAttemptStatus_def)
  then have as1: "attempts_ok (db_jobs db) (map f (db_attempts db))"
    by (intro attempts_ok_map [OF as]) (simp add: fsel)
  have job: "\<exists>j \<in> set (db_jobs db). jb_ID j = ja_JobID a" if "a \<in> set (db_attempts db)" for a
    using that as unfolding attempts_ok_def by (metis imageE)
  have same: "a = b" if ab: "a \<in> set (db_attempts db)" "b \<in> set (db_attempts db)" "ja_JobID a = ja_JobID b"
      "attempt_running a" "attempt_running b" for a b
  proof -
    obtain j where j: "j \<in> set (db_jobs db)" "jb_ID j = ja_JobID a" using job [OF ab(1)] by blast
    then have "numbered j (claims (db_attempts db) (ja_JobID a))" "claim_owned {} j (claims (db_attempts db) (ja_JobID a))"
      using led by (auto simp: ledger_ok_def)
    then show ?thesis by (rule same_claim) (use ab in simp_all)
  qed
  show "distinct ids"
    unfolding ids distinct_map
    using as same lost by (auto simp: attempts_ok_def distinct_map inj_on_def intro!: distinct_filter)
  show "set ids \<subseteq> jb_ID ` set (db_jobs db1)"
    using job by (auto simp: ids db1 image_iff) metis
  have cl: "claims (map f (db_attempts db)) i = map f (claims (db_attempts db) i)" for i
    by (rule claims_map) (simp add: fsel)
  have "numbered j (map f (claims (db_attempts db) (jb_ID j))) \<and> claim_owned (set ids) j (map f (claims (db_attempts db) (jb_ID j)))"
    if "j \<in> set (db_jobs db)" for j
  proof -
    have own: "numbered j (claims (db_attempts db) (jb_ID j))" "claim_owned {} j (claims (db_attempts db) (jb_ID j))"
      using led that by (auto simp: ledger_ok_def)
    have mem: "jb_ID j \<in> set ids \<longleftrightarrow> (\<exists>a \<in> set (claims (db_attempts db) (jb_ID j)). lease_lost now a)"
      unfolding ids by (auto simp: set_claims image_iff)
    have "numbered j (map f (claims (db_attempts db) (jb_ID j)))"
      using own(1) by (subst numbered_map) (simp_all add: fsel)
    moreover have "claim_owned (set ids) j (map f (claims (db_attempts db) (jb_ID j)))"
    proof -
      let ?C = "set (claims (db_attempts db) (jb_ID j))"
      have "a = b" if "a \<in> ?C" "b \<in> ?C" "attempt_running a" "lease_lost now b" for a b
        using same [of a b] that lost by (simp add: set_claims)
      moreover have "executing j \<longleftrightarrow> (\<exists>a \<in> ?C. attempt_running a)" "\<forall>a \<in> ?C. attempt_running a \<longrightarrow> ja_Number a = jb_AttemptCount j"
        using own(2) by (simp_all add: claim_owned_def)
      ultimately show ?thesis
        using lost unfolding claim_owned_def mem set_map bex_simps ball_simps fsel by blast
    qed
    ultimately show ?thesis ..
  qed
  then have "ledger_ok (set ids) (db_jobs db) (map f (db_attempts db))" by (simp add: ledger_ok_def cl)
  then show "db_inv_except (set ids) jsonb db1" using inv as1 by (simp add: db_inv_except_def db1)
  show "\<forall>a \<in> set (db_attempts db1). \<not> lease_lost now a" by (auto simp: db1 f_def lease_lost_def)
qed (use e in \<open>auto simp: expire_attempts_def\<close>)

lemma backoff_nonneg:
  assumes "attempts_ok js as"
  shows "0 \<le> leaseExpiryBackoff as j"
proof -
  have "0 \<le> (case rev (sort_key ja_Number (filter (\<lambda>a. ja_JobID a = jb_ID j \<and> ja_Status a = JobAttemptStatusLeaseExpired) as)) of
      [] \<Rightarrow> 0 | a # _ \<Rightarrow> t_ns (ja_LeaseExpiresAt a) - t_ns (ja_HeartbeatAt a))"
  proof (cases "rev (sort_key ja_Number (filter (\<lambda>a. ja_JobID a = jb_ID j \<and> ja_Status a = JobAttemptStatusLeaseExpired) as))")
    case (Cons a rest)
    then have "a \<in> set (rev (sort_key ja_Number (filter (\<lambda>a. ja_JobID a = jb_ID j \<and> ja_Status a = JobAttemptStatusLeaseExpired) as)))"
      by simp
    then have "a \<in> set as" by simp
    then have "After (ja_LeaseExpiresAt a) (ja_HeartbeatAt a)" using assms by (simp add: attempts_ok_def JobAttempt_Validate_ok)
    then show ?thesis by (simp add: Cons After_def)
  qed simp
  then show ?thesis by (simp add: leaseExpiryBackoff_def Let_def)
qed

lemma lease_expired_code: "validPublicJobCode ''job.lease_expired''"
  by (simp add: validPublicJobCode_def jobSafeCode_def safe_word_def safe_char_def lower_alnum_def)

lemma recovered_row_ok:
  assumes row: "job_row_ok jsonb r" and now: "clock_ok now" and as: "attempts_ok js as" and rev: "jb_Revision r \<noteq> maxInt64"
  shows "job_row_ok jsonb (recovered_job as now r)"
proof -
  have v: "Job_Validate (Some r) = None" and j: "jobs_reject r = None" and i: "is_int64 (jb_Revision r)"
    using row by (simp_all add: job_row_ok_def)
  have t: "0 < t_ns now + leaseExpiryBackoff as r" using now backoff_nonneg [OF as, of r] by (simp add: clock_ok_def)
  have "Job_Validate (Some (recovered_job as now r)) = None"
    using v [unfolded Job_Validate_ok] now t
    by (simp add: Job_Validate_ok recovered_job_def IsZero_def Add_def After_def Before_def job_canceled_code lease_expired_code)
  moreover have "jobs_reject (recovered_job as now r) = None"
    using j now by (simp add: jobs_reject_ok recovered_job_def After_def Before_def terminal_status_def)
  ultimately show ?thesis
    using row i rev by (simp add: job_row_ok_def recovered_job_def is_int64_def minInt64_def)
qed

lemma recovered_sel:
  "same_key r (recovered_job as now r)" "jb_AttemptCount (recovered_job as now r) = jb_AttemptCount r"
  "jb_MaximumAttempts (recovered_job as now r) = jb_MaximumAttempts r"
  "jb_WorkReserved (recovered_job as now r) = jb_WorkReserved r" "\<not> executing (recovered_job as now r)"
  by (simp_all add: recovered_job_def same_key_def executing_def)

lemma recover_inv:
  assumes inv: "db_inv_except S jsonb db" and now: "clock_ok now" and i: "i \<in> S" "S \<subseteq> jb_ID ` set (db_jobs db)"
    and rec: "recover_expired now i db = Inr db'"
  obtains r where "r \<in> set (db_jobs db)" and "jb_ID r = i" and "executing r" and "jb_Revision r \<noteq> maxInt64"
    and "db' = db\<lparr>db_jobs := put_job (recovered_job (db_attempts db) now r) (db_jobs db)\<rparr>"
    and "db_inv_except (S - {i}) jsonb db'"
proof -
  have jobs: "jobs_ok jsonb (db_jobs db)" and as: "attempts_ok (db_jobs db) (db_attempts db)"
    and led: "ledger_ok S (db_jobs db) (db_attempts db)" and occ: "occurrences_ok (db_jobs db) (db_occurrences db)"
    using inv by (simp_all add: db_inv_except_def)
  have dist: "distinct (map jb_ID (db_jobs db))" using jobs by (simp add: jobs_ok_def)
  obtain r where r: "r \<in> set (db_jobs db)" "jb_ID r = i" using i by auto
  have own: "numbered r (claims (db_attempts db) i)" "claim_owned S r (claims (db_attempts db) i)"
    using led r by (auto simp: ledger_ok_def)
  have ex: "executing r" and none: "\<forall>a \<in> set (claims (db_attempts db) i). \<not> attempt_running a"
    using own(2) i(1) r(2) by (auto simp: claim_owned_def)
  have rev: "jb_Revision r \<noteq> maxInt64"
    using rec r ex by (auto simp: recover_expired_def list_ex_iff executing_def split: if_splits)
  define row where "row = recovered_job (db_attempts db) now r"
  have "(\<lambda>x. if jb_ID x = i \<and> (jb_Status x = JobStatusRunning \<or> jb_Status x = JobStatusCancelRequested)
      then recovered_job (db_attempts db) now x else x) x = (if jb_ID x = jb_ID row then row else x)"
    if "x \<in> set (db_jobs db)" for x
    using unique_job [OF dist that r(1)] r(2) ex recovered_sel(1) [of r] by (auto simp: row_def same_key_def executing_def)
  then have db': "db' = db\<lparr>db_jobs := put_job row (db_jobs db)\<rparr>"
    using rec unfolding recover_expired_def Let_def put_job_def by (auto split: if_splits)
  have jr: "job_row_ok jsonb r" "\<not> active_conflict (other_jobs r (db_jobs db)) r" using jobs r by (auto simp: jobs_ok_def)
  have act: "active_status (jb_Status r)" using ex by (auto simp: executing_def active_status_def)
  have free: "\<not> active_conflict (other_jobs row (db_jobs db)) row"
    using recovered_sel(1) [of r "db_attempts db" now]
    by (intro active_conflict_cong [OF _ _ _ _ _ jr(2)]) (simp_all add: row_def same_key_def act)
  have "db_inv_except (S - {i}) jsonb (db\<lparr>db_jobs := put_job row (db_jobs db)\<rparr>)"
  proof (rule db_inv_except_put [OF jobs occ r(1) _ _ free as])
    show "numbered x (claims (db_attempts db) (jb_ID x)) \<and> claim_owned (S - {i}) x (claims (db_attempts db) (jb_ID x))"
      if "x \<in> set (db_jobs db)" "jb_ID x \<noteq> jb_ID r" for x
      using led that r(2) by (auto simp: ledger_ok_def claim_owned_def)
    show "numbered row (claims (db_attempts db) (jb_ID r))" using own(1) r(2) by (simp add: numbered_def row_def recovered_sel)
    show "claim_owned (S - {i}) row (claims (db_attempts db) (jb_ID r))"
      using none r(2) recovered_sel(1) [of r "db_attempts db" now] recovered_sel(5)
      by (auto simp: claim_owned_def row_def same_key_def)
  qed (use jr recovered_row_ok [OF jr(1) now as rev] in \<open>simp_all add: row_def recovered_sel\<close>)
  then show thesis using that [OF r ex rev] db' by (simp add: row_def)
qed

end
