(* ===== verification/JobQueue.thy ===== *)
theory JobQueue
  imports JobLedger
begin

text \<open>
  What the durable job queue promises (\<^verbatim>\<open>server/store/job.go\<close>): its transactions as a step
  relation, and the properties of every database that is reached from the empty one.
\<close>

lemma recover_all_inv:
  assumes "db_inv_except (set ids) jsonb db" and "clock_ok now" and "distinct ids" and "set ids \<subseteq> jb_ID ` set (db_jobs db)"
    and "recover_all now ids db = Inr db'"
  shows "db_inv jsonb db' \<and> db_attempts db' = db_attempts db \<and> db_occurrences db' = db_occurrences db
    \<and> jb_ID ` set (db_jobs db') = jb_ID ` set (db_jobs db)"
  using assms
proof (induction ids arbitrary: db)
  case (Cons i ids)
  obtain db1 where db1: "recover_expired now i db = Inr db1" "recover_all now ids db1 = Inr db'"
    using Cons.prems(5) by (auto split: sum.splits)
  obtain r where r: "db1 = db\<lparr>db_jobs := put_job (recovered_job (db_attempts db) now r) (db_jobs db)\<rparr>"
    "db_inv_except (set (i # ids) - {i}) jsonb db1"
    using recover_inv [OF Cons.prems(1,2) _ Cons.prems(4) db1(1)] by auto
  have "set (i # ids) - {i} = set ids" using Cons.prems(3) by auto
  with r Cons.IH [of db1] Cons.prems db1(2) show ?case by simp
qed simp

text \<open>A successful claim: the row that was chosen, the job as stored, and the new attempt.\<close>

lemma claim_job_effect:
  assumes jsonb: "jsonb_doc jsonb" and inv: "db_inv jsonb db" and r: "r \<in> set (db_jobs db)"
    and c: "claim_job jsonb request now i r db = Inr (db', out)"
  obtains job attempt row where "out = Claimed job attempt"
    and "job_call (StartCall (latestTime (jb_UpdatedAt r) now)) (Some r) = (Some job, None)"
    and "db' = db\<lparr>db_jobs := put_job row (db_jobs db), db_attempts := db_attempts db @ [attempt]\<rparr>"
    and "same_key r row" and "jb_Status row = JobStatusRunning" and "jb_AttemptCount row = jb_AttemptCount r + 1"
    and "jb_WorkReserved row = jb_WorkReserved r"
    and "attempt_running attempt" and "ja_ID attempt = i" and "ja_JobID attempt = jb_ID r" and "ja_Number attempt = jb_AttemptCount r + 1"
    and "ja_ClaimToken attempt = cr_ClaimToken request" and "JobAttempt_Validate (Some attempt) = None"
    and "i \<notin> ja_ID ` set (db_attempts db)" and "cr_ClaimToken request \<notin> ja_ClaimToken ` set (db_attempts db)"
    and "job_row_ok jsonb row" and "\<not> active_conflict (other_jobs row (db_jobs db)) row"
proof -
  obtain job db1 attempt where
    st: "Job_Start (Some r) (latestTime (jb_UpdatedAt r) now) = (Some job, None)"
    and up: "updateJob jsonb job db = Inr db1"
    and new: "NewJobAttempt i (jb_ID job) (jb_AttemptCount job) (cr_NodeID request) (cr_ClaimToken request) now
        (Add now (cr_LeaseDuration request)) = (Some attempt, None)"
    and ins: "insert_attempt attempt db1 = Inr db'" and out: "out = Claimed job attempt"
    using c by (auto simp: claim_job_def split: sum.splits prod.splits option.splits)
  have call: "job_call (StartCall (latestTime (jb_UpdatedAt r) now)) (Some r) = (Some job, None)" using st by simp
  note ok = job_call_ok [OF call]
  have jobs: "jobs_ok jsonb (db_jobs db)" using inv by (simp add: db_inv_except_def)
  then have "job_row_ok jsonb r" using r by (simp add: jobs_ok_def)
  then have "int4 (jb_AttemptCount r)" by (simp add: job_row_ok_def jobs_reject_ok)
  then have cnt: "jb_AttemptCount job = jb_AttemptCount r + 1"
    unfolding ok(2) by (simp add: inc64_below_max int4_def is_int64_def minInt64_def maxInt64_def)
  obtain row where row: "db1 = db\<lparr>db_jobs := put_job row (db_jobs db)\<rparr>" "same_key r row" "job_row_ok jsonb row"
    "\<not> active_conflict (other_jobs row (db_jobs db)) row" "jb_Status row = jb_Status job"
    "jb_AttemptCount row = jb_AttemptCount job" "jb_WorkReserved row = jb_WorkReserved job"
    by (rule updateJob_ok [OF jsonb jobs r ok(3) up])
  have a: "JobAttempt_Validate (Some attempt) = None" "ja_ID attempt = i" "ja_JobID attempt = jb_ID job"
    "ja_Number attempt = jb_AttemptCount job" "ja_ClaimToken attempt = cr_ClaimToken request" "attempt_running attempt"
    using new by (auto simp: NewJobAttempt_def Let_def attempt_running_def split: option.splits)
  have id: "jb_ID job = jb_ID r" using ok(3) by (simp add: derived_def same_key_def)
  have db': "db' = db\<lparr>db_jobs := put_job row (db_jobs db), db_attempts := db_attempts db @ [attempt]\<rparr>"
    and fresh: "\<not> list_ex (\<lambda>x. ja_ID x = i \<or> ja_ClaimToken x = cr_ClaimToken request \<or> (ja_JobID x = jb_ID job \<and> ja_Number x = jb_AttemptCount job)) (db_attempts db)"
    using ins a row(1) by (auto simp: insert_attempt_def split: if_splits)
  show thesis
    by (rule that [OF out call db' row(2)])
      (use a row cnt ok(2,4) id fresh in \<open>auto simp: list_ex_iff image_iff\<close>)
qed

lemma claim_job_inv:
  assumes jsonb: "jsonb_doc jsonb" and inv: "db_inv jsonb db" and r: "r \<in> set (db_jobs db)" "jb_Status r = JobStatusQueued"
    and c: "claim_job jsonb request now i r db = Inr (db', out)"
  shows "db_inv jsonb db'"
proof -
  obtain job attempt row where eff: "db' = db\<lparr>db_jobs := put_job row (db_jobs db), db_attempts := db_attempts db @ [attempt]\<rparr>"
    "same_key r row" "jb_Status row = JobStatusRunning" "jb_AttemptCount row = jb_AttemptCount r + 1"
    "attempt_running attempt" "ja_ID attempt = i" "ja_JobID attempt = jb_ID r" "ja_Number attempt = jb_AttemptCount r + 1"
    "ja_ClaimToken attempt = cr_ClaimToken request" "JobAttempt_Validate (Some attempt) = None"
    "i \<notin> ja_ID ` set (db_attempts db)" "cr_ClaimToken request \<notin> ja_ClaimToken ` set (db_attempts db)"
    "job_row_ok jsonb row" "\<not> active_conflict (other_jobs row (db_jobs db)) row"
    by (rule claim_job_effect [OF jsonb inv r(1) c])
  have jobs: "jobs_ok jsonb (db_jobs db)" and as: "attempts_ok (db_jobs db) (db_attempts db)"
    and led: "ledger_ok {} (db_jobs db) (db_attempts db)" and occ: "occurrences_ok (db_jobs db) (db_occurrences db)"
    using inv by (simp_all add: db_inv_except_def)
  have as': "attempts_ok (db_jobs db) (db_attempts db @ [attempt])"
    using as eff r by (auto simp: attempts_ok_def)
  have cl: "claims (db_attempts db @ [attempt]) m = claims (db_attempts db) m @ (if m = jb_ID r then [attempt] else [])" for m
    using eff(7) by (simp add: claims_def)
  have own: "numbered r (claims (db_attempts db) (jb_ID r))" "claim_owned {} r (claims (db_attempts db) (jb_ID r))"
    using led r by (auto simp: ledger_ok_def)
  have idle: "\<forall>a \<in> set (claims (db_attempts db) (jb_ID r)). \<not> attempt_running a"
    using own(2) r(2) by (simp add: claim_owned_def executing_def)
  have "db_inv jsonb ((db\<lparr>db_attempts := db_attempts db @ [attempt]\<rparr>)\<lparr>db_jobs := put_job row (db_jobs db)\<rparr>)"
  proof (rule db_inv_except_put [of jsonb "db\<lparr>db_attempts := db_attempts db @ [attempt]\<rparr>" r row "{}", simplified])
    show "numbered x (claims (db_attempts db @ [attempt]) (jb_ID x)) \<and> claim_owned {} x (claims (db_attempts db @ [attempt]) (jb_ID x))"
      if "x \<in> set (db_jobs db)" "jb_ID x \<noteq> jb_ID r" for x
      using led that by (simp add: cl ledger_ok_def)
    show "numbered row (claims (db_attempts db @ [attempt]) (jb_ID r))"
      using own(1) eff(4,8) by (fastforce simp: cl numbered_def)
    show "claim_owned {} row (claims (db_attempts db @ [attempt]) (jb_ID r))"
      using idle eff(3,4,5,8) by (auto simp: cl claim_owned_def executing_def)
  qed (use jobs occ r eff as' in simp_all)
  then show ?thesis using eff(1) by (simp add: db_inv_except_def)
qed

lemma claim_body_effect:
  assumes jsonb: "jsonb_doc jsonb" and inv: "db_inv jsonb db" and now: "clock_ok now"
    and c: "claim_body jsonb request now i locked db = Inr (db', out)"
  obtains db1 where "db_inv jsonb db1" and "\<forall>a \<in> set (db_attempts db1). \<not> lease_lost now a"
    and "db_attempts db1 = db_attempts (fst (expire_attempts now db))"
    and "recover_all now (snd (expire_attempts now db)) (fst (expire_attempts now db)) = Inr db1"
    and "out = PostCommitErr (StoreError ErrNotFound ''job'' ''claimable'') \<and> db' = db1
           \<and> (\<forall>j \<in> set (db_jobs db1). claimable request now db1 j \<longrightarrow> jb_ID j \<in> set locked)
         \<or> (\<exists>r \<in> set (db_jobs db1). claim_job jsonb request now i r db1 = Inr (db', out) \<and> claimable request now db1 r \<and> jb_ID r \<notin> set locked
           \<and> (\<forall>j \<in> set (db_jobs db1). claimable request now db1 j \<and> jb_ID j \<notin> set locked \<longrightarrow> claim_order r \<le> claim_order j))"
proof -
  obtain db0 ids where e: "expire_attempts now db = (db0, ids)" by fastforce
  note ex = expire_inv [OF inv now e]
  obtain db1 where db1: "recover_all now ids db0 = Inr db1"
    using c now e by (auto simp: claim_body_def Let_def split: sum.splits)
  note rec = recover_all_inv [OF ex(1) now ex(2,3) db1]
  have lost: "\<forall>a \<in> set (db_attempts db1). \<not> lease_lost now a" using ex(4) rec by simp
  let ?P = "\<lambda>j. claimable request now db1 j \<and> \<not> List.member locked (jb_ID j)"
  show thesis
  proof (cases "sort_key claim_order (filter ?P (db_jobs db1))")
    case Nil
    have "length (sort_key claim_order (filter ?P (db_jobs db1))) = length (filter ?P (db_jobs db1))" by (rule length_sort)
    then have "filter ?P (db_jobs db1) = []" unfolding Nil by (simp only: list.size length_0_conv [symmetric])
    then have "\<forall>j \<in> set (db_jobs db1). claimable request now db1 j \<longrightarrow> jb_ID j \<in> set locked"
      by (auto simp: filter_empty_conv)
    moreover have "out = PostCommitErr (StoreError ErrNotFound ''job'' ''claimable'')" "db' = db1"
      using c now e db1 Nil by (auto simp: claim_body_def Let_def split: if_splits)
    ultimately show thesis using that [OF _ lost] rec db1 e by simp
  next
    case (Cons r rs)
    have "set (sort_key claim_order (filter ?P (db_jobs db1))) = set (filter ?P (db_jobs db1))" by (rule set_sort)
    then have mem: "set (r # rs) = {j \<in> set (db_jobs db1). ?P j}" unfolding Cons by simp
    have "sorted (map claim_order (r # rs))" unfolding Cons [symmetric] by (rule sorted_sort_key)
    then have "\<forall>j \<in> set (r # rs). claim_order r \<le> claim_order j" by auto
    then have least: "\<forall>j \<in> set (db_jobs db1). claimable request now db1 j \<and> jb_ID j \<notin> set locked \<longrightarrow> claim_order r \<le> claim_order j"
      unfolding mem by (simp add: List.member_iff)
    have r: "r \<in> set (db_jobs db1)" "claimable request now db1 r" "jb_ID r \<notin> set locked" using mem by auto
    have "claim_job jsonb request now i r db1 = Inr (db', out)"
      using c now e db1 Cons by (simp add: claim_body_def Let_def)
    with r least show thesis using that [OF _ lost] rec db1 e by auto
  qed
qed

section \<open>The step relation\<close>

text \<open>
  One committed or rolled back call of any client, at any reading of the database clock, with any
  rows locked by others; \<open>limit\<close> bounds the budgets that work reservations name.  The other tables
  change on their own.
\<close>

inductive job_step :: "(string \<Rightarrow> string option) \<Rightarrow> int \<Rightarrow> job_db \<Rightarrow> job_db \<Rightarrow> bool" for jsonb limit where
  enqueue: "is_int64 (jb_Revision job) \<Longrightarrow> job_step jsonb limit db (fst (Enqueue jsonb (Some job) db))"
| claim: "clock_ok now \<Longrightarrow> job_step jsonb limit db (fst (ClaimNext jsonb request now i locked db))"
| heartbeat: "clock_ok now \<Longrightarrow> job_step jsonb limit db (fst (Heartbeat beat now db))"
| checkpoint: "clock_ok now \<Longrightarrow> job_step jsonb limit db (fst (Checkpoint jsonb cp now db))"
| reserve: "clock_ok now \<Longrightarrow> rw_Limit res \<le> limit \<Longrightarrow> job_step jsonb limit db (fst (ReserveWork (Some res) now db))"
| complete: "clock_ok now \<Longrightarrow> job_step jsonb limit db (fst (Complete jsonb cm now db))"
| cancel: "clock_ok now \<Longrightarrow> job_step jsonb limit db (fst (JobStore_Cancel jsonb mu audit now db))"
| retry: "clock_ok now \<Longrightarrow> job_step jsonb limit db (fst (JobStore_Retry jsonb mu audit now db))"
| cleanup: "clock_ok now \<Longrightarrow> job_step jsonb limit db (fst (DeleteTerminalHistory hc now locked db))"
| others: "job_step jsonb limit db (db\<lparr>db_onboarding_jobs := os, db_mail_jobs := ms, db_rekey_jobs := rs\<rparr>)"

definition empty_db :: job_db where
  "empty_db = \<lparr>db_jobs = [], db_attempts = [], db_occurrences = [], db_onboarding_jobs = [],
     db_mail_jobs = [], db_rekey_jobs = []\<rparr>"

abbreviation job_reaches :: "(string \<Rightarrow> string option) \<Rightarrow> int \<Rightarrow> job_db \<Rightarrow> job_db \<Rightarrow> bool" where
  "job_reaches jsonb limit \<equiv> (job_step jsonb limit)\<^sup>*\<^sup>*"

text \<open>A call changes the database only through the body of its transaction.\<close>

lemma transaction_cases:
  "(\<And>db' r. body db = Inr (db', r) \<Longrightarrow> P db') \<Longrightarrow> P db \<Longrightarrow> P (fst (executeSQLTransaction commits body db))"
  by (auto simp: executeSQLTransaction_def split: sum.splits prod.splits)

lemma ClaimNext_cases:
  assumes "P db" and "\<And>q db' out. request = Some q \<Longrightarrow> claim_body jsonb q now i locked db = Inr (db', out) \<Longrightarrow> P db'"
  shows "P (fst (ClaimNext jsonb request now i locked db))"
proof (cases request)
  case (Some q)
  have "P (fst (executeSQLTransaction True (claim_body jsonb q now i locked) db))"
    by (rule transaction_cases) (use assms Some in auto)
  then show ?thesis
    using assms(1) Some by (auto simp: ClaimNext_def split: prod.splits sum.splits claim_outcome.splits)
qed (use assms in \<open>simp add: ClaimNext_def\<close>)

lemma Heartbeat_cases:
  assumes "P db" and "\<And>q db' out. beat = Some q \<Longrightarrow> heartbeat_body q now db = Inr (db', out) \<Longrightarrow> P db'"
  shows "P (fst (Heartbeat beat now db))"
  using assms by (cases beat) (auto simp: Heartbeat_def intro!: transaction_cases [where P = P])

lemma Checkpoint_cases:
  assumes "P db" and "\<And>q db' out. cp = Some q \<Longrightarrow> checkpoint_body jsonb q now db = Inr (db', out) \<Longrightarrow> P db'"
  shows "P (fst (Checkpoint jsonb cp now db))"
  using assms by (cases cp) (auto simp: Checkpoint_def intro!: transaction_cases [where P = P])

lemma ReserveWork_cases:
  assumes "P db" and "\<And>db' ok n. rw_Limit res \<le> 1000000 \<Longrightarrow> 0 < rw_Units res \<Longrightarrow> reserve_body res now db = Inr (db', ok, n) \<Longrightarrow> P db'"
  shows "P (fst (ReserveWork (Some res) now db))"
  using assms by (auto simp: ReserveWork_def intro!: transaction_cases [where P = P])

lemma Complete_cases:
  assumes "P db" and "\<And>q db' out. cm = Some q \<Longrightarrow> complete_body jsonb q now db = Inr (db', out) \<Longrightarrow> P db'"
  shows "P (fst (Complete jsonb cm now db))"
  using assms by (cases cm) (auto simp: Complete_def intro!: transaction_cases [where P = P])

lemma operator_cases:
  assumes "P db" and "\<And>q db' out. mu = Some q \<Longrightarrow> mutate_body jsonb q op f audit now db = Inr (db', out) \<Longrightarrow> P db'"
  shows "P (fst (mutateOperatorJob jsonb mu op f audit now db))"
  using assms by (cases mu) (auto simp: mutateOperatorJob_def intro!: transaction_cases [where P = P])

lemma cleanup_cases:
  assumes "P db" and "\<And>q db' out. hc = Some q \<Longrightarrow> cleanup_body q now locked db = Inr (db', out) \<Longrightarrow> P db'"
  shows "P (fst (DeleteTerminalHistory hc now locked db))"
  using assms by (cases hc) (auto simp: DeleteTerminalHistory_def intro!: transaction_cases [where P = P])

lemma claim_body_inv:
  assumes "jsonb_doc jsonb" and "db_inv jsonb db" and "clock_ok now" and "claim_body jsonb request now i locked db = Inr (db', out)"
  shows "db_inv jsonb db'"
proof -
  obtain db1 where db1: "db_inv jsonb db1"
    and alt: "db' = db1 \<or> (\<exists>r \<in> set (db_jobs db1). claim_job jsonb request now i r db1 = Inr (db', out) \<and> claimable request now db1 r)"
    by (rule claim_body_effect [OF assms]) blast
  then show ?thesis
    using claim_job_inv [OF assms(1) db1] by (auto simp: claimable_def)
qed

lemma job_calls: "Job_RequestCancellation = (\<lambda>p t. job_call (RequestCancellationCall t) p)"
  "Job_ExplicitRetry = (\<lambda>p t. job_call (ExplicitRetryCall t) p)"
  by auto

lemma job_step_inv:
  assumes "jsonb_doc jsonb" and "job_step jsonb limit db db'" and "db_inv jsonb db"
  shows "db_inv jsonb db'"
  using assms(2,3)
proof cases
  case (enqueue job)
  then show ?thesis using Enqueue_inv [OF assms(1)] assms(3) by blast
next
  case (claim now request i locked)
  show ?thesis unfolding claim(1)
    by (rule ClaimNext_cases) (use assms claim claim_body_inv in blast)+
next
  case (heartbeat now beat)
  show ?thesis unfolding heartbeat(1)
    by (rule Heartbeat_cases) (use assms heartbeat_inv in blast)+
next
  case (checkpoint now cp)
  show ?thesis unfolding checkpoint(1)
    by (rule Checkpoint_cases) (use assms checkpoint_inv in blast)+
next
  case (reserve now res)
  show ?thesis unfolding reserve(1)
    by (rule ReserveWork_cases) (use assms reserve reserve_inv in blast)+
next
  case (complete now cm)
  show ?thesis unfolding complete(1)
    by (rule Complete_cases) (use assms complete_inv in blast)+
next
  case (cancel now mu audit)
  show ?thesis unfolding cancel(1) JobStore_Cancel_def job_calls
    by (rule operator_cases) (use assms operator_inv in blast)+
next
  case (retry now mu audit)
  show ?thesis unfolding retry(1) JobStore_Retry_def job_calls
    by (rule operator_cases) (use assms operator_inv in blast)+
next
  case (cleanup now hc locked)
  show ?thesis unfolding cleanup(1)
    by (rule cleanup_cases) (use assms cleanup_inv in blast)+
next
  case (others os ms rs)
  then show ?thesis using assms(3) by (simp add: db_inv_except_def)
qed

lemma empty_db_inv: "db_inv jsonb empty_db"
  by (simp add: empty_db_def db_inv_except_def jobs_ok_def attempts_ok_def ledger_ok_def occurrences_ok_def)

lemma job_reaches_inv:
  assumes "jsonb_doc jsonb" and "job_reaches jsonb limit db db'" and "db_inv jsonb db"
  shows "db_inv jsonb db'"
  using assms(2,3) by (induction rule: rtranclp_induct) (auto intro: job_step_inv [OF assms(1)])

text \<open>C1. Exclusive execution.  In every database that the job queue reaches from the empty one, by any
  sequence of calls of any workers and operators at any clock readings: a job is running or being
  canceled exactly when it has one running attempt, there is never a second one, that attempt carries
  the job's current attempt number, the job never has more attempts than its maximum, and every stored
  job reads back as a valid job.\<close>

theorem job_claims_exclusive:
  assumes "jsonb_doc jsonb" and "job_reaches jsonb limit empty_db db" and "j \<in> set (db_jobs db)"
  shows "(executing j \<longleftrightarrow> (\<exists>!a. a \<in> set (db_attempts db) \<and> ja_JobID a = jb_ID j \<and> attempt_running a))
    \<and> (\<forall>a \<in> set (db_attempts db). ja_JobID a = jb_ID j \<longrightarrow>
         ja_Number a \<le> jb_AttemptCount j \<and> (attempt_running a \<longrightarrow> executing j \<and> ja_Number a = jb_AttemptCount j))
    \<and> jb_AttemptCount j \<le> jb_MaximumAttempts j \<and> getJob db (jb_ID j) = Inr j"
proof -
  have inv: "db_inv jsonb db" by (rule job_reaches_inv [OF assms(1,2) empty_db_inv])
  have own: "numbered j (claims (db_attempts db) (jb_ID j))" "claim_owned {} j (claims (db_attempts db) (jb_ID j))"
    and row: "Job_Validate (Some j) = None" and dist: "distinct (map jb_ID (db_jobs db))"
    using inv assms(3) by (auto simp: db_inv_except_def ledger_ok_def jobs_ok_def job_row_ok_def)
  have one: "a = b" if "a \<in> set (db_attempts db)" "b \<in> set (db_attempts db)" "ja_JobID a = jb_ID j" "ja_JobID b = jb_ID j"
    "attempt_running a" "attempt_running b" for a b
    by (rule same_claim [OF own]) (use that in simp_all)
  have found: "find (\<lambda>r. jb_ID r = jb_ID j) (db_jobs db) = Some j"
  proof (cases "find (\<lambda>r. jb_ID r = jb_ID j) (db_jobs db)")
    case None
    then show ?thesis using assms(3) by (auto simp: find_None_iff)
  next
    case (Some k)
    then have "k \<in> set (db_jobs db)" "jb_ID k = jb_ID j" by (auto simp: find_Some_iff)
    then show ?thesis using Some unique_job [OF dist _ assms(3)] by blast
  qed
  have "executing j \<longleftrightarrow> (\<exists>!a. a \<in> set (db_attempts db) \<and> ja_JobID a = jb_ID j \<and> attempt_running a)"
    using own(2) one by (auto simp: claim_owned_def set_claims)
  then show ?thesis
    using own row found by (auto simp: claim_owned_def numbered_def set_claims getJob_def Job_Validate_ok)
qed

section \<open>Fencing\<close>

text \<open>The attempt and token of a call hold the live claim of a job at this instant.\<close>

definition holds_claim :: "job_db \<Rightarrow> string \<Rightarrow> string \<Rightarrow> gtime \<Rightarrow> bool" where
  "holds_claim db i token now \<longleftrightarrow> (\<exists>a \<in> set (db_attempts db). ja_ID a = i \<and> ja_ClaimToken a = token
     \<and> attempt_running a \<and> Before (TimeUTC now) (ja_LeaseExpiresAt a))"

lemma stale_attempt:
  "\<not> holds_claim db i token now \<Longrightarrow> \<exists>e. getFencedAttempt db i token (jobDatabaseNow now) = Inl e"
proof (cases "getFencedAttempt db i token (jobDatabaseNow now)")
  case (Inr a)
  assume "\<not> holds_claim db i token now"
  moreover have "TimeUTC (jobDatabaseNow now) = TimeUTC now"
    by (simp add: jobDatabaseNow_def TimeUTC_eq in_UTC_def)
  ultimately show ?thesis using getFencedAttempt_ok [OF Inr] by (auto simp: holds_claim_def)
qed simp

text \<open>C2. Fencing.  A worker whose attempt is unknown, has another token, no longer runs, or whose lease
  has passed at the database clock, can do nothing: each of its calls returns an error and leaves the
  database as it was, whatever else it asks for.\<close>

theorem stale_worker_fenced:
  "(\<not> holds_claim db (hb_AttemptID b) (hb_ClaimToken b) now \<longrightarrow> (\<exists>e. Heartbeat (Some b) now db = (db, Inl e)))
    \<and> (\<not> holds_claim db (cp_AttemptID p) (cp_ClaimToken p) now \<longrightarrow> (\<exists>e. Checkpoint jsonb (Some p) now db = (db, Inl e)))
    \<and> (\<not> holds_claim db (rw_AttemptID r) (rw_ClaimToken r) now \<longrightarrow> (\<exists>e. ReserveWork (Some r) now db = (db, Inl e)))
    \<and> (\<not> holds_claim db (cm_AttemptID c) (cm_ClaimToken c) now \<longrightarrow> (\<exists>e. Complete jsonb (Some c) now db = (db, Inl e)))
    \<and> (\<not> holds_claim db i token now \<longrightarrow> (\<exists>e. CancellationRequested i token now db = (db, Inl e)))"
  by (intro conjI impI; drule stale_attempt;
      auto simp: Heartbeat_def Checkpoint_def ReserveWork_def Complete_def CancellationRequested_def
      executeSQLTransaction_def heartbeat_body_def checkpoint_body_def reserve_body_def complete_body_def Let_def)

section \<open>How the tables change\<close>

text \<open>What never happens to a stored job: its identity and key change, its attempt count or its reserved
  work goes back, the work passes the limit, or its content changes under the same revision.\<close>

definition job_rel :: "int \<Rightarrow> Job \<Rightarrow> Job \<Rightarrow> bool" where
  "job_rel limit j k \<longleftrightarrow> same_key j k \<and> jb_AttemptCount j \<le> jb_AttemptCount k
     \<and> jb_WorkReserved j \<le> jb_WorkReserved k \<and> jb_WorkReserved k \<le> max limit (jb_WorkReserved j)
     \<and> (k = j \<or> jb_Revision j < jb_Revision k)"

abbreviation jobs_evolve :: "int \<Rightarrow> Job list \<Rightarrow> Job list \<Rightarrow> bool" where
  "jobs_evolve limit \<equiv> list_all2 (job_rel limit)"

lemma job_rel_refl [simp]: "job_rel limit j j"
  by (simp add: job_rel_def same_key_def)

lemma job_rel_trans: "job_rel limit i j \<Longrightarrow> job_rel limit j k \<Longrightarrow> job_rel limit i k"
  by (auto simp: job_rel_def same_key_def)

lemma jobs_evolve_refl [simp]: "jobs_evolve limit js js"
  by (simp add: list.rel_refl)

lemma jobs_evolve_trans: "jobs_evolve limit is js \<Longrightarrow> jobs_evolve limit js ks \<Longrightarrow> jobs_evolve limit is ks"
  by (rule list_all2_trans [OF job_rel_trans])

lemma jobs_evolve_put:
  assumes "distinct (map jb_ID js)" and "r \<in> set js" and "job_rel limit r row"
  shows "jobs_evolve limit js (put_job row js)"
  unfolding put_job_def list.rel_map
proof (rule list.rel_refl_strong)
  fix x assume "x \<in> set js"
  with assms unique_job [OF assms(1) this assms(2)] show "job_rel limit x (if jb_ID x = jb_ID row then row else x)"
    by (auto simp: job_rel_def same_key_def)
qed

text \<open>A method call that is written back.\<close>

lemma updateJob_evolve:
  assumes jsonb: "jsonb_doc jsonb" and ok: "jobs_ok jsonb (db_jobs db)" and r: "r \<in> set (db_jobs db)"
    and call: "job_call c (Some r) = (Some job, None)" and up: "updateJob jsonb job db = Inr db'"
  shows "jobs_evolve limit (db_jobs db) (db_jobs db')" and "db_attempts db' = db_attempts db"
    and "db_occurrences db' = db_occurrences db"
proof -
  note k = job_call_ok [OF call]
  have row: "job_row_ok jsonb r" using ok r by (simp add: jobs_ok_def)
  then have r': "is_int64 (jb_Revision r)" "0 < jb_Revision r" "int4 (jb_AttemptCount r)" "0 \<le> jb_AttemptCount r"
    by (simp_all add: job_row_ok_def Job_Validate_ok jobs_reject_ok)
  have "0 < jb_Revision job" using k(3) by (simp add: derived_def Job_Validate_ok)
  moreover have "jb_Revision job = inc64 (jb_Revision r)" unfolding k(2) by (cases c) auto
  ultimately have rev: "jb_Revision job = jb_Revision r + 1" using valid_inc64 [of "jb_Revision r"] r' by simp
  have att: "jb_AttemptCount r \<le> jb_AttemptCount job"
    unfolding k(2) using r'(3,4) by (cases c) (auto simp: int4_def int64_defs)
  obtain row where up: "db' = db\<lparr>db_jobs := put_job row (db_jobs db)\<rparr>" "same_key r row"
    "jb_AttemptCount row = jb_AttemptCount job" "jb_WorkReserved row = jb_WorkReserved job" "jb_Revision row = jb_Revision job"
    by (rule updateJob_ok [OF jsonb ok r k(3) up])
  then have "job_rel limit r row" using rev att k(4) by (simp add: job_rel_def)
  then show "jobs_evolve limit (db_jobs db) (db_jobs db')" "db_attempts db' = db_attempts db"
    "db_occurrences db' = db_occurrences db"
    using ok r up by (simp_all add: jobs_ok_def jobs_evolve_put)
qed

text \<open>Attempts that no longer run are never rewritten.\<close>

definition keeps_closed :: "JobAttempt list \<Rightarrow> JobAttempt list \<Rightarrow> bool" where
  "keeps_closed as bs \<longleftrightarrow> (\<forall>a \<in> set as. \<not> attempt_running a \<longrightarrow> a \<in> set bs)"

lemma keeps_closed_simps [simp]: "keeps_closed as as" "keeps_closed as (as @ bs)"
  by (simp_all add: keeps_closed_def)

lemma keeps_closed_map:
  "(\<And>a. a \<in> set as \<Longrightarrow> \<not> attempt_running a \<Longrightarrow> f a = a) \<Longrightarrow> keeps_closed as (map f as)"
  by (auto simp: keeps_closed_def image_iff) metis

definition in_place :: "int \<Rightarrow> job_db \<Rightarrow> job_db \<Rightarrow> bool" where
  "in_place limit db db' \<longleftrightarrow> jobs_evolve limit (db_jobs db) (db_jobs db') \<and> keeps_closed (db_attempts db) (db_attempts db')
     \<and> db_occurrences db' = db_occurrences db"

lemma in_place_refl [simp]: "in_place limit db db"
  by (simp add: in_place_def)

lemma heartbeat_in_place: "heartbeat_body b now db = Inr (db', u) \<Longrightarrow> in_place limit db db'"
  by (auto simp: heartbeat_body_def Let_def in_place_def attempt_running_def intro!: keeps_closed_map
      split: sum.splits prod.splits option.splits)

lemma checkpoint_in_place:
  assumes jsonb: "jsonb_doc jsonb" and inv: "db_inv jsonb db" and c: "checkpoint_body jsonb i now db = Inr (db', u)"
  shows "in_place limit db db'"
proof -
  obtain a :: JobAttempt and j k where j: "getJob db (ja_JobID a) = Inr j"
    and k: "Job_UpdateProgress (Some j) (cp_Progress i) (cp_Checkpoint i) (latestTime (jb_UpdatedAt j) (jobDatabaseNow now)) = (Some k, None)"
    and up: "updateJob jsonb k db = Inr db'"
    using c unfolding checkpoint_body_def Let_def by (auto split: sum.splits prod.splits option.splits)
  have jobs: "jobs_ok jsonb (db_jobs db)" using inv by (simp add: db_inv_except_def)
  note ev = updateJob_evolve [OF jsonb jobs getJob_ok(1) [OF j] _ up,
      of "UpdateProgressCall (cp_Progress i) (cp_Checkpoint i) (latestTime (jb_UpdatedAt j) (jobDatabaseNow now))"]
  show ?thesis using ev k by (simp add: in_place_def)
qed

lemma operator_in_place:
  assumes jsonb: "jsonb_doc jsonb" and inv: "db_inv jsonb db"
    and m: "mutate_body jsonb i op (\<lambda>p t. job_call (c t) p) audit now db = Inr (db', u)"
  shows "in_place limit db db'"
proof -
  define t where "t j = latestTime (jb_UpdatedAt j) (jobDatabaseNow now)" for j :: Job
  obtain j k where j: "getJob db (mu_ID i) = Inr j" and k: "job_call (c (t j)) (Some j) = (Some k, None)"
    and up: "updateJob jsonb k db = Inr db'"
    using m unfolding mutate_body_def Let_def t_def [symmetric]
    by (auto split: sum.splits prod.splits option.splits if_splits)
  have jobs: "jobs_ok jsonb (db_jobs db)" using inv by (simp add: db_inv_except_def)
  show ?thesis using updateJob_evolve [OF jsonb jobs getJob_ok(1) [OF j] k up] by (simp add: in_place_def)
qed

lemma complete_in_place:
  assumes jsonb: "jsonb_doc jsonb" and inv: "db_inv jsonb db" and c: "complete_body jsonb i now db = Inr (db', u)"
  shows "in_place limit db db'"
proof -
  define n where "n = jobDatabaseNow now"
  obtain a j kind code st k b as' where "getFencedAttempt db (cm_AttemptID i) (cm_ClaimToken i) n = Inr a"
    and j: "getJob db (ja_JobID a) = Inr j"
    and k: "completion_transition i kind code j (latestTime (jb_UpdatedAt j) n) = (st, (Some k, None))"
    and "JobAttempt_Complete (Some a) st code (latestTime (ja_HeartbeatAt a) n) = (Some b, None)"
    and as': "as' = map (\<lambda>x. if ja_ID x = ja_ID b \<and> ja_ClaimToken x = ja_ClaimToken b \<and> ja_Status x = JobAttemptStatusRunning
      then x\<lparr>ja_Status := ja_Status b, ja_CompletedAt := ja_CompletedAt b, ja_PublicErrorCode := ja_PublicErrorCode b\<rparr> else x)
        (db_attempts db)"
    and up: "updateJob jsonb k (db\<lparr>db_attempts := as'\<rparr>) = Inr db'"
    using c unfolding complete_body_def Let_def n_def [symmetric]
    by (auto split: sum.splits prod.splits option.splits)
  have jobs: "jobs_ok jsonb (db_jobs (db\<lparr>db_attempts := as'\<rparr>))" using inv by (simp add: db_inv_except_def)
  obtain d where d: "job_call d (Some j) = (Some k, None)" using completion_call [OF k] by blast
  have r: "j \<in> set (db_jobs (db\<lparr>db_attempts := as'\<rparr>))" using getJob_ok(1) [OF j] by simp
  have "keeps_closed (db_attempts db) as'" unfolding as' by (rule keeps_closed_map) (simp add: attempt_running_def)
  then show ?thesis using updateJob_evolve [OF jsonb jobs r d up] by (simp add: in_place_def)
qed

lemma reserve_in_place:
  assumes inv: "db_inv jsonb db" and now: "clock_ok now" and lim: "rw_Limit i \<le> limit" "0 < rw_Units i"
    and r: "reserve_body i now db = Inr (db', ok, n)"
  shows "in_place limit db db'"
  using inv now r
proof (cases rule: reserve_effect)
  case (taken j row)
  have "job_rel limit j row" using taken lim by (auto simp: job_rel_def same_key_def)
  then show ?thesis
    using inv taken jobs_evolve_put [of "db_jobs db" j limit row] by (simp add: in_place_def db_inv_except_def jobs_ok_def)
qed simp

lemma recover_all_evolve:
  assumes "db_inv_except (set ids) jsonb db" and "clock_ok now" and "distinct ids" and "set ids \<subseteq> jb_ID ` set (db_jobs db)"
    and "recover_all now ids db = Inr db'"
  shows "jobs_evolve limit (db_jobs db) (db_jobs db')"
  using assms
proof (induction ids arbitrary: db)
  case (Cons i ids)
  obtain db1 where db1: "recover_expired now i db = Inr db1" "recover_all now ids db1 = Inr db'"
    using Cons.prems(5) by (auto split: sum.splits)
  obtain r where r: "r \<in> set (db_jobs db)" "db1 = db\<lparr>db_jobs := put_job (recovered_job (db_attempts db) now r) (db_jobs db)\<rparr>"
    "db_inv_except (set (i # ids) - {i}) jsonb db1"
    using recover_inv [OF Cons.prems(1,2) _ Cons.prems(4) db1(1)] by auto
  have "jb_Revision (recovered_job as now r) = jb_Revision r + 1" for as by (simp add: recovered_job_def)
  then have "job_rel limit r (recovered_job (db_attempts db) now r)" by (simp add: job_rel_def recovered_sel)
  then have "jobs_evolve limit (db_jobs db) (db_jobs db1)"
    using jobs_evolve_put [of "db_jobs db" r] r Cons.prems(1) by (simp add: db_inv_except_def jobs_ok_def)
  moreover have "set (i # ids) - {i} = set ids" using Cons.prems(3) by auto
  ultimately show ?case using r Cons.IH [of db1] Cons.prems db1(2) by (auto intro: jobs_evolve_trans)
qed simp

lemma claim_in_place:
  assumes jsonb: "jsonb_doc jsonb" and inv: "db_inv jsonb db" and now: "clock_ok now"
    and c: "claim_body jsonb request now i locked db = Inr (db', out)"
  shows "in_place limit db db'"
proof -
  obtain db0 ids where e: "expire_attempts now db = (db0, ids)" by fastforce
  note ex = expire_inv [OF inv now e]
  obtain db1 where db1: "db_inv jsonb db1" "recover_all now ids db0 = Inr db1"
    and alt: "db' = db1 \<or> (\<exists>r \<in> set (db_jobs db1). claim_job jsonb request now i r db1 = Inr (db', out))"
    by (rule claim_body_effect [OF jsonb inv now c, unfolded e fst_conv snd_conv]) blast
  have rec: "db_attempts db1 = db_attempts db0" "db_occurrences db1 = db_occurrences db"
    "jobs_evolve limit (db_jobs db) (db_jobs db1)"
    using recover_all_inv [OF ex(1) now ex(2,3) db1(2)] recover_all_evolve [OF ex(1) now ex(2,3) db1(2)] ex(5,6) by auto
  have closed: "keeps_closed (db_attempts db) (db_attempts db0)"
    using e unfolding expire_attempts_def by (auto intro!: keeps_closed_map simp: attempt_running_def lease_lost_def)
  from alt show ?thesis
  proof
    assume "db' = db1"
    then show ?thesis using rec closed by (simp add: in_place_def)
  next
    assume "\<exists>r \<in> set (db_jobs db1). claim_job jsonb request now i r db1 = Inr (db', out)"
    then obtain r where r: "r \<in> set (db_jobs db1)" and cj: "claim_job jsonb request now i r db1 = Inr (db', out)" by blast
    obtain job attempt row where eff: "job_call (StartCall (latestTime (jb_UpdatedAt r) now)) (Some r) = (Some job, None)"
      "db' = db1\<lparr>db_jobs := put_job row (db_jobs db1), db_attempts := db_attempts db1 @ [attempt]\<rparr>"
      by (rule claim_job_effect [OF jsonb db1(1) r cj])
    obtain db2 where up: "updateJob jsonb job db1 = Inr db2" and db2: "db_jobs db2 = db_jobs db'"
      using cj eff(1) by (auto simp: claim_job_def insert_attempt_def split: sum.splits prod.splits option.splits if_splits)
    have "jobs_evolve limit (db_jobs db1) (db_jobs db')"
      using updateJob_evolve(1) [OF jsonb _ r eff(1) up] db1(1) db2 by (simp add: db_inv_except_def)
    then show ?thesis
      using rec closed eff(2) jobs_evolve_trans [OF rec(3)] by (auto simp: in_place_def keeps_closed_def)
  qed
qed

lemma list_all2_partners:
  assumes "list_all2 R xs ys"
  shows "x \<in> set xs \<Longrightarrow> \<exists>y \<in> set ys. R x y" and "y \<in> set ys \<Longrightarrow> \<exists>x \<in> set xs. R x y"
  using assms by (induction rule: list_all2_induct) auto

lemma job_step_cases:
  assumes jsonb: "jsonb_doc jsonb" and step: "job_step jsonb limit db db'" and inv: "db_inv jsonb db"
  obtains (changed) "in_place limit db db'"
  | (added) row xs where "db_jobs db' = db_jobs db @ [row]" and "jb_WorkReserved row = 0" and "jb_ID row \<notin> jb_ID ` set (db_jobs db)"
      and "db_attempts db' = db_attempts db" and "db_occurrences db' = db_occurrences db @ xs"
  | (removed) gone where "db_jobs db' = filter (\<lambda>j. j \<notin> gone) (db_jobs db)"
      and "db_attempts db' = filter (\<lambda>a. ja_JobID a \<notin> jb_ID ` gone) (db_attempts db)"
      and "db_occurrences db' = db_occurrences db"
      and "gone \<subseteq> {j \<in> set (db_jobs db). terminal_status (jb_Status j) \<and> unreferencedJob db j \<and> jb_ID j \<notin> set (db_rekey_jobs db)}"
proof -
  define evolves where "evolves = (\<lambda>db'. in_place limit db db'
    \<or> (\<exists>row xs. db_jobs db' = db_jobs db @ [row] \<and> jb_WorkReserved row = 0 \<and> jb_ID row \<notin> jb_ID ` set (db_jobs db)
        \<and> db_attempts db' = db_attempts db \<and> db_occurrences db' = db_occurrences db @ xs)
    \<or> (\<exists>gone. db_jobs db' = filter (\<lambda>j. j \<notin> gone) (db_jobs db)
        \<and> db_attempts db' = filter (\<lambda>a. ja_JobID a \<notin> jb_ID ` gone) (db_attempts db) \<and> db_occurrences db' = db_occurrences db
        \<and> gone \<subseteq> {j \<in> set (db_jobs db). terminal_status (jb_Status j) \<and> unreferencedJob db j \<and> jb_ID j \<notin> set (db_rekey_jobs db)}))"
  have stay: "evolves db" by (simp add: evolves_def)
  have move: "in_place limit db x \<Longrightarrow> evolves x" for x by (simp add: evolves_def)
  have dist: "distinct (map jb_ID (db_jobs db))" using inv by (simp add: db_inv_except_def jobs_ok_def)
  from step have "evolves db'"
  proof cases
    case (enqueue job)
    have ins: "evolves x" if "insertQueuedJob jsonb job dd (db\<lparr>db_occurrences := db_occurrences db @ xs\<rparr>) = Inr (x, n)" "xs = [] \<or> \<not> dd" for dd xs x n
      using that(1)
    proof (cases rule: insert_effect)
      case taken
      then show ?thesis using that(2) stay by simp
    next
      case (added row)
      have "jb_WorkReserved row = 0" by (subst added(8)) simp
      then show ?thesis unfolding evolves_def using added by simp
    qed
    have "evolves x" if "enqueuePermanent jsonb job db = Inr (x, u)" for x u
      using that stay ins by (auto simp: enqueuePermanent_def Let_def split: option.splits sum.splits)
    moreover have "evolves x" if "insertQueuedJob jsonb job True db = Inr (x, n)" for x n
      using ins [of True "[]" x n] that by simp
    ultimately show ?thesis unfolding enqueue(1)
      using stay by (auto simp: Enqueue_def executeSQLTransaction_def split: sum.splits prod.splits option.splits bool.splits)
  next
    case (claim now request i locked)
    show ?thesis unfolding claim(1)
      by (rule ClaimNext_cases [where P = evolves]) (use stay jsonb inv claim claim_in_place move in blast)+
  next
    case (heartbeat now beat)
    show ?thesis unfolding heartbeat(1)
      by (rule Heartbeat_cases [where P = evolves]) (use stay heartbeat_in_place move in blast)+
  next
    case (checkpoint now cp)
    show ?thesis unfolding checkpoint(1)
      by (rule Checkpoint_cases [where P = evolves]) (use stay jsonb inv checkpoint_in_place move in blast)+
  next
    case (reserve now res)
    show ?thesis unfolding reserve(1)
      by (rule ReserveWork_cases [where P = evolves]) (use stay inv reserve reserve_in_place move in blast)+
  next
    case (complete now cm)
    show ?thesis unfolding complete(1)
      by (rule Complete_cases [where P = evolves]) (use stay jsonb inv complete_in_place move in blast)+
  next
    case (cancel now mu audit)
    show ?thesis unfolding cancel(1) JobStore_Cancel_def job_calls
      by (rule operator_cases [where P = evolves]) (use stay jsonb inv operator_in_place move in blast)+
  next
    case (retry now mu audit)
    show ?thesis unfolding retry(1) JobStore_Retry_def job_calls
      by (rule operator_cases [where P = evolves]) (use stay jsonb inv operator_in_place move in blast)+
  next
    case (cleanup now hc locked)
    show ?thesis unfolding cleanup(1)
    proof (rule cleanup_cases [where P = evolves])
      show "evolves db" by (rule stay)
    next
      fix q x out assume "cleanup_body q now locked db = Inr (x, out)"
      note eff = cleanup_effect(1) [OF this dist]
      show "evolves x"
        unfolding evolves_def eff using cleanup_page_mem [of _ q "jobDatabaseNow now" locked db]
        by (intro disjI2 exI [of _ "set (cleanup_page q (jobDatabaseNow now) locked db)"]) (auto simp: removable_def)
    qed
  next
    case (others os ms rs)
    then show ?thesis by (intro move) (simp add: in_place_def)
  qed
  then show thesis unfolding evolves_def using changed added removed by blast
qed

text \<open>C3. The record is append-only.  Any call of any client leaves every attempt that has ended exactly as
  it was, unless its job is deleted; it deletes only jobs that are terminal, that no import or mail
  delivery refers to and that no key rotation names; it keeps identity, type and deduplication key of
  every other job, never lowers its attempt count or its reserved work, and never changes its content
  without a higher revision.\<close>

theorem job_record_append_only:
  assumes jsonb: "jsonb_doc jsonb" and reach: "job_reaches jsonb limit empty_db db" and step: "job_step jsonb limit db db'"
  shows "(\<forall>a \<in> set (db_attempts db). \<not> attempt_running a \<longrightarrow> a \<in> set (db_attempts db') \<or> ja_JobID a \<notin> jb_ID ` set (db_jobs db'))
    \<and> (\<forall>j \<in> set (db_jobs db). (\<exists>k \<in> set (db_jobs db'). job_rel limit j k)
         \<or> terminal_status (jb_Status j) \<and> unreferencedJob db j \<and> jb_ID j \<notin> set (db_rekey_jobs db))
    \<and> set (db_occurrences db) \<subseteq> set (db_occurrences db')"
proof -
  have inv: "db_inv jsonb db" by (rule job_reaches_inv [OF jsonb reach empty_db_inv])
  have dist: "distinct (map jb_ID (db_jobs db))" using inv by (simp add: db_inv_except_def jobs_ok_def)
  from jsonb step inv show ?thesis
  proof (cases rule: job_step_cases)
    case changed
    then have "\<exists>k \<in> set (db_jobs db'). job_rel limit j k" if "j \<in> set (db_jobs db)" for j
      using that by (auto simp: in_place_def dest: list_all2_partners(1))
    with changed show ?thesis by (auto simp: in_place_def keeps_closed_def)
  next
    case (added row xs)
    moreover have "\<exists>k \<in> set (db_jobs db'). job_rel limit j k" if "j \<in> set (db_jobs db)" for j
      using that added(1) by (intro bexI [of _ j]) simp_all
    ultimately show ?thesis by simp
  next
    case (removed gone)
    have "jb_ID ` set (db_jobs db') \<inter> jb_ID ` gone = {}"
      using removed(1,4) unique_job [OF dist] by auto
    then have att: "a \<in> set (db_attempts db') \<or> ja_JobID a \<notin> jb_ID ` set (db_jobs db')" if "a \<in> set (db_attempts db)" for a
      using that unfolding removed(2) set_filter by blast
    have "\<exists>k \<in> set (db_jobs db'). job_rel limit j k" if "j \<in> set (db_jobs db)" "j \<notin> gone" for j
      using that removed(1) by (intro bexI [of _ j]) simp_all
    moreover have "set (db_occurrences db) \<subseteq> set (db_occurrences db')" using removed(3) by simp
    ultimately show ?thesis using att removed(4) by blast
  qed
qed

text \<open>C4. The work budget.  When no reservation names a limit above \<open>L\<close>, no job ever has more than \<open>L\<close>
  units of reserved work, over all its attempts and retries.  A reservation that succeeds adds exactly
  its units to the claimed job and reports the new total, which is within its own limit; one that is
  refused reports a total to which its units would exceed the limit, and changes nothing.\<close>

theorem job_work_budget:
  assumes jsonb: "jsonb_doc jsonb" and L: "0 \<le> L" and reach: "job_reaches jsonb L empty_db db"
    and now: "clock_ok now"
  shows "(\<forall>j \<in> set (db_jobs db). jb_WorkReserved j \<le> L)
    \<and> (\<forall>res db' n. ReserveWork (Some res) now db = (db', Inr (True, n)) \<longrightarrow> n \<le> rw_Limit res
         \<and> (\<exists>j \<in> set (db_jobs db). \<exists>k \<in> set (db_jobs db'). jb_ID k = jb_ID j \<and> executing j
              \<and> jb_WorkReserved k = n \<and> n = jb_WorkReserved j + rw_Units res))
    \<and> (\<forall>res db' n. ReserveWork (Some res) now db = (db', Inr (False, n)) \<longrightarrow> db' = db \<and> rw_Limit res < n + rw_Units res)"
proof (intro conjI allI impI)
  show "\<forall>j \<in> set (db_jobs db). jb_WorkReserved j \<le> L"
    using reach
  proof (induction rule: rtranclp_induct)
    case (step x y)
    have inv: "db_inv jsonb x" by (rule job_reaches_inv [OF jsonb step(1) empty_db_inv])
    from jsonb step(2) inv show ?case
    proof (cases rule: job_step_cases)
      case changed
      have "jb_WorkReserved k \<le> L" if k: "k \<in> set (db_jobs y)" for k
      proof -
        obtain j where "j \<in> set (db_jobs x)" "job_rel L j k"
          using changed k by (auto simp: in_place_def dest: list_all2_partners(2))
        then show ?thesis using step(3) by (auto simp: job_rel_def)
      qed
      then show ?thesis by blast
    qed (use step(3) L in auto)
  qed (simp add: empty_db_def)
next
  fix res db' n assume "ReserveWork (Some res) now db = (db', Inr (True, n))"
  then have r: "reserve_body res now db = Inr (db', True, n)"
    by (auto simp: ReserveWork_def executeSQLTransaction_def split: if_splits sum.splits)
  have inv: "db_inv jsonb db" by (rule job_reaches_inv [OF jsonb reach empty_db_inv])
  from inv now r show "n \<le> rw_Limit res" by (cases rule: reserve_effect) auto
  from inv now r show "\<exists>j \<in> set (db_jobs db). \<exists>k \<in> set (db_jobs db'). jb_ID k = jb_ID j \<and> executing j
      \<and> jb_WorkReserved k = n \<and> n = jb_WorkReserved j + rw_Units res"
  proof (cases rule: reserve_effect)
    case (taken j row)
    have "executing j" using inv taken(2,8) by (fastforce simp: db_inv_except_def ledger_ok_def claim_owned_def set_claims)
    moreover have "row \<in> set (db_jobs db')"
      using taken set_put_job [of "db_jobs db" j row] inv by (simp add: db_inv_except_def jobs_ok_def)
    ultimately show ?thesis using taken by (intro bexI [of _ j] bexI [of _ row]) simp_all
  qed simp
next
  fix res db' n assume "ReserveWork (Some res) now db = (db', Inr (False, n))"
  then have r: "reserve_body res now db = Inr (db', False, n)"
    by (auto simp: ReserveWork_def executeSQLTransaction_def split: if_splits sum.splits)
  have inv: "db_inv jsonb db" by (rule job_reaches_inv [OF jsonb reach empty_db_inv])
  from inv now r show "db' = db" by (cases rule: reserve_effect) auto
  from inv now r show "rw_Limit res < n + rw_Units res" by (cases rule: reserve_effect) auto
qed

section \<open>Deduplication\<close>

lemma occurrences_grow:
  assumes "jsonb_doc jsonb" and "job_reaches jsonb limit db db'" and "db_inv jsonb db"
  shows "set (db_occurrences db) \<subseteq> set (db_occurrences db')"
  using assms(2)
proof (induction rule: rtranclp_induct)
  case (step x y)
  have inv: "db_inv jsonb x" by (rule job_reaches_inv [OF assms(1) step(1) assms(3)])
  from assms(1) step(2) inv step(3) show ?case
    by (cases rule: job_step_cases) (auto simp: in_place_def)
qed simp

lemma Enqueue_active_taken:
  assumes inv: "db_inv jsonb db" and j: "j \<in> set (db_jobs db)" "jb_DedupePolicy j = JobDedupeActive" "active_status (jb_Status j)"
    and job: "jb_DedupePolicy job = JobDedupeActive" "jb_Type job = jb_Type j" "jb_DedupeKey job = jb_DedupeKey j"
    and unique: "\<And>k. k \<in> set (db_jobs db) \<Longrightarrow> jb_DedupePolicy k = JobDedupeActive \<Longrightarrow> active_status (jb_Status k) \<Longrightarrow>
      jb_Type k = jb_Type j \<Longrightarrow> jb_DedupeKey k = jb_DedupeKey j \<Longrightarrow> k = j"
  shows "fst (Enqueue jsonb (Some job) db) = db
    \<and> (\<forall>found created. snd (Enqueue jsonb (Some job) db) = Inr (found, created) \<longrightarrow> \<not> created \<and> found = Some j)"
proof (cases "Job_Validate (Some job) \<noteq> None \<or> jb_Status job \<noteq> JobStatusQueued \<or> jb_AttemptCount job \<noteq> 0")
  case True
  then show ?thesis by (auto simp: Enqueue_def)
next
  case ok: False
  show ?thesis
  proof (cases "insertQueuedJob jsonb job True db")
    case (Inl e)
    then show ?thesis using ok job by (simp add: Enqueue_def)
  next
    case (Inr p)
    then obtain x n where ins: "insertQueuedJob jsonb job True db = Inr (x, n)" by (cases p) simp
    then have "x = db \<and> n = 0"
    proof (cases rule: insert_effect)
      case (added row)
      then show ?thesis
        using ok job j by (auto simp: active_conflict_iff same_key_def active_status_def)
    qed simp
    moreover have "find (\<lambda>r. jb_Type r = jb_Type job \<and> jb_DedupeKey r = jb_DedupeKey job \<and> jb_DedupePolicy r = jb_DedupePolicy job
        \<and> (jb_DedupePolicy job = JobDedupeActive \<longrightarrow> active_status (jb_Status r))) (db_jobs db) = Some j" (is "find ?P _ = _")
    proof (cases "find ?P (db_jobs db)")
      case None
      then show ?thesis using j job by (auto simp: find_None_iff)
    next
      case (Some k)
      then have "k \<in> set (db_jobs db)" "?P k" by (auto simp: find_Some_iff)
      then show ?thesis using Some unique job by simp
    qed
    moreover have "Job_Validate (Some j) = None" using inv j by (simp add: db_inv_except_def jobs_ok_def job_row_ok_def)
    ultimately show ?thesis using ok job ins by (simp add: Enqueue_def jobRow_model_def)
  qed
qed

lemma Enqueue_permanent_taken:
  assumes "x \<in> set (db_occurrences db)" "oc_Type x = jb_Type job" "oc_DedupeKey x = jb_DedupeKey job"
    and "jb_DedupePolicy job = JobDedupePermanent"
  shows "fst (Enqueue jsonb (Some job) db) = db
    \<and> (\<forall>found created. snd (Enqueue jsonb (Some job) db) = Inr (found, created) \<longrightarrow> \<not> created)"
proof -
  obtain y where "find (\<lambda>x. oc_Type x = jb_Type job \<and> oc_DedupeKey x = jb_DedupeKey job) (db_occurrences db) = Some y"
    using assms by (cases "find (\<lambda>x. oc_Type x = jb_Type job \<and> oc_DedupeKey x = jb_DedupeKey job) (db_occurrences db)")
      (auto simp: find_None_iff)
  then show ?thesis
    using assms(4) by (cases "find (\<lambda>r. jb_ID r = oc_JobID y) (db_jobs db)")
      (auto simp: Enqueue_def enqueuePermanent_def executeSQLTransaction_def split: sum.splits)
qed

text \<open>C5. Deduplication.  In every reachable database at most one unfinished job holds a key of the active
  policy, and while one does, enqueueing the key again changes nothing and returns that job.  Once a key
  of the permanent policy is reserved, no later enqueue of it creates a job, in this database or in any
  that is reached from it, even after the job itself has been deleted.\<close>

theorem job_deduplication:
  assumes jsonb: "jsonb_doc jsonb" and reach: "job_reaches jsonb limit empty_db db" and more: "job_reaches jsonb limit db db'"
  shows "(\<forall>j \<in> set (db_jobs db). \<forall>k \<in> set (db_jobs db). jb_DedupePolicy j = JobDedupeActive \<and> jb_DedupePolicy k = JobDedupeActive
         \<and> active_status (jb_Status j) \<and> active_status (jb_Status k) \<and> jb_Type j = jb_Type k \<and> jb_DedupeKey j = jb_DedupeKey k \<longrightarrow> j = k)
    \<and> (\<forall>job. \<forall>j \<in> set (db_jobs db). jb_DedupePolicy j = JobDedupeActive \<and> active_status (jb_Status j) \<and> jb_DedupePolicy job = JobDedupeActive
         \<and> jb_Type job = jb_Type j \<and> jb_DedupeKey job = jb_DedupeKey j \<longrightarrow> fst (Enqueue jsonb (Some job) db) = db
         \<and> (\<forall>found created. snd (Enqueue jsonb (Some job) db) = Inr (found, created) \<longrightarrow> \<not> created \<and> found = Some j))
    \<and> (\<forall>job. \<forall>x \<in> set (db_occurrences db). jb_DedupePolicy job = JobDedupePermanent \<and> oc_Type x = jb_Type job
         \<and> oc_DedupeKey x = jb_DedupeKey job \<longrightarrow> fst (Enqueue jsonb (Some job) db') = db'
         \<and> (\<forall>found created. snd (Enqueue jsonb (Some job) db') = Inr (found, created) \<longrightarrow> \<not> created))"
proof -
  have inv: "db_inv jsonb db" by (rule job_reaches_inv [OF jsonb reach empty_db_inv])
  have one: "j = k" if jk: "j \<in> set (db_jobs db)" "k \<in> set (db_jobs db)" and "jb_DedupePolicy j = JobDedupeActive"
    "jb_DedupePolicy k = JobDedupeActive" "active_status (jb_Status j)" "active_status (jb_Status k)" "jb_Type j = jb_Type k"
    "jb_DedupeKey j = jb_DedupeKey k" for j k
  proof (rule ccontr)
    assume "j \<noteq> k"
    have ok: "jobs_ok jsonb (db_jobs db)" using inv by (simp add: db_inv_except_def)
    then have "jb_ID j \<noteq> jb_ID k" using unique_job jk \<open>j \<noteq> k\<close> by (auto simp: jobs_ok_def)
    then have "active_conflict (other_jobs j (db_jobs db)) j" using that by (auto simp: active_conflict_iff)
    with ok jk(1) show False by (auto simp: jobs_ok_def)
  qed
  moreover have "fst (Enqueue jsonb (Some job) db) = db
      \<and> (\<forall>found created. snd (Enqueue jsonb (Some job) db) = Inr (found, created) \<longrightarrow> \<not> created \<and> found = Some j)"
    if "j \<in> set (db_jobs db)" "jb_DedupePolicy j = JobDedupeActive" "active_status (jb_Status j)" "jb_DedupePolicy job = JobDedupeActive"
      "jb_Type job = jb_Type j" "jb_DedupeKey job = jb_DedupeKey j" for job j
    by (rule Enqueue_active_taken [OF inv that]) (use one that in metis)
  moreover have "fst (Enqueue jsonb (Some job) db') = db'
      \<and> (\<forall>found created. snd (Enqueue jsonb (Some job) db') = Inr (found, created) \<longrightarrow> \<not> created)"
    if "x \<in> set (db_occurrences db)" "oc_Type x = jb_Type job" "oc_DedupeKey x = jb_DedupeKey job" "jb_DedupePolicy job = JobDedupePermanent"
    for job x
    using Enqueue_permanent_taken [of x db' job jsonb] that occurrences_grow [OF jsonb more inv] by blast
  ultimately show ?thesis by blast
qed

section \<open>Progress\<close>

lemma latestTime_bounds:
  assumes "clock_ok now" and "canonical u"
  shows "t_ns now \<le> t_ns (latestTime u now)" and "t_ns u \<le> t_ns (latestTime u now)" and "canonical (latestTime u now)"
  using assms by (auto simp: latestTime_def After_def clock_ok_def)

lemma updateJob_total:
  assumes row: "job_row_ok jsonb r" and dist: "distinct (map jb_ID (db_jobs db))" and r: "r \<in> set (db_jobs db)"
    and free: "\<not> active_conflict (other_jobs r (db_jobs db)) r"
    and same: "same_key r job" "jb_Checkpoint job = jb_Checkpoint r" "jb_Result job = jb_Result r" "jb_Revision job = jb_Revision r + 1"
      "jb_WorkReserved job = jb_WorkReserved r" "jb_CreatedAt job = jb_CreatedAt r"
    and v: "Job_Validate (Some job) = None" and ints: "int4 (jb_AttemptCount job)" "int4 (jb_MaximumAttempts job)"
    and st: "active_status (jb_Status r)"
  shows "\<exists>db'. updateJob jsonb job db = Inr db'"
proof -
  have ok: "nullableJSON jsonb (jb_Checkpoint r) = Some (jb_Checkpoint r)" "nullableJSON jsonb (jb_Result r) = Some (jb_Result r)"
    "is_int64 (jb_Revision r)" "jobs_reject r = None" "0 < jb_Revision r"
    using row by (simp_all add: job_row_ok_def Job_Validate_ok)
  have "find (\<lambda>x. jb_ID x = jb_ID job \<and> jb_Revision x = wrap64 (jb_Revision job - 1)) (db_jobs db) = Some r" (is "find ?P _ = _")
  proof -
    have P: "?P r" using ok(3) same by (simp add: same_key_def wrap64_id)
    show ?thesis
    proof (cases "find ?P (db_jobs db)")
      case None
      then show ?thesis using P r by (auto simp: find_None_iff)
    next
      case (Some k)
      then have "k \<in> set (db_jobs db)" "?P k" by (auto simp: find_Some_iff)
      then show ?thesis using Some unique_job [OF dist _ r] P by simp
    qed
  qed
  moreover define row where "row = r\<lparr>jb_Status := jb_Status job, jb_UpdatedAt := jb_UpdatedAt job,
                    jb_AvailableAt := jb_AvailableAt job,
                    jb_StartedAt := OptionalTimeFromNullTime (jb_StartedAt job),
                    jb_CompletedAt := OptionalTimeFromNullTime (jb_CompletedAt job),
                    jb_Checkpoint := jb_Checkpoint r, jb_Result := jb_Result r,
                    jb_PublicErrorCode := jb_PublicErrorCode job, jb_AttemptCount := jb_AttemptCount job,
                    jb_MaximumAttempts := jb_MaximumAttempts job, jb_WorkReserved := jb_WorkReserved job,
                    jb_Progress := jb_Progress job, jb_Revision := jb_Revision job\<rparr>"
  moreover have "jobs_reject row = None"
    using v ok(4,5) ints same unfolding jobs_reject_ok Job_Validate_ok row_def terminal_status_def by auto
  moreover have "\<not> active_conflict (other_jobs row (db_jobs db)) row"
    by (rule active_conflict_cong [OF _ _ _ _ _ free]) (simp_all add: row_def st)
  ultimately show ?thesis by (simp add: updateJob_def same ok Let_def)
qed


lemma claim_job_total:
  assumes inv: "db_inv jsonb db" and now: "clock_ok now" and r: "r \<in> set (db_jobs db)" "claimable request now db r"
    and canon: "canonical (jb_UpdatedAt r)" and rev: "jb_Revision r < maxInt64"
    and req: "TrimSpace (cr_NodeID request) \<noteq> ''''" "length (TrimSpace (cr_NodeID request)) \<le> 255"
      "JobClaimToken_IsValid (cr_ClaimToken request)" "1000 \<le> cr_LeaseDuration request"
    and fresh: "IsValidOpaqueID i" "i \<notin> ja_ID ` set (db_attempts db)" "cr_ClaimToken request \<notin> ja_ClaimToken ` set (db_attempts db)"
  shows "\<exists>db' job attempt. claim_job jsonb request now i r db = Inr (db', Claimed job attempt)
    \<and> ja_StartedAt attempt = now \<and> t_ns now < t_ns (ja_LeaseExpiresAt attempt)"
proof -
  have ok: "jobs_ok jsonb (db_jobs db)" using inv by (simp add: db_inv_except_def)
  then have row: "job_row_ok jsonb r" and free: "\<not> active_conflict (other_jobs r (db_jobs db)) r" and dist: "distinct (map jb_ID (db_jobs db))"
    using r by (auto simp: jobs_ok_def)
  have v: "Job_Validate (Some r) = None" and rej: "jobs_reject r = None" and i64: "is_int64 (jb_Revision r)"
    using row by (simp_all add: job_row_ok_def)
  define t where "t = latestTime (jb_UpdatedAt r) now"
  note tb = latestTime_bounds [OF now canon, folded t_def]
  define job where "job = job_next (StartCall t) r"
  have g: "job_guard (StartCall t) r"
    using r(2) tb by (simp add: claimable_def After_def Before_def)
  have cnt: "inc64 (jb_AttemptCount r) = jb_AttemptCount r + 1" "jb_AttemptCount r + 1 \<le> jb_MaximumAttempts r"
    using r(2) rej by (simp_all add: claimable_def jobs_reject_ok int4_def inc64_below_max is_int64_def minInt64_def maxInt64_def)
  have rv: "inc64 (jb_Revision r) = jb_Revision r + 1" using i64 rev by (simp add: inc64_below_max)
  have jv: "Job_Validate (Some job) = None"
    using v [unfolded Job_Validate_ok] tb cnt rv r(2) by (simp add: job_def Job_Validate_ok Before_def claimable_def)
  have call: "Job_Start (Some r) t = (Some job, None)"
    using job_call_accepted [OF g] jv by (simp add: validated_def job_def del: job_next.simps)
  have "\<exists>db1. updateJob jsonb job db = Inr db1"
    by (rule updateJob_total [OF row dist r(1) free _ _ _ _ _ _ jv])
      (use cnt rej rv r(2) in \<open>simp_all add: job_def same_key_def jobs_reject_ok int4_def claimable_def active_status_def\<close>)
  then obtain db1 where db1: "updateJob jsonb job db = Inr db1" by blast
  have sel: "jb_ID job = jb_ID r" "jb_AttemptCount job = jb_AttemptCount r + 1" by (simp_all add: job_def cnt)
  have as: "db_attempts db1 = db_attempts db"
    using updateJob_ok db1 by (auto simp: updateJob_def Let_def split: option.splits prod.splits if_splits)
  have exp: "t_ns now < trunc_us (t_ns now + cr_LeaseDuration request)"
    using now req(4) trunc_us_gt [of "t_ns now + cr_LeaseDuration request"] by linarith
  define a where "a = \<lparr>ja_ID = i, ja_JobID = jb_ID job, ja_Number = jb_AttemptCount job, ja_Status = JobAttemptStatusRunning,
            ja_NodeID = TrimSpace (cr_NodeID request), ja_ClaimToken = cr_ClaimToken request, ja_StartedAt = TimeUTC now,
            ja_HeartbeatAt = TimeUTC now, ja_LeaseExpiresAt = TimeUTC (Add now (cr_LeaseDuration request)),
            ja_CompletedAt = no_time, ja_PublicErrorCode = ''''\<rparr>"
  have av: "JobAttempt_Validate (Some a) = None"
    using v req fresh(1) now exp rej
    by (simp add: JobAttempt_Validate_ok a_def sel Job_Validate_ok validJobAttemptStatus_def validPublicJobCode_def
        IsZero_def Before_def After_def Add_def clock_ok_def)
  then have new: "NewJobAttempt i (jb_ID job) (jb_AttemptCount job) (cr_NodeID request) (cr_ClaimToken request) now
      (Add now (cr_LeaseDuration request)) = (Some a, None)"
    by (simp add: NewJobAttempt_def Let_def a_def)
  have led: "numbered r (claims (db_attempts db) (jb_ID r))" using inv r(1) by (auto simp: db_inv_except_def ledger_ok_def)
  have "\<not> list_ex (\<lambda>x. ja_ID x = ja_ID a \<or> ja_ClaimToken x = ja_ClaimToken a \<or> (ja_JobID x = ja_JobID a \<and> ja_Number x = ja_Number a)) (db_attempts db1)"
  proof -
    have "ja_Number x \<noteq> jb_AttemptCount r + 1" if "x \<in> set (db_attempts db)" "ja_JobID x = jb_ID r" for x
      using led that by (fastforce simp: numbered_def set_claims)
    then show ?thesis using fresh(2,3) unfolding list_ex_iff as image_iff by (auto simp: a_def sel)
  qed
  moreover have "int4 (ja_Number a)" using cnt rej by (simp add: a_def sel int4_def jobs_reject_ok)
  ultimately have ins: "insert_attempt a db1 = Inr (db1\<lparr>db_attempts := db_attempts db1 @ [a]\<rparr>)"
    by (simp add: insert_attempt_def)
  have "claim_job jsonb request now i r db = Inr (db1\<lparr>db_attempts := db_attempts db1 @ [a]\<rparr>, Claimed job a)"
    using v call db1 new ins by (simp add: claim_job_def jobRow_model_def t_def)
  then show ?thesis using now exp by (auto simp: a_def Add_def)
qed

text \<open>Recovery always succeeds when no revision counter is near its end, and moves it by at most one per lost lease.\<close>

lemma recover_all_total:
  assumes "\<forall>j \<in> set (db_jobs db). jb_Revision j + int (length ids) < maxInt64 \<and> canonical (jb_UpdatedAt j)" and "clock_ok now"
  shows "\<exists>db'. recover_all now ids db = Inr db' \<and> (\<forall>j \<in> set (db_jobs db'). jb_Revision j < maxInt64 \<and> canonical (jb_UpdatedAt j))"
  using assms
proof (induction ids arbitrary: db)
  case (Cons i ids)
  have "\<not> list_ex (\<lambda>r. (jb_ID r = i \<and> (jb_Status r = JobStatusRunning \<or> jb_Status r = JobStatusCancelRequested))
      \<and> jb_Revision r = maxInt64) (db_jobs db)"
    using Cons.prems(1) by (auto simp: list_ex_iff)
  then obtain db1 where db1: "recover_expired now i db = Inr db1"
    "db_jobs db1 = map (\<lambda>r. if jb_ID r = i \<and> (jb_Status r = JobStatusRunning \<or> jb_Status r = JobStatusCancelRequested)
       then recovered_job (db_attempts db) now r else r) (db_jobs db)"
    by (simp add: recover_expired_def Let_def)
  have "\<forall>j \<in> set (db_jobs db1). jb_Revision j + int (length ids) < maxInt64 \<and> canonical (jb_UpdatedAt j)"
  proof -
    have "jb_Revision (recovered_job as now r) = jb_Revision r + 1" for as r by (simp add: recovered_job_def)
    moreover have "canonical (jb_UpdatedAt (recovered_job as now r))" if "canonical (jb_UpdatedAt r)" for as r
      using that by (simp add: recovered_job_def)
    ultimately show ?thesis using Cons.prems(1) unfolding db1(2) set_map by fastforce
  qed
  with Cons.IH [OF _ Cons.prems(2)] db1(1) show ?case by simp
qed simp


section \<open>A concrete queue\<close>

definition sample_jsonb :: "string \<Rightarrow> string option" where
  "sample_jsonb s = (if s \<noteq> '''' \<and> json_Valid s then Some s else None)"

definition sample_db :: job_db where
  "sample_db = empty_db\<lparr>db_jobs := [sample_job]\<rparr>"

lemma sample_jsonb_doc: "jsonb_doc sample_jsonb"
  by (auto simp: jsonb_doc_def sample_jsonb_def split: if_splits)

lemma sample_enqueue: "fst (Enqueue sample_jsonb (Some sample_job) empty_db) = sample_db"
proof -
  have v: "Job_Validate (Some sample_job) = None" using sample_job_wf by (simp add: job_wf_def)
  have "jobs_reject sample_job = None"
    by (simp add: jobs_reject_ok sample_job_def int4_def Before_def terminal_status_def)
  moreover have "sample_job\<lparr>jb_StartedAt := no_time, jb_CompletedAt := no_time, jb_Command := ''{}'',
      jb_Checkpoint := '''', jb_Result := '''', jb_PublicErrorCode := '''', jb_AttemptCount := 0,
      jb_WorkReserved := 0, jb_Progress := None\<rparr> = sample_job"
    by (simp add: sample_job_def)
  moreover have "jb_Command sample_job = ''{}''" "jb_Status sample_job = JobStatusQueued" "jb_AttemptCount sample_job = 0"
    "jb_DedupePolicy sample_job = JobDedupeActive"
    by (simp_all add: sample_job_def)
  ultimately show ?thesis
    using v by (simp add: Enqueue_def insertQueuedJob_def sample_jsonb_def empty_document Let_def empty_db_def sample_db_def
        active_conflict_def permanent_conflict_def)
qed

lemma sample_reached: "job_reaches sample_jsonb limit empty_db sample_db"
proof -
  have "is_int64 (jb_Revision sample_job)" using sample_job_wf by (simp add: job_wf_def)
  then show ?thesis using job_step.enqueue [of sample_job sample_jsonb limit empty_db] sample_enqueue by auto
qed

lemma sample_clock: "clock_ok (sample_instant 20)"
  by (simp add: clock_ok_def)

theorem job_claims_exclusive_witness:
  "sample_job \<in> set (db_jobs sample_db) \<and> (executing sample_job \<longleftrightarrow>
     (\<exists>!a. a \<in> set (db_attempts sample_db) \<and> ja_JobID a = jb_ID sample_job \<and> attempt_running a))
   \<and> getJob sample_db (jb_ID sample_job) = Inr sample_job"
  using job_claims_exclusive [OF sample_jsonb_doc sample_reached [of 0], of sample_job] by (simp add: sample_db_def)

theorem stale_worker_fenced_witness:
  "\<exists>e. Heartbeat (Some \<lparr>hb_AttemptID = replicate 26 CHR ''b'', hb_ClaimToken = replicate 64 CHR ''a'', hb_LeaseDuration = 1000\<rparr>)
     (sample_instant 20) sample_db = (sample_db, Inl e)"
  using stale_worker_fenced [of sample_db
      "\<lparr>hb_AttemptID = replicate 26 CHR ''b'', hb_ClaimToken = replicate 64 CHR ''a'', hb_LeaseDuration = 1000\<rparr>" "sample_instant 20"]
  by (simp add: holds_claim_def sample_db_def empty_db_def)

theorem job_record_append_only_witness:
  "(\<exists>k \<in> set (db_jobs (fst (DeleteTerminalHistory None (sample_instant 20) [] sample_db))). job_rel 0 sample_job k)
   \<or> terminal_status (jb_Status sample_job)"
  using job_record_append_only [OF sample_jsonb_doc sample_reached [of 0] job_step.cleanup [OF sample_clock, of _ _ _ None "[]"]]
  by (auto simp: sample_db_def)

theorem job_work_budget_witness:
  "sample_job \<in> set (db_jobs sample_db) \<and> jb_WorkReserved sample_job \<le> 5"
  using job_work_budget [OF sample_jsonb_doc _ sample_reached [of 5] sample_clock] by (simp add: sample_db_def)

theorem job_deduplication_witness:
  "fst (Enqueue sample_jsonb (Some (sample_job\<lparr>jb_ID := replicate 26 CHR ''b''\<rparr>)) sample_db) = sample_db"
proof -
  have "sample_job \<in> set (db_jobs sample_db)" "jb_DedupePolicy sample_job = JobDedupeActive" "active_status (jb_Status sample_job)"
    by (simp_all add: sample_db_def sample_job_def active_status_def)
  then show ?thesis
    using job_deduplication [OF sample_jsonb_doc sample_reached [of 0] rtranclp.rtrancl_refl] by simp
qed


section \<open>Pages\<close>

text \<open>In a strictly descending list, what lies below the last entry of a page is what follows the page.\<close>

lemma page_continues:
  assumes "sorted_wrt (\<lambda>x y. key y < (key x :: 'k::linorder)) xs" and "take n xs \<noteq> []"
  shows "filter (\<lambda>x. key x < key (last (take n xs))) xs = drop n xs"
proof -
  have split: "sorted_wrt (\<lambda>x y. key y < key x) (take n xs @ drop n xs)" using assms(1) by simp
  have "\<not> key x < key (last (take n xs))" if "x \<in> set (take n xs)" for x
  proof (cases "x = last (take n xs)")
    case False
    have "take n xs = butlast (take n xs) @ [last (take n xs)]" using assms(2) by simp
    moreover have "x \<in> set (butlast (take n xs))" using that False calculation by (metis UnE empty_iff insert_iff list.set set_append)
    ultimately have "key (last (take n xs)) < key x"
      using split by (metis sorted_wrt_append list.set_intros(1))
    then show ?thesis by simp
  qed simp
  moreover have "key x < key (last (take n xs))" if "x \<in> set (drop n xs)" for x
    using split last_in_set [OF assms(2)] that unfolding sorted_wrt_append by blast
  ultimately have "filter (\<lambda>x. key x < key (last (take n xs))) (take n xs @ drop n xs) = drop n xs"
    by (simp add: filter_False filter_True del: append_take_drop_id)
  then show ?thesis by simp
qed

lemma sorted_desc:
  assumes "distinct (map key xs)"
  shows "sorted_wrt (\<lambda>x y. key y < (key x :: 'k::linorder)) (rev (sort_key key xs))"
proof -
  have "sorted (map key (sort_key key xs))" by (rule sorted_sort_key)
  moreover have "distinct (map key (sort_key key xs))"
    using assms by (simp add: distinct_map inj_on_def)
  ultimately have "sorted_wrt (<) (map key (sort_key key xs))" by (simp add: strict_sorted_iff)
  then show ?thesis by (simp add: sorted_wrt_rev sorted_wrt_map)
qed

lemma filter_rev_sort: "filter P (rev (sort_key key xs)) = rev (sort_key key (filter P xs))"
  by (metis filter_sort rev_filter)

text \<open>All jobs that a listing selects, newest first, and all attempts that it selects, latest first.\<close>

definition jobs_newest :: "JobListOptions \<Rightarrow> job_db \<Rightarrow> Job list" where
  "jobs_newest opts db = rev (sort_key list_key (filter (listed opts) (db_jobs db)))"

definition attempts_latest :: "JobAttemptListOptions \<Rightarrow> job_db \<Rightarrow> JobAttempt list" where
  "attempts_latest opts db = rev (sort_key ja_Number (filter (attempt_listed opts) (db_attempts db)))"

definition jobs_after :: "Job \<Rightarrow> JobListOptions \<Rightarrow> JobListOptions" where
  "jobs_after j opts = opts\<lparr>lo_BeforeCreatedAt := jb_CreatedAt j, lo_BeforeID := jb_ID j\<rparr>"

definition attempts_after :: "JobAttempt \<Rightarrow> JobAttemptListOptions \<Rightarrow> JobAttemptListOptions" where
  "attempts_after a opts = opts\<lparr>la_BeforeNumber := ja_Number a\<rparr>"

lemma last_taken: "take n xs \<noteq> [] \<Longrightarrow> last (take n xs) \<in> set xs"
  by (metis in_set_takeD last_in_set)

lemma jobs_newest_mem: "j \<in> set (jobs_newest opts db) \<longleftrightarrow> j \<in> set (db_jobs db) \<and> listed opts j"
  by (auto simp: jobs_newest_def)

lemma attempts_latest_mem: "a \<in> set (attempts_latest opts db) \<longleftrightarrow> a \<in> set (db_attempts db) \<and> attempt_listed opts a"
  by (auto simp: attempts_latest_def)

lemma jobs_newest_next:
  assumes inv: "db_inv jsonb db" and page: "take n (jobs_newest opts db) \<noteq> []"
  shows "jobs_newest (jobs_after (last (take n (jobs_newest opts db))) opts) db = drop n (jobs_newest opts db)"
proof -
  define l where "l = last (take n (jobs_newest opts db))"
  have dist: "distinct (map jb_ID (db_jobs db))" using inv by (simp add: db_inv_except_def jobs_ok_def)
  have "inj_on list_key (set (filter (listed opts) (db_jobs db)))"
    using unique_job [OF dist] by (auto simp: inj_on_def list_key_def)
  moreover have "distinct (filter (listed opts) (db_jobs db))" using dist by (simp add: distinct_map)
  ultimately have desc: "sorted_wrt (\<lambda>x y. list_key y < list_key x) (jobs_newest opts db)"
    unfolding jobs_newest_def by (intro sorted_desc) (simp add: distinct_map)
  have l: "l \<in> set (db_jobs db)" "listed opts l"
    using last_taken [OF page] by (simp_all add: l_def jobs_newest_mem)
  have id: "jb_ID l \<noteq> ''''"
    using inv l(1) by (auto simp: db_inv_except_def jobs_ok_def job_row_ok_def Job_Validate_ok IsValidOpaqueID_def IDLength_def)
  have "filter (\<lambda>j. list_key j < list_key l) (filter (listed opts) (db_jobs db)) = filter (listed (jobs_after l opts)) (db_jobs db)"
    unfolding filter_filter
  proof (rule filter_cong [OF refl])
    fix j
    have "list_key j < list_key l \<Longrightarrow> list_key l < c \<Longrightarrow> list_key j < c" for c by (rule less_trans)
    then show "(listed opts j \<and> list_key j < list_key l) = listed (jobs_after l opts) j"
      using l(2) id by (auto simp: listed_def jobs_after_def list_key_def [of l])
  qed
  then have "jobs_newest (jobs_after l opts) db = filter (\<lambda>j. list_key j < list_key l) (jobs_newest opts db)"
    unfolding jobs_newest_def filter_rev_sort by simp
  then show ?thesis using page_continues [OF desc page] by (simp add: l_def)
qed

lemma attempts_latest_next:
  assumes inv: "db_inv jsonb db" and page: "take n (attempts_latest opts db) \<noteq> []"
  shows "attempts_latest (attempts_after (last (take n (attempts_latest opts db))) opts) db = drop n (attempts_latest opts db)"
proof -
  define l where "l = last (take n (attempts_latest opts db))"
  let ?as = "filter (attempt_listed opts) (db_attempts db)"
  have as: "attempts_ok (db_jobs db) (db_attempts db)" using inv by (simp add: db_inv_except_def)
  have "a = b" if ab: "a \<in> set ?as" "b \<in> set ?as" "ja_Number a = ja_Number b" for a b
  proof -
    have mem: "a \<in> set (claims (db_attempts db) (la_JobID opts))" "b \<in> set (claims (db_attempts db) (la_JobID opts))"
      using ab by (simp_all add: set_claims attempt_listed_def)
    have "la_JobID opts \<in> jb_ID ` set (db_jobs db)" using as ab(1) unfolding attempts_ok_def attempt_listed_def set_filter by (metis (mono_tags, lifting) mem_Collect_eq)
    then obtain j where "j \<in> set (db_jobs db)" "jb_ID j = la_JobID opts" by auto
    then have "numbered j (claims (db_attempts db) (la_JobID opts))" using inv by (auto simp: db_inv_except_def ledger_ok_def)
    with mem ab(3) show ?thesis unfolding numbered_def by (metis distinct_map inj_onD)
  qed
  then have "inj_on ja_Number (set ?as)" by (rule inj_onI)
  moreover have "distinct ?as" using as by (simp add: attempts_ok_def distinct_map)
  ultimately have desc: "sorted_wrt (\<lambda>x y. ja_Number y < ja_Number x) (attempts_latest opts db)"
    unfolding attempts_latest_def by (intro sorted_desc) (simp add: distinct_map)
  have l: "l \<in> set (db_attempts db)" "attempt_listed opts l"
    using last_taken [OF page] by (simp_all add: l_def attempts_latest_mem)
  have "0 < ja_Number l" using as l(1) by (simp add: attempts_ok_def JobAttempt_Validate_ok)
  then have "filter (\<lambda>a. ja_Number a < ja_Number l) ?as = filter (attempt_listed (attempts_after l opts)) (db_attempts db)"
    unfolding filter_filter using l(2) by (intro filter_cong) (auto simp: attempt_listed_def attempts_after_def)
  then have "attempts_latest (attempts_after l opts) db = filter (\<lambda>a. ja_Number a < ja_Number l) (attempts_latest opts db)"
    unfolding attempts_latest_def filter_rev_sort by simp
  then show ?thesis using page_continues [OF desc page] by (simp add: l_def)
qed

lemma JobStore_List_page:
  assumes "db_inv jsonb db" and "1 \<le> lo_Limit opts" "lo_Limit opts \<le> 201" "lo_Types opts \<noteq> []"
    and "lo_BeforeID opts = '''' \<or> IsValidOpaqueID (lo_BeforeID opts) \<and> \<not> IsZero (lo_BeforeCreatedAt opts)"
  shows "JobStore_List opts db = Inr (take (nat (lo_Limit opts)) (jobs_newest opts db))"
proof -
  have "rehydrate jobRow_model (take n (jobs_newest opts db)) = Inr (take n (jobs_newest opts db))" for n
    using assms(1) by (intro rehydrate_ok)
      (auto simp: list_all_iff jobs_newest_mem db_inv_except_def jobs_ok_def job_row_ok_def dest!: in_set_takeD)
  then show ?thesis using assms by (auto simp: JobStore_List_def jobs_newest_def)
qed

lemma ListAttemptsPage_page:
  assumes "db_inv jsonb db" and "IsValidOpaqueID (la_JobID opts)" "0 \<le> la_BeforeNumber opts" "1 \<le> la_Limit opts" "la_Limit opts \<le> 201"
  shows "ListAttemptsPage opts db = Inr (take (nat (la_Limit opts)) (attempts_latest opts db))"
proof -
  have "rehydrate jobAttemptRow_model (take n (attempts_latest opts db)) = Inr (take n (attempts_latest opts db))" for n
    using assms(1) by (intro rehydrate_ok)
      (auto simp: list_all_iff attempts_latest_mem db_inv_except_def attempts_ok_def dest!: in_set_takeD)
  then show ?thesis using assms by (auto simp: ListAttemptsPage_def attempts_latest_def)
qed

text \<open>C7. Paged listings.  In a reachable database a listing with valid options never fails on a stored row;
  it returns the first \<open>limit\<close> entries of the whole selection in descending order; and the listing whose
  cursor is the last entry of a page returns exactly the entries that follow it.  Walking the pages of jobs
  or of attempts therefore visits the whole selection in order, without a gap and without a repetition.\<close>

theorem job_pages_continue:
  assumes jsonb: "jsonb_doc jsonb" and reach: "job_reaches jsonb limit empty_db db"
    and jo: "1 \<le> lo_Limit jopts" "lo_Limit jopts \<le> 201" "lo_Types jopts \<noteq> []"
      "lo_BeforeID jopts = '''' \<or> IsValidOpaqueID (lo_BeforeID jopts) \<and> \<not> IsZero (lo_BeforeCreatedAt jopts)"
    and ao: "IsValidOpaqueID (la_JobID aopts)" "0 \<le> la_BeforeNumber aopts" "1 \<le> la_Limit aopts" "la_Limit aopts \<le> 201"
  shows "(\<exists>page. JobStore_List jopts db = Inr page \<and> page = take (nat (lo_Limit jopts)) (jobs_newest jopts db)
        \<and> (page \<noteq> [] \<longrightarrow> JobStore_List (jobs_after (last page) jopts) db
             = Inr (take (nat (lo_Limit jopts)) (drop (nat (lo_Limit jopts)) (jobs_newest jopts db)))))
    \<and> (\<exists>page. ListAttemptsPage aopts db = Inr page \<and> page = take (nat (la_Limit aopts)) (attempts_latest aopts db)
        \<and> (page \<noteq> [] \<longrightarrow> ListAttemptsPage (attempts_after (last page) aopts) db
             = Inr (take (nat (la_Limit aopts)) (drop (nat (la_Limit aopts)) (attempts_latest aopts db)))))"
proof -
  have inv: "db_inv jsonb db" by (rule job_reaches_inv [OF jsonb reach empty_db_inv])
  have jnext: "JobStore_List (jobs_after (last page) jopts) db = Inr (take (nat (lo_Limit jopts)) (drop (nat (lo_Limit jopts)) (jobs_newest jopts db)))"
    if page: "page = take (nat (lo_Limit jopts)) (jobs_newest jopts db)" "page \<noteq> []" for page
  proof -
    have "last page \<in> set (db_jobs db)" using page last_taken [of "nat (lo_Limit jopts)"] jobs_newest_mem by blast
    then have "IsValidOpaqueID (jb_ID (last page))" "\<not> IsZero (jb_CreatedAt (last page))"
      using inv by (auto simp: db_inv_except_def jobs_ok_def job_row_ok_def Job_Validate_ok)
    then have "JobStore_List (jobs_after (last page) jopts) db = Inr (take (nat (lo_Limit jopts)) (jobs_newest (jobs_after (last page) jopts) db))"
      using JobStore_List_page [OF inv, of "jobs_after (last page) jopts"] jo by (simp add: jobs_after_def)
    then show ?thesis using jobs_newest_next [OF inv] page by simp
  qed
  have anext: "ListAttemptsPage (attempts_after (last page) aopts) db = Inr (take (nat (la_Limit aopts)) (drop (nat (la_Limit aopts)) (attempts_latest aopts db)))"
    if page: "page = take (nat (la_Limit aopts)) (attempts_latest aopts db)" "page \<noteq> []" for page
  proof -
    have "last page \<in> set (db_attempts db)" using page last_taken [of "nat (la_Limit aopts)"] attempts_latest_mem by blast
    then have "0 \<le> ja_Number (last page)"
      using inv by (fastforce simp: db_inv_except_def attempts_ok_def JobAttempt_Validate_ok)
    then have "ListAttemptsPage (attempts_after (last page) aopts) db = Inr (take (nat (la_Limit aopts)) (attempts_latest (attempts_after (last page) aopts) db))"
      using ListAttemptsPage_page [OF inv, of "attempts_after (last page) aopts"] ao by (simp add: attempts_after_def)
    then show ?thesis using attempts_latest_next [OF inv] page by simp
  qed
  show ?thesis using JobStore_List_page [OF inv jo] ListAttemptsPage_page [OF inv ao] jnext anext by blast
qed

theorem job_pages_continue_witness:
  "JobStore_List \<lparr>lo_Types = [JobTypeMailDeliver], lo_Statuses = [], lo_BeforeCreatedAt = zero_time, lo_BeforeID = '''', lo_Limit = 1\<rparr> sample_db
     = Inr [sample_job]"
  using job_pages_continue [OF sample_jsonb_doc sample_reached [of 0], of
      "\<lparr>lo_Types = [JobTypeMailDeliver], lo_Statuses = [], lo_BeforeCreatedAt = zero_time, lo_BeforeID = '''', lo_Limit = 1\<rparr>"
      "\<lparr>la_JobID = replicate 26 CHR ''a'', la_BeforeNumber = 0, la_Limit = 1\<rparr>"]
  by (simp add: jobs_newest_def listed_def sample_db_def sample_job_def)

end
