(* ===== verification/AcademicUnit.thy ===== *)
theory AcademicUnit
  imports Text Instants
begin

text \<open>
  \<^verbatim>\<open>server/model/academic_unit.go\<close>: one node of the institution's organisational tree.  A unit whose
  parent is the empty identifier is a root.  Unlike the methods of the examination aggregates,
  \<^verbatim>\<open>Update\<close> and \<^verbatim>\<open>Archive\<close> assign to the receiver before they validate it, so a refused call may leave a
  changed unit behind; the callers work on a copy and drop it.
\<close>

record AcademicUnit =
  au_ID :: string
  au_CreatedAt :: gtime
  au_UpdatedAt :: gtime
  au_ArchivedAt :: optional_time
  au_Revision :: int
  au_InstitutionID :: string
  au_ParentID :: string
  au_Name :: string
  au_DisplayName :: string
  au_Description :: string

definition AcademicUnit_IsArchived :: "AcademicUnit option \<Rightarrow> bool" where
  "AcademicUnit_IsArchived receiver = (case receiver of None \<Rightarrow> False | Some au \<Rightarrow> ot_Valid (au_ArchivedAt au))"

definition AcademicUnit_Validate :: "AcademicUnit option \<Rightarrow> go_error option" where
  "AcademicUnit_Validate receiver =
     (let whr = ''AcademicUnit.Validate''
      in case receiver of
           None \<Rightarrow> Some (invalidModelError whr ''academic_unit'' ''value'' ''is required'' '''')
         | Some au \<Rightarrow>
             if \<not> IsValidOpaqueID (au_ID au) then
               Some (invalidModelError whr ''academic_unit'' ''id'' ''must be a valid identifier'' '''')
             else
               let details = ''id='' @ au_ID au
               in if IsZero (au_CreatedAt au) then
                    Some (invalidModelError whr ''academic_unit'' ''created_at'' ''must be set'' details)
                  else if IsZero (au_UpdatedAt au) then
                    Some (invalidModelError whr ''academic_unit'' ''updated_at'' ''must be set'' details)
                  else if Before (au_UpdatedAt au) (au_CreatedAt au) then
                    Some (invalidModelError whr ''academic_unit'' ''updated_at'' ''must not precede created_at'' details)
                  else if \<not> IsValidOpaqueID (au_InstitutionID au) then
                    Some (invalidModelError whr ''academic_unit'' ''institution_id'' ''must be a valid identifier'' details)
                  else if au_ParentID au \<noteq> '''' \<and> \<not> IsValidOpaqueID (au_ParentID au) then
                    Some (invalidModelError whr ''academic_unit'' ''parent_id'' ''must be empty or a valid identifier'' details)
                  else if au_ParentID au \<noteq> '''' \<and> au_ParentID au = au_ID au then
                    Some (invalidModelError whr ''academic_unit'' ''parent_id'' ''must not reference the unit itself'' details)
                  else if au_Revision au < 0 then
                    Some (invalidModelError whr ''academic_unit'' ''revision'' ''must not be negative'' details)
                  else if ot_Valid (au_ArchivedAt au) \<and> Before (ot_Time (au_ArchivedAt au)) (au_CreatedAt au) then
                    Some (invalidModelError whr ''academic_unit'' ''archived_at'' ''must not precede created_at'' details)
                  else validateNamed whr ''academic_unit'' (au_ID au) (au_Name au) (au_DisplayName au) (au_Description au))"

text \<open>\<^verbatim>\<open>sanitizeNamed(&unit.Name, &unit.DisplayName, &unit.Description)\<close>\<close>

definition sanitizeNamed :: "AcademicUnit \<Rightarrow> AcademicUnit" where
  "sanitizeNamed au = au\<lparr>au_Name := SanitizeUnicode (au_Name au), au_DisplayName := SanitizeUnicode (au_DisplayName au),
     au_Description := SanitizeUnicode (au_Description au)\<rparr>"

definition NewAcademicUnit ::
    "string \<Rightarrow> string \<Rightarrow> string \<Rightarrow> string \<Rightarrow> string \<Rightarrow> string \<Rightarrow> gtime \<Rightarrow> go_error + AcademicUnit" where
  "NewAcademicUnit ident institutionID parentID name displayName description at' =
     (let at1 = TimeUTC at';
          unit = sanitizeNamed \<lparr>au_ID = ident, au_CreatedAt = at1, au_UpdatedAt = at1, au_ArchivedAt = no_time,
            au_Revision = 1, au_InstitutionID = institutionID, au_ParentID = parentID, au_Name = name,
            au_DisplayName = displayName, au_Description = description\<rparr>
      in case AcademicUnit_Validate (Some unit) of None \<Rightarrow> Inr unit | Some e \<Rightarrow> Inl e)"

definition AcademicUnit_PrepareCreate :: "AcademicUnit option \<Rightarrow> string \<Rightarrow> gtime \<Rightarrow> AcademicUnit option" where
  "AcademicUnit_PrepareCreate receiver ident at' = (case receiver of
       None \<Rightarrow> None
     | Some au \<Rightarrow> Some (sanitizeNamed (au\<lparr>au_ID := ident, au_CreatedAt := TimeUTC at', au_UpdatedAt := TimeUTC at',
         au_ArchivedAt := no_time, au_Revision := (if au_Revision au \<le> 0 then 1 else au_Revision au)\<rparr>)))"

definition AcademicUnit_PrepareUpdate :: "AcademicUnit option \<Rightarrow> gtime \<Rightarrow> AcademicUnit option" where
  "AcademicUnit_PrepareUpdate receiver at' = (case receiver of
       None \<Rightarrow> None
     | Some au \<Rightarrow> Some (sanitizeNamed (au\<lparr>au_UpdatedAt := TimeUTC at',
         au_Revision := inc64 (if au_Revision au \<le> 0 then 1 else au_Revision au)\<rparr>)))"

definition AcademicUnit_Update ::
    "AcademicUnit option \<Rightarrow> int \<Rightarrow> string \<Rightarrow> string \<Rightarrow> string \<Rightarrow> string \<Rightarrow> gtime \<Rightarrow> AcademicUnit option outcome" where
  "AcademicUnit_Update receiver expectedRevision parentID name displayName description at' =
     on_receiver receiver (invalidModelError ''AcademicUnit.Update'' ''academic_unit'' '''' ''academic unit is nil'' '''')
       (\<lambda>au.
         if AcademicUnit_IsArchived (Some au) then
           (au, Some (invalidModelError ''AcademicUnit.Update'' ''academic_unit'' '''' ''academic unit is archived'' ''''))
         else if expectedRevision \<noteq> 0 \<and> au_Revision au \<noteq> expectedRevision then
           (au, Some (invalidModelError ''AcademicUnit.Update'' ''academic_unit'' '''' ''academic unit revision conflict'' ''''))
         else if IsZero (TimeUTC at') then
           (au, Some (invalidModelError ''AcademicUnit.Update'' ''academic_unit'' '''' ''academic unit update time is required'' ''''))
         else
           let au1 = sanitizeNamed (au\<lparr>au_ParentID := parentID, au_Name := name, au_DisplayName := displayName,
                 au_Description := description, au_UpdatedAt := TimeUTC at',
                 au_Revision := (if expectedRevision \<noteq> 0 \<or> au_Revision au > 0 then inc64 (au_Revision au) else 1)\<rparr>)
           in (au1, AcademicUnit_Validate (Some au1)))"

definition AcademicUnit_Archive :: "AcademicUnit option \<Rightarrow> gtime \<Rightarrow> AcademicUnit option outcome" where
  "AcademicUnit_Archive receiver at' =
     on_receiver receiver (invalidModelError ''AcademicUnit.Archive'' ''academic_unit'' '''' ''academic unit is nil'' '''')
       (\<lambda>au.
         if IsZero (TimeUTC at') then
           (au, Some (invalidModelError ''AcademicUnit.Archive'' ''academic_unit'' '''' ''academic unit archive time is required'' ''''))
         else if AcademicUnit_IsArchived (Some au) then
           (au, Some (invalidModelError ''AcademicUnit.Archive'' ''academic_unit'' '''' ''academic unit is already archived'' ''''))
         else
           let au1 = au\<lparr>au_ArchivedAt := OptionalTimeFrom (TimeUTC at'), au_UpdatedAt := TimeUTC at',
                 au_Revision := inc64 (au_Revision au)\<rparr>
           in (au1, AcademicUnit_Validate (Some au1)))"

lemma AcademicUnit_Validate_ok:
  "AcademicUnit_Validate (Some au) = None \<longleftrightarrow> IsValidOpaqueID (au_ID au) \<and> \<not> IsZero (au_CreatedAt au)
     \<and> \<not> IsZero (au_UpdatedAt au) \<and> \<not> Before (au_UpdatedAt au) (au_CreatedAt au) \<and> IsValidOpaqueID (au_InstitutionID au)
     \<and> (au_ParentID au \<noteq> '''' \<longrightarrow> IsValidOpaqueID (au_ParentID au) \<and> au_ParentID au \<noteq> au_ID au) \<and> 0 \<le> au_Revision au
     \<and> (ot_Valid (au_ArchivedAt au) \<longrightarrow> \<not> Before (ot_Time (au_ArchivedAt au)) (au_CreatedAt au))
     \<and> validateNamed ''AcademicUnit.Validate'' ''academic_unit'' (au_ID au) (au_Name au) (au_DisplayName au) (au_Description au) = None"
  by (auto simp: AcademicUnit_Validate_def Let_def guard_ok)

end
