(* ===== verification/Authorization.thy ===== *)
theory Authorization
  imports Text Instants
begin

text \<open>
  The vocabulary of access control: actions, resources and the closed registry of actions
  (\<^verbatim>\<open>server/model/authorization.go\<close>), roles (\<^verbatim>\<open>role.go\<close>) and role bindings (\<^verbatim>\<open>role_binding.go\<close>).
  An action is a string, as a role's permission is; a permission that the registry does not know
  never authorizes anything.
\<close>

section \<open>Actions and resources\<close>

type_synonym Action = string

abbreviation ActionInstitutionManage :: Action where "ActionInstitutionManage \<equiv> ''institution.manage''"
abbreviation ActionRoleManage :: Action where "ActionRoleManage \<equiv> ''role.manage''"
abbreviation ActionAuditView :: Action where "ActionAuditView \<equiv> ''audit.view''"
abbreviation ActionAcademicAuditView :: Action where "ActionAcademicAuditView \<equiv> ''academic_audit.view''"
abbreviation ActionUserView :: Action where "ActionUserView \<equiv> ''user.view''"
abbreviation ActionUserManage :: Action where "ActionUserManage \<equiv> ''user.manage''"
abbreviation ActionUserProfilePictureManage :: Action where "ActionUserProfilePictureManage \<equiv> ''user.profile_picture.manage''"
abbreviation ActionSessionView :: Action where "ActionSessionView \<equiv> ''session.view''"
abbreviation ActionSessionManage :: Action where "ActionSessionManage \<equiv> ''session.manage''"
abbreviation ActionDesktopRegistrationRevoke :: Action where "ActionDesktopRegistrationRevoke \<equiv> ''desktop_registration.revoke''"
abbreviation ActionJobView :: Action where "ActionJobView \<equiv> ''job.view''"
abbreviation ActionJobManage :: Action where "ActionJobManage \<equiv> ''job.manage''"
abbreviation ActionMailView :: Action where "ActionMailView \<equiv> ''mail.view''"
abbreviation ActionMailManage :: Action where "ActionMailManage \<equiv> ''mail.manage''"
abbreviation ActionMailRekey :: Action where "ActionMailRekey \<equiv> ''mail.rekey''"
abbreviation ActionMFARekey :: Action where "ActionMFARekey \<equiv> ''mfa.rekey''"
abbreviation ActionExamCreate :: Action where "ActionExamCreate \<equiv> ''exam.create''"
abbreviation ActionExamCreateOverride :: Action where "ActionExamCreateOverride \<equiv> ''exam.create.override''"
abbreviation ActionExamView :: Action where "ActionExamView \<equiv> ''exam.view''"
abbreviation ActionExamViewOverride :: Action where "ActionExamViewOverride \<equiv> ''exam.view.override''"
abbreviation ActionExamManage :: Action where "ActionExamManage \<equiv> ''exam.manage''"
abbreviation ActionExamManageOverride :: Action where "ActionExamManageOverride \<equiv> ''exam.manage.override''"
abbreviation ActionExamPublish :: Action where "ActionExamPublish \<equiv> ''exam.publish''"
abbreviation ActionExamPublishOverride :: Action where "ActionExamPublishOverride \<equiv> ''exam.publish.override''"
abbreviation ActionExamSittingCreate :: Action where "ActionExamSittingCreate \<equiv> ''exam.sitting.create''"
abbreviation ActionExamSittingCreateOverride :: Action where "ActionExamSittingCreateOverride \<equiv> ''exam.sitting.create.override''"
abbreviation ActionExamSittingView :: Action where "ActionExamSittingView \<equiv> ''exam.sitting.view''"
abbreviation ActionExamSittingViewOverride :: Action where "ActionExamSittingViewOverride \<equiv> ''exam.sitting.view.override''"
abbreviation ActionExamSittingManage :: Action where "ActionExamSittingManage \<equiv> ''exam.sitting.manage''"
abbreviation ActionExamSittingManageOverride :: Action where "ActionExamSittingManageOverride \<equiv> ''exam.sitting.manage.override''"
abbreviation ActionExamSittingParticipate :: Action where "ActionExamSittingParticipate \<equiv> ''exam.sitting.participate''"
abbreviation ActionExamAttemptBrowserActivityView :: Action where "ActionExamAttemptBrowserActivityView \<equiv> ''exam.attempt.browser_activity.view''"
abbreviation ActionSubmissionView :: Action where "ActionSubmissionView \<equiv> ''submission.view''"
abbreviation ActionSubmissionViewOverride :: Action where "ActionSubmissionViewOverride \<equiv> ''submission.view.override''"
abbreviation ActionSubmissionReview :: Action where "ActionSubmissionReview \<equiv> ''submission.review''"
abbreviation ActionSubmissionReviewOverride :: Action where "ActionSubmissionReviewOverride \<equiv> ''submission.review.override''"
abbreviation ActionSubmissionRelease :: Action where "ActionSubmissionRelease \<equiv> ''submission.release''"
abbreviation ActionSubmissionReleaseOverride :: Action where "ActionSubmissionReleaseOverride \<equiv> ''submission.release.override''"
abbreviation ActionExamRecordsComplete :: Action where "ActionExamRecordsComplete \<equiv> ''exam.records.complete''"
abbreviation ActionExamRecordsCompleteOverride :: Action where "ActionExamRecordsCompleteOverride \<equiv> ''exam.records.complete.override''"
abbreviation ActionExamRecordsExport :: Action where "ActionExamRecordsExport \<equiv> ''exam.records.export''"
abbreviation ActionExamRecordsExportOverride :: Action where "ActionExamRecordsExportOverride \<equiv> ''exam.records.export.override''"
abbreviation ActionExamRecordsHold :: Action where "ActionExamRecordsHold \<equiv> ''exam.records.hold''"
abbreviation ActionExamRecordsHoldOverride :: Action where "ActionExamRecordsHoldOverride \<equiv> ''exam.records.hold.override''"
abbreviation ActionRetentionHoldRelease :: Action where "ActionRetentionHoldRelease \<equiv> ''retention_hold.release''"
abbreviation ActionAcademicUnitView :: Action where "ActionAcademicUnitView \<equiv> ''academic_unit.view''"
abbreviation ActionAcademicUnitManage :: Action where "ActionAcademicUnitManage \<equiv> ''academic_unit.manage''"
abbreviation ActionAcademicUnitMembersView :: Action where "ActionAcademicUnitMembersView \<equiv> ''academic_unit.members.view''"
abbreviation ActionAcademicUnitMembersManage :: Action where "ActionAcademicUnitMembersManage \<equiv> ''academic_unit.members.manage''"
abbreviation ActionAcademicPeriodView :: Action where "ActionAcademicPeriodView \<equiv> ''academic_period.view''"
abbreviation ActionAcademicPeriodManage :: Action where "ActionAcademicPeriodManage \<equiv> ''academic_period.manage''"
abbreviation ActionProgrammeView :: Action where "ActionProgrammeView \<equiv> ''programme.view''"
abbreviation ActionProgrammeManage :: Action where "ActionProgrammeManage \<equiv> ''programme.manage''"
abbreviation ActionProgrammeLevelView :: Action where "ActionProgrammeLevelView \<equiv> ''programme_level.view''"
abbreviation ActionProgrammeLevelManage :: Action where "ActionProgrammeLevelManage \<equiv> ''programme_level.manage''"
abbreviation ActionClassView :: Action where "ActionClassView \<equiv> ''class.view''"
abbreviation ActionClassManage :: Action where "ActionClassManage \<equiv> ''class.manage''"
abbreviation ActionClassMembersView :: Action where "ActionClassMembersView \<equiv> ''class.members.view''"
abbreviation ActionClassMembersManage :: Action where "ActionClassMembersManage \<equiv> ''class.members.manage''"
abbreviation ActionAcademicProgressionManage :: Action where "ActionAcademicProgressionManage \<equiv> ''academic.progression.manage''"
abbreviation ActionAccessPolicyView :: Action where "ActionAccessPolicyView \<equiv> ''access_policy.view''"
abbreviation ActionAccessPolicyManage :: Action where "ActionAccessPolicyManage \<equiv> ''access_policy.manage''"
abbreviation ActionDesktopCompatibilityPolicyManage :: Action where "ActionDesktopCompatibilityPolicyManage \<equiv> ''desktop_compatibility_policy.manage''"
abbreviation ActionRetentionPolicyView :: Action where "ActionRetentionPolicyView \<equiv> ''retention_policy.view''"
abbreviation ActionRetentionPolicyManage :: Action where "ActionRetentionPolicyManage \<equiv> ''retention_policy.manage''"
abbreviation ActionRetentionCleanupManage :: Action where "ActionRetentionCleanupManage \<equiv> ''retention_cleanup.manage''"
abbreviation ActionUserMFAReset :: Action where "ActionUserMFAReset \<equiv> ''user.mfa.reset''"
abbreviation ActionInvitationView :: Action where "ActionInvitationView \<equiv> ''invitation.view''"
abbreviation ActionInvitationCreate :: Action where "ActionInvitationCreate \<equiv> ''invitation.create''"
abbreviation ActionInvitationManage :: Action where "ActionInvitationManage \<equiv> ''invitation.manage''"
abbreviation ActionOnboardingBatchView :: Action where "ActionOnboardingBatchView \<equiv> ''onboarding_batch.view''"
abbreviation ActionOnboardingBatchManage :: Action where "ActionOnboardingBatchManage \<equiv> ''onboarding_batch.manage''"
abbreviation ActionExternalIdentityManage :: Action where "ActionExternalIdentityManage \<equiv> ''external_identity.manage''"
abbreviation ActionRoleView :: Action where "ActionRoleView \<equiv> ''role.view''"
abbreviation ActionRoleBindingView :: Action where "ActionRoleBindingView \<equiv> ''role_binding.view''"
abbreviation ActionRoleBindingManage :: Action where "ActionRoleBindingManage \<equiv> ''role_binding.manage''"

datatype ResourceType =
    ResourceInstitution
  | ResourceAcademicUnit
  | ResourceProgramme
  | ResourceProgrammeLevel
  | ResourceAcademicPeriod
  | ResourceClass
  | ResourceUser
  | ResourceExam
  | ResourceExamSitting
  | ResourceSubmission
  | ResourceMailDelivery
  | ResourceOther string

record Resource =
  re_Type :: ResourceType
  re_ID :: string

datatype RoleScopeType =
    RoleScopeInstitution
  | RoleScopeAcademicUnit
  | RoleScopeClass
  | RoleScopeOther string

record ActionDefinition =
  ad_Action :: Action
  ad_ResourceType :: ResourceType
  ad_CompatibleResourceTypes :: "ResourceType list"
  ad_InheritInstitutionScope :: bool
  ad_InheritAcademicUnitScopes :: bool
  ad_RelationshipOnly :: bool
  ad_PersonalAccessTokenForbidden :: bool
  ad_SystemAdministratorOnly :: bool
  ad_AcademicAudit :: bool

definition AcceptsResource :: "ActionDefinition \<Rightarrow> ResourceType \<Rightarrow> bool" where
  "AcceptsResource d resourceType \<longleftrightarrow>
     ad_ResourceType d = resourceType \<or> List.member (ad_CompatibleResourceTypes d) resourceType"

definition SupportsRoleScope :: "ActionDefinition \<Rightarrow> RoleScopeType \<Rightarrow> bool" where
  "SupportsRoleScope d scopeType = (case scopeType of
       RoleScopeInstitution \<Rightarrow> ad_InheritInstitutionScope d
     | RoleScopeAcademicUnit \<Rightarrow> ad_InheritAcademicUnitScopes d
     | RoleScopeClass \<Rightarrow> AcceptsResource d ResourceClass
     | RoleScopeOther _ \<Rightarrow> False)"

text \<open>A composite literal: the fields that are not named have their zero values.\<close>

definition action_def :: "Action \<Rightarrow> ResourceType \<Rightarrow> ActionDefinition" where
  "action_def action resourceType = \<lparr>ad_Action = action, ad_ResourceType = resourceType,
     ad_CompatibleResourceTypes = [], ad_InheritInstitutionScope = False, ad_InheritAcademicUnitScopes = False,
     ad_RelationshipOnly = False, ad_PersonalAccessTokenForbidden = False, ad_SystemAdministratorOnly = False,
     ad_AcademicAudit = False\<rparr>"

text \<open>The registry, in the order of the source.  Every entry is filed under the action it names.\<close>

definition institutionActions :: "ActionDefinition list" where
  "institutionActions =
    [(action_def ActionInstitutionManage ResourceInstitution)\<lparr>ad_InheritInstitutionScope := True\<rparr>,
     (action_def ActionRoleManage ResourceInstitution)\<lparr>ad_InheritInstitutionScope := True, ad_PersonalAccessTokenForbidden := True\<rparr>,
     (action_def ActionRoleView ResourceInstitution)\<lparr>ad_InheritInstitutionScope := True, ad_PersonalAccessTokenForbidden := True\<rparr>,
     (action_def ActionRoleBindingView ResourceInstitution)\<lparr>ad_CompatibleResourceTypes := [ResourceAcademicUnit, ResourceClass], ad_InheritInstitutionScope := True, ad_InheritAcademicUnitScopes := True, ad_PersonalAccessTokenForbidden := True, ad_AcademicAudit := True\<rparr>,
     (action_def ActionRoleBindingManage ResourceInstitution)\<lparr>ad_CompatibleResourceTypes := [ResourceAcademicUnit, ResourceClass], ad_InheritInstitutionScope := True, ad_InheritAcademicUnitScopes := True, ad_PersonalAccessTokenForbidden := True, ad_AcademicAudit := True\<rparr>,
     (action_def ActionAuditView ResourceInstitution)\<lparr>ad_InheritInstitutionScope := True\<rparr>,
     (action_def ActionAcademicAuditView ResourceAcademicUnit)\<lparr>ad_InheritInstitutionScope := True, ad_InheritAcademicUnitScopes := True, ad_AcademicAudit := True\<rparr>,
     (action_def ActionUserView ResourceUser)\<lparr>ad_InheritInstitutionScope := True, ad_InheritAcademicUnitScopes := True, ad_AcademicAudit := True\<rparr>,
     (action_def ActionUserManage ResourceUser)\<lparr>ad_InheritInstitutionScope := True\<rparr>,
     (action_def ActionUserProfilePictureManage ResourceUser)\<lparr>ad_InheritInstitutionScope := True\<rparr>,
     (action_def ActionSessionView ResourceUser)\<lparr>ad_InheritInstitutionScope := True\<rparr>,
     (action_def ActionSessionManage ResourceUser)\<lparr>ad_InheritInstitutionScope := True\<rparr>,
     (action_def ActionDesktopRegistrationRevoke ResourceUser)\<lparr>ad_RelationshipOnly := True, ad_PersonalAccessTokenForbidden := True\<rparr>,
     (action_def ActionJobView ResourceInstitution)\<lparr>ad_InheritInstitutionScope := True\<rparr>,
     (action_def ActionJobManage ResourceInstitution)\<lparr>ad_InheritInstitutionScope := True\<rparr>,
     (action_def ActionMailView ResourceInstitution)\<lparr>ad_InheritInstitutionScope := True\<rparr>,
     (action_def ActionMailManage ResourceInstitution)\<lparr>ad_InheritInstitutionScope := True\<rparr>,
     (action_def ActionMailRekey ResourceInstitution)\<lparr>ad_InheritInstitutionScope := True, ad_PersonalAccessTokenForbidden := True\<rparr>,
     (action_def ActionMFARekey ResourceInstitution)\<lparr>ad_InheritInstitutionScope := True, ad_PersonalAccessTokenForbidden := True\<rparr>]"

definition examActions :: "ActionDefinition list" where
  "examActions =
    [(action_def ActionExamCreate ResourceAcademicUnit)\<lparr>ad_InheritInstitutionScope := True, ad_InheritAcademicUnitScopes := True\<rparr>,
     (action_def ActionExamCreateOverride ResourceAcademicUnit)\<lparr>ad_InheritInstitutionScope := True, ad_InheritAcademicUnitScopes := True\<rparr>,
     (action_def ActionExamView ResourceExam)\<lparr>ad_InheritInstitutionScope := True, ad_InheritAcademicUnitScopes := True\<rparr>,
     (action_def ActionExamViewOverride ResourceExam)\<lparr>ad_InheritInstitutionScope := True, ad_InheritAcademicUnitScopes := True\<rparr>,
     (action_def ActionExamManage ResourceExam)\<lparr>ad_InheritInstitutionScope := True, ad_InheritAcademicUnitScopes := True\<rparr>,
     (action_def ActionExamManageOverride ResourceExam)\<lparr>ad_InheritInstitutionScope := True, ad_InheritAcademicUnitScopes := True\<rparr>,
     (action_def ActionExamPublish ResourceExam)\<lparr>ad_InheritInstitutionScope := True, ad_InheritAcademicUnitScopes := True\<rparr>,
     (action_def ActionExamPublishOverride ResourceExam)\<lparr>ad_InheritInstitutionScope := True, ad_InheritAcademicUnitScopes := True\<rparr>,
     (action_def ActionExamSittingCreate ResourceExam)\<lparr>ad_InheritInstitutionScope := True, ad_InheritAcademicUnitScopes := True\<rparr>,
     (action_def ActionExamSittingCreateOverride ResourceExam)\<lparr>ad_InheritInstitutionScope := True, ad_InheritAcademicUnitScopes := True\<rparr>,
     (action_def ActionExamSittingView ResourceExamSitting)\<lparr>ad_InheritInstitutionScope := True, ad_InheritAcademicUnitScopes := True\<rparr>,
     (action_def ActionExamSittingViewOverride ResourceExamSitting)\<lparr>ad_InheritInstitutionScope := True, ad_InheritAcademicUnitScopes := True\<rparr>,
     (action_def ActionExamSittingManage ResourceExamSitting)\<lparr>ad_InheritInstitutionScope := True, ad_InheritAcademicUnitScopes := True\<rparr>,
     (action_def ActionExamSittingManageOverride ResourceExamSitting)\<lparr>ad_InheritInstitutionScope := True, ad_InheritAcademicUnitScopes := True\<rparr>,
     (action_def ActionExamSittingParticipate ResourceExamSitting)\<lparr>ad_RelationshipOnly := True\<rparr>,
     (action_def ActionExamAttemptBrowserActivityView ResourceExamSitting)\<lparr>ad_InheritInstitutionScope := True, ad_InheritAcademicUnitScopes := True\<rparr>,
     (action_def ActionSubmissionView ResourceSubmission)\<lparr>ad_InheritInstitutionScope := True, ad_InheritAcademicUnitScopes := True\<rparr>,
     (action_def ActionSubmissionViewOverride ResourceSubmission)\<lparr>ad_InheritInstitutionScope := True, ad_InheritAcademicUnitScopes := True\<rparr>,
     (action_def ActionSubmissionReview ResourceSubmission)\<lparr>ad_InheritInstitutionScope := True, ad_InheritAcademicUnitScopes := True\<rparr>,
     (action_def ActionSubmissionReviewOverride ResourceSubmission)\<lparr>ad_InheritInstitutionScope := True, ad_InheritAcademicUnitScopes := True\<rparr>,
     (action_def ActionSubmissionRelease ResourceSubmission)\<lparr>ad_InheritInstitutionScope := True, ad_InheritAcademicUnitScopes := True\<rparr>,
     (action_def ActionSubmissionReleaseOverride ResourceSubmission)\<lparr>ad_InheritInstitutionScope := True, ad_InheritAcademicUnitScopes := True\<rparr>,
     (action_def ActionExamRecordsComplete ResourceExam)\<lparr>ad_CompatibleResourceTypes := [ResourceExamSitting, ResourceSubmission], ad_InheritInstitutionScope := True, ad_InheritAcademicUnitScopes := True, ad_PersonalAccessTokenForbidden := True\<rparr>,
     (action_def ActionExamRecordsCompleteOverride ResourceExam)\<lparr>ad_CompatibleResourceTypes := [ResourceExamSitting, ResourceSubmission], ad_InheritInstitutionScope := True, ad_InheritAcademicUnitScopes := True, ad_PersonalAccessTokenForbidden := True\<rparr>,
     (action_def ActionExamRecordsExport ResourceExam)\<lparr>ad_CompatibleResourceTypes := [ResourceExamSitting, ResourceSubmission], ad_InheritInstitutionScope := True, ad_InheritAcademicUnitScopes := True, ad_PersonalAccessTokenForbidden := True\<rparr>,
     (action_def ActionExamRecordsExportOverride ResourceExam)\<lparr>ad_CompatibleResourceTypes := [ResourceExamSitting, ResourceSubmission], ad_InheritInstitutionScope := True, ad_InheritAcademicUnitScopes := True, ad_PersonalAccessTokenForbidden := True\<rparr>,
     (action_def ActionExamRecordsHold ResourceExam)\<lparr>ad_CompatibleResourceTypes := [ResourceExamSitting, ResourceSubmission], ad_InheritInstitutionScope := True, ad_InheritAcademicUnitScopes := True, ad_PersonalAccessTokenForbidden := True\<rparr>,
     (action_def ActionExamRecordsHoldOverride ResourceExam)\<lparr>ad_CompatibleResourceTypes := [ResourceExamSitting, ResourceSubmission], ad_InheritInstitutionScope := True, ad_InheritAcademicUnitScopes := True, ad_PersonalAccessTokenForbidden := True\<rparr>,
     (action_def ActionRetentionHoldRelease ResourceExam)\<lparr>ad_CompatibleResourceTypes := [ResourceExamSitting, ResourceSubmission], ad_InheritInstitutionScope := True, ad_InheritAcademicUnitScopes := True, ad_PersonalAccessTokenForbidden := True, ad_SystemAdministratorOnly := True\<rparr>]"

definition academicActions :: "ActionDefinition list" where
  "academicActions =
    [(action_def ActionAcademicUnitView ResourceAcademicUnit)\<lparr>ad_CompatibleResourceTypes := [ResourceInstitution], ad_InheritInstitutionScope := True, ad_InheritAcademicUnitScopes := True, ad_AcademicAudit := True\<rparr>,
     (action_def ActionAcademicUnitManage ResourceAcademicUnit)\<lparr>ad_CompatibleResourceTypes := [ResourceInstitution], ad_InheritInstitutionScope := True, ad_InheritAcademicUnitScopes := True, ad_AcademicAudit := True\<rparr>,
     (action_def ActionAcademicUnitMembersView ResourceAcademicUnit)\<lparr>ad_InheritInstitutionScope := True, ad_InheritAcademicUnitScopes := True, ad_AcademicAudit := True\<rparr>,
     (action_def ActionAcademicUnitMembersManage ResourceAcademicUnit)\<lparr>ad_InheritInstitutionScope := True, ad_InheritAcademicUnitScopes := True, ad_AcademicAudit := True\<rparr>,
     (action_def ActionAcademicPeriodView ResourceAcademicPeriod)\<lparr>ad_InheritInstitutionScope := True, ad_InheritAcademicUnitScopes := True, ad_AcademicAudit := True\<rparr>,
     (action_def ActionAcademicPeriodManage ResourceAcademicPeriod)\<lparr>ad_InheritInstitutionScope := True, ad_InheritAcademicUnitScopes := True, ad_AcademicAudit := True\<rparr>,
     (action_def ActionProgrammeView ResourceProgramme)\<lparr>ad_CompatibleResourceTypes := [ResourceAcademicUnit], ad_InheritInstitutionScope := True, ad_InheritAcademicUnitScopes := True, ad_AcademicAudit := True\<rparr>,
     (action_def ActionProgrammeManage ResourceProgramme)\<lparr>ad_CompatibleResourceTypes := [ResourceAcademicUnit], ad_InheritInstitutionScope := True, ad_InheritAcademicUnitScopes := True, ad_AcademicAudit := True\<rparr>,
     (action_def ActionProgrammeLevelView ResourceProgrammeLevel)\<lparr>ad_CompatibleResourceTypes := [ResourceProgramme], ad_InheritInstitutionScope := True, ad_InheritAcademicUnitScopes := True, ad_AcademicAudit := True\<rparr>,
     (action_def ActionProgrammeLevelManage ResourceProgrammeLevel)\<lparr>ad_CompatibleResourceTypes := [ResourceProgramme], ad_InheritInstitutionScope := True, ad_InheritAcademicUnitScopes := True, ad_AcademicAudit := True\<rparr>,
     (action_def ActionClassView ResourceClass)\<lparr>ad_CompatibleResourceTypes := [ResourceProgrammeLevel, ResourceAcademicUnit], ad_InheritInstitutionScope := True, ad_InheritAcademicUnitScopes := True, ad_AcademicAudit := True\<rparr>,
     (action_def ActionClassManage ResourceClass)\<lparr>ad_CompatibleResourceTypes := [ResourceProgrammeLevel], ad_InheritInstitutionScope := True, ad_InheritAcademicUnitScopes := True, ad_AcademicAudit := True\<rparr>,
     (action_def ActionClassMembersView ResourceClass)\<lparr>ad_InheritInstitutionScope := True, ad_InheritAcademicUnitScopes := True, ad_AcademicAudit := True\<rparr>,
     (action_def ActionClassMembersManage ResourceClass)\<lparr>ad_InheritInstitutionScope := True, ad_InheritAcademicUnitScopes := True, ad_AcademicAudit := True\<rparr>,
     (action_def ActionAcademicProgressionManage ResourceClass)\<lparr>ad_InheritInstitutionScope := True, ad_InheritAcademicUnitScopes := True, ad_AcademicAudit := True\<rparr>]"

definition policyActions :: "ActionDefinition list" where
  "policyActions =
    [(action_def ActionAccessPolicyView ResourceInstitution)\<lparr>ad_InheritInstitutionScope := True, ad_PersonalAccessTokenForbidden := True\<rparr>,
     (action_def ActionAccessPolicyManage ResourceInstitution)\<lparr>ad_InheritInstitutionScope := True, ad_PersonalAccessTokenForbidden := True\<rparr>,
     (action_def ActionRetentionPolicyView ResourceInstitution)\<lparr>ad_InheritInstitutionScope := True, ad_PersonalAccessTokenForbidden := True\<rparr>,
     (action_def ActionRetentionPolicyManage ResourceInstitution)\<lparr>ad_InheritInstitutionScope := True, ad_PersonalAccessTokenForbidden := True, ad_SystemAdministratorOnly := True\<rparr>,
     (action_def ActionRetentionCleanupManage ResourceInstitution)\<lparr>ad_InheritInstitutionScope := True, ad_PersonalAccessTokenForbidden := True, ad_SystemAdministratorOnly := True\<rparr>,
     (action_def ActionUserMFAReset ResourceUser)\<lparr>ad_InheritInstitutionScope := True, ad_PersonalAccessTokenForbidden := True, ad_SystemAdministratorOnly := True\<rparr>,
     (action_def ActionDesktopCompatibilityPolicyManage ResourceInstitution)\<lparr>ad_InheritInstitutionScope := True, ad_PersonalAccessTokenForbidden := True, ad_SystemAdministratorOnly := True\<rparr>,
     (action_def ActionInvitationView ResourceInstitution)\<lparr>ad_CompatibleResourceTypes := [ResourceAcademicUnit, ResourceClass], ad_InheritInstitutionScope := True, ad_InheritAcademicUnitScopes := True, ad_AcademicAudit := True\<rparr>,
     (action_def ActionInvitationCreate ResourceInstitution)\<lparr>ad_CompatibleResourceTypes := [ResourceAcademicUnit, ResourceClass], ad_InheritInstitutionScope := True, ad_InheritAcademicUnitScopes := True, ad_AcademicAudit := True\<rparr>,
     (action_def ActionInvitationManage ResourceInstitution)\<lparr>ad_CompatibleResourceTypes := [ResourceAcademicUnit, ResourceClass], ad_InheritInstitutionScope := True, ad_InheritAcademicUnitScopes := True, ad_AcademicAudit := True\<rparr>,
     (action_def ActionOnboardingBatchView ResourceInstitution)\<lparr>ad_CompatibleResourceTypes := [ResourceAcademicUnit, ResourceClass], ad_InheritInstitutionScope := True, ad_InheritAcademicUnitScopes := True, ad_AcademicAudit := True\<rparr>,
     (action_def ActionOnboardingBatchManage ResourceInstitution)\<lparr>ad_CompatibleResourceTypes := [ResourceAcademicUnit, ResourceClass], ad_InheritInstitutionScope := True, ad_InheritAcademicUnitScopes := True, ad_AcademicAudit := True\<rparr>,
     (action_def ActionExternalIdentityManage ResourceUser)\<lparr>ad_InheritInstitutionScope := True, ad_PersonalAccessTokenForbidden := True\<rparr>]"

definition actionDefinitions :: "ActionDefinition list" where
  "actionDefinitions = institutionActions @ examActions @ academicActions @ policyActions"

definition DefinitionForAction :: "Action \<Rightarrow> ActionDefinition option" where
  "DefinitionForAction action = find (\<lambda>d. ad_Action d = action) actionDefinitions"

text \<open>The iteration over the Go map is in no particular order; the sort makes the result unique.\<close>

definition AllActions :: "string list" where
  "AllActions = sort (map ad_Action (filter (\<lambda>d. \<not> ad_RelationshipOnly d) actionDefinitions))"

definition IsSystemAdministratorAction :: "string \<Rightarrow> bool" where
  "IsSystemAdministratorAction action = (case DefinitionForAction action of
       None \<Rightarrow> False | Some d \<Rightarrow> \<not> ad_RelationshipOnly d)"

definition IsKnownAction :: "string \<Rightarrow> bool" where
  "IsKnownAction action \<longleftrightarrow> DefinitionForAction action \<noteq> None"

definition IsGrantableAction :: "string \<Rightarrow> bool" where
  "IsGrantableAction action = (case DefinitionForAction action of
       None \<Rightarrow> False | Some d \<Rightarrow> \<not> ad_RelationshipOnly d \<and> \<not> ad_SystemAdministratorOnly d)"

definition IsPersonalAccessTokenAction :: "string \<Rightarrow> bool" where
  "IsPersonalAccessTokenAction action = (case DefinitionForAction action of
       None \<Rightarrow> False
     | Some d \<Rightarrow> \<not> ad_RelationshipOnly d \<and> \<not> ad_SystemAdministratorOnly d \<and> \<not> ad_PersonalAccessTokenForbidden d)"

definition Resource_Validate :: "Resource \<Rightarrow> go_error option" where
  "Resource_Validate r =
     (if \<not> IsValidOpaqueID (re_ID r) then
        Some (invalidModelError ''Resource.Validate'' ''resource'' ''id'' ''must be a valid identifier'' '''')
      else case re_Type r of
        ResourceOther _ \<Rightarrow>
          Some (invalidModelError ''Resource.Validate'' ''resource'' ''type'' ''has an unknown value'' (''id='' @ re_ID r))
      | _ \<Rightarrow> None)"

section \<open>Roles\<close>

definition RolePermissionMaxLength :: nat where "RolePermissionMaxLength = 128"
definition RolePermissionMaxCount :: nat where "RolePermissionMaxCount = 256"
definition SystemAdministratorRoleName :: string where "SystemAdministratorRoleName = ''system_admin''"

text \<open>\<^verbatim>\<open>^[a-z][a-z0-9_]*(?:\.[a-z][a-z0-9_]*)+$\<close>: at least two words joined by dots.\<close>

definition permission_word :: "string \<Rightarrow> bool" where
  "permission_word w = (case w of [] \<Rightarrow> False
     | c # cs \<Rightarrow> CHR ''a'' \<le> c \<and> c \<le> CHR ''z'' \<and> list_all (\<lambda>d. lower_alnum d \<or> d = CHR ''_'') cs)"

definition validPermission :: "string \<Rightarrow> bool" where
  "validPermission s = (let ws = strings_Split CHR ''.'' s in length ws \<ge> 2 \<and> list_all permission_word ws)"

record Role =
  ro_ID :: string
  ro_CreatedAt :: gtime
  ro_UpdatedAt :: gtime
  ro_ArchivedAt :: optional_time
  ro_Name :: string
  ro_DisplayName :: string
  ro_Description :: string
  ro_Permissions :: "string list"
  ro_BuiltIn :: bool

record RolePatch =
  rp_DisplayName :: "string option"
  rp_Description :: "string option"
  rp_Permissions :: "string list option"

definition Role_Patch :: "Role option \<Rightarrow> RolePatch option \<Rightarrow> Role option" where
  "Role_Patch receiver patch = (case (receiver, patch) of
       (Some r, Some p) \<Rightarrow> Some (r\<lparr>
         ro_DisplayName := (case rp_DisplayName p of None \<Rightarrow> ro_DisplayName r | Some v \<Rightarrow> v),
         ro_Description := (case rp_Description p of None \<Rightarrow> ro_Description r | Some v \<Rightarrow> v),
         ro_Permissions := (case rp_Permissions p of None \<Rightarrow> ro_Permissions r | Some v \<Rightarrow> v)\<rparr>)
     | _ \<Rightarrow> receiver)"

definition RolePatch_IsEmpty :: "RolePatch option \<Rightarrow> bool" where
  "RolePatch_IsEmpty patch = (case patch of None \<Rightarrow> True
     | Some p \<Rightarrow> rp_DisplayName p = None \<and> rp_Description p = None \<and> rp_Permissions p = None)"

definition sanitizeRole :: "Role \<Rightarrow> Role" where
  "sanitizeRole r = r\<lparr>ro_Name := SanitizeUnicode (ro_Name r), ro_DisplayName := SanitizeUnicode (ro_DisplayName r),
     ro_Description := SanitizeUnicode (ro_Description r)\<rparr>"

definition Role_PrepareCreate :: "Role option \<Rightarrow> string \<Rightarrow> gtime \<Rightarrow> Role option" where
  "Role_PrepareCreate receiver ident at' = map_option (\<lambda>r. sanitizeRole (r\<lparr>ro_ID := ident,
     ro_CreatedAt := TimeUTC at', ro_UpdatedAt := TimeUTC at', ro_ArchivedAt := no_time\<rparr>)) receiver"

definition Role_PrepareUpdate :: "Role option \<Rightarrow> gtime \<Rightarrow> Role option" where
  "Role_PrepareUpdate receiver at' = map_option (\<lambda>r. sanitizeRole (r\<lparr>ro_UpdatedAt := TimeUTC at'\<rparr>)) receiver"

definition Role_IsArchived :: "Role option \<Rightarrow> bool" where
  "Role_IsArchived receiver = (case receiver of None \<Rightarrow> False | Some r \<Rightarrow> ot_Valid (ro_ArchivedAt r))"

fun permissions_error :: "string list \<Rightarrow> string list \<Rightarrow> string option" where
  "permissions_error seen [] = None"
| "permissions_error seen (p # ps) =
     (if length p > RolePermissionMaxLength \<or> \<not> validPermission p then Some ''contains an invalid action''
      else if List.member seen p then Some ''contains a duplicate action''
      else permissions_error (p # seen) ps)"

definition Role_Validate :: "Role option \<Rightarrow> go_error option" where
  "Role_Validate receiver =
     (let whr = ''Role.Validate''
      in case receiver of
           None \<Rightarrow> Some (invalidModelError whr ''role'' ''value'' ''is required'' '''')
         | Some r \<Rightarrow>
             if \<not> IsValidOpaqueID (ro_ID r) then
               Some (invalidModelError whr ''role'' ''id'' ''must be a valid identifier'' '''')
             else
               let details = ''id='' @ ro_ID r
               in if IsZero (ro_CreatedAt r) \<or> IsZero (ro_UpdatedAt r) then
                    Some (invalidModelError whr ''role'' ''created_at'' ''must be set'' details)
                  else if Before (ro_UpdatedAt r) (ro_CreatedAt r) then
                    Some (invalidModelError whr ''role'' ''updated_at'' ''must not precede created_at'' details)
                  else if ot_Valid (ro_ArchivedAt r) \<and> Before (ot_Time (ro_ArchivedAt r)) (ro_CreatedAt r) then
                    Some (invalidModelError whr ''role'' ''archived_at'' ''must not precede created_at'' details)
                  else (case validateNamed whr ''role'' (ro_ID r) (ro_Name r) (ro_DisplayName r) (ro_Description r) of
                      Some e \<Rightarrow> Some e
                    | None \<Rightarrow>
                        if length (ro_Permissions r) > RolePermissionMaxCount then
                          Some (invalidModelError whr ''role'' ''permissions'' ''contains too many values'' details)
                        else (case permissions_error [] (ro_Permissions r) of
                            Some reason \<Rightarrow> Some (invalidModelError whr ''role'' ''permissions'' reason details)
                          | None \<Rightarrow> None)))"

definition Role_Archive :: "Role option \<Rightarrow> gtime \<Rightarrow> Role option outcome" where
  "Role_Archive receiver at' =
     on_receiver receiver (invalidModelError ''Role.Archive'' ''role'' '''' ''role is nil'' '''')
       (\<lambda>r.
         if IsZero (TimeUTC at') then
           (r, Some (invalidModelError ''Role.Archive'' ''role'' '''' ''role archive time is required'' ''''))
         else if Role_IsArchived (Some r) then
           (r, Some (invalidModelError ''Role.Archive'' ''role'' '''' ''role is already archived'' ''''))
         else if ro_BuiltIn r then
           (r, Some (invalidModelError ''Role.Archive'' ''role'' '''' ''built-in role cannot be archived'' ''''))
         else
           let r1 = r\<lparr>ro_ArchivedAt := OptionalTimeFrom (TimeUTC at'), ro_UpdatedAt := TimeUTC at'\<rparr>
           in (r1, Role_Validate (Some r1)))"

section \<open>Role bindings\<close>

record RoleBinding =
  rb_ID :: string
  rb_CreatedAt :: gtime
  rb_UpdatedAt :: gtime
  rb_ArchivedAt :: optional_time
  rb_UserID :: string
  rb_RoleID :: string
  rb_OriginInvitationID :: string
  rb_OriginAcademicUnitMemberID :: string
  rb_ScopeType :: RoleScopeType
  rb_ScopeID :: string
  rb_StartsAt :: gtime
  rb_EndsAt :: optional_time

definition RoleScopeType_IsValid :: "RoleScopeType \<Rightarrow> bool" where
  "RoleScopeType_IsValid st = (case st of RoleScopeOther _ \<Rightarrow> False | _ \<Rightarrow> True)"

definition validateEffectiveInterval ::
    "string \<Rightarrow> string \<Rightarrow> string \<Rightarrow> gtime \<Rightarrow> optional_time \<Rightarrow> go_error option" where
  "validateEffectiveInterval whr modelName details startsAt endsAt =
     (if IsZero startsAt then Some (invalidModelError whr modelName ''start_at'' ''must be set'' details)
      else if ot_Valid endsAt \<and> \<not> After (ot_Time endsAt) startsAt then
        Some (invalidModelError whr modelName ''end_at'' ''must be after start_at'' details)
      else None)"

definition RoleBinding_PrepareCreate :: "RoleBinding option \<Rightarrow> string \<Rightarrow> gtime \<Rightarrow> RoleBinding option" where
  "RoleBinding_PrepareCreate receiver ident at' = map_option (\<lambda>rb. rb\<lparr>rb_ID := ident,
     rb_CreatedAt := TimeUTC at', rb_UpdatedAt := TimeUTC at', rb_ArchivedAt := no_time,
     rb_StartsAt := (if IsZero (rb_StartsAt rb) then TimeUTC at' else TimeUTC (rb_StartsAt rb))\<rparr>) receiver"

definition RoleBinding_PrepareUpdate :: "RoleBinding option \<Rightarrow> gtime \<Rightarrow> RoleBinding option" where
  "RoleBinding_PrepareUpdate receiver at' = map_option (\<lambda>rb. rb\<lparr>rb_UpdatedAt := TimeUTC at'\<rparr>) receiver"

definition RoleBinding_Validate :: "RoleBinding option \<Rightarrow> go_error option" where
  "RoleBinding_Validate receiver =
     (let whr = ''RoleBinding.Validate''
      in case receiver of
           None \<Rightarrow> Some (invalidModelError whr ''role_binding'' ''value'' ''is required'' '''')
         | Some rb \<Rightarrow>
             if \<not> IsValidOpaqueID (rb_ID rb) then
               Some (invalidModelError whr ''role_binding'' ''id'' ''must be a valid identifier'' '''')
             else
               let details = ''id='' @ rb_ID rb
               in if IsZero (rb_CreatedAt rb) \<or> IsZero (rb_UpdatedAt rb) then
                    Some (invalidModelError whr ''role_binding'' ''created_at'' ''must be set'' details)
                  else if Before (rb_UpdatedAt rb) (rb_CreatedAt rb) then
                    Some (invalidModelError whr ''role_binding'' ''updated_at'' ''must not precede created_at'' details)
                  else if ot_Valid (rb_ArchivedAt rb) \<and> Before (ot_Time (rb_ArchivedAt rb)) (rb_CreatedAt rb) then
                    Some (invalidModelError whr ''role_binding'' ''archived_at'' ''must not precede created_at'' details)
                  else if \<not> IsValidOpaqueID (rb_UserID rb) then
                    Some (invalidModelError whr ''role_binding'' ''user_id'' ''must be a valid identifier'' details)
                  else if \<not> IsValidOpaqueID (rb_RoleID rb) then
                    Some (invalidModelError whr ''role_binding'' ''role_id'' ''must be a valid identifier'' details)
                  else if rb_OriginInvitationID rb \<noteq> '''' \<and> \<not> IsValidOpaqueID (rb_OriginInvitationID rb) then
                    Some (invalidModelError whr ''role_binding'' ''origin_invitation_id''
                      ''must be empty or a valid identifier'' details)
                  else if IsValidOpaqueID (rb_OriginAcademicUnitMemberID rb)
                      \<and> (\<not> IsValidOpaqueID (rb_OriginInvitationID rb) \<or> rb_ScopeType rb \<noteq> RoleScopeAcademicUnit) then
                    Some (invalidModelError whr ''role_binding'' ''origin_package''
                      ''membership provenance requires one complete Academic Unit Invitation package'' details)
                  else if IsValidOpaqueID (rb_OriginInvitationID rb) \<and> rb_ScopeType rb \<noteq> RoleScopeAcademicUnit
                      \<and> rb_ScopeType rb \<noteq> RoleScopeInstitution then
                    Some (invalidModelError whr ''role_binding'' ''origin_package''
                      ''Invitation provenance requires an Academic Unit or Institution scope'' details)
                  else if \<not> RoleScopeType_IsValid (rb_ScopeType rb) then
                    Some (invalidModelError whr ''role_binding'' ''scope_type'' ''has an unknown value'' details)
                  else if \<not> IsValidOpaqueID (rb_ScopeID rb) then
                    Some (invalidModelError whr ''role_binding'' ''scope_id'' ''must be a valid identifier'' details)
                  else validateEffectiveInterval whr ''role_binding'' details (rb_StartsAt rb) (rb_EndsAt rb))"

definition RoleBinding_IsArchived :: "RoleBinding option \<Rightarrow> bool" where
  "RoleBinding_IsArchived receiver = (case receiver of None \<Rightarrow> False | Some rb \<Rightarrow> ot_Valid (rb_ArchivedAt rb))"

definition IsActiveAt :: "RoleBinding option \<Rightarrow> gtime \<Rightarrow> bool" where
  "IsActiveAt receiver now = (case receiver of
       None \<Rightarrow> False
     | Some rb \<Rightarrow>
         if RoleBinding_IsArchived (Some rb) then False
         else if After (rb_StartsAt rb) (TimeUTC now) then False
         else if ot_Valid (rb_EndsAt rb) \<and> \<not> Before (TimeUTC now) (ot_Time (rb_EndsAt rb)) then False
         else True)"

definition RoleBinding_End :: "RoleBinding option \<Rightarrow> gtime \<Rightarrow> RoleBinding option outcome" where
  "RoleBinding_End receiver at' =
     on_receiver receiver (invalidModelError ''RoleBinding.End'' ''role_binding'' '''' ''role binding is nil'' '''')
       (\<lambda>rb.
         if ot_Valid (rb_EndsAt rb) then
           (rb, Some (invalidModelError ''RoleBinding.End'' ''role_binding'' '''' ''role binding already ended'' ''''))
         else
           let rb1 = rb\<lparr>rb_EndsAt := OptionalTimeFrom (TimeUTC at'), rb_UpdatedAt := TimeUTC at'\<rparr>
           in (rb1, RoleBinding_Validate (Some rb1)))"

section \<open>The registry is well formed\<close>

lemma permissions_error_None:
  "permissions_error seen ps = None \<longleftrightarrow>
     (\<forall>p \<in> set ps. length p \<le> RolePermissionMaxLength \<and> validPermission p) \<and> distinct ps \<and> set seen \<inter> set ps = {}"
  by (induction ps arbitrary: seen) (auto simp: List.member_iff)

lemmas registry_defs = actionDefinitions_def institutionActions_def examActions_def academicActions_def policyActions_def
  action_def_def

lemma registry_distinct: "distinct (map ad_Action actionDefinitions)"
  by code_simp

lemma registry_permissions:
  "list_all (\<lambda>d. length (ad_Action d) \<le> RolePermissionMaxLength \<and> validPermission (ad_Action d)) actionDefinitions"
  by code_simp

lemma registry_scopes:
  "list_all (\<lambda>d. (ad_RelationshipOnly d \<longleftrightarrow> \<not> ad_InheritInstitutionScope d)
      \<and> (ad_InheritAcademicUnitScopes d \<longrightarrow> ad_InheritInstitutionScope d)
      \<and> (AcceptsResource d ResourceClass \<longrightarrow> ad_InheritAcademicUnitScopes d)) actionDefinitions"
  by (simp add: registry_defs AcceptsResource_def List.member_iff)

lemma registry_size: "length actionDefinitions = 76"
  by (simp add: registry_defs)

lemma DefinitionForAction_iff:
  "DefinitionForAction a = Some d \<longleftrightarrow> d \<in> set actionDefinitions \<and> ad_Action d = a"
proof
  assume "DefinitionForAction a = Some d"
  then show "d \<in> set actionDefinitions \<and> ad_Action d = a" by (auto simp: DefinitionForAction_def find_Some_iff)
next
  assume d: "d \<in> set actionDefinitions \<and> ad_Action d = a"
  then obtain e where e: "DefinitionForAction a = Some e"
    by (cases "DefinitionForAction a") (auto simp: DefinitionForAction_def find_None_iff)
  then have "e \<in> set actionDefinitions" "ad_Action e = ad_Action d" using d by (auto simp: DefinitionForAction_def find_Some_iff)
  then have "e = d" using d registry_distinct by (metis distinct_map inj_onD)
  with e show "DefinitionForAction a = Some d" by simp
qed

lemma AllActions_mem: "a \<in> set AllActions \<longleftrightarrow> IsSystemAdministratorAction a"
proof
  assume "a \<in> set AllActions"
  then obtain d where "d \<in> set actionDefinitions" "ad_Action d = a" "\<not> ad_RelationshipOnly d" by (auto simp: AllActions_def)
  then have "DefinitionForAction a = Some d" "\<not> ad_RelationshipOnly d" by (simp_all add: DefinitionForAction_iff)
  then show "IsSystemAdministratorAction a" by (simp add: IsSystemAdministratorAction_def)
next
  assume "IsSystemAdministratorAction a"
  then obtain d where "DefinitionForAction a = Some d" "\<not> ad_RelationshipOnly d"
    by (auto simp: IsSystemAdministratorAction_def split: option.splits)
  then show "a \<in> set AllActions" by (auto simp: AllActions_def DefinitionForAction_iff)
qed

text \<open>C14. The registry is well formed.  Every action is filed once; the permissions of the built-in
  administrator role are exactly the actions that are not relationships, in strictly ascending order, and
  a role with them validates; what a personal access token may carry is grantable to a role, what is
  grantable belongs to the administrator, and all of it is known.  Every action that is not a relationship
  can be granted at the institution, so no permission of the administrator is empty; an action that an
  academic unit grants is also granted by the institution, and one that a class grants also by its units.\<close>

theorem action_registry_sound:
  "distinct (map ad_Action actionDefinitions)
    \<and> sorted_wrt (<) AllActions \<and> (\<forall>a. a \<in> set AllActions \<longleftrightarrow> IsSystemAdministratorAction a)
    \<and> length AllActions \<le> RolePermissionMaxCount \<and> permissions_error [] AllActions = None
    \<and> (\<forall>a. (IsPersonalAccessTokenAction a \<longrightarrow> IsGrantableAction a) \<and> (IsGrantableAction a \<longrightarrow> IsSystemAdministratorAction a)
        \<and> (IsSystemAdministratorAction a \<longrightarrow> IsKnownAction a))
    \<and> (\<forall>a d. DefinitionForAction a = Some d \<longrightarrow> ad_Action d = a \<and> (SupportsRoleScope d RoleScopeInstitution \<longleftrightarrow> \<not> ad_RelationshipOnly d)
        \<and> (SupportsRoleScope d RoleScopeAcademicUnit \<longrightarrow> SupportsRoleScope d RoleScopeInstitution)
        \<and> (SupportsRoleScope d RoleScopeClass \<longrightarrow> SupportsRoleScope d RoleScopeAcademicUnit))"
proof -
  have distinct: "distinct AllActions"
    using registry_distinct by (simp add: AllActions_def distinct_map_filter)
  then have sorted: "sorted_wrt (<) AllActions" by (simp add: strict_sorted_iff AllActions_def)
  have size: "length AllActions \<le> RolePermissionMaxCount"
    using length_filter_le [of "\<lambda>d. \<not> ad_RelationshipOnly d" actionDefinitions]
    by (simp add: AllActions_def registry_size RolePermissionMaxCount_def)
  have perms: "permissions_error [] AllActions = None"
    using registry_permissions distinct by (auto simp: permissions_error_None AllActions_def list_all_iff)
  have defs: "ad_Action d = a \<and> (SupportsRoleScope d RoleScopeInstitution \<longleftrightarrow> \<not> ad_RelationshipOnly d)
      \<and> (SupportsRoleScope d RoleScopeAcademicUnit \<longrightarrow> SupportsRoleScope d RoleScopeInstitution)
      \<and> (SupportsRoleScope d RoleScopeClass \<longrightarrow> SupportsRoleScope d RoleScopeAcademicUnit)"
    if "DefinitionForAction a = Some d" for a d
    using that registry_scopes by (auto simp: DefinitionForAction_iff list_all_iff SupportsRoleScope_def)
  have nested: "(IsPersonalAccessTokenAction a \<longrightarrow> IsGrantableAction a) \<and> (IsGrantableAction a \<longrightarrow> IsSystemAdministratorAction a)
      \<and> (IsSystemAdministratorAction a \<longrightarrow> IsKnownAction a)" for a
    by (simp add: IsPersonalAccessTokenAction_def IsGrantableAction_def IsSystemAdministratorAction_def IsKnownAction_def split: option.split)
  show ?thesis using registry_distinct sorted size perms AllActions_mem nested defs by blast
qed

theorem action_registry_sound_witness:
  "\<exists>d. DefinitionForAction ActionSubmissionView = Some d \<and> SupportsRoleScope d RoleScopeInstitution \<and> \<not> ad_RelationshipOnly d"
proof -
  obtain d where d: "DefinitionForAction ActionSubmissionView = Some d" "\<not> ad_RelationshipOnly d"
    by (simp add: DefinitionForAction_def registry_defs)
  then show ?thesis using action_registry_sound by blast
qed

end
