(* ===== verification/Directory.thy ===== *)
theory Directory
  imports AcademicUnit Authorization SqlTransactions "HOL-Library.Multiset" "HOL-Library.Product_Lexorder"
begin

text \<open>
  The tables of the academic directory that access control reads, the queries it makes
  (\<^verbatim>\<open>server/store/sqlstore\<close>), and the transactions that change the tree of academic units
  (\<^verbatim>\<open>academic_unit_store.go\<close>).  Of rows other than academic units, roles and role bindings only the
  columns that these queries use are kept.  A recursive query that never ends has the value \<open>None\<close>.
\<close>

section \<open>Tables\<close>

record Institution =
  in_ID :: string
  in_ArchivedAt :: optional_time

record Programme =
  pg_ID :: string
  pg_ArchivedAt :: optional_time
  pg_AcademicUnitID :: string

record ProgrammeLevel =
  pl_ID :: string
  pl_ArchivedAt :: optional_time
  pl_ProgrammeID :: string

record AcademicPeriod =
  pe_ID :: string
  pe_ArchivedAt :: optional_time
  pe_OwnerInstitutionID :: string
  pe_OwnerAcademicUnitID :: string

record Class =
  cl_ID :: string
  cl_ArchivedAt :: optional_time
  cl_ProgrammeLevelID :: string
  cl_AcademicPeriodID :: string

record User =
  us_ID :: string
  us_ArchivedAt :: optional_time
  us_DisabledAt :: optional_time

record Exam =
  ex_ID :: string
  ex_AcademicUnitID :: string

record exam_sitting_row =
  es_ID :: string
  es_ExamID :: string

record exam_attempt_row =
  ea_ID :: string
  ea_ExamID :: string
  ea_SittingID :: string
  ea_CandidateUserID :: string

record exam_submission_row =
  eb_ID :: string
  eb_AttemptID :: string
  eb_Sealed :: bool

record academic_unit_member_row =
  um_AcademicUnitID :: string
  um_ArchivedAt :: optional_time
  um_EndAt :: optional_time

record directory =
  d_institutions :: "Institution list"
  d_units :: "AcademicUnit list"
  d_unit_members :: "academic_unit_member_row list"
  d_programmes :: "Programme list"
  d_levels :: "ProgrammeLevel list"
  d_periods :: "AcademicPeriod list"
  d_classes :: "Class list"
  d_users :: "User list"
  d_exams :: "Exam list"
  d_sittings :: "exam_sitting_row list"
  d_attempts :: "exam_attempt_row list"
  d_submissions :: "exam_submission_row list"
  d_roles :: "Role list"
  d_bindings :: "RoleBinding list"

section \<open>Reads\<close>

text \<open>\<^verbatim>\<open>SELECT ... WHERE id = ? AND archived_at IS NULL\<close>, with the error of an empty result.\<close>

definition select_live :: "('r \<Rightarrow> string) \<Rightarrow> ('r \<Rightarrow> optional_time) \<Rightarrow> string \<Rightarrow> 'r list \<Rightarrow> string \<Rightarrow> go_error + 'r" where
  "select_live ident archived entity rows i = (case find (\<lambda>r. ident r = i \<and> \<not> ot_Valid (archived r)) rows of
       None \<Rightarrow> Inl (StoreError ErrNotFound entity i)
     | Some r \<Rightarrow> Inr r)"

definition Institution_Get :: "directory \<Rightarrow> string \<Rightarrow> go_error + Institution" where
  "Institution_Get d = select_live in_ID in_ArchivedAt ''institution'' (d_institutions d)"

definition GetSingleton :: "directory \<Rightarrow> go_error + Institution" where
  "GetSingleton d = (case find (\<lambda>r. \<not> ot_Valid (in_ArchivedAt r)) (d_institutions d) of
       None \<Rightarrow> Inl (StoreError ErrNotFound ''institution'' ''singleton'')
     | Some r \<Rightarrow> Inr r)"

definition Programme_Get :: "directory \<Rightarrow> string \<Rightarrow> go_error + Programme" where
  "Programme_Get d = select_live pg_ID pg_ArchivedAt ''programme'' (d_programmes d)"

definition ProgrammeLevel_Get :: "directory \<Rightarrow> string \<Rightarrow> go_error + ProgrammeLevel" where
  "ProgrammeLevel_Get d = select_live pl_ID pl_ArchivedAt ''programme_level'' (d_levels d)"

definition AcademicPeriod_Get :: "directory \<Rightarrow> string \<Rightarrow> go_error + AcademicPeriod" where
  "AcademicPeriod_Get d = select_live pe_ID pe_ArchivedAt ''academic_period'' (d_periods d)"

definition Class_Get :: "directory \<Rightarrow> string \<Rightarrow> go_error + Class" where
  "Class_Get d = select_live cl_ID cl_ArchivedAt ''class'' (d_classes d)"

definition User_Get :: "directory \<Rightarrow> string \<Rightarrow> go_error + User" where
  "User_Get d = select_live us_ID us_ArchivedAt ''user'' (d_users d)"

text \<open>The join of a class with its programme level and programme, all three not archived.\<close>

definition GetAcademicUnitID :: "directory \<Rightarrow> string \<Rightarrow> go_error + string" where
  "GetAcademicUnitID d i = (case Class_Get d i of
       Inl e \<Rightarrow> Inl (StoreError ErrNotFound ''class'' i)
     | Inr c \<Rightarrow> (case ProgrammeLevel_Get d (cl_ProgrammeLevelID c) of
         Inl e \<Rightarrow> Inl (StoreError ErrNotFound ''class'' i)
       | Inr l \<Rightarrow> (case Programme_Get d (pl_ProgrammeID l) of
           Inl e \<Rightarrow> Inl (StoreError ErrNotFound ''class'' i)
         | Inr p \<Rightarrow> if \<not> IsValidOpaqueID (pg_AcademicUnitID p) then Inl (StoreError ErrInvalidState ''class'' ''academic_unit_id'')
             else Inr (pg_AcademicUnitID p))))"

definition Exam_Resolve :: "directory \<Rightarrow> string \<Rightarrow> go_error + Exam" where
  "Exam_Resolve d i =
     (if \<not> IsValidOpaqueID i then Inl (StoreError ErrInvalidInput ''exam'' ''id'')
      else case find (\<lambda>r. ex_ID r = i) (d_exams d) of
        None \<Rightarrow> Inl (StoreError ErrNotFound ''exam'' i) | Some r \<Rightarrow> Inr r)"

definition ExamSitting_Resolve :: "directory \<Rightarrow> string \<Rightarrow> go_error + exam_sitting_row" where
  "ExamSitting_Resolve d i =
     (if \<not> IsValidOpaqueID i then Inl (StoreError ErrInvalidInput ''exam_sitting'' ''id'')
      else case find (\<lambda>r. es_ID r = i) (d_sittings d) of
        None \<Rightarrow> Inl (StoreError ErrNotFound ''exam_sitting'' i) | Some r \<Rightarrow> Inr r)"

record ExamSubmissionAuthorization =
  sa_SubmissionID :: string
  sa_ExamID :: string
  sa_SittingID :: string
  sa_AttemptID :: string
  sa_CandidateUserID :: string
  sa_AcademicUnitID :: string

definition invalid_submission_column :: "ExamSubmissionAuthorization \<Rightarrow> string option" where
  "invalid_submission_column r =
     (if \<not> IsValidOpaqueID (sa_ExamID r) then Some ''exam_id''
      else if \<not> IsValidOpaqueID (sa_SittingID r) then Some ''exam_sitting_id''
      else if \<not> IsValidOpaqueID (sa_AttemptID r) then Some ''exam_attempt_id''
      else if \<not> IsValidOpaqueID (sa_CandidateUserID r) then Some ''candidate_user_id''
      else if \<not> IsValidOpaqueID (sa_AcademicUnitID r) then Some ''academic_unit_id''
      else None)"

definition ExamSubmission_Resolve :: "directory \<Rightarrow> string \<Rightarrow> go_error + ExamSubmissionAuthorization" where
  "ExamSubmission_Resolve d i =
     (if \<not> IsValidOpaqueID i then Inl (StoreError ErrInvalidInput ''exam_submission'' ''id'')
      else case find (\<lambda>r. eb_ID r = i \<and> eb_Sealed r) (d_submissions d) of
        None \<Rightarrow> Inl (StoreError ErrNotFound ''exam_submission'' i)
      | Some s \<Rightarrow> (case find (\<lambda>a. ea_ID a = eb_AttemptID s) (d_attempts d) of
          None \<Rightarrow> Inl (StoreError ErrNotFound ''exam_submission'' i)
        | Some a \<Rightarrow> (case find (\<lambda>e. ex_ID e = ea_ExamID a) (d_exams d) of
            None \<Rightarrow> Inl (StoreError ErrNotFound ''exam_submission'' i)
          | Some e \<Rightarrow>
              let r = \<lparr>sa_SubmissionID = i, sa_ExamID = ea_ExamID a, sa_SittingID = ea_SittingID a, sa_AttemptID = ea_ID a,
                    sa_CandidateUserID = ea_CandidateUserID a, sa_AcademicUnitID = ex_AcademicUnitID e\<rparr>
              in (case invalid_submission_column r of
                    None \<Rightarrow> Inr r
                  | Some column \<Rightarrow> Inl (StoreError ErrInvalidState ''exam_submission'' column)))))"

definition roleRow_model :: "Role \<Rightarrow> go_error + Role" where
  "roleRow_model r = (case validatePersistedModel ''role'' (Role_Validate (Some r)) of None \<Rightarrow> Inr r | Some e \<Rightarrow> Inl e)"

definition GetByIDs :: "directory \<Rightarrow> string list \<Rightarrow> go_error + Role list" where
  "GetByIDs d ids =
     (if length ids = 0 then Inr []
      else rehydrate roleRow_model (sort_key (\<lambda>r. (ro_Name r, ro_ID r))
        (filter (\<lambda>r. List.member ids (ro_ID r) \<and> \<not> ot_Valid (ro_ArchivedAt r)) (d_roles d))))"

definition roleBindingRow_model :: "RoleBinding \<Rightarrow> go_error + RoleBinding" where
  "roleBindingRow_model r =
     (case validatePersistedModel ''role_binding'' (RoleBinding_Validate (Some r)) of None \<Rightarrow> Inr r | Some e \<Rightarrow> Inl e)"

definition scope_text :: "RoleScopeType \<Rightarrow> string" where
  "scope_text s = (case s of RoleScopeInstitution \<Rightarrow> ''institution'' | RoleScopeAcademicUnit \<Rightarrow> ''academic_unit''
     | RoleScopeClass \<Rightarrow> ''class'' | RoleScopeOther t \<Rightarrow> t)"

definition ListActiveByUser :: "directory \<Rightarrow> string \<Rightarrow> gtime \<Rightarrow> go_error + RoleBinding list" where
  "ListActiveByUser d userID at' = rehydrate roleBindingRow_model
     (sort_key (\<lambda>r. (scope_text (rb_ScopeType r), rb_ScopeID r, rb_ID r))
       (filter (\<lambda>r. rb_UserID r = userID \<and> \<not> ot_Valid (rb_ArchivedAt r) \<and> \<not> After (rb_StartsAt r) (TimeUTC at')
          \<and> (\<not> ot_Valid (rb_EndsAt r) \<or> After (ot_Time (rb_EndsAt r)) (TimeUTC at'))) (d_bindings d)))"

end
