(* ===== verification/AcademicHierarchy.thy ===== *)
theory AcademicHierarchy
  imports Directory
begin

text \<open>
  \<^verbatim>\<open>server/store/sqlstore/academic_unit_store.go\<close>: the transactions that change the tree of academic units,
  the query for the ancestors of a unit, and the invariant that both rely on: the live units form a
  forest.  The hierarchy lock of the transactions makes them one-at-a-time.
\<close>

section \<open>The tree of academic units\<close>

definition live_unit :: "AcademicUnit \<Rightarrow> bool" where
  "live_unit u \<longleftrightarrow> \<not> ot_Valid (au_ArchivedAt u)"

definition academicUnitRow_model :: "AcademicUnit \<Rightarrow> go_error + AcademicUnit" where
  "academicUnitRow_model r =
     (case validatePersistedModel ''academic_unit'' (AcademicUnit_Validate (Some r)) of None \<Rightarrow> Inr r | Some e \<Rightarrow> Inl e)"

text \<open>The recursive query: the unit, then its parent, and so on, each of them not archived.  A root has
  the parent NULL, which joins with nothing.\<close>

partial_function (option) ancestor_rows :: "AcademicUnit list \<Rightarrow> string \<Rightarrow> AcademicUnit list option" where
  "ancestor_rows units i = (case find (\<lambda>u. au_ID u = i \<and> live_unit u) units of
       None \<Rightarrow> Some []
     | Some u \<Rightarrow>
         if au_ParentID u = '''' then Some [u]
         else Option.bind (ancestor_rows units (au_ParentID u)) (\<lambda>us. Some (u # us)))"

definition ListAncestors :: "AcademicUnit list \<Rightarrow> string \<Rightarrow> (go_error + AcademicUnit list) option" where
  "ListAncestors units i = Option.bind (ancestor_rows units i) (\<lambda>rows.
     Some (if length rows = 0 then Inl (StoreError ErrNotFound ''academic_unit'' i)
           else rehydrate academicUnitRow_model rows))"

text \<open>The query for the descendants of a list of units, level by level.\<close>

partial_function (option) descendant_rows :: "AcademicUnit list \<Rightarrow> string list \<Rightarrow> string list option" where
  "descendant_rows units parents =
     (let level = map au_ID (filter (\<lambda>u. live_unit u \<and> au_ParentID u \<noteq> '''' \<and> List.member parents (au_ParentID u)) units)
      in if level = [] then Some []
         else Option.bind (descendant_rows units level) (\<lambda>deeper. Some (level @ deeper)))"

definition validateAcademicUnitParent ::
    "AcademicUnit list \<Rightarrow> string \<Rightarrow> string \<Rightarrow> string \<Rightarrow> (go_error option) option" where
  "validateAcademicUnitParent units unitID institutionID parentID =
     (if parentID = '''' then Some None
      else case find (\<lambda>u. au_ID u = parentID \<and> live_unit u) units of
        None \<Rightarrow> Some (Some (StoreError ErrNotFound ''academic_unit'' parentID))
      | Some parent \<Rightarrow>
          if au_InstitutionID parent \<noteq> institutionID then
            Some (Some (StoreError ErrReference ''academic_unit'' ''academic_units_parent_same_institution''))
          else if unitID = '''' then Some None
          else Option.bind (descendant_rows units [unitID]) (\<lambda>descendants.
            if List.member descendants parentID then
              Some (Some (StoreError ErrConflict ''academic_unit'' ''academic_units_acyclic''))
            else Some None))"

definition newAcademicUnitRow :: "AcademicUnit \<Rightarrow> AcademicUnit" where
  "newAcademicUnitRow u = u\<lparr>au_CreatedAt := TimeUTC (au_CreatedAt u), au_UpdatedAt := TimeUTC (au_UpdatedAt u),
     au_ArchivedAt := OptionalTimeFromNullTime (au_ArchivedAt u)\<rparr>"

text \<open>The constraints of the table \<^verbatim>\<open>academic_units\<close>.\<close>

definition units_reject :: "directory \<Rightarrow> AcademicUnit list \<Rightarrow> AcademicUnit \<Rightarrow> go_error option" where
  "units_reject d others r =
     (if au_Revision r \<le> 0 \<or> au_ParentID r = au_ID r \<or> Before (au_UpdatedAt r) (au_CreatedAt r) then
        Some (StoreError ErrInvalidInput ''academic_unit'' ''academic_units_check'')
      else if list_ex (\<lambda>u. au_ID u = au_ID r) others then Some (StoreError ErrConflict ''academic_unit'' ''academic_units_pkey'')
      else if live_unit r \<and> list_ex (\<lambda>u. live_unit u \<and> au_InstitutionID u = au_InstitutionID r \<and> au_Name u = au_Name r) others then
        Some (StoreError ErrConflict ''academic_unit'' ''academic_units_institution_id_parent_id_name_key'')
      else if \<not> list_ex (\<lambda>i. in_ID i = au_InstitutionID r) (d_institutions d) then
        Some (StoreError ErrReference ''academic_unit'' ''academic_units_institution_id_fkey'')
      else None)"

text \<open>The completion of the audit event in the same transaction is the argument \<open>audit\<close>: it succeeds, or
  its error rolls the transaction back.\<close>

definition createAcademicUnit ::
    "go_error option \<Rightarrow> AcademicUnit \<Rightarrow> directory \<Rightarrow> (go_error + directory \<times> AcademicUnit) option" where
  "createAcademicUnit audit candidate d =
     Option.bind (validateAcademicUnitParent (d_units d) (au_ID candidate) (au_InstitutionID candidate) (au_ParentID candidate))
       (\<lambda>refused. Some (case refused of
          Some e \<Rightarrow> Inl e
        | None \<Rightarrow>
            let row = newAcademicUnitRow candidate
            in (case units_reject d (d_units d) row of
                  Some e \<Rightarrow> Inl e
                | None \<Rightarrow> (case audit of
                    Some e \<Rightarrow> Inl e
                  | None \<Rightarrow> Inr (d\<lparr>d_units := d_units d @ [row]\<rparr>, candidate)))))"

definition in_transaction :: "('s \<Rightarrow> (go_error + 's \<times> 'a) option) \<Rightarrow> 's \<Rightarrow> ('s \<times> (go_error + 'a)) option" where
  "in_transaction body s = Option.bind (body s) (\<lambda>r. Some (runSQLTransaction (\<lambda>_. r) s))"

definition AcademicUnitStore_Create ::
    "AcademicUnit option \<Rightarrow> string \<Rightarrow> gtime \<Rightarrow> go_error option \<Rightarrow> directory \<Rightarrow> (directory \<times> (go_error + AcademicUnit)) option" where
  "AcademicUnitStore_Create input auditEventID auditAt audit d = (case input of
       None \<Rightarrow> Some (d, Inl (StoreError ErrInvalidInput ''academic_unit'' ''creation''))
     | Some candidate \<Rightarrow>
         if \<not> IsValidOpaqueID auditEventID \<or> IsZero auditAt then Some (d, Inl (StoreError ErrInvalidInput ''academic_unit'' ''audit''))
         else if \<not> IsValidOpaqueID (au_ID candidate) then Some (d, Inl (StoreError ErrInvalidInput ''academic_unit'' ''id''))
         else if AcademicUnit_Validate (Some candidate) \<noteq> None then
           Some (d, Inl (StoreError ErrInvalidInput ''academic_unit'' ''value''))
         else in_transaction (createAcademicUnit audit candidate) d)"

definition requireOwnedRevisionAffected :: "AcademicUnit \<Rightarrow> AcademicUnit list \<Rightarrow> go_error" where
  "requireOwnedRevisionAffected candidate units = (case find (\<lambda>u. au_ID u = au_ID candidate \<and> live_unit u) units of
       None \<Rightarrow> StoreError ErrNotFound ''academic_unit'' (au_ID candidate)
     | Some u \<Rightarrow>
         if au_InstitutionID u \<noteq> au_InstitutionID candidate then StoreError ErrNotFound ''academic_unit'' (au_ID candidate)
         else StoreError ErrConflict ''academic_unit'' ''academic_unit_changed'')"

definition put_unit :: "AcademicUnit \<Rightarrow> AcademicUnit list \<Rightarrow> AcademicUnit list" where
  "put_unit r units = map (\<lambda>u. if au_ID u = au_ID r then r else u) units"

definition updateAcademicUnit ::
    "go_error option \<Rightarrow> AcademicUnit \<Rightarrow> directory \<Rightarrow> (go_error + directory \<times> AcademicUnit) option" where
  "updateAcademicUnit audit candidate d =
     Option.bind (validateAcademicUnitParent (d_units d) (au_ID candidate) (au_InstitutionID candidate) (au_ParentID candidate))
       (\<lambda>refused. Some (case refused of
          Some e \<Rightarrow> Inl e
        | None \<Rightarrow> (case find (\<lambda>u. au_ID u = au_ID candidate \<and> au_InstitutionID u = au_InstitutionID candidate \<and> live_unit u
                \<and> au_Revision u = wrap64 (au_Revision candidate - 1)) (d_units d) of
            None \<Rightarrow> Inl (requireOwnedRevisionAffected candidate (d_units d))
          | Some u \<Rightarrow>
              let row = u\<lparr>au_UpdatedAt := TimeUTC (au_UpdatedAt candidate), au_Revision := au_Revision candidate,
                    au_ParentID := au_ParentID candidate, au_Name := au_Name candidate,
                    au_DisplayName := au_DisplayName candidate, au_Description := au_Description candidate\<rparr>
              in (case units_reject d (filter (\<lambda>x. au_ID x \<noteq> au_ID row) (d_units d)) row of
                    Some e \<Rightarrow> Inl e
                  | None \<Rightarrow> (case audit of
                      Some e \<Rightarrow> Inl e
                    | None \<Rightarrow> Inr (d\<lparr>d_units := put_unit row (d_units d)\<rparr>, candidate))))))"

definition AcademicUnitStore_Update ::
    "AcademicUnit option \<Rightarrow> string \<Rightarrow> gtime \<Rightarrow> go_error option \<Rightarrow> directory \<Rightarrow> (directory \<times> (go_error + AcademicUnit)) option" where
  "AcademicUnitStore_Update input auditEventID auditAt audit d = (case input of
       None \<Rightarrow> Some (d, Inl (StoreError ErrInvalidInput ''academic_unit'' ''update''))
     | Some candidate \<Rightarrow>
         if \<not> IsValidOpaqueID auditEventID \<or> IsZero auditAt then Some (d, Inl (StoreError ErrInvalidInput ''academic_unit'' ''update''))
         else if AcademicUnit_Validate (Some candidate) \<noteq> None then
           Some (d, Inl (StoreError ErrInvalidInput ''academic_unit'' ''value''))
         else in_transaction (updateAcademicUnit audit candidate) d)"

text \<open>Live children, live programmes, open memberships and open role bindings keep a unit from being archived.\<close>

definition unit_dependents :: "directory \<Rightarrow> string \<Rightarrow> bool" where
  "unit_dependents d i \<longleftrightarrow>
     list_ex (\<lambda>u. au_ParentID u = i \<and> live_unit u) (d_units d)
     \<or> list_ex (\<lambda>p. pg_AcademicUnitID p = i \<and> \<not> ot_Valid (pg_ArchivedAt p)) (d_programmes d)
     \<or> list_ex (\<lambda>m. um_AcademicUnitID m = i \<and> \<not> ot_Valid (um_ArchivedAt m) \<and> \<not> ot_Valid (um_EndAt m)) (d_unit_members d)
     \<or> list_ex (\<lambda>b. rb_ScopeType b = RoleScopeAcademicUnit \<and> rb_ScopeID b = i \<and> \<not> ot_Valid (rb_ArchivedAt b)
          \<and> \<not> ot_Valid (rb_EndsAt b)) (d_bindings d)"

definition requireAcademicRevision :: "string \<Rightarrow> int \<Rightarrow> int \<Rightarrow> go_error option" where
  "requireAcademicRevision entity expected current =
     (if expected > 0 \<and> expected \<noteq> current then Some (StoreError ErrConflict entity ''revision_mismatch'') else None)"

definition archiveAcademicUnit ::
    "go_error option \<Rightarrow> string \<Rightarrow> gtime \<Rightarrow> int \<Rightarrow> directory \<Rightarrow> go_error + directory \<times> AcademicUnit" where
  "archiveAcademicUnit audit i archiveAt expectedRevision d =
     (case find (\<lambda>u. au_ID u = i \<and> live_unit u) (d_units d) of
        None \<Rightarrow> Inl (StoreError ErrNotFound ''academic_unit'' i)
      | Some u \<Rightarrow> (case academicUnitRow_model u of
          Inl e \<Rightarrow> Inl e
        | Inr current \<Rightarrow> (case requireAcademicRevision ''academic_unit'' expectedRevision (au_Revision current) of
            Some e \<Rightarrow> Inl e
          | None \<Rightarrow>
              if unit_dependents d i then
                Inl (StoreError ErrConflict ''academic_unit'' ''academic_unit_has_active_dependents'')
              else if au_Revision current = maxInt64 then Inl (StoreError ErrDriver ''academic_unit'' ''bigint out of range'')
              else
                let row = current\<lparr>
                      au_UpdatedAt := (if After (TimeUTC archiveAt) (au_UpdatedAt current) then TimeUTC archiveAt else au_UpdatedAt current),
                      au_ArchivedAt := OptionalTimeFrom (if After (TimeUTC archiveAt) (au_CreatedAt current) then TimeUTC archiveAt
                        else au_CreatedAt current),
                      au_Revision := au_Revision current + 1\<rparr>
                in (case academicUnitRow_model row of
                      Inl e \<Rightarrow> Inl e
                    | Inr archived \<Rightarrow> (case audit of
                        Some e \<Rightarrow> Inl e
                      | None \<Rightarrow> Inr (d\<lparr>d_units := put_unit row (d_units d)\<rparr>, archived))))))"

definition AcademicUnitStore_Archive ::
    "int \<Rightarrow> string \<Rightarrow> gtime \<Rightarrow> string \<Rightarrow> gtime \<Rightarrow> go_error option \<Rightarrow> directory \<Rightarrow> directory \<times> (go_error + AcademicUnit)" where
  "AcademicUnitStore_Archive expectedRevision i archiveAt auditEventID auditAt audit d =
     (if \<not> IsValidOpaqueID i \<or> IsZero archiveAt \<or> expectedRevision < 0 \<or> \<not> IsValidOpaqueID auditEventID \<or> IsZero auditAt then
        (d, Inl (StoreError ErrInvalidInput ''academic_unit'' ''archive''))
      else runSQLTransaction (archiveAcademicUnit audit i archiveAt expectedRevision) d)"

section \<open>The forest invariant\<close>

definition parent_edges :: "AcademicUnit list \<Rightarrow> (string \<times> string) set" where
  "parent_edges units = {(au_ID u, au_ParentID u) | u. u \<in> set units \<and> live_unit u \<and> au_ParentID u \<noteq> ''''}"

definition hierarchy_ok :: "AcademicUnit list \<Rightarrow> bool" where
  "hierarchy_ok units \<longleftrightarrow> distinct (map au_ID units) \<and> acyclic (parent_edges units)
     \<and> (\<forall>u \<in> set units. AcademicUnit_Validate (Some u) = None)
     \<and> (\<forall>u \<in> set units. live_unit u \<and> au_ParentID u \<noteq> '''' \<longrightarrow>
          (\<exists>p \<in> set units. live_unit p \<and> au_ID p = au_ParentID u \<and> au_InstitutionID p = au_InstitutionID u))"

lemma parent_edges_iff:
  "(i, p) \<in> parent_edges units \<longleftrightarrow> (\<exists>u \<in> set units. live_unit u \<and> au_ID u = i \<and> au_ParentID u = p \<and> p \<noteq> '''')"
  by (auto simp: parent_edges_def)

lemma finite_parent_edges: "finite (parent_edges units)"
proof -
  have "parent_edges units \<subseteq> (\<lambda>u. (au_ID u, au_ParentID u)) ` set units" by (auto simp: parent_edges_def)
  then show ?thesis by (rule finite_subset) simp
qed

lemma unique_unit:
  "distinct (map au_ID units) \<Longrightarrow> u \<in> set units \<Longrightarrow> v \<in> set units \<Longrightarrow> au_ID u = au_ID v \<Longrightarrow> u = v"
  by (metis distinct_map inj_onD)

lemma find_live:
  assumes "distinct (map au_ID units)"
  shows "find (\<lambda>u. au_ID u = i \<and> live_unit u) units = Some u \<longleftrightarrow> u \<in> set units \<and> au_ID u = i \<and> live_unit u"
proof
  assume "find (\<lambda>u. au_ID u = i \<and> live_unit u) units = Some u"
  then show "u \<in> set units \<and> au_ID u = i \<and> live_unit u" by (auto simp: find_Some_iff)
next
  assume u: "u \<in> set units \<and> au_ID u = i \<and> live_unit u"
  then obtain v where v: "find (\<lambda>u. au_ID u = i \<and> live_unit u) units = Some v"
    by (cases "find (\<lambda>u. au_ID u = i \<and> live_unit u) units") (auto simp: find_None_iff)
  then have "v \<in> set units" "au_ID v = au_ID u" using u by (auto simp: find_Some_iff)
  then show "find (\<lambda>u. au_ID u = i \<and> live_unit u) units = Some u" using v u unique_unit [OF assms] by blast
qed

lemma not_live: "find (\<lambda>u. au_ID u = i \<and> live_unit u) units = None \<longleftrightarrow> (\<forall>u \<in> set units. au_ID u = i \<longrightarrow> \<not> live_unit u)"
  by (auto simp: find_None_iff)

text \<open>The climb from a unit to its root.\<close>

fun climbs :: "AcademicUnit list \<Rightarrow> bool" where
  "climbs [] = False"
| "climbs [u] = (au_ParentID u = '''')"
| "climbs (u # v # us) = (au_ParentID u = au_ID v \<and> climbs (v # us))"

lemma ancestor_rows_climb:
  assumes ok: "hierarchy_ok units"
    and u: "u \<in> set units" "live_unit u"
  shows "\<exists>us. ancestor_rows units (au_ID u) = Some (u # us) \<and> climbs (u # us)
    \<and> (\<forall>v \<in> set (u # us). v \<in> set units \<and> live_unit v \<and> au_InstitutionID v = au_InstitutionID u)
    \<and> au_ID ` set (u # us) = {j. (au_ID u, j) \<in> (parent_edges units)\<^sup>*}"
proof -
  have wf: "wf ((parent_edges units)\<inverse>)"
    using ok by (intro finite_acyclic_wf_converse finite_parent_edges) (simp add: hierarchy_ok_def)
  show ?thesis
    using u
  proof (induction "au_ID u" arbitrary: u rule: wf_induct_rule [OF wf])
  case (1 u)
  have d: "distinct (map au_ID units)" using ok by (simp add: hierarchy_ok_def)
  have f: "find (\<lambda>x. au_ID x = au_ID u \<and> live_unit x) units = Some u" using 1 by (simp add: find_live [OF d])
  show ?case
  proof (cases "au_ParentID u = ''''")
    case True
    have "(au_ID u, j) \<in> (parent_edges units)\<^sup>* \<longleftrightarrow> j = au_ID u" for j
    proof
      assume "(au_ID u, j) \<in> (parent_edges units)\<^sup>*"
      then show "j = au_ID u"
        using True 1(2) unique_unit [OF d] by (cases rule: converse_rtranclE) (auto simp: parent_edges_iff)
    qed simp
    then show ?thesis using True f 1 by (simp add: ancestor_rows.simps)
  next
    case False
    then obtain p where p: "p \<in> set units" "live_unit p" "au_ID p = au_ParentID u" "au_InstitutionID p = au_InstitutionID u"
      using ok 1 by (auto simp: hierarchy_ok_def)
    have edge: "(au_ID u, au_ID p) \<in> parent_edges units" using 1 p False by (auto simp: parent_edges_iff)
    then obtain us where us: "ancestor_rows units (au_ID p) = Some (p # us)" "climbs (p # us)"
      "\<forall>v \<in> set (p # us). v \<in> set units \<and> live_unit v \<and> au_InstitutionID v = au_InstitutionID p"
      "au_ID ` set (p # us) = {j. (au_ID p, j) \<in> (parent_edges units)\<^sup>*}"
      using 1(1) [of p] p by auto
    have only: "(au_ID u, j) \<in> parent_edges units \<Longrightarrow> j = au_ID p" for j
      using unique_unit [OF d] 1(2) p(3) by (auto simp: parent_edges_iff)
    have "(au_ID u, j) \<in> (parent_edges units)\<^sup>* \<longleftrightarrow> j = au_ID u \<or> (au_ID p, j) \<in> (parent_edges units)\<^sup>*" for j
    proof
      assume "(au_ID u, j) \<in> (parent_edges units)\<^sup>*"
      then show "j = au_ID u \<or> (au_ID p, j) \<in> (parent_edges units)\<^sup>*" by (cases rule: converse_rtranclE) (auto dest: only)
    next
      assume "j = au_ID u \<or> (au_ID p, j) \<in> (parent_edges units)\<^sup>*"
      then show "(au_ID u, j) \<in> (parent_edges units)\<^sup>*" using edge by (auto intro: converse_rtrancl_into_rtrancl)
    qed
    then have "au_ID ` set (u # p # us) = {j. (au_ID u, j) \<in> (parent_edges units)\<^sup>*}" using us(4) by auto
    moreover have "ancestor_rows units (au_ID u) = Some (u # p # us)"
      using f False us(1) p(3) by (simp add: ancestor_rows.simps [of units "au_ID u"])
    ultimately show ?thesis using us(2,3) p 1(2,3) by (intro exI [of _ "p # us"]) auto
  qed
qed
qed

lemma ancestor_rows_total: "hierarchy_ok units \<Longrightarrow> ancestor_rows units i \<noteq> None"
proof (cases "find (\<lambda>u. au_ID u = i \<and> live_unit u) units")
  case (Some u)
  assume ok: "hierarchy_ok units"
  then have "u \<in> set units \<and> au_ID u = i \<and> live_unit u" using Some by (auto simp: find_Some_iff)
  then show ?thesis using ancestor_rows_climb [OF ok, of u] by auto
qed (simp add: ancestor_rows.simps)

text \<open>The query for the descendants ends on a forest, and finds exactly what lies below.\<close>

lemma descendant_rows_below:
  assumes ac: "acyclic (parent_edges units)"
  shows "\<exists>ds. descendant_rows units parents = Some ds
    \<and> set ds = {j. \<exists>p \<in> set parents. (j, p) \<in> (parent_edges units)\<^sup>+}"
proof -
  let ?E = "parent_edges units"
  have wf: "wf (inv_image (mult ?E) mset)"
    by (intro wf_inv_image wf_mult finite_acyclic_wf finite_parent_edges ac)
  show ?thesis
  proof (induction parents rule: wf_induct_rule [OF wf])
    case (1 parents)
    define level where "level = map au_ID (filter (\<lambda>u. live_unit u \<and> au_ParentID u \<noteq> '''' \<and> List.member parents (au_ParentID u)) units)"
    have unfold: "descendant_rows units parents = (if level = [] then Some []
        else Option.bind (descendant_rows units level) (\<lambda>deeper. Some (level @ deeper)))"
      by (subst descendant_rows.simps) (simp only: level_def Let_def)
    have lev: "set level = {j. \<exists>p \<in> set parents. (j, p) \<in> ?E}"
      by (auto simp: level_def parent_edges_iff List.member_iff)
    show ?case
    proof (cases "level = []")
      case True
      then have "{j. \<exists>p \<in> set parents. (j, p) \<in> ?E\<^sup>+} = {}" using lev by (auto elim: tranclE)
      then show ?thesis using True by (simp add: unfold)
    next
      case False
      then have "parents \<noteq> []" using lev by auto
      then have "(mset level, mset parents) \<in> mult ?E"
        using one_step_implies_mult [of "mset parents" "mset level" ?E "{#}"] lev by auto
      then obtain ds where ds: "descendant_rows units level = Some ds" "set ds = {j. \<exists>p \<in> set level. (j, p) \<in> ?E\<^sup>+}"
        using 1 [of level] by (auto simp: inv_image_def)
      have "descendant_rows units parents = Some (level @ ds)"
        using False ds(1) by (simp add: unfold)
      moreover have "set (level @ ds) = {j. \<exists>p \<in> set parents. (j, p) \<in> ?E\<^sup>+}"
        unfolding set_append lev ds(2) by (auto intro: trancl_into_trancl elim: tranclE)
      ultimately show ?thesis by blast
    qed
  qed
qed

lemma validate_parent_ok:
  assumes ok: "hierarchy_ok units"
  shows "\<exists>r. validateAcademicUnitParent units i inst p = Some r
    \<and> (r = None \<longrightarrow> p = '''' \<or> (\<exists>u \<in> set units. live_unit u \<and> au_ID u = p \<and> au_InstitutionID u = inst)
         \<and> (i \<noteq> '''' \<longrightarrow> (p, i) \<notin> (parent_edges units)\<^sup>+))"
proof -
  have ac: "acyclic (parent_edges units)" using ok by (simp add: hierarchy_ok_def)
  obtain ds where ds: "descendant_rows units [i] = Some ds" "set ds = {j. (j, i) \<in> (parent_edges units)\<^sup>+}"
    using descendant_rows_below [OF ac, of "[i]"] by auto
  show ?thesis
  proof (cases "find (\<lambda>u. au_ID u = p \<and> live_unit u) units")
    case (Some u)
    then have u: "u \<in> set units \<and> au_ID u = p \<and> live_unit u" by (auto simp: find_Some_iff)
    then show ?thesis using Some ds by (auto simp: validateAcademicUnitParent_def List.member_iff)
  qed (simp add: validateAcademicUnitParent_def)
qed


section \<open>The transactions keep the forest\<close>

definition unit_canonical :: "AcademicUnit \<Rightarrow> bool" where
  "unit_canonical u \<longleftrightarrow> canonical (au_CreatedAt u) \<and> canonical (au_UpdatedAt u)
     \<and> (ot_Valid (au_ArchivedAt u) \<longrightarrow> canonical (ot_Time (au_ArchivedAt u)))"

lemma acyclic_extend:
  assumes "acyclic E" and "p \<noteq> '''' \<Longrightarrow> (p, i) \<notin> E\<^sup>+ \<and> p \<noteq> i" and "F \<subseteq> (if p \<noteq> '''' then insert (i, p) E else E)"
  shows "acyclic F"
  using assms(1,2) by (intro acyclic_subset [OF _ assms(3)]) (auto simp: acyclic_insert rtrancl_eq_or_trancl)

lemma set_put_unit:
  assumes "distinct (map au_ID units)" and "u \<in> set units" and "au_ID r = au_ID u"
  shows "set (put_unit r units) = insert r (set units - {u})"
  using assms unique_unit [OF assms(1)] by (auto simp: put_unit_def)

lemma put_unit_ids: "map au_ID (put_unit r units) = map au_ID units"
  by (simp add: put_unit_def)

lemma create_keeps:
  assumes ok: "hierarchy_ok (d_units d)" and valid: "AcademicUnit_Validate (Some c) = None" and "unit_canonical c"
    and step: "createAcademicUnit audit c d = Some (Inr (d', r))"
  shows "hierarchy_ok (d_units d')"
proof -
  define row where "row = newAcademicUnitRow c"
  have sel: "au_ID row = au_ID c" "au_ParentID row = au_ParentID c" "au_InstitutionID row = au_InstitutionID c"
    by (simp_all add: row_def newAcademicUnitRow_def)
  have row: "AcademicUnit_Validate (Some row) = None"
    using valid assms(3)
    by (auto simp: AcademicUnit_Validate_ok row_def newAcademicUnitRow_def unit_canonical_def TimeUTC_canonical
        OptionalTimeFromNullTime_def OptionalTimeFrom_def no_time_def split: if_splits)
  obtain v where v: "validateAcademicUnitParent (d_units d) (au_ID c) (au_InstitutionID c) (au_ParentID c) = Some v"
    and v': "v = None \<longrightarrow> au_ParentID c = '''' \<or> (\<exists>u \<in> set (d_units d). live_unit u \<and> au_ID u = au_ParentID c \<and> au_InstitutionID u = au_InstitutionID c)
         \<and> (au_ID c \<noteq> '''' \<longrightarrow> (au_ParentID c, au_ID c) \<notin> (parent_edges (d_units d))\<^sup>+)"
    using validate_parent_ok [OF ok] by blast
  have u: "d_units d' = d_units d @ [row]" "v = None" "\<forall>u \<in> set (d_units d). au_ID u \<noteq> au_ID row"
    using step by (auto simp: createAcademicUnit_def v row_def [symmetric] units_reject_def Let_def list_ex_iff split: option.splits if_splits)
  have id: "au_ID c \<noteq> ''''" "au_ParentID c \<noteq> '''' \<Longrightarrow> au_ParentID c \<noteq> au_ID c"
    using valid by (auto simp: AcademicUnit_Validate_ok IsValidOpaqueID_def IDLength_def)
  have edges: "parent_edges (d_units d') \<subseteq> (if au_ParentID c \<noteq> '''' then insert (au_ID c, au_ParentID c) (parent_edges (d_units d))
      else parent_edges (d_units d))"
    by (auto simp: parent_edges_def u(1) sel)
  have "acyclic (parent_edges (d_units d'))"
    by (rule acyclic_extend [OF _ _ edges]) (use ok v' u(2) id in \<open>auto simp: hierarchy_ok_def\<close>)
  moreover have "\<exists>p \<in> set (d_units d'). live_unit p \<and> au_ID p = au_ParentID x \<and> au_InstitutionID p = au_InstitutionID x"
    if "x \<in> set (d_units d')" "live_unit x" "au_ParentID x \<noteq> ''''" for x
    using that ok v' u sel by (auto simp: hierarchy_ok_def)
  ultimately show ?thesis using ok row u by (auto simp: hierarchy_ok_def)
qed

lemma update_keeps:
  assumes ok: "hierarchy_ok (d_units d)" and valid: "AcademicUnit_Validate (Some c) = None" and "unit_canonical c"
    and step: "updateAcademicUnit audit c d = Some (Inr (d', r))"
  shows "hierarchy_ok (d_units d')"
proof -
  have dist: "distinct (map au_ID (d_units d))" using ok by (simp add: hierarchy_ok_def)
  obtain v where v: "validateAcademicUnitParent (d_units d) (au_ID c) (au_InstitutionID c) (au_ParentID c) = Some v"
    and v': "v = None \<longrightarrow> au_ParentID c = '''' \<or> (\<exists>u \<in> set (d_units d). live_unit u \<and> au_ID u = au_ParentID c \<and> au_InstitutionID u = au_InstitutionID c)
         \<and> (au_ID c \<noteq> '''' \<longrightarrow> (au_ParentID c, au_ID c) \<notin> (parent_edges (d_units d))\<^sup>+)"
    using validate_parent_ok [OF ok] by blast
  obtain u row where u: "u \<in> set (d_units d)" "au_ID u = au_ID c" "au_InstitutionID u = au_InstitutionID c" "live_unit u"
    and row: "row = u\<lparr>au_UpdatedAt := TimeUTC (au_UpdatedAt c), au_Revision := au_Revision c, au_ParentID := au_ParentID c,
      au_Name := au_Name c, au_DisplayName := au_DisplayName c, au_Description := au_Description c\<rparr>"
    and d': "d_units d' = put_unit row (d_units d)" "v = None" "units_reject d (filter (\<lambda>x. au_ID x \<noteq> au_ID row) (d_units d)) row = None"
  proof -
    let ?f = "find (\<lambda>u. au_ID u = au_ID c \<and> au_InstitutionID u = au_InstitutionID c \<and> live_unit u \<and> au_Revision u = wrap64 (au_Revision c - 1)) (d_units d)"
    obtain u where f: "?f = Some u" "v = None"
      using step by (auto simp: updateAcademicUnit_def v Let_def split: option.splits)
    then have "u \<in> set (d_units d)" "au_ID u = au_ID c" "au_InstitutionID u = au_InstitutionID c" "live_unit u"
      by (auto simp: find_Some_iff)
    with f step show thesis
      by (intro that [of u]) (auto simp: updateAcademicUnit_def v Let_def split: option.splits)
  qed
  have sel: "au_ID row = au_ID c" "au_ParentID row = au_ParentID c" "au_InstitutionID row = au_InstitutionID c" "live_unit row"
    using u by (simp_all add: row live_unit_def)
  have set': "set (d_units d') = insert row (set (d_units d) - {u})"
    unfolding d'(1) by (rule set_put_unit [OF dist u(1)]) (simp add: sel u)
  have uv: "AcademicUnit_Validate (Some u) = None" using ok u(1) by (simp add: hierarchy_ok_def)
  have rowv: "AcademicUnit_Validate (Some row) = None"
  proof -
    have "0 < au_Revision row \<and> \<not> Before (au_UpdatedAt row) (au_CreatedAt row)"
      using d'(3) by (auto simp: units_reject_def split: if_splits)
    moreover have "validateNamed w m (au_ID row) n dn ds = None \<longleftrightarrow> validateNamed w m (au_ID c) n dn ds = None" for w m n dn ds
      by (simp add: sel)
    ultimately show ?thesis
      using uv valid u(2) assms(3) by (simp add: AcademicUnit_Validate_ok row unit_canonical_def TimeUTC_canonical)
  qed
  have id: "au_ID c \<noteq> ''''" "au_ParentID c \<noteq> '''' \<Longrightarrow> au_ParentID c \<noteq> au_ID c"
    using valid by (auto simp: AcademicUnit_Validate_ok IsValidOpaqueID_def IDLength_def)
  have edges: "parent_edges (d_units d') \<subseteq> (if au_ParentID c \<noteq> '''' then insert (au_ID c, au_ParentID c) (parent_edges (d_units d))
      else parent_edges (d_units d))"
    by (auto simp: parent_edges_def set' sel)
  have "acyclic (parent_edges (d_units d'))"
    by (rule acyclic_extend [OF _ _ edges]) (use ok v' d'(2) id in \<open>auto simp: hierarchy_ok_def\<close>)
  moreover have "\<exists>p \<in> set (d_units d'). live_unit p \<and> au_ID p = au_ParentID x \<and> au_InstitutionID p = au_InstitutionID x"
    if x: "x \<in> set (d_units d')" "live_unit x" "au_ParentID x \<noteq> ''''" for x
  proof -
    have "\<exists>p \<in> set (d_units d). live_unit p \<and> au_ID p = au_ParentID x \<and> au_InstitutionID p = au_InstitutionID x"
      using x ok v' d'(2) by (cases "x = row") (auto simp: set' sel hierarchy_ok_def)
    then obtain p where p: "p \<in> set (d_units d)" "live_unit p" "au_ID p = au_ParentID x" "au_InstitutionID p = au_InstitutionID x" by blast
    then show ?thesis using sel u by (cases "p = u") (auto simp: set')
  qed
  ultimately show ?thesis
    using ok rowv unfolding hierarchy_ok_def d'(1) put_unit_ids by (auto simp: set' [unfolded d'(1)])
qed

lemma row_model: "academicUnitRow_model u = Inr v \<longleftrightarrow> v = u \<and> AcademicUnit_Validate (Some u) = None"
  by (auto simp: academicUnitRow_model_def validatePersistedModel_def split: option.splits)

lemma archive_keeps:
  assumes ok: "hierarchy_ok (d_units d)"
    and step: "archiveAcademicUnit audit i at' revision d = Inr (d', r)"
  shows "hierarchy_ok (d_units d')"
proof -
  have dist: "distinct (map au_ID (d_units d))" using ok by (simp add: hierarchy_ok_def)
  obtain u row where u: "u \<in> set (d_units d)" "au_ID u = i" and leaf: "\<not> unit_dependents d i"
    and row: "au_ID row = au_ID u" "\<not> live_unit row" "AcademicUnit_Validate (Some row) = None"
    and d': "d_units d' = put_unit row (d_units d)"
  proof -
    from step obtain u where f: "find (\<lambda>u. au_ID u = i \<and> live_unit u) (d_units d) = Some u" "\<not> unit_dependents d i"
      by (auto simp: archiveAcademicUnit_def split: option.splits sum.splits if_splits)
    then have "u \<in> set (d_units d)" "au_ID u = i" by (auto simp: find_Some_iff)
    with f step show thesis
      by (intro that [of u r]) (auto simp: archiveAcademicUnit_def row_model live_unit_def Let_def split: option.splits sum.splits if_split_asm)
  qed
  have set': "set (d_units d') = insert row (set (d_units d) - {u})"
    unfolding d' by (rule set_put_unit [OF dist u(1) row(1)])
  have "parent_edges (d_units d') \<subseteq> parent_edges (d_units d)" using row(2) by (auto simp: parent_edges_def set')
  then have "acyclic (parent_edges (d_units d'))" using ok by (auto simp: hierarchy_ok_def intro: acyclic_subset)
  moreover have "\<exists>p \<in> set (d_units d'). live_unit p \<and> au_ID p = au_ParentID x \<and> au_InstitutionID p = au_InstitutionID x"
    if x: "x \<in> set (d_units d')" "live_unit x" "au_ParentID x \<noteq> ''''" for x
  proof -
    have x': "x \<in> set (d_units d)" using x row(2) by (auto simp: set')
    then have "au_ParentID x \<noteq> i" using leaf x(2) by (auto simp: unit_dependents_def list_ex_iff)
    then have "p \<noteq> u" if "au_ID p = au_ParentID x" for p using that u(2) by auto
    moreover obtain p where "p \<in> set (d_units d)" "live_unit p" "au_ID p = au_ParentID x" "au_InstitutionID p = au_InstitutionID x"
      using ok x(2,3) x' unfolding hierarchy_ok_def by blast
    ultimately show ?thesis unfolding set' by blast
  qed
  ultimately show ?thesis using ok row(3) set' put_unit_ids [of row "d_units d"] unfolding hierarchy_ok_def d' by simp
qed


lemma climbs_distinct:
  assumes "climbs vs" and "\<forall>v \<in> set vs. v \<in> set units \<and> live_unit v \<and> au_ID v \<noteq> ''''" and "acyclic (parent_edges units)"
  shows "distinct (map au_ID vs) \<and> (\<forall>x \<in> set (tl vs). (au_ID (hd vs), au_ID x) \<in> (parent_edges units)\<^sup>+)"
  using assms(1,2)
proof (induction vs rule: climbs.induct)
  case (3 u v us)
  have e: "(au_ID u, au_ID v) \<in> parent_edges units" using 3(2,3) by (auto simp: parent_edges_def)
  have "(au_ID u, au_ID x) \<in> (parent_edges units)\<^sup>+" if "x \<in> set (v # us)" for x
    using 3 that e by (cases "x = v") (auto intro: trancl_into_trancl2)
  moreover from this have "au_ID u \<noteq> au_ID x" if "x \<in> set (v # us)" for x
    using that assms(3) by (metis acyclic_def)
  ultimately show ?case using 3 by auto
qed simp_all

lemma climbs_last: "climbs vs \<Longrightarrow> au_ParentID (last vs) = ''''"
  by (induction vs rule: climbs.induct) simp_all

lemma ListAncestors_live:
  assumes ok: "hierarchy_ok units" and u: "find (\<lambda>u. au_ID u = i \<and> live_unit u) units = Some u"
  shows "\<exists>us. ListAncestors units i = Some (Inr (u # us)) \<and> climbs (u # us) \<and> distinct (map au_ID (u # us))
    \<and> (\<forall>v \<in> set (u # us). v \<in> set units \<and> live_unit v \<and> au_InstitutionID v = au_InstitutionID u)
    \<and> au_ID ` set (u # us) = {j. (i, j) \<in> (parent_edges units)\<^sup>*}"
proof -
  have u': "u \<in> set units" "live_unit u" "au_ID u = i" using u by (auto simp: find_Some_iff)
  then obtain us where us: "ancestor_rows units i = Some (u # us)" "climbs (u # us)"
    "\<forall>v \<in> set (u # us). v \<in> set units \<and> live_unit v \<and> au_InstitutionID v = au_InstitutionID u"
    "au_ID ` set (u # us) = {j. (i, j) \<in> (parent_edges units)\<^sup>*}"
    using ancestor_rows_climb [OF ok u'(1,2)] by auto
  have valid: "\<forall>v \<in> set (u # us). AcademicUnit_Validate (Some v) = None" using us(3) ok unfolding hierarchy_ok_def by blast
  then have "\<forall>v \<in> set (u # us). au_ID v \<noteq> ''''"
    by (auto simp: AcademicUnit_Validate_ok IsValidOpaqueID_def IDLength_def)
  then have "distinct (map au_ID (u # us))"
    using climbs_distinct [OF us(2), of units] us(3) ok unfolding hierarchy_ok_def by blast
  moreover have "rehydrate academicUnitRow_model (u # us) = Inr (u # us)"
    using valid by (intro rehydrate_ok) (simp add: list_all_iff row_model)
  ultimately show ?thesis using us by (simp add: ListAncestors_def)
qed

lemma ListAncestors_missing:
  "find (\<lambda>u. au_ID u = i \<and> live_unit u) units = None \<Longrightarrow> ListAncestors units i = Some (Inl (StoreError ErrNotFound ''academic_unit'' i))"
  by (simp add: ListAncestors_def ancestor_rows.simps)

text \<open>Any store operation that leaves the table of academic units alone may happen between the three
  transactions.\<close>

inductive hierarchy_step :: "directory \<Rightarrow> directory \<Rightarrow> bool" where
  create: "AcademicUnitStore_Create input eventID eventAt audit d = Some (d', r) \<Longrightarrow>
    pred_option unit_canonical input \<Longrightarrow> hierarchy_step d d'"
| update: "AcademicUnitStore_Update input eventID eventAt audit d = Some (d', r) \<Longrightarrow>
    pred_option unit_canonical input \<Longrightarrow> hierarchy_step d d'"
| archive: "AcademicUnitStore_Archive revision i at' eventID eventAt audit d = (d', r) \<Longrightarrow> hierarchy_step d d'"
| other: "d_units d' = d_units d \<Longrightarrow> hierarchy_step d d'"

inductive hierarchy_reachable :: "directory \<Rightarrow> bool" where
  start: "d_units d = [] \<Longrightarrow> hierarchy_reachable d"
| step: "hierarchy_reachable d \<Longrightarrow> hierarchy_step d d' \<Longrightarrow> hierarchy_reachable d'"

lemma transaction_ok:
  "in_transaction body s = Some (s', r) \<Longrightarrow> s' = s \<or> (\<exists>v. body s = Some (Inr (s', v)))"
  by (auto simp: in_transaction_def runSQLTransaction_def executeSQLTransaction_def split: sum.splits bind_splits)

lemma hierarchy_step_ok: "hierarchy_step d d' \<Longrightarrow> hierarchy_ok (d_units d) \<Longrightarrow> hierarchy_ok (d_units d')"
proof (induction rule: hierarchy_step.induct)
  case (create input eventID eventAt audit d d' r)
  then show ?case
    by (auto simp: AcademicUnitStore_Create_def intro: create_keeps dest!: transaction_ok split: option.splits if_splits)
next
  case (update input eventID eventAt audit d d' r)
  then show ?case
    by (auto simp: AcademicUnitStore_Update_def intro: update_keeps dest!: transaction_ok split: option.splits if_splits)
next
  case (archive revision i at' eventID eventAt audit d d' r)
  then show ?case
    by (auto simp: AcademicUnitStore_Archive_def runSQLTransaction_def executeSQLTransaction_def intro: archive_keeps split: sum.splits if_splits)
qed simp

lemma hierarchy_ok_empty: "hierarchy_ok []"
  by (simp add: hierarchy_ok_def parent_edges_def acyclic_def)

lemma hierarchy_reachable_ok: "hierarchy_reachable d \<Longrightarrow> hierarchy_ok (d_units d)"
  by (induction rule: hierarchy_reachable.induct) (simp_all add: hierarchy_ok_empty hierarchy_step_ok)

lemma in_transaction_total: "body s \<noteq> None \<Longrightarrow> in_transaction body s \<noteq> None"
  by (auto simp: in_transaction_def)

lemma hierarchy_writes_total:
  assumes "hierarchy_ok (d_units d)"
  shows "AcademicUnitStore_Create input eventID eventAt audit d \<noteq> None"
    and "AcademicUnitStore_Update input eventID eventAt audit d \<noteq> None"
proof -
  have v: "validateAcademicUnitParent (d_units d) i inst p \<noteq> None" for i inst p
    using validate_parent_ok [OF assms, of i inst p] by auto
  have c: "createAcademicUnit audit c d \<noteq> None" "updateAcademicUnit audit c d \<noteq> None" for c
    using v [of "au_ID c" "au_InstitutionID c" "au_ParentID c"] by (auto simp: createAcademicUnit_def updateAcademicUnit_def)
  have t: "in_transaction (createAcademicUnit audit c) d \<noteq> None" "in_transaction (updateAcademicUnit audit c) d \<noteq> None" for c
    by (intro in_transaction_total c)+
  show "AcademicUnitStore_Create input eventID eventAt audit d \<noteq> None"
    unfolding AcademicUnitStore_Create_def by (simp add: t del: not_None_eq split: option.split)
  show "AcademicUnitStore_Update input eventID eventAt audit d \<noteq> None"
    unfolding AcademicUnitStore_Update_def by (simp add: t del: not_None_eq split: option.split)
qed


section \<open>The live units are always a forest\<close>

text \<open>C12. After any sequence of unit creations, moves and archivals, with arbitrary changes to the other
  tables between them, the live academic units form a forest: the recursive query for the ancestors of
  a live unit always ends, and returns the unit, its parent and so on up to a root, without repetition,
  all of them live and in one institution; for any other identifier it reports that there is no such
  unit.  The cycle check of a creation or a move, itself a recursive query, always ends too.\<close>
theorem hierarchy_forest:
  assumes "hierarchy_reachable d"
  shows "(case find (\<lambda>u. au_ID u = i \<and> live_unit u) (d_units d) of
            None \<Rightarrow> ListAncestors (d_units d) i = Some (Inl (StoreError ErrNotFound ''academic_unit'' i))
          | Some u \<Rightarrow> (\<exists>us. ListAncestors (d_units d) i = Some (Inr (u # us)) \<and> climbs (u # us) \<and> distinct (map au_ID (u # us))
              \<and> list_all (\<lambda>v. List.member (d_units d) v \<and> live_unit v \<and> au_InstitutionID v = au_InstitutionID u) (u # us)))
    \<and> (\<exists>d' r. AcademicUnitStore_Create input eventID eventAt audit d = Some (d', r))
    \<and> (\<exists>d' r. AcademicUnitStore_Update input eventID eventAt audit d = Some (d', r))"
proof -
  have ok: "hierarchy_ok (d_units d)" by (rule hierarchy_reachable_ok [OF assms])
  have "\<exists>us. ListAncestors (d_units d) i = Some (Inr (u # us)) \<and> climbs (u # us) \<and> distinct (map au_ID (u # us))
      \<and> list_all (\<lambda>v. List.member (d_units d) v \<and> live_unit v \<and> au_InstitutionID v = au_InstitutionID u) (u # us)"
    if "find (\<lambda>u. au_ID u = i \<and> live_unit u) (d_units d) = Some u" for u
    using ListAncestors_live [OF ok that] by (auto simp: list_all_iff List.member_iff)
  then show ?thesis
    using ListAncestors_missing [of i "d_units d"] hierarchy_writes_total [OF ok] by (auto split: option.split)
qed

definition sample_unit :: "string \<Rightarrow> string \<Rightarrow> AcademicUnit" where
  "sample_unit i parent = \<lparr>au_ID = i, au_CreatedAt = sample_instant 1, au_UpdatedAt = sample_instant 1, au_ArchivedAt = no_time,
     au_Revision = 1, au_InstitutionID = replicate 26 CHR ''i'', au_ParentID = parent, au_Name = take 2 i, au_DisplayName = ''Unit'',
     au_Description = ''''\<rparr>"

definition sample_directory :: "AcademicUnit list \<Rightarrow> directory" where
  "sample_directory units = \<lparr>d_institutions = [\<lparr>in_ID = replicate 26 CHR ''i'', in_ArchivedAt = no_time\<rparr>], d_units = units,
     d_unit_members = [], d_programmes = [], d_levels = [], d_periods = [], d_classes = [], d_users = [], d_exams = [],
     d_sittings = [], d_attempts = [], d_submissions = [], d_roles = [], d_bindings = []\<rparr>"

definition sample_faculty :: AcademicUnit where
  "sample_faculty = sample_unit (replicate 26 CHR ''f'') ''''"

definition sample_department :: AcademicUnit where
  "sample_department = sample_unit (replicate 26 CHR ''d'') (replicate 26 CHR ''f'')"

lemma sample_units_valid:
  "AcademicUnit_Validate (Some sample_faculty) = None \<and> AcademicUnit_Validate (Some sample_department) = None
   \<and> unit_canonical sample_faculty \<and> unit_canonical sample_department \<and> IsValidOpaqueID (replicate 26 CHR ''e'')
   \<and> IsValidOpaqueID (replicate 26 CHR ''f'') \<and> IsValidOpaqueID (replicate 26 CHR ''d'')
   \<and> \<not> IsZero (sample_instant 2) \<and> \<not> Before (sample_instant 1) (sample_instant 1)"
proof -
  have i: "IsValidOpaqueID (replicate 26 CHR ''i'')" by (rule IsValidOpaqueID_repeat) (simp add: IDAlphabet_def)
  have names: "validName ''ff'' \<and> validName ''dd'' \<and> RuneCountInString ''Unit'' = 4 \<and> RuneCountInString '''' = 0" by code_simp
  have "take 2 (replicate 26 c) = [c, c]" for c :: char by (simp add: numeral_2_eq_2)
  then show ?thesis using i names
    by (simp add: sample_faculty_def sample_department_def sample_unit_def AcademicUnit_Validate_ok validateNamed_def NameMaxLength_def
        DisplayNameMaxRunes_def DescriptionMaxRunes_def Let_def unit_canonical_def sample_instant_def IsZero_def Before_def zero_time_def
        canonical_def no_time_def)
qed

lemmas sample_create_simps = AcademicUnitStore_Create_def in_transaction_def runSQLTransaction_def executeSQLTransaction_def
  createAcademicUnit_def validateAcademicUnitParent_def newAcademicUnitRow_def units_reject_def live_unit_def
  OptionalTimeFromNullTime_def Let_def

lemma sample_create_faculty:
  "AcademicUnitStore_Create (Some sample_faculty) (replicate 26 CHR ''e'') (sample_instant 2) None (sample_directory [])
     = Some (sample_directory [sample_faculty], Inr sample_faculty)"
  using sample_units_valid by (simp add: sample_create_simps sample_faculty_def sample_unit_def sample_directory_def)

lemma sample_create_department:
  "AcademicUnitStore_Create (Some sample_department) (replicate 26 CHR ''e'') (sample_instant 2) None (sample_directory [sample_faculty])
     = Some (sample_directory [sample_faculty, sample_department], Inr sample_department)"
  using sample_units_valid
  by (simp add: sample_create_simps descendant_rows.simps sample_faculty_def sample_department_def sample_unit_def sample_directory_def)

lemma sample_hierarchy_reachable: "hierarchy_reachable (sample_directory [sample_faculty, sample_department])"
proof -
  have "hierarchy_reachable (sample_directory [])" by (rule start) (simp add: sample_directory_def)
  then have "hierarchy_reachable (sample_directory [sample_faculty])"
    by (rule step) (rule create [OF sample_create_faculty], simp add: sample_units_valid)
  then show ?thesis by (rule step) (rule create [OF sample_create_department], simp add: sample_units_valid)
qed

lemma sample_find_department:
  "find (\<lambda>u. au_ID u = replicate 26 CHR ''d'' \<and> live_unit u) (d_units (sample_directory [sample_faculty, sample_department])) = Some sample_department"
  by code_simp

theorem hierarchy_forest_witness:
  "\<exists>us. ListAncestors (d_units (sample_directory [sample_faculty, sample_department])) (replicate 26 CHR ''d'') = Some (Inr (sample_department # us))
     \<and> climbs (sample_department # us) \<and> distinct (map au_ID (sample_department # us))"
  using hierarchy_forest [OF sample_hierarchy_reachable, of "replicate 26 CHR ''d''" None "''''" zero_time None]
  unfolding sample_find_department by auto

end
