(* ===== verification/Principal.thy ===== *)
theory Principal
  imports Authorization
begin

text \<open>
  \<^verbatim>\<open>server/model/principal.go\<close>: the authentication context of one request, and what it takes from
  \<^verbatim>\<open>session.go\<close>, \<^verbatim>\<open>desktop_compatibility.go\<close>, \<^verbatim>\<open>desktop_registration.go\<close> and \<^verbatim>\<open>external_identity.go\<close>.
\<close>

section \<open>Client metadata\<close>

datatype SessionClientType =
    SessionClientDesktop
  | SessionClientCLI
  | SessionClientWeb
  | SessionClientOther string

datatype AuthenticationStrength =
    AuthenticationSingleFactor
  | AuthenticationMultiFactor
  | AuthenticationStrengthOther string

datatype DesktopPlatform =
    DesktopPlatformDarwin
  | DesktopPlatformWindows
  | DesktopPlatformLinux
  | DesktopPlatformOther string

datatype DesktopArchitecture =
    DesktopArchitectureARM64
  | DesktopArchitectureX64
  | DesktopArchitectureOther string

definition SessionClientType_IsValid :: "SessionClientType \<Rightarrow> bool" where
  "SessionClientType_IsValid ct = (case ct of SessionClientOther _ \<Rightarrow> False | _ \<Rightarrow> True)"

definition AuthenticationStrength_IsValid :: "AuthenticationStrength \<Rightarrow> bool" where
  "AuthenticationStrength_IsValid s = (case s of AuthenticationStrengthOther _ \<Rightarrow> False | _ \<Rightarrow> True)"

definition DesktopPlatform_IsValid :: "DesktopPlatform \<Rightarrow> bool" where
  "DesktopPlatform_IsValid p \<longleftrightarrow> p = DesktopPlatformDarwin \<or> p = DesktopPlatformWindows \<or> p = DesktopPlatformLinux"

definition DesktopArchitecture_IsValid :: "DesktopArchitecture \<Rightarrow> bool" where
  "DesktopArchitecture_IsValid a \<longleftrightarrow> a = DesktopArchitectureARM64 \<or> a = DesktopArchitectureX64"

definition DesktopReleaseMaxBytes :: nat where "DesktopReleaseMaxBytes = 64"
definition DesktopBuildIDMaxBytes :: nat where "DesktopBuildIDMaxBytes = 128"
definition DPoPKeyThumbprintLength :: nat where "DPoPKeyThumbprintLength = 43"
definition IdentityProviderMaxLength :: nat where "IdentityProviderMaxLength = 64"

definition digit_char :: "char \<Rightarrow> bool" where "digit_char c \<longleftrightarrow> CHR ''0'' \<le> c \<and> c \<le> CHR ''9''"
definition upper_char :: "char \<Rightarrow> bool" where "upper_char c \<longleftrightarrow> CHR ''A'' \<le> c \<and> c \<le> CHR ''Z''"
definition lower_char :: "char \<Rightarrow> bool" where "lower_char c \<longleftrightarrow> CHR ''a'' \<le> c \<and> c \<le> CHR ''z''"

text \<open>\<^verbatim>\<open>^[A-Za-z0-9][A-Za-z0-9._-]*$\<close>\<close>

definition validDesktopBuildIdentity :: "string \<Rightarrow> bool" where
  "validDesktopBuildIdentity s = (case s of [] \<Rightarrow> False
     | c # cs \<Rightarrow> (upper_char c \<or> lower_char c \<or> digit_char c)
         \<and> list_all (\<lambda>d. upper_char d \<or> lower_char d \<or> digit_char d \<or> List.member ''._-'' d) cs)"

definition validBoundedDesktopIdentity :: "string \<Rightarrow> nat \<Rightarrow> bool" where
  "validBoundedDesktopIdentity value maximum \<longleftrightarrow> value \<noteq> '''' \<and> length value \<le> maximum \<and> validDesktopBuildIdentity value"

definition IsValidDesktopBuildID :: "string \<Rightarrow> bool" where
  "IsValidDesktopBuildID value = validBoundedDesktopIdentity value DesktopBuildIDMaxBytes"

text \<open>\<^verbatim>\<open>^[a-z0-9][a-z0-9._-]*$\<close>\<close>

definition validIdentityProvider :: "string \<Rightarrow> bool" where
  "validIdentityProvider s = (case s of [] \<Rightarrow> False
     | c # cs \<Rightarrow> (lower_char c \<or> digit_char c) \<and> list_all (\<lambda>d. lower_char d \<or> digit_char d \<or> List.member ''._-'' d) cs)"

definition IsValidIdentityProviderID :: "string \<Rightarrow> bool" where
  "IsValidIdentityProviderID value \<longleftrightarrow> length value > 0 \<and> length value \<le> IdentityProviderMaxLength \<and> validIdentityProvider value"

section \<open>Releases\<close>

definition isSemanticNumericIdentifier :: "string \<Rightarrow> bool" where
  "isSemanticNumericIdentifier value \<longleftrightarrow> value \<noteq> '''' \<and> list_all digit_char value"

definition hasSemanticLeadingZero :: "string \<Rightarrow> bool" where
  "hasSemanticLeadingZero value \<longleftrightarrow> length value > 1 \<and> hd value = CHR ''0''"

definition validSemanticIdentifiers :: "string \<Rightarrow> bool \<Rightarrow> bool" where
  "validSemanticIdentifiers value build \<longleftrightarrow> value \<noteq> '''' \<and> list_all (\<lambda>identifier. identifier \<noteq> ''''
     \<and> list_all (\<lambda>c. digit_char c \<or> upper_char c \<or> lower_char c \<or> c = CHR ''-'') identifier
     \<and> \<not> (\<not> build \<and> isSemanticNumericIdentifier identifier \<and> hasSemanticLeadingZero identifier)) (strings_Split CHR ''.'' value)"

record parsedDesktopRelease =
  dr_core :: "string list"
  dr_prerelease :: "string list"

definition parseDesktopRelease :: "string \<Rightarrow> parsedDesktopRelease option" where
  "parseDesktopRelease value =
     (if value = '''' \<or> length value > DesktopReleaseMaxBytes \<or> hd value = CHR ''v'' then None
      else
        let (precedence, build, hasBuild) = strings_Cut CHR ''+'' value
        in if hasBuild \<and> (\<not> validSemanticIdentifiers build True \<or> List.member build (CHR ''+'')) then None
           else
             let (core, prerelease, hasPrerelease) = strings_Cut CHR ''-'' precedence
             in if hasPrerelease \<and> \<not> validSemanticIdentifiers prerelease False then None
                else
                  let coreIdentifiers = strings_Split CHR ''.'' core
                  in if length coreIdentifiers \<noteq> 3 then None
                     else if list_ex (\<lambda>i. \<not> isSemanticNumericIdentifier i \<or> hasSemanticLeadingZero i) coreIdentifiers then None
                     else Some \<lparr>dr_core = coreIdentifiers,
                       dr_prerelease = (if hasPrerelease then strings_Split CHR ''.'' prerelease else [])\<rparr>)"

definition IsValidDesktopRelease :: "string \<Rightarrow> bool" where
  "IsValidDesktopRelease value =
     (if value = '''' \<or> length value > DesktopReleaseMaxBytes \<or> hd value = CHR ''v'' then False
      else parseDesktopRelease value \<noteq> None)"

section \<open>Key thumbprints\<close>

text \<open>
  \<^verbatim>\<open>base64.RawURLEncoding\<close>: decoding skips line breaks and accepts any trailing bits; the check encodes
  again and compares, so that only the canonical text of 32 bytes passes.
\<close>

definition base64_alphabet :: string where
  "base64_alphabet = ''ABCDEFGHIJKLMNOPQRSTUVWXYZabcdefghijklmnopqrstuvwxyz0123456789-_''"

definition base64_digits :: "string \<Rightarrow> nat list option" where
  "base64_digits s = those (map (\<lambda>c. if List.member base64_alphabet c
       then Some (length (takeWhile (\<lambda>d. d \<noteq> c) base64_alphabet)) else None)
     (filter (\<lambda>c. c \<noteq> CHR 0x0A \<and> c \<noteq> CHR 0x0D) s))"

fun base64_bytes :: "nat list \<Rightarrow> nat list option" where
  "base64_bytes [] = Some []"
| "base64_bytes [a] = None"
| "base64_bytes [a, b] = Some [a * 4 + b div 16]"
| "base64_bytes [a, b, c] = Some [a * 4 + b div 16, b mod 16 * 16 + c div 4]"
| "base64_bytes (a # b # c # d # ds) = map_option (\<lambda>bs. (a * 4 + b div 16) # (b mod 16 * 16 + c div 4) # (c mod 4 * 64 + d) # bs)
     (base64_bytes ds)"

fun base64_encode :: "nat list \<Rightarrow> nat list" where
  "base64_encode [] = []"
| "base64_encode [a] = [a div 4, a mod 4 * 16]"
| "base64_encode [a, b] = [a div 4, a mod 4 * 16 + b div 16, b mod 16 * 4]"
| "base64_encode (a # b # c # bs) = a div 4 # (a mod 4 * 16 + b div 16) # (b mod 16 * 4 + c div 64) # c mod 64 # base64_encode bs"

definition IsValidDPoPKeyThumbprint :: "string \<Rightarrow> bool" where
  "IsValidDPoPKeyThumbprint value =
     (if length value \<noteq> DPoPKeyThumbprintLength then False
      else case Option.bind (base64_digits value) base64_bytes of
        None \<Rightarrow> False
      | Some decoded \<Rightarrow> length decoded = 32 \<and> map (\<lambda>n. base64_alphabet ! n) (base64_encode decoded) = value)"

section \<open>Principals\<close>

datatype CredentialType =
    CredentialSessionAccess
  | CredentialPersonalAccessToken
  | CredentialTypeOther string

record Principal =
  pr_UserID :: string
  pr_AuthenticationGeneration :: int
  pr_MFARecoveryRequired :: bool
  pr_SessionID :: string
  pr_CredentialID :: string
  pr_CredentialType :: CredentialType
  pr_AuthenticationMethod :: string
  pr_AuthenticationProviderID :: string
  pr_ExternalIdentityID :: string
  pr_AuthenticationStrength :: AuthenticationStrength
  pr_ClientType :: SessionClientType
  pr_DesktopRegistrationID :: string
  pr_DPoPKeyThumbprint :: string
  pr_RegisteredDesktopKey :: bool
  pr_DesktopRelease :: string
  pr_DesktopBuildID :: string
  pr_DesktopPlatform :: DesktopPlatform
  pr_DesktopArchitecture :: DesktopArchitecture
  pr_DesktopRealtimeProtocol :: int
  pr_AuthenticatedAt :: gtime
  pr_ReauthenticatedAt :: optional_time
  pr_MFACompletedAt :: optional_time
  pr_CredentialScopes :: "string list"
  pr_AcademicUnitID :: string

definition no_desktop :: "Principal \<Rightarrow> bool" where
  "no_desktop p \<longleftrightarrow> pr_DesktopRegistrationID p = '''' \<and> pr_DPoPKeyThumbprint p = '''' \<and> pr_DesktopRelease p = ''''
     \<and> pr_DesktopBuildID p = '''' \<and> pr_DesktopPlatform p = DesktopPlatformOther ''''
     \<and> pr_DesktopArchitecture p = DesktopArchitectureOther '''' \<and> pr_DesktopRealtimeProtocol p = 0"

definition principal_error :: "string \<Rightarrow> go_error" where
  "principal_error reason = invalidModelError ''Principal.validateIdentity'' ''principal'' '''' reason ''''"

definition validate_session_principal :: "Principal \<Rightarrow> go_error option" where
  "validate_session_principal p =
     (if \<not> IsValidOpaqueID (pr_SessionID p) \<or> \<not> AuthenticationStrength_IsValid (pr_AuthenticationStrength p)
         \<or> IsZero (pr_AuthenticatedAt p) \<or> length (pr_CredentialScopes p) \<noteq> 0 \<or> pr_AcademicUnitID p \<noteq> '''' then
        Some (principal_error ''session principal is invalid'')
      else if pr_RegisteredDesktopKey p \<and> (pr_ClientType p \<noteq> SessionClientDesktop \<or> \<not> IsValidOpaqueID (pr_DesktopRegistrationID p)
         \<or> \<not> IsValidDPoPKeyThumbprint (pr_DPoPKeyThumbprint p) \<or> \<not> IsValidDesktopRelease (pr_DesktopRelease p)
         \<or> \<not> IsValidDesktopBuildID (pr_DesktopBuildID p) \<or> \<not> DesktopPlatform_IsValid (pr_DesktopPlatform p)
         \<or> \<not> DesktopArchitecture_IsValid (pr_DesktopArchitecture p) \<or> pr_DesktopRealtimeProtocol p < 1) then
        Some (principal_error ''registered Desktop-key principal is invalid'')
      else if \<not> pr_RegisteredDesktopKey p \<and> \<not> no_desktop p then
        Some (principal_error ''unproved Desktop-key principal is invalid'')
      else if (pr_AuthenticationMethod p = ''password'' \<and> (pr_AuthenticationProviderID p \<noteq> '''' \<or> pr_ExternalIdentityID p \<noteq> ''''))
         \<or> (pr_AuthenticationMethod p \<noteq> ''password''
              \<and> (\<not> IsValidIdentityProviderID (pr_AuthenticationProviderID p) \<or> \<not> IsValidOpaqueID (pr_ExternalIdentityID p))) then
        Some (principal_error ''session principal authentication provider is invalid'')
      else if ot_Valid (pr_ReauthenticatedAt p) \<and> Before (ot_Time (pr_ReauthenticatedAt p)) (pr_AuthenticatedAt p) then
        Some (principal_error ''session principal reauthentication is invalid'')
      else None)"

fun scopes_error :: "string list \<Rightarrow> string list \<Rightarrow> string option" where
  "scopes_error seen [] = None"
| "scopes_error seen (s # ss) =
     (if \<not> IsPersonalAccessTokenAction s then Some ''personal access token scope is invalid''
      else if List.member seen s then Some ''personal access token scope is duplicated''
      else scopes_error (s # seen) ss)"

definition validate_token_principal :: "Principal \<Rightarrow> go_error option" where
  "validate_token_principal p =
     (if pr_SessionID p \<noteq> '''' \<or> pr_AuthenticationStrength p \<noteq> AuthenticationStrengthOther '''' \<or> pr_MFARecoveryRequired p
         \<or> pr_AuthenticationGeneration p \<noteq> 0 \<or> pr_AuthenticationProviderID p \<noteq> '''' \<or> pr_ExternalIdentityID p \<noteq> ''''
         \<or> \<not> IsZero (pr_AuthenticatedAt p) \<or> ot_Valid (pr_ReauthenticatedAt p) \<or> ot_Valid (pr_MFACompletedAt p)
         \<or> pr_ClientType p \<noteq> SessionClientCLI \<or> pr_RegisteredDesktopKey p \<or> \<not> no_desktop p
         \<or> length (pr_CredentialScopes p) = 0
         \<or> (pr_AcademicUnitID p \<noteq> '''' \<and> \<not> IsValidOpaqueID (pr_AcademicUnitID p)) then
        Some (principal_error ''personal access token principal is invalid'')
      else map_option principal_error (scopes_error [] (pr_CredentialScopes p)))"

definition Principal_validateIdentity :: "Principal \<Rightarrow> go_error option" where
  "Principal_validateIdentity p =
     (if pr_AuthenticationGeneration p < 0 then
        Some (principal_error ''principal authentication generation is invalid'')
      else if \<not> IsValidOpaqueID (pr_UserID p) \<or> \<not> IsValidOpaqueID (pr_CredentialID p) \<or> pr_AuthenticationMethod p = ''''
         \<or> \<not> SessionClientType_IsValid (pr_ClientType p) then
        Some (principal_error ''principal identity is invalid'')
      else case pr_CredentialType p of
        CredentialSessionAccess \<Rightarrow> validate_session_principal p
      | CredentialPersonalAccessToken \<Rightarrow> validate_token_principal p
      | CredentialTypeOther _ \<Rightarrow> Some (principal_error ''principal credential type is invalid''))"

definition Principal_Validate :: "Principal \<Rightarrow> go_error option" where
  "Principal_Validate p =
     (if pr_MFARecoveryRequired p then
        Some (invalidModelError ''Principal.Validate'' ''principal'' '''' ''principal is restricted to MFA reenrollment'' '''')
      else Principal_validateIdentity p)"

definition Principal_ValidateMFARecovery :: "Principal \<Rightarrow> go_error option" where
  "Principal_ValidateMFARecovery p =
     (if pr_MFARecoveryRequired p \<and> (pr_AuthenticationGeneration p \<le> 0 \<or> pr_ClientType p \<noteq> SessionClientWeb
         \<or> pr_CredentialType p \<noteq> CredentialSessionAccess) then
        Some (invalidModelError ''Principal.ValidateMFARecovery'' ''principal'' '''' ''MFA recovery principal is invalid'' '''')
      else Principal_validateIdentity p)"

definition HasStrongAuthentication :: "Principal \<Rightarrow> bool" where
  "HasStrongAuthentication p \<longleftrightarrow> pr_AuthenticationStrength p = AuthenticationMultiFactor"

definition HasRegisteredDesktopKey :: "Principal \<Rightarrow> bool" where
  "HasRegisteredDesktopKey p \<longleftrightarrow> pr_RegisteredDesktopKey p \<and> pr_ClientType p = SessionClientDesktop
     \<and> IsValidOpaqueID (pr_DesktopRegistrationID p) \<and> IsValidDPoPKeyThumbprint (pr_DPoPKeyThumbprint p)"

definition LastAuthenticationAt :: "Principal \<Rightarrow> gtime" where
  "LastAuthenticationAt p =
     (let latest = (if ot_Valid (pr_ReauthenticatedAt p) \<and> After (ot_Time (pr_ReauthenticatedAt p)) (pr_AuthenticatedAt p)
            then ot_Time (pr_ReauthenticatedAt p) else pr_AuthenticatedAt p)
      in if ot_Valid (pr_MFACompletedAt p) \<and> After (ot_Time (pr_MFACompletedAt p)) latest then ot_Time (pr_MFACompletedAt p)
         else latest)"

text \<open>\<^verbatim>\<open>Sub\<close> saturates at the longest duration.\<close>

definition IsRecentlyAuthenticated :: "Principal \<Rightarrow> gtime \<Rightarrow> int \<Rightarrow> bool" where
  "IsRecentlyAuthenticated p now maximumAge =
     (if maximumAge \<le> 0 then False
      else
        let authenticatedAt = LastAuthenticationAt p
        in \<not> IsZero authenticatedAt \<and> \<not> After authenticatedAt (TimeUTC now)
           \<and> min maxInt64 (t_ns (TimeUTC now) - t_ns authenticatedAt) \<le> maximumAge)"

text \<open>A session principal carries no ceiling; a token carries only scopes that a token may carry.\<close>

lemma session_unlimited:
  "Principal_Validate p = None \<Longrightarrow> pr_CredentialType p = CredentialSessionAccess \<Longrightarrow> pr_AcademicUnitID p = '''' \<and> pr_CredentialScopes p = []"
  by (auto simp: Principal_Validate_def Principal_validateIdentity_def validate_session_principal_def guard_ok split: if_splits)

lemma scopes_error_None: "scopes_error seen ss = None \<Longrightarrow> s \<in> set ss \<Longrightarrow> IsPersonalAccessTokenAction s"
  by (induction ss arbitrary: seen) (auto split: if_splits)

lemma token_scopes:
  assumes "Principal_Validate p = None" and "pr_CredentialType p = CredentialPersonalAccessToken" and "s \<in> set (pr_CredentialScopes p)"
  shows "IsPersonalAccessTokenAction s"
  using assms scopes_error_None
  by (auto simp: Principal_Validate_def Principal_validateIdentity_def validate_token_principal_def split: if_splits)

lemma credential_types:
  "Principal_Validate p = None \<Longrightarrow> pr_CredentialType p = CredentialSessionAccess \<or> pr_CredentialType p = CredentialPersonalAccessToken"
  by (auto simp: Principal_Validate_def Principal_validateIdentity_def split: if_splits CredentialType.splits)

end
