(* ===== verification/AuditEvent.thy ===== *)
theory AuditEvent
  imports Authorization Json
begin

text \<open>
  \<^verbatim>\<open>server/model/audit_event.go\<close>: the security record, the normalisation of what comes from the
  transport, and validation.  The range over a map in the validation visits the three payloads in an
  order of its own, which is the argument \<open>order\<close>.  An absent payload is the empty string.  Of
  \<^verbatim>\<open>net/netip\<close> the source uses only whether an address parses.
\<close>

section \<open>IP addresses\<close>

definition decimal :: "string \<Rightarrow> nat" where
  "decimal s = foldl (\<lambda>n c. n * 10 + (of_char c - 48)) 0 s"

definition ipv4_octet :: "string \<Rightarrow> bool" where
  "ipv4_octet f \<longleftrightarrow> f \<noteq> '''' \<and> list_all json_digit f \<and> (length f > 1 \<longrightarrow> hd f \<noteq> CHR ''0'') \<and> decimal f \<le> 255"

definition parseIPv4Fields :: "string \<Rightarrow> bool" where
  "parseIPv4Fields s \<longleftrightarrow> (let fields = strings_Split CHR ''.'' s in length fields = 4 \<and> list_all ipv4_octet fields)"

text \<open>The loop over the groups of an IPv6 address: \<open>i\<close> bytes are filled, and \<open>ellipsis\<close> tells whether \<^verbatim>\<open>::\<close>
  was seen.  The result is what these two are when the whole text is used up.\<close>

function ipv6_groups :: "string \<Rightarrow> nat \<Rightarrow> bool \<Rightarrow> (nat \<times> bool) option" where
  "ipv6_groups s i ellipsis =
     (if i \<ge> 16 then (if s = '''' then Some (i, ellipsis) else None)
      else
        let digits = takeWhile is_hex s
        in if length digits > 4 \<or> length digits = 0 then None
           else (case dropWhile is_hex s of
                   [] \<Rightarrow> Some (i + 2, ellipsis)
                 | c # rest \<Rightarrow>
                     if c = CHR ''.'' then
                       (if \<not> ellipsis \<and> i \<noteq> 12 then None
                        else if i + 4 > 16 then None
                        else if parseIPv4Fields s then Some (i + 4, ellipsis)
                        else None)
                     else if c \<noteq> CHR '':'' then None
                     else (case rest of
                             [] \<Rightarrow> None
                           | d # rest' \<Rightarrow>
                               if d = CHR '':'' then
                                 (if ellipsis then None
                                  else if rest' = '''' then Some (i + 2, True)
                                  else ipv6_groups rest' (i + 2) True)
                               else ipv6_groups rest (i + 2) ellipsis)))"
  by pat_completeness auto
termination
  by (relation "measure (\<lambda>(s, i, e). 16 - i)") auto

definition ipv6_complete :: "(nat \<times> bool) option \<Rightarrow> bool" where
  "ipv6_complete r = (case r of None \<Rightarrow> False | Some (i, ellipsis) \<Rightarrow> if i < 16 then ellipsis else \<not> ellipsis)"

definition parseIPv6 :: "string \<Rightarrow> bool" where
  "parseIPv6 text = (case strings_Cut CHR ''%'' text of (s, zone, found) \<Rightarrow>
     if found \<and> zone = '''' then False
     else case s of
       a # b # rest \<Rightarrow>
         if a = CHR '':'' \<and> b = CHR '':'' then rest = '''' \<or> ipv6_complete (ipv6_groups rest 0 True)
         else ipv6_complete (ipv6_groups s 0 False)
     | _ \<Rightarrow> ipv6_complete (ipv6_groups s 0 False))"

definition ParseAddr :: "string \<Rightarrow> bool" where
  "ParseAddr s = (case find (\<lambda>c. c = CHR ''.'' \<or> c = CHR '':'' \<or> c = CHR ''%'') s of
       None \<Rightarrow> False
     | Some c \<Rightarrow> if c = CHR ''.'' then parseIPv4Fields s else if c = CHR '':'' then parseIPv6 s else False)"

section \<open>Audit events\<close>

definition AuditJSONMaxBytes :: nat where "AuditJSONMaxBytes = 16384"

datatype AuditStatus =
    AuditStatusAttempt
  | AuditStatusSuccess
  | AuditStatusFail
  | AuditStatusOther string

definition AuditErrorAttemptAbandoned :: string where "AuditErrorAttemptAbandoned = ''audit.attempt_abandoned''"

record AuditEvent =
  av_ID :: string
  av_CreatedAt :: gtime
  av_UpdatedAt :: gtime
  av_ActorID :: string
  av_SessionID :: string
  av_Action :: string
  av_Resource :: Resource
  av_ScopeType :: RoleScopeType
  av_ScopeID :: string
  av_Status :: AuditStatus
  av_RequestID :: string
  av_NodeID :: string
  av_ClientType :: string
  av_AuthMethod :: string
  av_IPAddress :: string
  av_UserAgent :: string
  av_ErrorCode :: string
  av_Parameters :: string
  av_PriorState :: string
  av_Result :: string

definition ToValidUTF8 :: "string \<Rightarrow> string" where
  "ToValidUTF8 s = to_string (concat (map snd (filter (\<lambda>c. \<not> ill_formed c) (chunks (bytes_of s)))))"

definition boundedString :: "string \<Rightarrow> nat \<Rightarrow> string" where
  "boundedString value limit =
     (let value' = ToValidUTF8 value in if length value' \<le> limit then value' else ToValidUTF8 (take limit value'))"

definition AuditEvent_normalize :: "AuditEvent \<Rightarrow> AuditEvent" where
  "AuditEvent_normalize ae = ae\<lparr>
     av_Action := TrimSpace (av_Action ae),
     av_RequestID := boundedString (TrimSpace (av_RequestID ae)) 128,
     av_NodeID := boundedString (TrimSpace (av_NodeID ae)) 128,
     av_ClientType := boundedString (TrimSpace (av_ClientType ae)) 32,
     av_AuthMethod := boundedString (TrimSpace (av_AuthMethod ae)) 64,
     av_IPAddress := boundedString (TrimSpace (av_IPAddress ae)) 64,
     av_UserAgent := boundedString (TrimSpace (av_UserAgent ae)) 512,
     av_ErrorCode := boundedString (TrimSpace (av_ErrorCode ae)) 128\<rparr>"

definition AuditEvent_PrepareCreate :: "AuditEvent \<Rightarrow> string \<Rightarrow> gtime \<Rightarrow> AuditEvent" where
  "AuditEvent_PrepareCreate ae ident at' =
     AuditEvent_normalize (ae\<lparr>av_ID := ident, av_CreatedAt := TimeUTC at', av_UpdatedAt := TimeUTC at'\<rparr>)"

definition AuditEvent_PrepareUpdate :: "AuditEvent \<Rightarrow> gtime \<Rightarrow> AuditEvent" where
  "AuditEvent_PrepareUpdate ae at' = ae\<lparr>av_UpdatedAt := TimeUTC at', av_ErrorCode := boundedString (TrimSpace (av_ErrorCode ae)) 128\<rparr>"

definition audit_payload :: "AuditEvent \<Rightarrow> string \<Rightarrow> string" where
  "audit_payload ae field =
     (if field = ''parameters'' then av_Parameters ae else if field = ''prior_state'' then av_PriorState ae else av_Result ae)"

definition invalid_payload :: "string \<Rightarrow> bool" where
  "invalid_payload value \<longleftrightarrow> length value > AuditJSONMaxBytes \<or> (length value > 0 \<and> \<not> json_Valid value)"

definition AuditEvent_Validate :: "string list \<Rightarrow> AuditEvent option \<Rightarrow> go_error option" where
  "AuditEvent_Validate order receiver =
     (let whr = ''AuditEvent.Validate''
      in case receiver of
           None \<Rightarrow> Some (invalidModelError whr ''audit_event'' ''value'' ''is required'' '''')
         | Some ae \<Rightarrow>
             if \<not> IsValidOpaqueID (av_ID ae) then
               Some (invalidModelError whr ''audit_event'' ''id'' ''must be a valid identifier'' '''')
             else
               let details = ''id='' @ av_ID ae
               in if IsZero (av_CreatedAt ae) \<or> IsZero (av_UpdatedAt ae) then
                    Some (invalidModelError whr ''audit_event'' ''created_at'' ''must be set'' details)
                  else if Before (av_UpdatedAt ae) (av_CreatedAt ae) then
                    Some (invalidModelError whr ''audit_event'' ''updated_at'' ''must not precede created_at'' details)
                  else if av_ActorID ae \<noteq> '''' \<and> \<not> IsValidOpaqueID (av_ActorID ae) then
                    Some (invalidModelError whr ''audit_event'' ''actor_id'' ''must be empty or a valid identifier'' details)
                  else if av_SessionID ae \<noteq> '''' \<and> \<not> IsValidOpaqueID (av_SessionID ae) then
                    Some (invalidModelError whr ''audit_event'' ''session_id'' ''must be empty or a valid identifier'' details)
                  else if length (av_Action ae) = 0 \<or> length (av_Action ae) > RolePermissionMaxLength \<or> \<not> validPermission (av_Action ae) then
                    Some (invalidModelError whr ''audit_event'' ''action'' ''must be a valid action'' details)
                  else if Resource_Validate (av_Resource ae) \<noteq> None then
                    Some (invalidModelError whr ''audit_event'' ''resource'' ''must identify a valid resource'' details)
                  else if \<not> RoleScopeType_IsValid (av_ScopeType ae) \<or> \<not> IsValidOpaqueID (av_ScopeID ae) then
                    Some (invalidModelError whr ''audit_event'' ''scope'' ''must identify a valid authorization scope'' details)
                  else if av_Status ae \<noteq> AuditStatusAttempt \<and> av_Status ae \<noteq> AuditStatusSuccess \<and> av_Status ae \<noteq> AuditStatusFail then
                    Some (invalidModelError whr ''audit_event'' ''status'' ''has an unknown value'' details)
                  else if av_NodeID ae = '''' then
                    Some (invalidModelError whr ''audit_event'' ''node_id'' ''must not be empty'' details)
                  else if av_IPAddress ae \<noteq> '''' \<and> \<not> ParseAddr (av_IPAddress ae) then
                    Some (invalidModelError whr ''audit_event'' ''ip_address'' ''must be a valid IP address'' details)
                  else (case find (\<lambda>field. invalid_payload (audit_payload ae field)) order of
                          None \<Rightarrow> None
                        | Some field \<Rightarrow> Some (invalidModelError whr ''audit_event'' field ''must be bounded valid JSON'' details)))"

lemma find_guard: "(case find P xs of None \<Rightarrow> None | Some x \<Rightarrow> Some (g x)) = None \<longleftrightarrow> (\<forall>x \<in> set xs. \<not> P x)"
  by (auto simp: find_None_iff find_Some_iff split: option.split)

lemma AuditEvent_Validate_ok:
  "AuditEvent_Validate order (Some ae) = None \<longleftrightarrow>
     IsValidOpaqueID (av_ID ae) \<and> \<not> IsZero (av_CreatedAt ae) \<and> \<not> IsZero (av_UpdatedAt ae) \<and> \<not> Before (av_UpdatedAt ae) (av_CreatedAt ae)
     \<and> (av_ActorID ae \<noteq> '''' \<longrightarrow> IsValidOpaqueID (av_ActorID ae)) \<and> (av_SessionID ae \<noteq> '''' \<longrightarrow> IsValidOpaqueID (av_SessionID ae))
     \<and> length (av_Action ae) \<noteq> 0 \<and> length (av_Action ae) \<le> RolePermissionMaxLength \<and> validPermission (av_Action ae)
     \<and> Resource_Validate (av_Resource ae) = None \<and> RoleScopeType_IsValid (av_ScopeType ae) \<and> IsValidOpaqueID (av_ScopeID ae)
     \<and> (av_Status ae = AuditStatusAttempt \<or> av_Status ae = AuditStatusSuccess \<or> av_Status ae = AuditStatusFail)
     \<and> av_NodeID ae \<noteq> '''' \<and> (av_IPAddress ae \<noteq> '''' \<longrightarrow> ParseAddr (av_IPAddress ae))
     \<and> (\<forall>field \<in> set order. \<not> invalid_payload (audit_payload ae field))"
  unfolding AuditEvent_Validate_def Let_def option.case guard_ok find_guard by auto

lemma sample_addresses:
  "ParseAddr ''192.168.0.1'' \<and> \<not> ParseAddr ''192.168.0.01'' \<and> \<not> ParseAddr ''1.2.3'' \<and> ParseAddr ''::1'' \<and> ParseAddr ''fe80::1%eth0''
   \<and> ParseAddr ''::ffff:10.0.0.1'' \<and> \<not> ParseAddr ''1::2::3'' \<and> \<not> ParseAddr ''1:2:3:4:5:6:7'' \<and> ParseAddr ''1:2:3:4:5:6:7:8''"
  by code_simp

end
