(* ===== verification/AuditStore.thy ===== *)
theory AuditStore
  imports AuditEvent JobStore
begin

text \<open>
  \<^verbatim>\<open>server/store/sqlstore/audit_store.go\<close> and the other statements on the table \<^verbatim>\<open>audit_events\<close>: insertion,
  completion of an attempt, the sweep of abandoned attempts and the removal of expired events.
  Arguments stand for what the database decides: fresh identifiers, the time, the locked rows, the
  order of the payload checks, and \<open>jsonb\<close>, the form in which a document is stored.
\<close>

section \<open>Rows\<close>

record audit_db =
  adb_events :: "AuditEvent list"
  adb_users :: "string list"
  adb_sessions :: "string list"

text \<open>A text that PostgreSQL stores: UTF-8 without a zero byte, and its bound in characters.\<close>

definition pg_text :: "string \<Rightarrow> bool" where
  "pg_text s \<longleftrightarrow> ValidString s \<and> \<not> List.member s (CHR 0x00)"

definition pg_long :: "nat \<Rightarrow> string \<Rightarrow> bool" where
  "pg_long n s \<longleftrightarrow> RuneCountInString s > n"

definition newAuditRow :: "(string \<Rightarrow> string option) \<Rightarrow> AuditEvent \<Rightarrow> AuditEvent option" where
  "newAuditRow jsonb event =
     (case (nullableJSON jsonb (av_Parameters event), nullableJSON jsonb (av_PriorState event), nullableJSON jsonb (av_Result event)) of
        (Some parameters, Some prior, Some result) \<Rightarrow>
          Some (event\<lparr>av_CreatedAt := TimeUTC (av_CreatedAt event), av_UpdatedAt := TimeUTC (av_UpdatedAt event),
            av_Parameters := parameters, av_PriorState := prior, av_Result := result\<rparr>)
      | _ \<Rightarrow> None)"

definition audit_reject :: "audit_db \<Rightarrow> AuditEvent \<Rightarrow> go_error option" where
  "audit_reject db r =
     (if \<not> list_all pg_text [av_Action r, av_RequestID r, av_NodeID r, av_ClientType r, av_AuthMethod r, av_IPAddress r, av_UserAgent r,
            av_ErrorCode r] then Some (StoreError ErrDriver ''audit_event'' ''invalid byte sequence'')
      else if pg_long 128 (av_Action r) \<or> pg_long 128 (av_RequestID r) \<or> pg_long 128 (av_NodeID r) \<or> pg_long 32 (av_ClientType r)
            \<or> pg_long 64 (av_AuthMethod r) \<or> pg_long 64 (av_IPAddress r) \<or> pg_long 512 (av_UserAgent r) \<or> pg_long 128 (av_ErrorCode r) then
        Some (StoreError ErrInvalidInput ''audit_event'' ''string data right truncation'')
      else if \<not> IsValidOpaqueID (av_ID r) \<or> (av_ActorID r \<noteq> '''' \<and> \<not> IsValidOpaqueID (av_ActorID r))
            \<or> (av_SessionID r \<noteq> '''' \<and> \<not> IsValidOpaqueID (av_SessionID r)) \<or> Resource_Validate (av_Resource r) \<noteq> None
            \<or> \<not> RoleScopeType_IsValid (av_ScopeType r) \<or> \<not> IsValidOpaqueID (av_ScopeID r)
            \<or> \<not> List.member [AuditStatusAttempt, AuditStatusSuccess, AuditStatusFail] (av_Status r)
            \<or> Before (av_UpdatedAt r) (av_CreatedAt r) then
        Some (StoreError ErrInvalidInput ''audit_event'' ''audit_events_check'')
      else if list_ex (\<lambda>e. av_ID e = av_ID r) (adb_events db) then
        Some (StoreError ErrConflict ''audit_event'' ''audit_events_pkey'')
      else if (av_ActorID r \<noteq> '''' \<and> \<not> List.member (adb_users db) (av_ActorID r))
            \<or> (av_SessionID r \<noteq> '''' \<and> \<not> List.member (adb_sessions db) (av_SessionID r)) then
        Some (StoreError ErrReference ''audit_event'' ''audit_events_fkey'')
      else None)"

definition validatePersistedResourceID :: "ResourceType \<Rightarrow> string \<Rightarrow> go_error option" where
  "validatePersistedResourceID resourceType raw =
     (if List.member [ResourceInstitution, ResourceAcademicUnit, ResourceProgramme, ResourceProgrammeLevel, ResourceClass, ResourceUser] resourceType
         \<and> \<not> IsValidOpaqueID raw
      then Some (StoreError ErrInvalidState ''audit_event'' ''resource_id'') else None)"

definition validatePersistedScopeID :: "string \<Rightarrow> RoleScopeType \<Rightarrow> string \<Rightarrow> go_error option" where
  "validatePersistedScopeID entity scopeType raw =
     (if List.member [RoleScopeInstitution, RoleScopeAcademicUnit, RoleScopeClass] scopeType \<and> \<not> IsValidOpaqueID raw
      then Some (StoreError ErrInvalidState entity ''scope_id'') else None)"

definition auditRow_model :: "string list \<Rightarrow> AuditEvent \<Rightarrow> go_error + AuditEvent" where
  "auditRow_model order r =
     (if \<not> IsValidOpaqueID (av_ID r) then Inl (StoreError ErrInvalidState ''audit_event'' ''id'')
      else if av_ActorID r \<noteq> '''' \<and> \<not> IsValidOpaqueID (av_ActorID r) then Inl (StoreError ErrInvalidState ''audit_event'' ''actor_id'')
      else if av_SessionID r \<noteq> '''' \<and> \<not> IsValidOpaqueID (av_SessionID r) then Inl (StoreError ErrInvalidState ''audit_event'' ''session_id'')
      else case validatePersistedResourceID (re_Type (av_Resource r)) (re_ID (av_Resource r)) of
        Some e \<Rightarrow> Inl e
      | None \<Rightarrow> (case validatePersistedScopeID ''audit_event'' (av_ScopeType r) (av_ScopeID r) of
          Some e \<Rightarrow> Inl e
        | None \<Rightarrow> (case validatePersistedModel ''audit_event'' (AuditEvent_Validate order (Some r)) of
            Some e \<Rightarrow> Inl e
          | None \<Rightarrow> Inr r)))"

section \<open>Insertion\<close>

definition insert_row :: "(string \<Rightarrow> string option) \<Rightarrow> AuditEvent \<Rightarrow> audit_db \<Rightarrow> go_error + audit_db" where
  "insert_row jsonb event db = (case newAuditRow jsonb event of
       None \<Rightarrow> Inl (StoreError ErrDriver ''audit_event'' ''jsonb'')
     | Some row \<Rightarrow> (case audit_reject db row of
         Some e \<Rightarrow> Inl e
       | None \<Rightarrow> Inr (db\<lparr>adb_events := adb_events db @ [row]\<rparr>)))"

definition insertAuditEventBetween ::
    "(string \<Rightarrow> string option) \<Rightarrow> string list \<Rightarrow> string \<Rightarrow> AuditEvent option \<Rightarrow> gtime \<Rightarrow> gtime \<Rightarrow> audit_db \<Rightarrow> audit_db \<times> (go_error + AuditEvent)" where
  "insertAuditEventBetween jsonb order newID event createdAt updatedAt db = (case event of
       None \<Rightarrow> (db, Inl (StoreError ErrInvalidInput ''audit_event'' ''value''))
     | Some e \<Rightarrow>
         if av_ID e \<noteq> '''' then (db, Inl (StoreError ErrInvalidInput ''audit_event'' ''id''))
         else
           let candidate = AuditEvent_PrepareUpdate (AuditEvent_PrepareCreate e newID createdAt) updatedAt
           in (case AuditEvent_Validate order (Some candidate) of
                 Some invalid \<Rightarrow> (db, Inl invalid)
               | None \<Rightarrow> (case insert_row jsonb candidate db of
                   Inl err \<Rightarrow> (db, Inl err)
                 | Inr db' \<Rightarrow> (db', Inr candidate))))"

definition AuditStore_Save ::
    "(string \<Rightarrow> string option) \<Rightarrow> string list \<Rightarrow> string \<Rightarrow> gtime \<Rightarrow> AuditEvent option \<Rightarrow> audit_db \<Rightarrow> audit_db \<times> (go_error + AuditEvent)" where
  "AuditStore_Save jsonb order newID now event db = insertAuditEventBetween jsonb order newID event (TimeUTC now) (TimeUTC now) db"

text \<open>The first event of an installation is inserted without preparation.\<close>

definition insertInstallationAudit :: "(string \<Rightarrow> string option) \<Rightarrow> AuditEvent \<Rightarrow> audit_db \<Rightarrow> audit_db \<times> (go_error + unit)" where
  "insertInstallationAudit jsonb event db = (case insert_row jsonb event db of
       Inl e \<Rightarrow> (db, Inl e)
     | Inr db' \<Rightarrow> (db', Inr ()))"

section \<open>Completion, abandonment and expiry\<close>

definition greatest_time :: "gtime \<Rightarrow> gtime \<Rightarrow> gtime" where
  "greatest_time a b = (if After b a then b else a)"

definition completeAuditEvent ::
    "(string \<Rightarrow> string option) \<Rightarrow> string list \<Rightarrow> string \<Rightarrow> AuditStatus \<Rightarrow> string \<Rightarrow> string \<Rightarrow> gtime \<Rightarrow> audit_db \<Rightarrow> audit_db \<times> (go_error + AuditEvent)" where
  "completeAuditEvent jsonb order ident status errorCode result updateAt db =
     (if status \<noteq> AuditStatusSuccess \<and> status \<noteq> AuditStatusFail then (db, Inl (StoreError ErrInvalidInput ''audit_event'' ''status''))
      else if IsZero updateAt \<or> invalid_payload result then (db, Inl (StoreError ErrInvalidInput ''audit_event'' ''completion''))
      else if \<not> pg_text errorCode \<or> \<not> pg_text ident then (db, Inl (StoreError ErrDriver ''audit_event'' ''invalid byte sequence''))
      else case nullableJSON jsonb result of
        None \<Rightarrow> (db, Inl (StoreError ErrDriver ''audit_event'' ''jsonb''))
      | Some stored \<Rightarrow> (case find (\<lambda>e. av_ID e = ident \<and> av_Status e = AuditStatusAttempt) (adb_events db) of
          None \<Rightarrow> (db, Inl (StoreError ErrNotFound ''audit_event'' ident))
        | Some e \<Rightarrow>
            if pg_long 128 errorCode then (db, Inl (StoreError ErrInvalidInput ''audit_event'' ''string data right truncation''))
            else
              let row = e\<lparr>av_UpdatedAt := greatest_time (av_UpdatedAt e) (TimeUTC updateAt), av_Status := status,
                    av_ErrorCode := errorCode, av_Result := stored\<rparr>
              in (db\<lparr>adb_events := map (\<lambda>x. if av_ID x = ident \<and> av_Status x = AuditStatusAttempt then row else x) (adb_events db)\<rparr>,
                  auditRow_model order row)))"

definition MaximumAuditAttemptAbandonmentBatch :: int where "MaximumAuditAttemptAbandonmentBatch = 1000"

text \<open>\<^verbatim>\<open>UPDATE ... SET status = 'fail'\<close> on the attempts with the given identifiers.\<close>

definition fail_attempts :: "string list \<Rightarrow> string \<Rightarrow> gtime \<Rightarrow> audit_db \<Rightarrow> audit_db" where
  "fail_attempts ids code now db = db\<lparr>adb_events := map (\<lambda>e.
     if List.member ids (av_ID e) \<and> av_Status e = AuditStatusAttempt then
       e\<lparr>av_UpdatedAt := greatest_time (av_UpdatedAt e) (TimeUTC now), av_Status := AuditStatusFail, av_ErrorCode := code\<rparr>
     else e) (adb_events db)\<rparr>"

definition abandoned :: "int \<Rightarrow> int \<Rightarrow> string list \<Rightarrow> gtime \<Rightarrow> audit_db \<Rightarrow> string list" where
  "abandoned age limit locked now db =
     map av_ID (take (nat limit) (sort_key (\<lambda>e. (t_ns (av_CreatedAt e), av_ID e))
       (filter (\<lambda>e. av_Status e = AuditStatusAttempt \<and> t_ns (av_CreatedAt e) < t_ns (TimeUTC now) - age div 1000000 * 1000000
          \<and> \<not> List.member locked (av_ID e)) (adb_events db))))"

definition FailAbandonedAttempts ::
    "(int \<times> int) option \<Rightarrow> string list \<Rightarrow> gtime \<Rightarrow> audit_db \<Rightarrow> audit_db \<times> (go_error + nat)" where
  "FailAbandonedAttempts input locked now db = (case input of
       None \<Rightarrow> (db, Inl (StoreError ErrInvalidInput ''audit_event'' ''abandonment''))
     | Some (age, limit) \<Rightarrow>
         if age \<le> 0 \<or> limit < 1 \<or> limit > MaximumAuditAttemptAbandonmentBatch then
           (db, Inl (StoreError ErrInvalidInput ''audit_event'' ''abandonment''))
         else
           let ids = abandoned age limit locked now db
           in (fail_attempts ids AuditErrorAttemptAbandoned now db, Inr (length ids)))"

definition expire_audit_event :: "string \<Rightarrow> audit_db \<Rightarrow> audit_db" where
  "expire_audit_event ident db = db\<lparr>adb_events := filter (\<lambda>e. \<not> (av_ID e = ident \<and> av_Status e \<noteq> AuditStatusAttempt)) (adb_events db)\<rparr>"

section \<open>The trail\<close>

text \<open>Every statement of the program on the table, and any change of the tables it refers to.\<close>

inductive audit_step :: "audit_db \<Rightarrow> audit_db \<Rightarrow> bool" where
  save: "insertAuditEventBetween jsonb order newID event createdAt updatedAt db = (db', r) \<Longrightarrow> audit_step db db'"
| install: "insertInstallationAudit jsonb event' db = (db', r') \<Longrightarrow> audit_step db db'"
| complete: "completeAuditEvent jsonb order ident status code result at' db = (db', r) \<Longrightarrow> audit_step db db'"
| sweep: "FailAbandonedAttempts input locked now db = (db', r'') \<Longrightarrow> audit_step db db'"
| fail: "audit_step db (fail_attempts ids code now db)"
| expire: "audit_step db (expire_audit_event ident db)"
| other: "adb_events db' = adb_events db \<Longrightarrow> audit_step db db'"

definition same_record :: "AuditEvent \<Rightarrow> AuditEvent \<Rightarrow> bool" where
  "same_record e e' \<longleftrightarrow> e'\<lparr>av_UpdatedAt := av_UpdatedAt e, av_Status := av_Status e, av_ErrorCode := av_ErrorCode e, av_Result := av_Result e\<rparr> = e"

definition audit_follows :: "AuditEvent \<Rightarrow> AuditEvent \<Rightarrow> bool" where
  "audit_follows e e' \<longleftrightarrow> same_record e e' \<and> \<not> Before (av_UpdatedAt e') (av_UpdatedAt e)
     \<and> (e' = e \<or> av_Status e = AuditStatusAttempt \<and> (av_Status e' = AuditStatusSuccess \<or> av_Status e' = AuditStatusFail))"

lemma audit_follows_refl [simp]: "audit_follows e e"
  by (simp add: audit_follows_def same_record_def Before_def)

lemma audit_follows_trans: "audit_follows a b \<Longrightarrow> audit_follows b c \<Longrightarrow> audit_follows a c"
  by (auto simp: audit_follows_def)

lemma audit_follows_id: "audit_follows e e' \<Longrightarrow> av_ID e' = av_ID e"
  by (cases e; cases e') (auto simp: audit_follows_def same_record_def)

lemma greatest_time_not_before: "\<not> Before (greatest_time a b) a"
  by (auto simp: greatest_time_def Before_def After_def)

lemma resolved_follows:
  "av_Status e = AuditStatusAttempt \<Longrightarrow> status = AuditStatusSuccess \<or> status = AuditStatusFail \<Longrightarrow>
   audit_follows e (e\<lparr>av_UpdatedAt := greatest_time (av_UpdatedAt e) t, av_Status := status, av_ErrorCode := code\<rparr>)"
  "av_Status e = AuditStatusAttempt \<Longrightarrow> status = AuditStatusSuccess \<or> status = AuditStatusFail \<Longrightarrow>
   audit_follows e (e\<lparr>av_UpdatedAt := greatest_time (av_UpdatedAt e) t, av_Status := status, av_ErrorCode := code, av_Result := result\<rparr>)"
  by (auto simp: audit_follows_def same_record_def greatest_time_not_before)

definition distinct_events :: "audit_db \<Rightarrow> bool" where
  "distinct_events db \<longleftrightarrow> distinct (map av_ID (adb_events db))"

lemma unique_event: "distinct_events db \<Longrightarrow> e \<in> set (adb_events db) \<Longrightarrow> e' \<in> set (adb_events db) \<Longrightarrow> av_ID e' = av_ID e \<Longrightarrow> e' = e"
  by (auto simp: distinct_events_def distinct_map inj_on_def)

text \<open>What a step does to the table: it adds a row with a new identifier, replaces rows by what follows
  them, or removes finished ones.\<close>

definition events_evolve :: "AuditEvent list \<Rightarrow> AuditEvent list \<Rightarrow> bool" where
  "events_evolve es es' \<longleftrightarrow> (\<exists>e. es' = es @ [e] \<and> (\<forall>x \<in> set es. av_ID x \<noteq> av_ID e))
     \<or> (\<exists>f. es' = map f es \<and> (\<forall>e \<in> set es. audit_follows e (f e)))
     \<or> (\<exists>P. es' = filter P es \<and> (\<forall>e \<in> set es. av_Status e = AuditStatusAttempt \<longrightarrow> P e))"

lemma events_evolve_refl [simp]: "events_evolve es es"
  unfolding events_evolve_def by (rule disjI2, rule disjI1, rule exI [of _ "\<lambda>e. e"]) simp

lemma evolve_map: "es' = map f es \<Longrightarrow> (\<And>e. e \<in> set es \<Longrightarrow> audit_follows e (f e)) \<Longrightarrow> events_evolve es es'"
  unfolding events_evolve_def by blast

lemma audit_reject_fresh: "audit_reject db r = None \<Longrightarrow> \<forall>x \<in> set (adb_events db). av_ID x \<noteq> av_ID r"
  unfolding audit_reject_def guard_ok by (simp add: list_ex_iff)

lemma insert_row_evolves: "insert_row jsonb event db = Inr db' \<Longrightarrow> events_evolve (adb_events db) (adb_events db')"
  by (auto simp: insert_row_def events_evolve_def dest: audit_reject_fresh split: option.splits)

lemma fail_attempts_evolves: "events_evolve (adb_events db) (adb_events (fail_attempts ids code now db))"
  by (rule evolve_map [where f = "\<lambda>e. if List.member ids (av_ID e) \<and> av_Status e = AuditStatusAttempt then
       e\<lparr>av_UpdatedAt := greatest_time (av_UpdatedAt e) (TimeUTC now), av_Status := AuditStatusFail, av_ErrorCode := code\<rparr> else e"])
    (auto simp: fail_attempts_def intro: resolved_follows)

lemma complete_evolves:
  assumes "distinct_events db" and "completeAuditEvent jsonb order ident status code result at' db = (db', r)"
  shows "events_evolve (adb_events db) (adb_events db')"
proof (cases "db' = db")
  case False
  let ?f = "find (\<lambda>e. av_ID e = ident \<and> av_Status e = AuditStatusAttempt) (adb_events db)"
  obtain e stored where f: "?f = Some e" "nullableJSON jsonb result = Some stored" "status = AuditStatusSuccess \<or> status = AuditStatusFail"
    "adb_events db' = map (\<lambda>x. if av_ID x = ident \<and> av_Status x = AuditStatusAttempt then e\<lparr>av_UpdatedAt := greatest_time (av_UpdatedAt e) (TimeUTC at'),
       av_Status := status, av_ErrorCode := code, av_Result := stored\<rparr> else x) (adb_events db)"
    using assms(2) False by (auto simp: completeAuditEvent_def Let_def split: if_splits option.splits)
  have e: "e \<in> set (adb_events db)" "av_ID e = ident" "av_Status e = AuditStatusAttempt" using f(1) by (auto simp: find_Some_iff)
  show ?thesis
  proof (rule evolve_map [OF f(4)])
    fix x assume "x \<in> set (adb_events db)"
    then have "av_ID x = ident \<Longrightarrow> x = e" using unique_event [OF assms(1) e(1)] e(2) by simp
    then show "audit_follows x (if av_ID x = ident \<and> av_Status x = AuditStatusAttempt then e\<lparr>av_UpdatedAt := greatest_time (av_UpdatedAt e) (TimeUTC at'),
       av_Status := status, av_ErrorCode := code, av_Result := stored\<rparr> else x)"
      using resolved_follows(2) [OF e(3) f(3)] by (cases "x = e") auto
  qed
qed simp

lemma audit_step_evolves: "audit_step db db' \<Longrightarrow> distinct_events db \<Longrightarrow> events_evolve (adb_events db) (adb_events db')"
proof (induction rule: audit_step.induct)
  case (save jsonb order newID event createdAt updatedAt db db' r)
  then show ?case
    by (auto simp: insertAuditEventBetween_def Let_def intro: insert_row_evolves split: option.splits if_splits sum.splits)
next
  case (install jsonb event' db db' r')
  then show ?case by (auto simp: insertInstallationAudit_def intro: insert_row_evolves split: sum.splits)
next
  case (sweep input locked now db db' r'')
  then show ?case by (auto simp: FailAbandonedAttempts_def Let_def intro: fail_attempts_evolves split: option.splits if_splits)
next
  case (expire db ident)
  then show ?case unfolding events_evolve_def expire_audit_event_def by fastforce
qed (auto intro: complete_evolves fail_attempts_evolves)

lemma events_evolve_distinct: "events_evolve es es' \<Longrightarrow> distinct (map av_ID es) \<Longrightarrow> distinct (map av_ID es')"
proof -
  assume d: "distinct (map av_ID es)" and "events_evolve es es'"
  then consider e where "es' = es @ [e]" "\<forall>x \<in> set es. av_ID x \<noteq> av_ID e"
    | f where "es' = map f es" "\<forall>e \<in> set es. audit_follows e (f e)" | P where "es' = filter P es"
    unfolding events_evolve_def by blast
  then show ?thesis
  proof cases
    case (2 f)
    then have "map av_ID es' = map av_ID es" by (simp add: audit_follows_id)
    then show ?thesis using d by (simp only:)
  qed (use d in \<open>auto simp: distinct_map_filter image_iff\<close>)
qed

lemma events_evolve_attempt:
  "events_evolve es es' \<Longrightarrow> e \<in> set es \<Longrightarrow> av_Status e = AuditStatusAttempt \<Longrightarrow> \<exists>e' \<in> set es'. av_ID e' = av_ID e \<and> audit_follows e e'"
  by (force simp: events_evolve_def audit_follows_id)

lemma events_evolve_kept:
  assumes "events_evolve es es'" and "distinct (map av_ID es)" and e: "e \<in> set es" and "av_ID e \<in> av_ID ` set es'"
  shows "\<exists>e' \<in> set es'. av_ID e' = av_ID e \<and> audit_follows e e'"
proof -
  consider x where "es' = es @ [x]" | f where "es' = map f es" "\<forall>e \<in> set es. audit_follows e (f e)" | P where "es' = filter P es"
    using assms(1) unfolding events_evolve_def by blast
  then show ?thesis
  proof cases
    case (3 P)
    then obtain x where x: "x \<in> set es'" "av_ID x = av_ID e" "x \<in> set es" using assms(4) by auto
    then have "x = e" using assms(2) e by (auto simp: distinct_map inj_on_def)
    then show ?thesis using x by auto
  next
    case (2 f)
    then show ?thesis using e by (intro bexI [of _ "f e"]) (auto simp: audit_follows_id)
  qed (use e in auto)
qed

text \<open>C13. The audit trail cannot be rewritten.  While an event is kept, whatever the statements that run, it
  stays the same record of who did what on which resource and scope; an attempt is resolved at most
  once, to success or failure, and a resolved event never changes.  No statement removes an attempt
  that is not resolved.  Completing an event that is absent or already resolved reports that there is
  no such event and changes nothing.\<close>
theorem audit_trail_final:
  assumes "distinct_events db"
  shows "((\<lambda>a b. audit_step a b \<and> av_ID e \<in> av_ID ` set (adb_events b))\<^sup>*\<^sup>* db db' \<longrightarrow> e \<in> set (adb_events db) \<longrightarrow>
           (\<exists>e' \<in> set (adb_events db'). av_ID e' = av_ID e \<and> audit_follows e e'))
    \<and> (audit_step db d1 \<longrightarrow> e \<in> set (adb_events db) \<longrightarrow> av_Status e = AuditStatusAttempt \<longrightarrow> (\<exists>e' \<in> set (adb_events d1). av_ID e' = av_ID e))
    \<and> (e \<in> set (adb_events db) \<longrightarrow> av_Status e \<noteq> AuditStatusAttempt \<longrightarrow>
        fst (completeAuditEvent jsonb order (av_ID e) status code result at' db) = db
        \<and> isl (snd (completeAuditEvent jsonb order (av_ID e) status code result at' db)))"
proof (intro conjI impI)
  assume "(\<lambda>a b. audit_step a b \<and> av_ID e \<in> av_ID ` set (adb_events b))\<^sup>*\<^sup>* db db'" and e: "e \<in> set (adb_events db)"
  then have "distinct_events db' \<and> (\<exists>e' \<in> set (adb_events db'). av_ID e' = av_ID e \<and> audit_follows e e')"
  proof (induction rule: rtranclp_induct)
    case base
    show ?case using assms e by auto
  next
    case (step a b)
    then obtain m where m: "m \<in> set (adb_events a)" "av_ID m = av_ID e" "audit_follows e m" by auto
    have ev: "events_evolve (adb_events a) (adb_events b)" using step by (auto intro: audit_step_evolves)
    with step(2,3) m obtain e' where "e' \<in> set (adb_events b)" "av_ID e' = av_ID m" "audit_follows m e'"
      using events_evolve_kept [OF ev, of m] e by (auto simp: distinct_events_def)
    then show ?case using m step(3) e ev by (auto simp: distinct_events_def intro: audit_follows_trans events_evolve_distinct)
  qed
  then show "\<exists>e' \<in> set (adb_events db'). av_ID e' = av_ID e \<and> audit_follows e e'" ..
next
  assume "audit_step db d1" "e \<in> set (adb_events db)" "av_Status e = AuditStatusAttempt"
  then show "\<exists>e' \<in> set (adb_events d1). av_ID e' = av_ID e"
    using events_evolve_attempt [OF audit_step_evolves] assms by blast
next
  assume e: "e \<in> set (adb_events db)" "av_Status e \<noteq> AuditStatusAttempt"
  then have "find (\<lambda>x. av_ID x = av_ID e \<and> av_Status x = AuditStatusAttempt) (adb_events db) = None"
    using unique_event [OF assms e(1)] by (auto simp: find_None_iff)
  then show "fst (completeAuditEvent jsonb order (av_ID e) status code result at' db) = db"
    and "isl (snd (completeAuditEvent jsonb order (av_ID e) status code result at' db))"
    by (auto simp: completeAuditEvent_def split: option.split)
qed

definition sample_audit_event :: AuditEvent where
  "sample_audit_event = \<lparr>av_ID = replicate 26 CHR ''e'', av_CreatedAt = sample_instant 1, av_UpdatedAt = sample_instant 1, av_ActorID = '''',
     av_SessionID = '''', av_Action = ''exam.view'', av_Resource = \<lparr>re_Type = ResourceExam, re_ID = replicate 26 CHR ''x''\<rparr>,
     av_ScopeType = RoleScopeAcademicUnit, av_ScopeID = replicate 26 CHR ''d'', av_Status = AuditStatusAttempt, av_RequestID = '''',
     av_NodeID = ''n'', av_ClientType = '''', av_AuthMethod = '''', av_IPAddress = '''', av_UserAgent = '''', av_ErrorCode = '''',
     av_Parameters = '''', av_PriorState = '''', av_Result = ''''\<rparr>"

definition sample_audit_db :: audit_db where
  "sample_audit_db = \<lparr>adb_events = [sample_audit_event], adb_users = [], adb_sessions = []\<rparr>"

theorem audit_trail_final_witness:
  "distinct_events sample_audit_db
   \<and> (\<exists>e'. List.member (adb_events (fail_attempts [replicate 26 CHR ''e''] ''x'' (sample_instant 2) sample_audit_db)) e' \<and> audit_follows sample_audit_event e')"
proof
  show d: "distinct_events sample_audit_db" by (simp add: distinct_events_def sample_audit_db_def)
  let ?d = "fail_attempts [replicate 26 CHR ''e''] ''x'' (sample_instant 2) sample_audit_db"
  have "audit_step sample_audit_db ?d" by (rule audit_step.fail)
  moreover have "av_ID sample_audit_event \<in> av_ID ` set (adb_events ?d)"
    by (simp add: fail_attempts_def sample_audit_db_def sample_audit_event_def)
  ultimately have "(\<lambda>a b. audit_step a b \<and> av_ID sample_audit_event \<in> av_ID ` set (adb_events b))\<^sup>*\<^sup>* sample_audit_db ?d" by blast
  then show "\<exists>e'. List.member (adb_events ?d) e' \<and> audit_follows sample_audit_event e'"
    using audit_trail_final [OF d, of sample_audit_event ?d, THEN conjunct1] unfolding List.member_iff
    by (auto simp: sample_audit_db_def)
qed

end
