(* ===== verification/AccessControl.thy ===== *)
theory AccessControl
  imports AcademicHierarchy Principal AuditStore
begin

text \<open>
  \<^verbatim>\<open>server/app/authorization.go\<close>, \<^verbatim>\<open>server/app/access_scope.go\<close>, the decision recorder of
  \<^verbatim>\<open>server/app/audit.go\<close> and the store table of \<^verbatim>\<open>server/app/apperror/store.go\<close>: the resolution of a
  resource to its scopes, the decision, its record, the scopes of a list query, and delegation.  The
  stores are the record \<open>access_ports\<close> of the reads that the service makes, as the dependencies are
  interfaces in the source; \<open>sql_ports\<close> instantiates it with the SQL reads of one state of the
  database.  An argument \<open>now\<close> is a reading of the clock.  A wrapped cause of an application error
  is not observable and is dropped.
\<close>

section \<open>Application errors\<close>

datatype app_error = AppError (app_code: string) (app_fields: "(string \<times> string) list")

record StoreTable =
  st_Rules :: "((go_error \<Rightarrow> bool) \<times> string) list"
  st_Constraints :: "(string \<times> string) list"
  st_NotFound :: string
  st_Conflict :: string
  st_Reference :: string
  st_Invalid :: string
  st_InvalidField :: string
  st_Unavailable :: string
  st_Fields :: "(string \<times> string) list"

definition StoreTable_or :: "StoreTable \<Rightarrow> string \<Rightarrow> string" where
  "StoreTable_or t code = (if code = '''' then st_Unavailable t else code)"

definition StoreTable_code :: "StoreTable \<Rightarrow> go_error \<Rightarrow> string \<times> string" where
  "StoreTable_code t err = (case find (\<lambda>r. fst r err) (st_Rules t) of
       Some r \<Rightarrow> (snd r, '''')
     | None \<Rightarrow> (case err of
         StoreError ErrConflict _ constraint \<Rightarrow>
           (case map_of (st_Constraints t) constraint of
              Some code \<Rightarrow> (code, '''')
            | None \<Rightarrow> (StoreTable_or t (st_Conflict t), ''''))
       | StoreError ErrNotFound _ _ \<Rightarrow> (StoreTable_or t (st_NotFound t), '''')
       | StoreError ErrReference _ _ \<Rightarrow> (StoreTable_or t (st_Reference t), '''')
       | StoreError ErrInvalidInput _ _ \<Rightarrow>
           if st_Invalid t \<noteq> '''' then (st_Invalid t, st_InvalidField t) else (st_Unavailable t, '''')
       | _ \<Rightarrow> (st_Unavailable t, '''')))"

definition StoreTable_Translate :: "StoreTable \<Rightarrow> go_error \<Rightarrow> app_error" where
  "StoreTable_Translate t err = (case StoreTable_code t err of (code, field) \<Rightarrow>
     AppError code (st_Fields t @ (if field \<noteq> '''' then [(''field'', field)] else [])))"

definition AdministrationStoreTable :: "string \<Rightarrow> string \<Rightarrow> string \<Rightarrow> (string \<times> string) list \<Rightarrow> StoreTable" where
  "AdministrationStoreTable resource conflict invalid constraints = \<lparr>st_Rules = [], st_Constraints = constraints,
     st_NotFound = ''resource.not_found'', st_Conflict = conflict, st_Reference = invalid, st_Invalid = invalid, st_InvalidField = '''',
     st_Unavailable = ''administration.unavailable'', st_Fields = [(''resource'', resource)]\<rparr>"

definition institutionStoreErrors :: StoreTable where
  "institutionStoreErrors = AdministrationStoreTable ''institution'' ''institution.conflict'' ''institution.invalid'' []"

definition authorizationResourceError :: "string \<Rightarrow> go_error \<Rightarrow> app_error" where
  "authorizationResourceError resource = StoreTable_Translate \<lparr>st_Rules = [], st_Constraints = [], st_NotFound = ''resource.not_found'',
     st_Conflict = '''', st_Reference = '''', st_Invalid = '''', st_InvalidField = '''', st_Unavailable = ''authorization.unavailable'',
     st_Fields = [(''resource'', resource)]\<rparr>"

definition authorizationUnavailableError :: app_error where
  "authorizationUnavailableError = AppError ''authorization.unavailable'' []"

definition authorizationDeniedError :: app_error where
  "authorizationDeniedError = AppError ''authorization.denied'' []"

definition invalidTokenAppError :: app_error where
  "invalidTokenAppError = AppError ''authentication.token_invalid'' []"

definition request_invalid :: app_error where
  "request_invalid = AppError ''authorization.request.invalid'' []"

definition not_found :: "string \<Rightarrow> app_error" where
  "not_found resource = AppError ''resource.not_found'' [(''resource'', resource)]"

section \<open>The collaborators\<close>

record UserVisibilityScope =
  vs_InstitutionWide :: bool
  vs_AcademicUnitRootIDs :: "string list"
  vs_ClassMemberInstitutionWide :: bool
  vs_ClassMemberAcademicUnitRootIDs :: "string list"
  vs_ClassIDs :: "string list"
  vs_ActiveAt :: gtime

record access_ports =
  po_Institution :: "string \<Rightarrow> go_error + Institution"
  po_Singleton :: "go_error + Institution"
  po_ListAncestors :: "string \<Rightarrow> go_error + AcademicUnit list"
  po_Class :: "string \<Rightarrow> go_error + Class"
  po_ClassUnit :: "string \<Rightarrow> go_error + string"
  po_User :: "string \<Rightarrow> go_error + User"
  po_MatchVisibility :: "string \<Rightarrow> UserVisibilityScope \<Rightarrow> go_error + RoleScopeType \<times> string"
  po_Exam :: "string \<Rightarrow> go_error + Exam"
  po_Sitting :: "string \<Rightarrow> go_error + exam_sitting_row option"
  po_Submission :: "string \<Rightarrow> go_error + ExamSubmissionAuthorization option"
  po_Period :: "string \<Rightarrow> go_error + AcademicPeriod option"
  po_Programmes :: "(string \<Rightarrow> go_error + Programme option) option"
  po_Levels :: "(string \<Rightarrow> go_error + ProgrammeLevel option) option"
  po_Bindings :: "string \<Rightarrow> gtime \<Rightarrow> go_error + RoleBinding list"
  po_Roles :: "string list \<Rightarrow> go_error + Role list"

definition found :: "go_error + 'a \<Rightarrow> go_error + 'a option" where
  "found r = (case r of Inl e \<Rightarrow> Inl e | Inr x \<Rightarrow> Inr (Some x))"

text \<open>A recursive query that does not end would be cancelled by the database; the forest of the live
  units rules that out.\<close>

definition sql_ports :: "(string \<Rightarrow> UserVisibilityScope \<Rightarrow> go_error + RoleScopeType \<times> string) \<Rightarrow> directory \<Rightarrow> access_ports" where
  "sql_ports matchVisibility d = \<lparr>
     po_Institution = Institution_Get d,
     po_Singleton = GetSingleton d,
     po_ListAncestors = (\<lambda>i. case ListAncestors (d_units d) i of
        Some r \<Rightarrow> r | None \<Rightarrow> Inl (StoreError ErrDriver ''academic_unit'' ''canceling statement'')),
     po_Class = Class_Get d,
     po_ClassUnit = GetAcademicUnitID d,
     po_User = User_Get d,
     po_MatchVisibility = matchVisibility,
     po_Exam = Exam_Resolve d,
     po_Sitting = (\<lambda>i. found (ExamSitting_Resolve d i)),
     po_Submission = (\<lambda>i. found (ExamSubmission_Resolve d i)),
     po_Period = (\<lambda>i. found (AcademicPeriod_Get d i)),
     po_Programmes = Some (\<lambda>i. found (Programme_Get d i)),
     po_Levels = Some (\<lambda>i. found (ProgrammeLevel_Get d i)),
     po_Bindings = ListActiveByUser d,
     po_Roles = GetByIDs d\<rparr>"

section \<open>Resolution of a resource\<close>

record resolvedAuthorizationResource =
  rr_institutionID :: string
  rr_academicUnitID :: "string list"
  rr_targetAcademicUnitID :: string
  rr_classID :: string
  rr_academicPeriodInstitutionOwned :: bool

definition unresolved :: resolvedAuthorizationResource where
  "unresolved = \<lparr>rr_institutionID = '''', rr_academicUnitID = [], rr_targetAcademicUnitID = '''', rr_classID = '''',
     rr_academicPeriodInstitutionOwned = False\<rparr>"

type_synonym resolution = "app_error + resolvedAuthorizationResource"

definition listScopeAncestors :: "access_ports \<Rightarrow> string \<Rightarrow> string \<Rightarrow> string \<Rightarrow> app_error + AcademicUnit list" where
  "listScopeAncestors p unitID lookupResource notFoundResource = (case po_ListAncestors p unitID of
       Inl e \<Rightarrow> Inl (authorizationResourceError lookupResource e)
     | Inr units \<Rightarrow> if length units = 0 then Inl (not_found notFoundResource) else Inr units)"

definition applyScopeAncestors :: "resolvedAuthorizationResource \<Rightarrow> AcademicUnit list \<Rightarrow> string \<Rightarrow> string \<Rightarrow> resolution" where
  "applyScopeAncestors resolved units target notFoundResource =
     (if list_ex (\<lambda>u. AcademicUnit_IsArchived (Some u)) units then Inl (not_found notFoundResource)
      else Inr (resolved\<lparr>rr_institutionID := au_InstitutionID (hd units), rr_targetAcademicUnitID := target,
        rr_academicUnitID := rr_academicUnitID resolved @ map au_ID units\<rparr>))"

definition resolveAcademicUnitScope :: "access_ports \<Rightarrow> string \<Rightarrow> string \<Rightarrow> string \<Rightarrow> resolution" where
  "resolveAcademicUnitScope p unitID lookupResource notFoundResource =
     (case listScopeAncestors p unitID lookupResource notFoundResource of
        Inl e \<Rightarrow> Inl e
      | Inr units \<Rightarrow> applyScopeAncestors unresolved units unitID notFoundResource)"

definition resolveInstitution :: "access_ports \<Rightarrow> string \<Rightarrow> resolution" where
  "resolveInstitution p i = (case po_Institution p i of
       Inl e \<Rightarrow> Inl (authorizationResourceError ''institution'' e)
     | Inr institution \<Rightarrow>
         if ot_Valid (in_ArchivedAt institution) then Inl (not_found ''institution'')
         else Inr (unresolved\<lparr>rr_institutionID := in_ID institution\<rparr>))"

definition resolveAcademicUnit :: "access_ports \<Rightarrow> string \<Rightarrow> resolution" where
  "resolveAcademicUnit p i = (case po_ListAncestors p i of
       Inl e \<Rightarrow> Inl (authorizationResourceError ''academic_unit'' e)
     | Inr units \<Rightarrow>
         if length units = 0 then Inl (not_found ''academic_unit'')
         else applyScopeAncestors unresolved units i ''academic_unit'')"

definition resolveAcademicPeriod :: "access_ports \<Rightarrow> string \<Rightarrow> resolution" where
  "resolveAcademicPeriod p i = (case po_Period p i of
       Inl e \<Rightarrow> Inl (authorizationResourceError ''academic_period'' e)
     | Inr None \<Rightarrow> Inl (not_found ''academic_period'')
     | Inr (Some period) \<Rightarrow>
         if ot_Valid (pe_ArchivedAt period) then Inl (not_found ''academic_period'')
         else if IsValidOpaqueID (pe_OwnerInstitutionID period) then
           (case po_Institution p (pe_OwnerInstitutionID period) of
              Inl e \<Rightarrow> Inl (authorizationResourceError ''academic_period_institution'' e)
            | Inr institution \<Rightarrow>
                if ot_Valid (in_ArchivedAt institution) then Inl (not_found ''academic_period'')
                else Inr (unresolved\<lparr>rr_institutionID := in_ID institution, rr_academicPeriodInstitutionOwned := True\<rparr>))
         else resolveAcademicUnitScope p (pe_OwnerAcademicUnitID period) ''academic_period_academic_unit'' ''academic_period'')"

definition resolveProgramme :: "access_ports \<Rightarrow> string \<Rightarrow> resolution" where
  "resolveProgramme p i = (case po_Programmes p of
       None \<Rightarrow> Inl authorizationUnavailableError
     | Some programmes \<Rightarrow> (case programmes i of
         Inl e \<Rightarrow> Inl (authorizationResourceError ''programme'' e)
       | Inr None \<Rightarrow> Inl (not_found ''programme'')
       | Inr (Some programme) \<Rightarrow>
           if ot_Valid (pg_ArchivedAt programme) then Inl (not_found ''programme'')
           else resolveAcademicUnitScope p (pg_AcademicUnitID programme) ''programme_academic_unit'' ''programme''))"

definition resolveProgrammeLevel :: "access_ports \<Rightarrow> string \<Rightarrow> resolution" where
  "resolveProgrammeLevel p i = (case (po_Levels p, po_Programmes p) of
       (Some levels, Some programmes) \<Rightarrow> (case levels i of
         Inl e \<Rightarrow> Inl (authorizationResourceError ''programme_level'' e)
       | Inr None \<Rightarrow> Inl (not_found ''programme_level'')
       | Inr (Some level) \<Rightarrow>
           if ot_Valid (pl_ArchivedAt level) then Inl (not_found ''programme_level'')
           else (case programmes (pl_ProgrammeID level) of
             Inl e \<Rightarrow> Inl (authorizationResourceError ''programme_level_programme'' e)
           | Inr None \<Rightarrow> Inl (not_found ''programme_level'')
           | Inr (Some programme) \<Rightarrow>
               if ot_Valid (pg_ArchivedAt programme) then Inl (not_found ''programme_level'')
               else resolveAcademicUnitScope p (pg_AcademicUnitID programme) ''programme_level_academic_unit'' ''programme_level''))
     | _ \<Rightarrow> Inl authorizationUnavailableError)"

definition class_period_applies :: "access_ports \<Rightarrow> Class \<Rightarrow> resolvedAuthorizationResource \<Rightarrow> app_error option" where
  "class_period_applies p class resolved = (case resolveAcademicPeriod p (cl_AcademicPeriodID class) of
       Inl e \<Rightarrow> Some (if app_code e = ''resource.not_found'' then not_found ''class'' else e)
     | Inr periodScope \<Rightarrow>
         if rr_institutionID periodScope \<noteq> rr_institutionID resolved then Some (not_found ''class'')
         else if \<not> rr_academicPeriodInstitutionOwned periodScope
              \<and> \<not> List.member (rr_academicUnitID resolved) (rr_targetAcademicUnitID periodScope) then Some (not_found ''class'')
         else None)"

definition resolveClass :: "access_ports \<Rightarrow> string \<Rightarrow> resolution" where
  "resolveClass p i = (case po_Class p i of
       Inl e \<Rightarrow> Inl (authorizationResourceError ''class'' e)
     | Inr class \<Rightarrow>
         if ot_Valid (cl_ArchivedAt class) then Inl (not_found ''class'')
         else (case po_ClassUnit p i of
           Inl e \<Rightarrow> Inl (authorizationResourceError ''class'' e)
         | Inr unitID \<Rightarrow> (case listScopeAncestors p unitID ''class_academic_unit'' ''class'' of
             Inl e \<Rightarrow> Inl e
           | Inr units \<Rightarrow> (case applyScopeAncestors (unresolved\<lparr>rr_classID := i\<rparr>) units unitID ''class'' of
               Inl e \<Rightarrow> Inl e
             | Inr resolved \<Rightarrow> (case class_period_applies p class resolved of
                 Some e \<Rightarrow> Inl e
               | None \<Rightarrow> Inr resolved)))))"

definition resolveExam :: "access_ports \<Rightarrow> string \<Rightarrow> resolution" where
  "resolveExam p i = (case po_Exam p i of
       Inl e \<Rightarrow> Inl (authorizationResourceError ''exam'' e)
     | Inr exam \<Rightarrow> resolveAcademicUnitScope p (ex_AcademicUnitID exam) ''exam_academic_unit'' ''exam'')"

definition resolveExamSitting :: "access_ports \<Rightarrow> string \<Rightarrow> resolution" where
  "resolveExamSitting p i = (case po_Sitting p i of
       Inl e \<Rightarrow> Inl (authorizationResourceError ''exam_sitting'' e)
     | Inr None \<Rightarrow> Inl authorizationUnavailableError
     | Inr (Some sitting) \<Rightarrow> (case po_Exam p (es_ExamID sitting) of
         Inl e \<Rightarrow> Inl (authorizationResourceError ''exam_sitting_exam'' e)
       | Inr exam \<Rightarrow> resolveAcademicUnitScope p (ex_AcademicUnitID exam) ''exam_sitting_academic_unit'' ''exam_sitting''))"

definition resolveSubmission :: "access_ports \<Rightarrow> string \<Rightarrow> resolution" where
  "resolveSubmission p i =
     (if \<not> IsValidOpaqueID i then Inl request_invalid
      else case po_Submission p i of
        Inl e \<Rightarrow> Inl (authorizationResourceError ''submission'' e)
      | Inr None \<Rightarrow> Inl authorizationUnavailableError
      | Inr (Some ownership) \<Rightarrow>
          if sa_SubmissionID ownership \<noteq> i \<or> \<not> IsValidOpaqueID (sa_ExamID ownership) \<or> \<not> IsValidOpaqueID (sa_SittingID ownership)
             \<or> \<not> IsValidOpaqueID (sa_AttemptID ownership) \<or> \<not> IsValidOpaqueID (sa_AcademicUnitID ownership) then
            Inl authorizationUnavailableError
          else resolveAcademicUnitScope p (sa_AcademicUnitID ownership) ''submission_academic_unit'' ''submission'')"

definition resolveUser :: "access_ports \<Rightarrow> string \<Rightarrow> resolution" where
  "resolveUser p i = (case po_User p i of
       Inl e \<Rightarrow> Inl (authorizationResourceError ''user'' e)
     | Inr user \<Rightarrow>
         if ot_Valid (us_ArchivedAt user) \<or> ot_Valid (us_DisabledAt user) then Inl (not_found ''user'')
         else (case po_Singleton p of
           Inl e \<Rightarrow> Inl (authorizationResourceError ''institution'' e)
         | Inr institution \<Rightarrow>
             if ot_Valid (in_ArchivedAt institution) then Inl (not_found ''institution'')
             else Inr (unresolved\<lparr>rr_institutionID := in_ID institution\<rparr>)))"

definition resolve :: "access_ports \<Rightarrow> Resource \<Rightarrow> resolution" where
  "resolve p resource = (case re_Type resource of
       ResourceInstitution \<Rightarrow> resolveInstitution p (re_ID resource)
     | ResourceAcademicUnit \<Rightarrow> resolveAcademicUnit p (re_ID resource)
     | ResourceAcademicPeriod \<Rightarrow> resolveAcademicPeriod p (re_ID resource)
     | ResourceProgramme \<Rightarrow> resolveProgramme p (re_ID resource)
     | ResourceProgrammeLevel \<Rightarrow> resolveProgrammeLevel p (re_ID resource)
     | ResourceClass \<Rightarrow> resolveClass p (re_ID resource)
     | ResourceExam \<Rightarrow> resolveExam p (re_ID resource)
     | ResourceExamSitting \<Rightarrow> resolveExamSitting p (re_ID resource)
     | ResourceSubmission \<Rightarrow> resolveSubmission p (re_ID resource)
     | ResourceUser \<Rightarrow> resolveUser p (re_ID resource)
     | _ \<Rightarrow> Inl request_invalid)"

section \<open>The decision\<close>

definition personalAccessTokenAllows :: "Principal \<Rightarrow> Action \<Rightarrow> Resource \<Rightarrow> resolvedAuthorizationResource \<Rightarrow> bool" where
  "personalAccessTokenAllows who action resource resolved =
     (if \<not> List.member (pr_CredentialScopes who) action then False
      else if pr_AcademicUnitID who = '''' then True
      else if List.member [ResourceAcademicUnit, ResourceProgramme, ResourceProgrammeLevel, ResourceAcademicPeriod, ResourceClass, ResourceExam]
           (re_Type resource) then
        (if re_Type resource = ResourceAcademicPeriod \<and> rr_academicPeriodInstitutionOwned resolved then action = ActionAcademicPeriodView
         else List.member (rr_academicUnitID resolved) (pr_AcademicUnitID who))
      else False)"

definition roleBindingApplies :: "RoleBinding \<Rightarrow> ActionDefinition \<Rightarrow> Resource \<Rightarrow> resolvedAuthorizationResource \<Rightarrow> bool" where
  "roleBindingApplies binding definit resource resolved = (case rb_ScopeType binding of
       RoleScopeInstitution \<Rightarrow> ad_InheritInstitutionScope definit \<and> rb_ScopeID binding = rr_institutionID resolved
     | RoleScopeAcademicUnit \<Rightarrow>
         if \<not> ad_InheritAcademicUnitScopes definit then False
         else if re_Type resource = ResourceAcademicPeriod \<and> rr_academicPeriodInstitutionOwned resolved then
           ad_Action definit = ActionAcademicPeriodView
         else List.member (rr_academicUnitID resolved) (rb_ScopeID binding)
     | RoleScopeClass \<Rightarrow> re_Type resource = ResourceClass \<and> rb_ScopeID binding = rr_classID resolved
     | RoleScopeOther _ \<Rightarrow> False)"

text \<open>The identifiers in the order of their first occurrence, and the map from a role to its permissions, in
  which a later role replaces an earlier one.\<close>

definition first_occurrences :: "string list \<Rightarrow> string list" where
  "first_occurrences ids = rev (remdups (rev ids))"

definition role_grants :: "Role list \<Rightarrow> string \<Rightarrow> Action \<Rightarrow> bool" where
  "role_grants roles roleID action = (case find (\<lambda>r. ro_ID r = roleID) (rev roles) of
       None \<Rightarrow> False
     | Some r \<Rightarrow> List.member (ro_Permissions r) action)"

definition evaluateResolved ::
    "access_ports \<Rightarrow> gtime \<Rightarrow> Principal \<Rightarrow> Action \<Rightarrow> Resource \<Rightarrow> ActionDefinition \<Rightarrow> resolvedAuthorizationResource \<Rightarrow> app_error + bool" where
  "evaluateResolved p now who action resource definit resolved =
     (if pr_CredentialType who = CredentialPersonalAccessToken \<and> \<not> personalAccessTokenAllows who action resource resolved then
        Inr False
      else if (action = ActionUserView \<or> action = ActionUserProfilePictureManage) \<and> pr_UserID who = re_ID resource then Inr True
      else case po_Bindings p (pr_UserID who) (TimeUTC now) of
        Inl e \<Rightarrow> Inl authorizationUnavailableError
      | Inr bindings \<Rightarrow> (case po_Roles p (first_occurrences (map rb_RoleID bindings)) of
          Inl e \<Rightarrow> Inl authorizationUnavailableError
        | Inr roles \<Rightarrow>
            Inr (list_ex (\<lambda>b. roleBindingApplies b definit resource resolved \<and> role_grants roles (rb_RoleID b) action) bindings)))"

section \<open>The scopes of a list query\<close>

record authorizedScopeConstraint =
  sc_InstitutionID :: string
  sc_InstitutionWide :: bool
  sc_AcademicUnitRootIDs :: "string list"
  sc_ClassIDs :: "string list"

definition no_scopes :: authorizedScopeConstraint where
  "no_scopes = \<lparr>sc_InstitutionID = '''', sc_InstitutionWide = False, sc_AcademicUnitRootIDs = [], sc_ClassIDs = []\<rparr>"

definition activeBindingGrants :: "access_ports \<Rightarrow> Principal \<Rightarrow> Action \<Rightarrow> gtime \<Rightarrow> app_error + RoleBinding list \<times> (string \<Rightarrow> bool)" where
  "activeBindingGrants p who action at' = (case po_Bindings p (pr_UserID who) (TimeUTC at') of
       Inl e \<Rightarrow> Inl authorizationUnavailableError
     | Inr bindings \<Rightarrow>
         if length bindings > 256 then Inl authorizationUnavailableError
         else (case po_Roles p (first_occurrences (map rb_RoleID bindings)) of
           Inl e \<Rightarrow> Inl authorizationUnavailableError
         | Inr roles \<Rightarrow> Inr (bindings, \<lambda>roleID. role_grants roles roleID action)))"

text \<open>The two sets of identifiers are kept in the constraint while the loop runs.\<close>

definition accumulateBindingScope ::
    "access_ports \<Rightarrow> Principal \<Rightarrow> ActionDefinition \<Rightarrow> RoleBinding \<Rightarrow> authorizedScopeConstraint \<Rightarrow> app_error + authorizedScopeConstraint" where
  "accumulateBindingScope p who definit binding c = (case rb_ScopeType binding of
       RoleScopeInstitution \<Rightarrow>
         if \<not> ad_InheritInstitutionScope definit then Inr c
         else (case resolve p \<lparr>re_Type = ResourceInstitution, re_ID = rb_ScopeID binding\<rparr> of
           Inl e \<Rightarrow> Inl e
         | Inr resolved \<Rightarrow>
             let c1 = c\<lparr>sc_InstitutionID := rr_institutionID resolved\<rparr>
             in if pr_AcademicUnitID who = '''' then Inr (c1\<lparr>sc_InstitutionWide := True\<rparr>)
                else Inr (c1\<lparr>sc_AcademicUnitRootIDs := List.insert (pr_AcademicUnitID who) (sc_AcademicUnitRootIDs c1)\<rparr>))
     | RoleScopeAcademicUnit \<Rightarrow>
         if \<not> ad_InheritAcademicUnitScopes definit then Inr c
         else (case resolve p \<lparr>re_Type = ResourceAcademicUnit, re_ID = rb_ScopeID binding\<rparr> of
           Inl e \<Rightarrow> Inl e
         | Inr resolved \<Rightarrow>
             if pr_AcademicUnitID who \<noteq> '''' \<and> \<not> List.member (rr_academicUnitID resolved) (pr_AcademicUnitID who) then Inr c
             else Inr (c\<lparr>sc_InstitutionID := rr_institutionID resolved,
               sc_AcademicUnitRootIDs := List.insert (rb_ScopeID binding) (sc_AcademicUnitRootIDs c)\<rparr>))
     | RoleScopeClass \<Rightarrow>
         if \<not> AcceptsResource definit ResourceClass then Inr c
         else (case resolve p \<lparr>re_Type = ResourceClass, re_ID = rb_ScopeID binding\<rparr> of
           Inl e \<Rightarrow> Inl e
         | Inr resolved \<Rightarrow>
             if pr_AcademicUnitID who \<noteq> '''' \<and> \<not> List.member (rr_academicUnitID resolved) (pr_AcademicUnitID who) then Inr c
             else Inr (c\<lparr>sc_InstitutionID := rr_institutionID resolved, sc_ClassIDs := List.insert (rb_ScopeID binding) (sc_ClassIDs c)\<rparr>))
     | RoleScopeOther _ \<Rightarrow> Inr c)"

fun accumulate_scopes ::
    "access_ports \<Rightarrow> Principal \<Rightarrow> ActionDefinition \<Rightarrow> (string \<Rightarrow> bool) \<Rightarrow> RoleBinding list \<Rightarrow> authorizedScopeConstraint \<Rightarrow> app_error + authorizedScopeConstraint" where
  "accumulate_scopes p who definit grants [] c = Inr c"
| "accumulate_scopes p who definit grants (b # bs) c =
     (if \<not> grants (rb_RoleID b) then accumulate_scopes p who definit grants bs c
      else case accumulateBindingScope p who definit b c of
        Inl e \<Rightarrow> Inl e
      | Inr c1 \<Rightarrow> accumulate_scopes p who definit grants bs c1)"

definition authorizedScopesAt ::
    "access_ports \<Rightarrow> Principal \<Rightarrow> Action \<Rightarrow> ResourceType \<Rightarrow> gtime \<Rightarrow> app_error + authorizedScopeConstraint" where
  "authorizedScopesAt p who action resourceType at' =
     (if Principal_Validate who \<noteq> None then Inl invalidTokenAppError
      else case DefinitionForAction action of
        None \<Rightarrow> Inl request_invalid
      | Some definit \<Rightarrow>
          if \<not> AcceptsResource definit resourceType then Inl request_invalid
          else if pr_CredentialType who = CredentialPersonalAccessToken
               \<and> (ad_PersonalAccessTokenForbidden definit \<or> \<not> List.member (pr_CredentialScopes who) action) then Inr no_scopes
          else (case activeBindingGrants p who action at' of
            Inl e \<Rightarrow> Inl e
          | Inr (bindings, grants) \<Rightarrow> (case accumulate_scopes p who definit grants bindings no_scopes of
              Inl e \<Rightarrow> Inl e
            | Inr c \<Rightarrow> Inr (c\<lparr>sc_AcademicUnitRootIDs := sort (sc_AcademicUnitRootIDs c), sc_ClassIDs := sort (sc_ClassIDs c)\<rparr>))))"

definition academicPeriodCoarseAuthority ::
    "access_ports \<Rightarrow> gtime \<Rightarrow> Principal \<Rightarrow> Action \<Rightarrow> app_error + bool \<times> resolvedAuthorizationResource" where
  "academicPeriodCoarseAuthority p now who action =
     (case authorizedScopesAt p who action ResourceAcademicPeriod now of
        Inl e \<Rightarrow> Inl e
      | Inr c \<Rightarrow>
          if sc_InstitutionWide c \<or> length (sc_AcademicUnitRootIDs c) > 0 then Inr (True, unresolved)
          else (case po_Singleton p of
            Inl e \<Rightarrow> Inl (authorizationResourceError ''institution'' e)
          | Inr institution \<Rightarrow> Inr (False, unresolved\<lparr>rr_institutionID := in_ID institution\<rparr>)))"

text \<open>The clock is read once for the coarse authority over academic periods and once for the bindings.\<close>

definition evaluate ::
    "access_ports \<Rightarrow> gtime \<Rightarrow> gtime \<Rightarrow> Principal \<Rightarrow> Action \<Rightarrow> Resource \<Rightarrow> app_error + bool \<times> resolvedAuthorizationResource" where
  "evaluate p coarseNow now who action resource =
     (if Principal_Validate who \<noteq> None then Inl invalidTokenAppError
      else case DefinitionForAction action of
        None \<Rightarrow> Inl request_invalid
      | Some definit \<Rightarrow>
          if Resource_Validate resource \<noteq> None \<or> \<not> AcceptsResource definit (re_Type resource) then Inl request_invalid
          else if ad_RelationshipOnly definit then Inl request_invalid
          else if pr_CredentialType who = CredentialPersonalAccessToken \<and> ad_PersonalAccessTokenForbidden definit then
            Inr (False, unresolved)
          else (case (if re_Type resource = ResourceAcademicPeriod then academicPeriodCoarseAuthority p coarseNow who action
                      else Inr (True, unresolved)) of
            Inl e \<Rightarrow> Inl e
          | Inr (coarse, scope) \<Rightarrow>
              if \<not> coarse then Inr (False, scope)
              else (case resolve p resource of
                Inl e \<Rightarrow> Inl e
              | Inr resolved \<Rightarrow> (case evaluateResolved p now who action resource definit resolved of
                  Inl e \<Rightarrow> Inl e
                | Inr allowed \<Rightarrow> Inr (allowed, resolved)))))"

definition Can :: "access_ports \<Rightarrow> gtime \<Rightarrow> gtime \<Rightarrow> Principal \<Rightarrow> Action \<Rightarrow> Resource \<Rightarrow> app_error + bool" where
  "Can p coarseNow now who action resource = (case evaluate p coarseNow now who action resource of
       Inl e \<Rightarrow> Inl e | Inr (allowed, _) \<Rightarrow> Inr allowed)"


section \<open>The record of a decision\<close>

record RequestMetadata =
  rm_RequestID :: string
  rm_IPAddress :: string
  rm_UserAgent :: string

record Invocation =
  iv_Principal :: Principal
  iv_RequestMetadata :: RequestMetadata

text \<open>What surrounds one insertion: the node, whether a store is configured, and what the database and the
  identifier source decide.\<close>

record audit_env =
  ae_NodeID :: string
  ae_Configured :: bool
  ae_jsonb :: "string \<Rightarrow> string option"
  ae_order :: "string list"
  ae_newID :: string
  ae_now :: gtime

definition client_text :: "SessionClientType \<Rightarrow> string" where
  "client_text c = (case c of SessionClientDesktop \<Rightarrow> ''desktop'' | SessionClientCLI \<Rightarrow> ''cli'' | SessionClientWeb \<Rightarrow> ''web''
     | SessionClientOther s \<Rightarrow> s)"

definition decision_event ::
    "audit_env \<Rightarrow> Principal \<Rightarrow> string \<Rightarrow> Resource \<Rightarrow> RoleScopeType \<times> string \<Rightarrow> RequestMetadata \<Rightarrow> bool \<Rightarrow> AuditEvent" where
  "decision_event env who action resource scope metadata allowed = \<lparr>
     av_ID = '''', av_CreatedAt = zero_time, av_UpdatedAt = zero_time,
     av_ActorID = pr_UserID who, av_SessionID = pr_SessionID who, av_Action = action, av_Resource = resource,
     av_ScopeType = fst scope, av_ScopeID = snd scope,
     av_Status = (if allowed then AuditStatusSuccess else AuditStatusFail),
     av_RequestID = rm_RequestID metadata, av_NodeID = ae_NodeID env, av_ClientType = client_text (pr_ClientType who),
     av_AuthMethod = pr_AuthenticationMethod who, av_IPAddress = rm_IPAddress metadata, av_UserAgent = rm_UserAgent metadata,
     av_ErrorCode = (if allowed then '''' else ''authorization.denied''), av_Parameters = '''', av_PriorState = '''', av_Result = ''''\<rparr>"

definition recordDecision ::
    "audit_env \<Rightarrow> Principal \<Rightarrow> string \<Rightarrow> Resource \<Rightarrow> RoleScopeType \<times> string \<Rightarrow> RequestMetadata \<Rightarrow> bool \<Rightarrow> audit_db \<Rightarrow> audit_db \<times> app_error option" where
  "recordDecision env who action resource scope metadata allowed db =
     (if \<not> ae_Configured env then (db, Some authorizationUnavailableError)
      else case AuditStore_Save (ae_jsonb env) (ae_order env) (ae_newID env) (ae_now env)
             (Some (decision_event env who action resource scope metadata allowed)) db of
        (db', Inl e) \<Rightarrow> (db', Some authorizationUnavailableError)
      | (db', Inr event) \<Rightarrow> (db', None))"

text \<open>A decision is recorded before it is acted on: the error of the record, the denial, or the result.\<close>

definition after_record ::
    "audit_env \<Rightarrow> Invocation \<Rightarrow> string \<Rightarrow> Resource \<Rightarrow> RoleScopeType \<times> string \<Rightarrow> bool \<Rightarrow> 'a \<Rightarrow> audit_db \<Rightarrow> audit_db \<times> (app_error + 'a)" where
  "after_record env invocation action resource scope allowed result db =
     (case recordDecision env (iv_Principal invocation) action resource scope (iv_RequestMetadata invocation) allowed db of
        (db', Some e) \<Rightarrow> (db', Inl e)
      | (db', None) \<Rightarrow> (db', if \<not> allowed then Inl authorizationDeniedError else Inr result))"

definition authorizationAuditScope :: "Resource \<Rightarrow> resolvedAuthorizationResource \<Rightarrow> RoleScopeType \<times> string" where
  "authorizationAuditScope resource resolved = (case re_Type resource of
       ResourceInstitution \<Rightarrow> (RoleScopeInstitution, rr_institutionID resolved)
     | ResourceAcademicUnit \<Rightarrow> (RoleScopeAcademicUnit, re_ID resource)
     | ResourceAcademicPeriod \<Rightarrow>
         if rr_targetAcademicUnitID resolved = '''' then (RoleScopeInstitution, rr_institutionID resolved)
         else (RoleScopeAcademicUnit, rr_targetAcademicUnitID resolved)
     | ResourceProgramme \<Rightarrow> (RoleScopeAcademicUnit, rr_targetAcademicUnitID resolved)
     | ResourceProgrammeLevel \<Rightarrow> (RoleScopeAcademicUnit, rr_targetAcademicUnitID resolved)
     | ResourceExam \<Rightarrow> (RoleScopeAcademicUnit, rr_targetAcademicUnitID resolved)
     | ResourceExamSitting \<Rightarrow> (RoleScopeAcademicUnit, rr_targetAcademicUnitID resolved)
     | ResourceSubmission \<Rightarrow> (RoleScopeAcademicUnit, rr_targetAcademicUnitID resolved)
     | ResourceClass \<Rightarrow> (RoleScopeClass, re_ID resource)
     | ResourceUser \<Rightarrow> (RoleScopeInstitution, rr_institutionID resolved)
     | _ \<Rightarrow> (RoleScopeOther '''', ''''))"

definition authorizeCurrentStateWithScope ::
    "access_ports \<Rightarrow> audit_env \<Rightarrow> gtime \<Rightarrow> gtime \<Rightarrow> Invocation \<Rightarrow> Action \<Rightarrow> Resource \<Rightarrow> audit_db \<Rightarrow> audit_db \<times> (app_error + RoleScopeType \<times> string)" where
  "authorizeCurrentStateWithScope p env coarseNow now invocation action resource db =
     (case evaluate p coarseNow now (iv_Principal invocation) action resource of
        Inl e \<Rightarrow> (db, Inl e)
      | Inr (allowed, resolved) \<Rightarrow>
          let scope = authorizationAuditScope resource resolved
          in after_record env invocation action resource scope allowed scope db)"

definition no_result :: "'s \<times> (app_error + 'a) \<Rightarrow> 's \<times> app_error option" where
  "no_result r = (fst r, case snd r of Inl e \<Rightarrow> Some e | Inr _ \<Rightarrow> None)"

definition Authorize ::
    "access_ports \<Rightarrow> audit_env \<Rightarrow> gtime \<Rightarrow> gtime \<Rightarrow> Invocation \<Rightarrow> Action \<Rightarrow> Resource \<Rightarrow> audit_db \<Rightarrow> audit_db \<times> app_error option" where
  "Authorize p env coarseNow now invocation action resource db =
     no_result (authorizeCurrentStateWithScope p env coarseNow now invocation action resource db)"

definition InstitutionResource :: "access_ports \<Rightarrow> app_error + Resource" where
  "InstitutionResource p = (case po_Singleton p of
       Inl e \<Rightarrow> Inl (StoreTable_Translate institutionStoreErrors e)
     | Inr institution \<Rightarrow> Inr \<lparr>re_Type = ResourceInstitution, re_ID = in_ID institution\<rparr>)"

definition authorize_returning ::
    "access_ports \<Rightarrow> audit_env \<Rightarrow> gtime \<Rightarrow> gtime \<Rightarrow> Invocation \<Rightarrow> Action \<Rightarrow> app_error + Resource \<Rightarrow> audit_db \<Rightarrow> audit_db \<times> (app_error + Resource)" where
  "authorize_returning p env coarseNow now invocation action target db = (case target of
       Inl e \<Rightarrow> (db, Inl e)
     | Inr resource \<Rightarrow> (case Authorize p env coarseNow now invocation action resource db of
         (db', Some e) \<Rightarrow> (db', Inl e)
       | (db', None) \<Rightarrow> (db', Inr resource)))"

definition AuthorizeInstitution ::
    "access_ports \<Rightarrow> audit_env \<Rightarrow> gtime \<Rightarrow> gtime \<Rightarrow> Invocation \<Rightarrow> Action \<Rightarrow> audit_db \<Rightarrow> audit_db \<times> (app_error + Resource)" where
  "AuthorizeInstitution p env coarseNow now invocation action = authorize_returning p env coarseNow now invocation action (InstitutionResource p)"

definition RecordDenial ::
    "audit_env \<Rightarrow> Invocation \<Rightarrow> Action \<Rightarrow> Resource \<Rightarrow> string \<Rightarrow> audit_db \<Rightarrow> audit_db \<times> app_error option" where
  "RecordDenial env invocation action resource unitID =
     recordDecision env (iv_Principal invocation) action resource (RoleScopeAcademicUnit, unitID) (iv_RequestMetadata invocation) False"

definition authorizeUserAccountState ::
    "access_ports \<Rightarrow> audit_env \<Rightarrow> gtime \<Rightarrow> Invocation \<Rightarrow> string \<Rightarrow> audit_db \<Rightarrow> audit_db \<times> app_error option" where
  "authorizeUserAccountState p env now invocation userID db =
     (let who = iv_Principal invocation;
          resource = \<lparr>re_Type = ResourceUser, re_ID = userID\<rparr>
      in if Principal_Validate who \<noteq> None then (db, Some invalidTokenAppError)
         else case DefinitionForAction ActionUserManage of
           None \<Rightarrow> (db, Some request_invalid)
         | Some definit \<Rightarrow>
             if Resource_Validate resource \<noteq> None \<or> \<not> AcceptsResource definit (re_Type resource) then (db, Some request_invalid)
             else (case po_User p userID of
               Inl e \<Rightarrow> (db, Some (authorizationResourceError ''user'' e))
             | Inr user \<Rightarrow>
                 if ot_Valid (us_ArchivedAt user) then (db, Some (not_found ''user''))
                 else (case po_Singleton p of
                   Inl e \<Rightarrow> (db, Some (authorizationResourceError ''institution'' e))
                 | Inr institution \<Rightarrow>
                     if ot_Valid (in_ArchivedAt institution) then (db, Some (not_found ''institution''))
                     else (case evaluateResolved p now who ActionUserManage resource definit
                             (unresolved\<lparr>rr_institutionID := in_ID institution\<rparr>) of
                       Inl e \<Rightarrow> (db, Some e)
                     | Inr allowed \<Rightarrow>
                         no_result (after_record env invocation ActionUserManage resource (RoleScopeInstitution, in_ID institution)
                           allowed () db)))))"

section \<open>Collections, preflights and users\<close>

abbreviation ActionUserSearch :: Action where "ActionUserSearch \<equiv> ''user.search''"

definition constraint_empty :: "authorizedScopeConstraint \<Rightarrow> bool" where
  "constraint_empty c \<longleftrightarrow> \<not> (sc_InstitutionWide c \<or> length (sc_AcademicUnitRootIDs c) > 0 \<or> length (sc_ClassIDs c) > 0)"

definition AuthorizePreflight ::
    "access_ports \<Rightarrow> audit_env \<Rightarrow> gtime \<Rightarrow> Invocation \<Rightarrow> Action \<Rightarrow> ResourceType \<Rightarrow> audit_db \<Rightarrow> audit_db \<times> app_error option" where
  "AuthorizePreflight p env now invocation action resourceType db =
     (case authorizedScopesAt p (iv_Principal invocation) action resourceType now of
        Inl e \<Rightarrow> (db, Some e)
      | Inr c \<Rightarrow>
          if \<not> constraint_empty c then (db, None)
          else (case po_Singleton p of
            Inl e \<Rightarrow> (db, Some (authorizationResourceError ''institution'' e))
          | Inr institution \<Rightarrow>
              no_result (after_record env invocation action \<lparr>re_Type = ResourceInstitution, re_ID = in_ID institution\<rparr>
                (RoleScopeInstitution, in_ID institution) False () db)))"

definition authorizeRoleBindingPreflight ::
    "access_ports \<Rightarrow> audit_env \<Rightarrow> gtime \<Rightarrow> Invocation \<Rightarrow> Action \<Rightarrow> audit_db \<Rightarrow> audit_db \<times> app_error option" where
  "authorizeRoleBindingPreflight p env now invocation action = AuthorizePreflight p env now invocation action ResourceInstitution"

definition authorizeAcademicPeriodPreflight ::
    "access_ports \<Rightarrow> audit_env \<Rightarrow> gtime \<Rightarrow> Invocation \<Rightarrow> Action \<Rightarrow> Resource \<Rightarrow> audit_db \<Rightarrow> audit_db \<times> app_error option" where
  "authorizeAcademicPeriodPreflight p env now invocation action resource db =
     (if re_Type resource \<noteq> ResourceAcademicPeriod \<or> Resource_Validate resource \<noteq> None then (db, Some request_invalid)
      else case academicPeriodCoarseAuthority p now (iv_Principal invocation) action of
        Inl e \<Rightarrow> (db, Some e)
      | Inr (allowed, resolved) \<Rightarrow>
          if allowed then (db, None)
          else no_result (after_record env invocation action resource (RoleScopeInstitution, rr_institutionID resolved) False () db))"

record AcademicPeriodVisibilityScope =
  ps_InstitutionID :: string
  ps_InstitutionWide :: bool
  ps_AcademicUnitRootIDs :: "string list"

definition AuthorizeAcademicPeriodList ::
    "access_ports \<Rightarrow> audit_env \<Rightarrow> gtime \<Rightarrow> Invocation \<Rightarrow> audit_db \<Rightarrow> audit_db \<times> (app_error + AcademicPeriodVisibilityScope)" where
  "AuthorizeAcademicPeriodList p env now invocation db =
     (case authorizedScopesAt p (iv_Principal invocation) ActionAcademicPeriodView ResourceAcademicPeriod now of
        Inl e \<Rightarrow> (db, Inl e)
      | Inr c \<Rightarrow> (case po_Singleton p of
          Inl e \<Rightarrow> (db, Inl (authorizationResourceError ''institution'' e))
        | Inr institution \<Rightarrow>
            let visibility = \<lparr>ps_InstitutionID = in_ID institution, ps_InstitutionWide = sc_InstitutionWide c,
                  ps_AcademicUnitRootIDs = sc_AcademicUnitRootIDs c\<rparr>;
                allowed = (ps_InstitutionWide visibility \<or> length (ps_AcademicUnitRootIDs visibility) > 0)
            in after_record env invocation ActionAcademicPeriodView \<lparr>re_Type = ResourceInstitution, re_ID = in_ID institution\<rparr>
                 (RoleScopeInstitution, in_ID institution) allowed visibility db))"

definition userVisibilityScope :: "access_ports \<Rightarrow> gtime \<Rightarrow> Principal \<Rightarrow> app_error + UserVisibilityScope" where
  "userVisibilityScope p now who =
     (let decisionAt = TimeUTC now
      in case authorizedScopesAt p who ActionUserView ResourceUser decisionAt of
           Inl e \<Rightarrow> Inl e
         | Inr userScope \<Rightarrow> (case authorizedScopesAt p who ActionClassMembersView ResourceClass decisionAt of
             Inl e \<Rightarrow> Inl e
           | Inr classScope \<Rightarrow> Inr \<lparr>vs_InstitutionWide = sc_InstitutionWide userScope,
               vs_AcademicUnitRootIDs = sc_AcademicUnitRootIDs userScope,
               vs_ClassMemberInstitutionWide = sc_InstitutionWide classScope,
               vs_ClassMemberAcademicUnitRootIDs = sc_AcademicUnitRootIDs classScope,
               vs_ClassIDs = sc_ClassIDs classScope, vs_ActiveAt = decisionAt\<rparr>))"

definition search_scope :: "UserVisibilityScope \<Rightarrow> string \<Rightarrow> RoleScopeType \<times> string" where
  "search_scope v institutionID = (case (vs_AcademicUnitRootIDs v, vs_ClassMemberAcademicUnitRootIDs v, vs_ClassIDs v) of
       (unit # _, _, _) \<Rightarrow> (RoleScopeAcademicUnit, unit)
     | ([], unit # _, _) \<Rightarrow> (RoleScopeAcademicUnit, unit)
     | ([], [], class # _) \<Rightarrow> (RoleScopeClass, class)
     | ([], [], []) \<Rightarrow> (RoleScopeInstitution, institutionID))"

definition authorizeUserSearch ::
    "access_ports \<Rightarrow> audit_env \<Rightarrow> gtime \<Rightarrow> Invocation \<Rightarrow> audit_db \<Rightarrow> audit_db \<times> (app_error + UserVisibilityScope)" where
  "authorizeUserSearch p env now invocation db = (case userVisibilityScope p now (iv_Principal invocation) of
       Inl e \<Rightarrow> (db, Inl e)
     | Inr v \<Rightarrow> (case po_Singleton p of
         Inl e \<Rightarrow> (db, Inl (authorizationResourceError ''institution'' e))
       | Inr institution \<Rightarrow>
           after_record env invocation ActionUserSearch \<lparr>re_Type = ResourceInstitution, re_ID = in_ID institution\<rparr>
             (search_scope v (in_ID institution))
             (vs_InstitutionWide v \<or> vs_ClassMemberInstitutionWide v \<or> length (vs_ClassIDs v) > 0
               \<or> length (vs_AcademicUnitRootIDs v) > 0 \<or> length (vs_ClassMemberAcademicUnitRootIDs v) > 0)
             v db))"

definition visible_match :: "access_ports \<Rightarrow> string \<Rightarrow> UserVisibilityScope \<Rightarrow> go_error + bool \<times> (RoleScopeType \<times> string)" where
  "visible_match p userID v =
     (if vs_ClassMemberInstitutionWide v \<or> length (vs_AcademicUnitRootIDs v) > 0 \<or> length (vs_ClassMemberAcademicUnitRootIDs v) > 0
         \<or> length (vs_ClassIDs v) > 0 then
        (case po_MatchVisibility p userID v of
           Inl e \<Rightarrow> Inl e
         | Inr m \<Rightarrow> Inr ((fst m = RoleScopeAcademicUnit \<or> fst m = RoleScopeClass) \<and> IsValidOpaqueID (snd m), m))
      else Inr (False, (RoleScopeOther '''', '''')))"

definition authorizeUserRead ::
    "access_ports \<Rightarrow> audit_env \<Rightarrow> gtime \<Rightarrow> gtime \<Rightarrow> gtime \<Rightarrow> Invocation \<Rightarrow> string \<Rightarrow> audit_db \<Rightarrow> audit_db \<times> (app_error + bool)" where
  "authorizeUserRead p env scopeNow coarseNow now invocation userID db =
     (let userResource = \<lparr>re_Type = ResourceUser, re_ID = userID\<rparr>
      in case userVisibilityScope p scopeNow (iv_Principal invocation) of
           Inl e \<Rightarrow> (db, Inl e)
         | Inr v \<Rightarrow>
             if vs_InstitutionWide v then
               (case Authorize p env coarseNow now invocation ActionUserView userResource db of
                  (db', Some e) \<Rightarrow> (db', Inl e) | (db', None) \<Rightarrow> (db', Inr True))
             else (case visible_match p userID v of
               Inl e \<Rightarrow> (db, Inl authorizationUnavailableError)
             | Inr (allowed, match) \<Rightarrow> (case po_Singleton p of
                 Inl e \<Rightarrow> (db, Inl (authorizationResourceError ''institution'' e))
               | Inr institution \<Rightarrow>
                   after_record env invocation ActionUserView userResource
                     (if allowed then match else (RoleScopeInstitution, in_ID institution)) allowed False db)))"

section \<open>Delegation\<close>

definition roleScopeResource :: "RoleScopeType \<Rightarrow> string \<Rightarrow> app_error + Resource" where
  "roleScopeResource scopeType scopeID =
     (if \<not> IsValidOpaqueID scopeID then Inl (AppError ''request.invalid'' [(''field'', ''role_binding'')])
      else case scopeType of
        RoleScopeInstitution \<Rightarrow> Inr \<lparr>re_Type = ResourceInstitution, re_ID = scopeID\<rparr>
      | RoleScopeAcademicUnit \<Rightarrow> Inr \<lparr>re_Type = ResourceAcademicUnit, re_ID = scopeID\<rparr>
      | RoleScopeClass \<Rightarrow> Inr \<lparr>re_Type = ResourceClass, re_ID = scopeID\<rparr>
      | RoleScopeOther _ \<Rightarrow> Inl (AppError ''request.invalid'' [(''field'', ''role_binding'')]))"

definition authorizeRoleBindingScope ::
    "access_ports \<Rightarrow> audit_env \<Rightarrow> gtime \<Rightarrow> gtime \<Rightarrow> Invocation \<Rightarrow> Action \<Rightarrow> RoleScopeType \<Rightarrow> string \<Rightarrow> audit_db \<Rightarrow> audit_db \<times> (app_error + Resource)" where
  "authorizeRoleBindingScope p env coarseNow now invocation action scopeType scopeID =
     authorize_returning p env coarseNow now invocation action (roleScopeResource scopeType scopeID)"

definition protectedDelegationAction :: "Action \<Rightarrow> bool" where
  "protectedDelegationAction action \<longleftrightarrow> List.member [ActionInstitutionManage, ActionRoleManage, ActionRoleBindingManage,
     ActionAccessPolicyManage, ActionExternalIdentityManage] action"

definition delegationConstraintContains :: "authorizedScopeConstraint \<Rightarrow> Resource \<Rightarrow> resolvedAuthorizationResource \<Rightarrow> bool \<Rightarrow> bool" where
  "delegationConstraintContains c target resolved strictParent =
     (if sc_InstitutionWide c then True
      else case re_Type target of
        ResourceAcademicUnit \<Rightarrow>
          list_ex (\<lambda>root. List.member (rr_academicUnitID resolved) root \<and> (\<not> strictParent \<or> root \<noteq> re_ID target)) (sc_AcademicUnitRootIDs c)
      | ResourceClass \<Rightarrow>
          (\<not> strictParent \<and> List.member (sc_ClassIDs c) (re_ID target))
          \<or> list_ex (\<lambda>root. List.member (rr_academicUnitID resolved) root) (sc_AcademicUnitRootIDs c)
      | _ \<Rightarrow> False)"

text \<open>The clock is read once for each action.\<close>

fun delegable ::
    "access_ports \<Rightarrow> (nat \<Rightarrow> gtime) \<Rightarrow> Principal \<Rightarrow> RoleScopeType \<Rightarrow> Resource \<Rightarrow> resolvedAuthorizationResource \<Rightarrow> string list \<Rightarrow> app_error + bool" where
  "delegable p now who scopeType target resolved [] = Inr True"
| "delegable p now who scopeType target resolved (action # actions) = (case DefinitionForAction action of
       None \<Rightarrow> Inr False
     | Some definit \<Rightarrow>
         if ad_RelationshipOnly definit then Inr False
         else (case authorizedScopesAt p who (ad_Action definit) (ad_ResourceType definit) (now 0) of
           Inl e \<Rightarrow> Inl e
         | Inr c \<Rightarrow>
             if \<not> delegationConstraintContains c target resolved
                  (protectedDelegationAction (ad_Action definit) \<and> scopeType \<noteq> RoleScopeInstitution) then Inr False
             else delegable p (\<lambda>n. now (Suc n)) who scopeType target resolved actions))"

definition canDelegateActionsAtScope ::
    "access_ports \<Rightarrow> (nat \<Rightarrow> gtime) \<Rightarrow> Principal \<Rightarrow> string list \<Rightarrow> RoleScopeType \<Rightarrow> string \<Rightarrow> app_error + bool" where
  "canDelegateActionsAtScope p now who actions scopeType scopeID = (case roleScopeResource scopeType scopeID of
       Inl e \<Rightarrow> Inl e
     | Inr target \<Rightarrow> (case resolve p target of
         Inl e \<Rightarrow> Inl e
       | Inr resolved \<Rightarrow> delegable p now who scopeType target resolved actions))"


end
