(* ===== verification/AccessProperties.thy ===== *)
theory AccessProperties
  imports AccessControl
begin

text \<open>
  What the access control of \<^verbatim>\<open>AccessControl\<close> guarantees: the decision over the tables is exactly the
  declared one, list scopes agree with single decisions, delegation gives nothing that the delegator
  does not have, and nothing is allowed that is not recorded.
\<close>

section \<open>What is promised by the reads\<close>

text \<open>There is one live institution, every live unit belongs to it, and the ancestors of an ancestor are
  ancestors.\<close>

locale scope_reads =
  fixes p :: access_ports
  assumes one_institution: "po_Institution p i = Inr x \<Longrightarrow> po_Institution p j = Inr y \<Longrightarrow> i = j"
    and institution_id: "po_Institution p i = Inr x \<Longrightarrow> in_ID x = i"
    and singleton_institution: "po_Singleton p = Inr x \<Longrightarrow> po_Institution p (in_ID x) = Inr x"
    and ancestors_institution:
      "po_ListAncestors p i = Inr us \<Longrightarrow> us \<noteq> [] \<Longrightarrow> po_Institution p j = Inr x \<Longrightarrow> au_InstitutionID (hd us) = j"
    and ancestors_closed:
      "po_ListAncestors p i = Inr us \<Longrightarrow> po_ListAncestors p j = Inr vs \<Longrightarrow> j \<in> au_ID ` set us \<Longrightarrow> au_ID ` set vs \<subseteq> au_ID ` set us"

definition chain_of :: "access_ports \<Rightarrow> resolvedAuthorizationResource \<Rightarrow> bool" where
  "chain_of p rr \<longleftrightarrow> (\<exists>us. po_ListAncestors p (rr_targetAcademicUnitID rr) = Inr us \<and> us \<noteq> [] \<and> rr_academicUnitID rr = map au_ID us
     \<and> rr_institutionID rr = au_InstitutionID (hd us) \<and> \<not> rr_academicPeriodInstitutionOwned rr)"

lemma unresolved_sel [simp]:
  "rr_academicUnitID unresolved = []" "rr_classID unresolved = ''''" "\<not> rr_academicPeriodInstitutionOwned unresolved"
  "rr_targetAcademicUnitID unresolved = ''''" "rr_institutionID unresolved = ''''"
  by (simp_all add: unresolved_def)

lemma unit_scope_chain:
  "resolveAcademicUnitScope p u l n = Inr rr \<Longrightarrow> chain_of p rr \<and> rr_classID rr = '''' \<and> rr_targetAcademicUnitID rr = u"
  by (auto simp: resolveAcademicUnitScope_def listScopeAncestors_def applyScopeAncestors_def chain_of_def split: sum.splits if_splits)

lemma unit_chain:
  "resolveAcademicUnit p u = Inr rr \<Longrightarrow> chain_of p rr \<and> rr_classID rr = '''' \<and> rr_targetAcademicUnitID rr = u"
  by (auto simp: resolveAcademicUnit_def applyScopeAncestors_def chain_of_def split: sum.splits if_splits)

definition at_institution :: "access_ports \<Rightarrow> resolvedAuthorizationResource \<Rightarrow> bool" where
  "at_institution p rr \<longleftrightarrow> rr_academicUnitID rr = []
     \<and> ((\<exists>i x. po_Institution p i = Inr x \<and> rr_institutionID rr = in_ID x) \<or> (\<exists>x. po_Singleton p = Inr x \<and> rr_institutionID rr = in_ID x))"

lemma institution_at:
  "resolveInstitution p i = Inr rr \<Longrightarrow> at_institution p rr \<and> rr_classID rr = '''' \<and> \<not> rr_academicPeriodInstitutionOwned rr"
  unfolding at_institution_def by (fastforce simp: resolveInstitution_def split: sum.splits if_splits)

lemma user_at: "resolveUser p i = Inr rr \<Longrightarrow> at_institution p rr \<and> rr_classID rr = '''' \<and> \<not> rr_academicPeriodInstitutionOwned rr"
  unfolding at_institution_def by (fastforce simp: resolveUser_def split: sum.splits if_splits)

lemma period_chain:
  assumes "resolveAcademicPeriod p i = Inr rr"
  shows "(rr_academicPeriodInstitutionOwned rr \<and> at_institution p rr \<or> chain_of p rr) \<and> rr_classID rr = ''''"
proof -
  obtain period where period: "po_Period p i = Inr (Some period)" "\<not> ot_Valid (pe_ArchivedAt period)"
    using assms by (auto simp: resolveAcademicPeriod_def split: sum.splits option.splits if_splits)
  show ?thesis
  proof (cases "IsValidOpaqueID (pe_OwnerInstitutionID period)")
    case True
    then show ?thesis using assms period unfolding at_institution_def
      by (fastforce simp: resolveAcademicPeriod_def split: sum.splits if_splits)
  next
    case False
    then show ?thesis using assms period by (auto simp: resolveAcademicPeriod_def dest: unit_scope_chain)
  qed
qed

lemma class_chain: "resolveClass p i = Inr rr \<Longrightarrow> chain_of p rr \<and> rr_classID rr = i"
  by (auto simp: resolveClass_def listScopeAncestors_def applyScopeAncestors_def chain_of_def split: sum.splits option.splits if_splits)

text \<open>The resources that belong to one unit resolve to the chain of that unit.\<close>

lemma unit_owned:
  "resolveProgramme p i = Inr rr \<Longrightarrow> \<exists>u l n. resolveAcademicUnitScope p u l n = Inr rr"
  "resolveProgrammeLevel p i = Inr rr \<Longrightarrow> \<exists>u l n. resolveAcademicUnitScope p u l n = Inr rr"
  "resolveExam p i = Inr rr \<Longrightarrow> \<exists>u l n. resolveAcademicUnitScope p u l n = Inr rr"
  "resolveExamSitting p i = Inr rr \<Longrightarrow> \<exists>u l n. resolveAcademicUnitScope p u l n = Inr rr"
  "resolveSubmission p i = Inr rr \<Longrightarrow> \<exists>u l n. resolveAcademicUnitScope p u l n = Inr rr"
  by (auto simp: resolveProgramme_def split: sum.splits option.splits if_splits)
    (auto simp: resolveProgrammeLevel_def resolveExam_def resolveExamSitting_def resolveSubmission_def split: sum.splits option.splits if_splits)

lemma unit_owned_chain: "\<exists>u l n. resolveAcademicUnitScope p u l n = Inr rr \<Longrightarrow> chain_of p rr \<and> rr_classID rr = ''''"
  by (auto dest: unit_scope_chain)

lemma chain_not_owned: "chain_of p rr \<Longrightarrow> \<not> rr_academicPeriodInstitutionOwned rr"
  by (auto simp: chain_of_def)

lemmas resolver_facts = unit_owned [THEN unit_owned_chain] unit_chain class_chain period_chain institution_at user_at

lemma resolve_chain:
  assumes "resolve p r = Inr rr"
  shows "(at_institution p rr \<or> chain_of p rr) \<and> (rr_academicPeriodInstitutionOwned rr \<longrightarrow> re_Type r = ResourceAcademicPeriod)
    \<and> rr_classID rr = (if re_Type r = ResourceClass then re_ID r else '''')"
  using assms by (cases "re_Type r") (auto simp: resolve_def dest!: resolver_facts dest: chain_not_owned)

section \<open>What a list scope collects\<close>

definition collects :: "ActionDefinition \<Rightarrow> (string \<Rightarrow> bool) \<Rightarrow> RoleBinding list \<Rightarrow> RoleScopeType \<Rightarrow> string set" where
  "collects definit grants bs scope = {rb_ScopeID b | b. b \<in> set bs \<and> grants (rb_RoleID b) \<and> rb_ScopeType b = scope}"

text \<open>A principal without a ceiling collects every scope at which a granting role is bound.\<close>

lemma accumulate_one:
  assumes "pr_AcademicUnitID who = ''''" and "accumulateBindingScope p who definit b c = Inr c'"
  shows "(sc_InstitutionWide c' \<longleftrightarrow> sc_InstitutionWide c \<or> rb_ScopeType b = RoleScopeInstitution \<and> ad_InheritInstitutionScope definit)
    \<and> set (sc_AcademicUnitRootIDs c') = set (sc_AcademicUnitRootIDs c)
        \<union> (if rb_ScopeType b = RoleScopeAcademicUnit \<and> ad_InheritAcademicUnitScopes definit then {rb_ScopeID b} else {})
    \<and> set (sc_ClassIDs c') = set (sc_ClassIDs c)
        \<union> (if rb_ScopeType b = RoleScopeClass \<and> AcceptsResource definit ResourceClass then {rb_ScopeID b} else {})
    \<and> (rb_ScopeType b = RoleScopeInstitution \<and> ad_InheritInstitutionScope definit \<longrightarrow> isl (po_Institution p (rb_ScopeID b)) = False)"
  using assms
  by (auto simp: accumulateBindingScope_def resolve_def resolveInstitution_def Let_def split: RoleScopeType.splits if_splits sum.splits)

lemma accumulate_all:
  assumes "pr_AcademicUnitID who = ''''"
  shows "accumulate_scopes p who definit grants bs c = Inr c' \<Longrightarrow>
    (sc_InstitutionWide c' \<longleftrightarrow> sc_InstitutionWide c \<or> collects definit grants bs RoleScopeInstitution \<noteq> {} \<and> ad_InheritInstitutionScope definit)
    \<and> set (sc_AcademicUnitRootIDs c') = set (sc_AcademicUnitRootIDs c)
        \<union> (if ad_InheritAcademicUnitScopes definit then collects definit grants bs RoleScopeAcademicUnit else {})
    \<and> set (sc_ClassIDs c') = set (sc_ClassIDs c)
        \<union> (if AcceptsResource definit ResourceClass then collects definit grants bs RoleScopeClass else {})
    \<and> (ad_InheritInstitutionScope definit \<longrightarrow> (\<forall>i \<in> collects definit grants bs RoleScopeInstitution. isl (po_Institution p i) = False))"
proof (induction bs arbitrary: c)
  case Nil
  then show ?case by (simp add: collects_def)
next
  case (Cons b bs)
  have cons: "collects definit grants (b # bs) s = (if grants (rb_RoleID b) \<and> rb_ScopeType b = s then {rb_ScopeID b} else {}) \<union> collects definit grants bs s" for s
    by (auto simp: collects_def)
  show ?case
  proof (cases "grants (rb_RoleID b)")
    case False
    then show ?thesis using Cons by (simp add: cons)
  next
    case True
    then obtain c1 where c1: "accumulateBindingScope p who definit b c = Inr c1" "accumulate_scopes p who definit grants bs c1 = Inr c'"
      using Cons.prems by (auto split: sum.splits)
    show ?thesis using Cons.IH [OF c1(2)] accumulate_one [OF assms c1(1)] True unfolding cons by auto
  qed
qed

text \<open>What the decision and the list scope have in common for a session: the bindings and the roles.\<close>

lemma session_scopes:
  assumes "Principal_Validate who = None" and "pr_CredentialType who = CredentialSessionAccess"
    and "DefinitionForAction action = Some definit" and "authorizedScopesAt p who action t now = Inr c"
  shows "\<exists>bs roles. po_Bindings p (pr_UserID who) (TimeUTC now) = Inr bs \<and> po_Roles p (first_occurrences (map rb_RoleID bs)) = Inr roles
    \<and> AcceptsResource definit t
    \<and> (let g = collects definit (\<lambda>i. role_grants roles i action) bs
       in (sc_InstitutionWide c \<longleftrightarrow> g RoleScopeInstitution \<noteq> {} \<and> ad_InheritInstitutionScope definit)
        \<and> set (sc_AcademicUnitRootIDs c) = (if ad_InheritAcademicUnitScopes definit then g RoleScopeAcademicUnit else {})
        \<and> set (sc_ClassIDs c) = (if AcceptsResource definit ResourceClass then g RoleScopeClass else {})
        \<and> (ad_InheritInstitutionScope definit \<longrightarrow> (\<forall>i \<in> g RoleScopeInstitution. isl (po_Institution p i) = False)))"
proof -
  have unlimited: "pr_AcademicUnitID who = ''''" using session_unlimited assms(1,2) by blast
  obtain bs grants c1 where a: "activeBindingGrants p who action now = Inr (bs, grants)" "AcceptsResource definit t"
    "accumulate_scopes p who definit grants bs no_scopes = Inr c1"
    "c = c1\<lparr>sc_AcademicUnitRootIDs := sort (sc_AcademicUnitRootIDs c1), sc_ClassIDs := sort (sc_ClassIDs c1)\<rparr>"
    using assms by (auto simp: authorizedScopesAt_def split: if_splits sum.splits)
  then obtain roles where "po_Bindings p (pr_UserID who) (TimeUTC now) = Inr bs" "po_Roles p (first_occurrences (map rb_RoleID bs)) = Inr roles"
    "grants = (\<lambda>i. role_grants roles i action)"
    by (auto simp: activeBindingGrants_def split: sum.splits if_splits)
  then show ?thesis using accumulate_all [OF unlimited a(3)] a(2,4) by (simp add: no_scopes_def Let_def)
qed

definition self_access :: "Principal \<Rightarrow> Action \<Rightarrow> Resource \<Rightarrow> bool" where
  "self_access who action r \<longleftrightarrow> (action = ActionUserView \<or> action = ActionUserProfilePictureManage) \<and> pr_UserID who = re_ID r"

definition scope_covers :: "authorizedScopeConstraint \<Rightarrow> Action \<Rightarrow> Resource \<Rightarrow> resolvedAuthorizationResource \<Rightarrow> bool" where
  "scope_covers c action r rr \<longleftrightarrow> sc_InstitutionWide c
     \<or> list_ex (\<lambda>root. List.member (rr_academicUnitID rr) root \<or> rr_academicPeriodInstitutionOwned rr \<and> action = ActionAcademicPeriodView) (sc_AcademicUnitRootIDs c)
     \<or> re_Type r = ResourceClass \<and> List.member (sc_ClassIDs c) (re_ID r)"

lemma self_access_type:
  assumes "DefinitionForAction action = Some definit" and "AcceptsResource definit (re_Type r)" and "self_access who action r"
  shows "re_Type r = ResourceUser"
proof -
  have "list_all (\<lambda>d. ad_Action d = ActionUserView \<or> ad_Action d = ActionUserProfilePictureManage \<longrightarrow> ad_ResourceType d = ResourceUser \<and> ad_CompatibleResourceTypes d = [])
    actionDefinitions"
    by code_simp
  then show ?thesis using assms by (auto simp: self_access_def DefinitionForAction_iff list_all_iff AcceptsResource_def)
qed

lemma binding_scope:
  "roleBindingApplies b definit r rr \<Longrightarrow>
   rb_ScopeType b = RoleScopeInstitution \<or> rb_ScopeType b = RoleScopeAcademicUnit \<or> rb_ScopeType b = RoleScopeClass"
  by (auto simp: roleBindingApplies_def split: RoleScopeType.splits)

lemma applies_at:
  "rb_ScopeType b = RoleScopeInstitution \<Longrightarrow> roleBindingApplies b definit r rr \<longleftrightarrow> ad_InheritInstitutionScope definit \<and> rb_ScopeID b = rr_institutionID rr"
  "rb_ScopeType b = RoleScopeAcademicUnit \<Longrightarrow> roleBindingApplies b definit r rr \<longleftrightarrow> ad_InheritAcademicUnitScopes definit
     \<and> (if re_Type r = ResourceAcademicPeriod \<and> rr_academicPeriodInstitutionOwned rr then ad_Action definit = ActionAcademicPeriodView
        else rb_ScopeID b \<in> set (rr_academicUnitID rr))"
  "rb_ScopeType b = RoleScopeClass \<Longrightarrow> roleBindingApplies b definit r rr \<longleftrightarrow> re_Type r = ResourceClass \<and> rb_ScopeID b = rr_classID rr"
  by (simp_all add: roleBindingApplies_def)

context scope_reads
begin

lemma resolved_institution:
  assumes "resolve p r = Inr rr" and "po_Institution p j = Inr x"
  shows "rr_institutionID rr = j"
  using resolve_chain [OF assms(1)] assms(2)
  unfolding at_institution_def chain_of_def by (metis ancestors_institution institution_id one_institution singleton_institution)

lemma resolved_closed:
  assumes "resolve p r = Inr rr" and "t \<in> set (rr_academicUnitID rr)"
    and "resolve p \<lparr>re_Type = ResourceAcademicUnit, re_ID = t\<rparr> = Inr rt"
  shows "set (rr_academicUnitID rt) \<subseteq> set (rr_academicUnitID rr)"
proof -
  have "chain_of p rt" "rr_targetAcademicUnitID rt = t" using assms(3) unit_chain by (auto simp: resolve_def)
  moreover have "chain_of p rr" using resolve_chain [OF assms(1)] assms(2) by (auto simp: at_institution_def)
  ultimately show ?thesis using ancestors_closed assms(2) unfolding chain_of_def by fastforce
qed

lemma applies_iff_covers:
  assumes r: "resolve p r = Inr rr" and accepts: "AcceptsResource definit (re_Type r)" and act: "ad_Action definit = action"
    and g: "g = collects definit (\<lambda>i. role_grants roles i action) bs"
    and c: "sc_InstitutionWide c \<longleftrightarrow> g RoleScopeInstitution \<noteq> {} \<and> ad_InheritInstitutionScope definit"
      "set (sc_AcademicUnitRootIDs c) = (if ad_InheritAcademicUnitScopes definit then g RoleScopeAcademicUnit else {})"
      "set (sc_ClassIDs c) = (if AcceptsResource definit ResourceClass then g RoleScopeClass else {})"
      "ad_InheritInstitutionScope definit \<longrightarrow> (\<forall>i \<in> g RoleScopeInstitution. isl (po_Institution p i) = False)"
  shows "list_ex (\<lambda>b. roleBindingApplies b definit r rr \<and> role_grants roles (rb_RoleID b) action) bs \<longleftrightarrow> scope_covers c action r rr"
proof -
  have cls: "rr_classID rr = re_ID r" if "re_Type r = ResourceClass" using resolve_chain [OF r] that by simp
  have owned: "rr_academicPeriodInstitutionOwned rr \<Longrightarrow> re_Type r = ResourceAcademicPeriod \<and> rr_academicUnitID rr = []"
    using resolve_chain [OF r] chain_not_owned by (auto simp: at_institution_def)
  have inst: "i = rr_institutionID rr" if "i \<in> g RoleScopeInstitution" "ad_InheritInstitutionScope definit" for i
    using that c(4) resolved_institution [OF r] by (cases "po_Institution p i") auto
  have split: "list_ex P bs \<longleftrightarrow> (\<exists>b \<in> set bs. P b \<and> rb_ScopeType b = RoleScopeInstitution) \<or> (\<exists>b \<in> set bs. P b \<and> rb_ScopeType b = RoleScopeAcademicUnit)
      \<or> (\<exists>b \<in> set bs. P b \<and> rb_ScopeType b = RoleScopeClass)"
    if "\<And>b. P b \<Longrightarrow> roleBindingApplies b definit r rr" for P
    unfolding list_ex_iff using that binding_scope by blast
  have i: "(\<exists>b \<in> set bs. (roleBindingApplies b definit r rr \<and> role_grants roles (rb_RoleID b) action) \<and> rb_ScopeType b = RoleScopeInstitution)
      \<longleftrightarrow> sc_InstitutionWide c"
    unfolding c(1) using inst applies_at(1) unfolding g collects_def by blast
  have au: "roleBindingApplies b definit r rr \<longleftrightarrow> ad_InheritAcademicUnitScopes definit
      \<and> (rb_ScopeID b \<in> set (rr_academicUnitID rr) \<or> rr_academicPeriodInstitutionOwned rr \<and> action = ActionAcademicPeriodView)"
    if "rb_ScopeType b = RoleScopeAcademicUnit" for b
    using owned act applies_at(2) [OF that, of definit r rr] by auto
  have u: "(\<exists>b \<in> set bs. (roleBindingApplies b definit r rr \<and> role_grants roles (rb_RoleID b) action) \<and> rb_ScopeType b = RoleScopeAcademicUnit)
      \<longleftrightarrow> list_ex (\<lambda>root. List.member (rr_academicUnitID rr) root \<or> rr_academicPeriodInstitutionOwned rr \<and> action = ActionAcademicPeriodView) (sc_AcademicUnitRootIDs c)"
    unfolding list_ex_iff c(2) List.member_iff g collects_def using au by auto
  have k: "(\<exists>b \<in> set bs. (roleBindingApplies b definit r rr \<and> role_grants roles (rb_RoleID b) action) \<and> rb_ScopeType b = RoleScopeClass)
      \<longleftrightarrow> re_Type r = ResourceClass \<and> List.member (sc_ClassIDs c) (re_ID r)"
  proof (cases "re_Type r = ResourceClass")
    case True
    then have "AcceptsResource definit ResourceClass" using accepts by simp
    moreover have "roleBindingApplies b definit r rr \<longleftrightarrow> re_ID r = rb_ScopeID b" if "rb_ScopeType b = RoleScopeClass" for b
      using applies_at(3) [OF that, of definit r rr] cls True by auto
    ultimately show ?thesis using True unfolding List.member_iff c(3) g collects_def by auto
  qed (auto simp: applies_at(3))
  show ?thesis by (subst split) (simp_all only: i u k scope_covers_def)
qed

text \<open>For a session the single decision is what the list scope covers.\<close>

lemma session_decision:
  assumes who: "Principal_Validate who = None" "pr_CredentialType who = CredentialSessionAccess"
    and act: "DefinitionForAction action = Some definit" "\<not> ad_RelationshipOnly definit" and valid: "Resource_Validate r = None"
    and r: "resolve p r = Inr rr" and c: "authorizedScopesAt p who action (re_Type r) now = Inr c" and single: "po_Singleton p = Inr x"
  shows "Can p now now who action r = Inr (self_access who action r \<or> scope_covers c action r rr)"
proof -
  obtain bs roles where b: "po_Bindings p (pr_UserID who) (TimeUTC now) = Inr bs" "po_Roles p (first_occurrences (map rb_RoleID bs)) = Inr roles"
    and accepts: "AcceptsResource definit (re_Type r)"
    and g: "let g = collects definit (\<lambda>i. role_grants roles i action) bs
       in (sc_InstitutionWide c \<longleftrightarrow> g RoleScopeInstitution \<noteq> {} \<and> ad_InheritInstitutionScope definit)
        \<and> set (sc_AcademicUnitRootIDs c) = (if ad_InheritAcademicUnitScopes definit then g RoleScopeAcademicUnit else {})
        \<and> set (sc_ClassIDs c) = (if AcceptsResource definit ResourceClass then g RoleScopeClass else {})
        \<and> (ad_InheritInstitutionScope definit \<longrightarrow> (\<forall>i \<in> g RoleScopeInstitution. isl (po_Institution p i) = False))"
    using session_scopes [OF who act(1) c] by blast
  have "ad_Action definit = action" using act(1) by (simp add: DefinitionForAction_iff)
  then have covers: "list_ex (\<lambda>b. roleBindingApplies b definit r rr \<and> role_grants roles (rb_RoleID b) action) bs \<longleftrightarrow> scope_covers c action r rr"
    using applies_iff_covers [OF r accepts _ refl] g unfolding Let_def by blast
  have decided: "evaluateResolved p now who action r definit rr = Inr (self_access who action r \<or> scope_covers c action r rr)"
    using who(2) b covers by (auto simp: evaluateResolved_def self_access_def)
  show ?thesis
  proof (cases "re_Type r = ResourceAcademicPeriod \<and> \<not> (sc_InstitutionWide c \<or> sc_AcademicUnitRootIDs c \<noteq> [])")
    case True
    then have "\<not> scope_covers c action r rr" "\<not> self_access who action r"
      using self_access_type [OF act(1) accepts] by (auto simp: scope_covers_def)
    then show ?thesis using True who act valid accepts c single
      by (simp add: Can_def evaluate_def academicPeriodCoarseAuthority_def)
  next
    case False
    then have "(if re_Type r = ResourceAcademicPeriod then academicPeriodCoarseAuthority p now who action else Inr (True, unresolved)) = Inr (True, unresolved)"
      using c by (auto simp: academicPeriodCoarseAuthority_def)
    then show ?thesis using who act valid accepts r decided by (simp add: Can_def evaluate_def)
  qed
qed

lemma session_delegation:
  assumes who: "Principal_Validate who = None" "pr_CredentialType who = CredentialSessionAccess"
    and act: "DefinitionForAction action = Some definit" "\<not> ad_RelationshipOnly definit" and valid: "Resource_Validate r = None"
    and accepts: "AcceptsResource definit (re_Type r)"
    and r: "resolve p r = Inr rr" and single: "po_Singleton p = Inr x"
    and target: "roleScopeResource (rb_ScopeType b) (rb_ScopeID b) = Inr target" "resolve p target = Inr rt"
    and c: "authorizedScopesAt p who action (ad_ResourceType definit) now = Inr c" "delegationConstraintContains c target rt strict"
    and b: "roleBindingApplies b definit r rr"
  shows "Can p now now who action r = Inr True"
proof -
  have "authorizedScopesAt p who action (re_Type r) now = Inr c"
    using c(1) act(1) accepts unfolding authorizedScopesAt_def by (auto split: if_splits)
  note decision = session_decision [OF who act valid r this single]
  have "scope_covers c action r rr"
  proof (cases "sc_InstitutionWide c")
    case False
    then consider "rb_ScopeType b = RoleScopeAcademicUnit" | "rb_ScopeType b = RoleScopeClass"
      using c(2) target(1) by (cases "rb_ScopeType b") (auto simp: roleScopeResource_def delegationConstraintContains_def split: if_splits)
    then show ?thesis
    proof cases
      case 1
      then have t: "target = \<lparr>re_Type = ResourceAcademicUnit, re_ID = rb_ScopeID b\<rparr>"
        using target(1) by (auto simp: roleScopeResource_def split: if_splits)
      then obtain root where root: "root \<in> set (sc_AcademicUnitRootIDs c)" "root \<in> set (rr_academicUnitID rt)"
        using c(2) False by (auto simp: delegationConstraintContains_def list_ex_iff List.member_iff)
      have "rb_ScopeID b \<in> set (rr_academicUnitID rr) \<or> rr_academicPeriodInstitutionOwned rr \<and> action = ActionAcademicPeriodView"
        using b act(1) applies_at(2) [OF 1, of definit r rr] by (auto simp: DefinitionForAction_iff split: if_splits)
      moreover have "root \<in> set (rr_academicUnitID rr)" if "rb_ScopeID b \<in> set (rr_academicUnitID rr)"
        using resolved_closed [OF r that] target(2) root(2) t by blast
      ultimately show ?thesis using root(1) by (auto simp: scope_covers_def list_ex_iff List.member_iff)
    next
      case 2
      then have "re_Type r = ResourceClass" "rb_ScopeID b = re_ID r"
        using b applies_at(3) [OF 2] resolve_chain [OF r] by auto
      moreover from this have "target = r" using 2 target(1) by (cases r) (auto simp: roleScopeResource_def split: if_splits)
      ultimately show ?thesis using c(2) False r target(2)
        by (auto simp: delegationConstraintContains_def scope_covers_def list_ex_iff List.member_iff)
    qed
  qed (simp add: scope_covers_def)
  then show ?thesis using decision by simp
qed

end

lemma delegable_each:
  "delegable p (\<lambda>_. now) who st target rt actions = Inr True \<Longrightarrow> action \<in> set actions \<Longrightarrow>
   \<exists>definit c. DefinitionForAction action = Some definit \<and> \<not> ad_RelationshipOnly definit
     \<and> authorizedScopesAt p who action (ad_ResourceType definit) now = Inr c
     \<and> delegationConstraintContains c target rt (protectedDelegationAction action \<and> st \<noteq> RoleScopeInstitution)"
proof (induction actions)
  case (Cons a actions)
  have rest: "delegable p (\<lambda>_. now) who st target rt actions = Inr True"
    using Cons.prems by (auto split: option.splits if_splits sum.splits)
  show ?case
  proof (cases "action = a")
    case True
    then show ?thesis using Cons.prems by (auto simp: DefinitionForAction_iff split: option.splits if_splits sum.splits)
  next
    case False
    then show ?thesis using Cons.IH [OF rest] Cons.prems(2) by auto
  qed
qed simp

section \<open>The SQL reads keep the promise\<close>

definition live_institutions :: "directory \<Rightarrow> Institution list" where
  "live_institutions d = filter (\<lambda>x. \<not> ot_Valid (in_ArchivedAt x)) (d_institutions d)"

text \<open>The units form a forest, the unique index admits one live institution, and the live units are its
  units.\<close>

definition directory_ok :: "directory \<Rightarrow> bool" where
  "directory_ok d \<longleftrightarrow> hierarchy_ok (d_units d) \<and> length (live_institutions d) \<le> 1
     \<and> (\<forall>u \<in> set (d_units d). live_unit u \<longrightarrow> (\<forall>x \<in> set (live_institutions d). au_InstitutionID u = in_ID x))"

typedef wellformed_directory = "{d. directory_ok d}"
proof
  show "sample_directory [] \<in> {d. directory_ok d}"
    by (simp add: directory_ok_def live_institutions_def sample_directory_def hierarchy_ok_empty)
qed

lemma live_institution_eq: "directory_ok d \<Longrightarrow> x \<in> set (live_institutions d) \<Longrightarrow> y \<in> set (live_institutions d) \<Longrightarrow> x = y"
  by (cases "live_institutions d"; cases "tl (live_institutions d)") (auto simp: directory_ok_def)

lemma institution_read: "Institution_Get d i = Inr x \<Longrightarrow> x \<in> set (live_institutions d) \<and> in_ID x = i"
  by (auto simp: Institution_Get_def select_live_def live_institutions_def find_Some_iff split: option.splits)

lemma singleton_read: "GetSingleton d = Inr x \<Longrightarrow> x \<in> set (live_institutions d)"
  by (auto simp: GetSingleton_def live_institutions_def find_Some_iff split: option.splits)

lemma institution_of_live:
  assumes "directory_ok d" and "x \<in> set (live_institutions d)"
  shows "Institution_Get d (in_ID x) = Inr x"
proof -
  have "find (\<lambda>r. in_ID r = in_ID x \<and> \<not> ot_Valid (in_ArchivedAt r)) (d_institutions d) \<noteq> None"
    using assms(2) by (auto simp: find_None_iff live_institutions_def)
  then obtain y where "Institution_Get d (in_ID x) = Inr y" by (auto simp: Institution_Get_def select_live_def)
  then show ?thesis using institution_read live_institution_eq assms by blast
qed

lemma sql_ancestors:
  assumes "directory_ok d" and "po_ListAncestors (sql_ports m d) i = Inr us"
  shows "us \<noteq> [] \<and> hd us \<in> set (d_units d) \<and> live_unit (hd us) \<and> au_ID ` set us = {j. (i, j) \<in> (parent_edges (d_units d))\<^sup>*}"
proof -
  have ok: "hierarchy_ok (d_units d)" using assms(1) by (simp add: directory_ok_def)
  have "ListAncestors (d_units d) i = Some (Inr us)" using assms(2) by (auto simp: sql_ports_def split: option.splits)
  moreover from this obtain u where "find (\<lambda>u. au_ID u = i \<and> live_unit u) (d_units d) = Some u"
    using ListAncestors_missing [of i "d_units d"] by (cases "find (\<lambda>u. au_ID u = i \<and> live_unit u) (d_units d)") auto
  ultimately obtain us' where us': "us = u # us'" "\<forall>v \<in> set (u # us'). v \<in> set (d_units d) \<and> live_unit v \<and> au_InstitutionID v = au_InstitutionID u"
    "au_ID ` set (u # us') = {j. (i, j) \<in> (parent_edges (d_units d))\<^sup>*}"
    using ListAncestors_live [OF ok, of i u] by auto
  then show ?thesis by (simp only: us'(1) us'(3)) simp
qed

interpretation sql_reads: scope_reads "sql_ports m (Rep_wellformed_directory d)" for m d
proof
  have ok: "directory_ok (Rep_wellformed_directory d)" using Rep_wellformed_directory by blast
  show "po_Institution (sql_ports m (Rep_wellformed_directory d)) i = Inr x \<Longrightarrow>
      po_Institution (sql_ports m (Rep_wellformed_directory d)) j = Inr y \<Longrightarrow> i = j" for i j x y
  proof -
    assume "po_Institution (sql_ports m (Rep_wellformed_directory d)) i = Inr x" "po_Institution (sql_ports m (Rep_wellformed_directory d)) j = Inr y"
    then have "Institution_Get (Rep_wellformed_directory d) i = Inr x" "Institution_Get (Rep_wellformed_directory d) j = Inr y"
      by (simp_all add: sql_ports_def)
    then show "i = j" using institution_read live_institution_eq [OF ok] by metis
  qed
  show "po_Institution (sql_ports m (Rep_wellformed_directory d)) i = Inr x \<Longrightarrow> in_ID x = i" for i x
    by (simp add: sql_ports_def institution_read)
  show "po_Singleton (sql_ports m (Rep_wellformed_directory d)) = Inr x \<Longrightarrow>
      po_Institution (sql_ports m (Rep_wellformed_directory d)) (in_ID x) = Inr x" for x
    using institution_of_live [OF ok] singleton_read by (simp add: sql_ports_def)
  show "po_ListAncestors (sql_ports m (Rep_wellformed_directory d)) i = Inr us \<Longrightarrow> us \<noteq> [] \<Longrightarrow>
      po_Institution (sql_ports m (Rep_wellformed_directory d)) j = Inr x \<Longrightarrow> au_InstitutionID (hd us) = j" for i j us x
  proof -
    assume us: "po_ListAncestors (sql_ports m (Rep_wellformed_directory d)) i = Inr us"
      and "po_Institution (sql_ports m (Rep_wellformed_directory d)) j = Inr x"
    then have "x \<in> set (live_institutions (Rep_wellformed_directory d))" "in_ID x = j"
      using institution_read by (auto simp: sql_ports_def)
    then show "au_InstitutionID (hd us) = j" using sql_ancestors [OF ok us] ok unfolding directory_ok_def by blast
  qed
  show "po_ListAncestors (sql_ports m (Rep_wellformed_directory d)) i = Inr us \<Longrightarrow>
      po_ListAncestors (sql_ports m (Rep_wellformed_directory d)) j = Inr vs \<Longrightarrow> j \<in> au_ID ` set us \<Longrightarrow>
      au_ID ` set vs \<subseteq> au_ID ` set us" for i j us vs
    using sql_ancestors [OF ok, of m i us] sql_ancestors [OF ok, of m j vs] by (auto intro: rtrancl_trans)
qed

lemma Rep_ok: "directory_ok d \<Longrightarrow> Rep_wellformed_directory (Abs_wellformed_directory d) = d"
  by (simp add: Abs_wellformed_directory_inverse)

section \<open>List scopes agree with single decisions\<close>


section \<open>Delegation\<close>

text \<open>C9. Delegation does not escalate.  When a session may delegate a set of actions at a scope, whatever a role
  binding at that scope grants by one of these actions, on any existing resource, the delegating
  session is itself allowed.\<close>
theorem delegation_no_escalation:
  assumes "directory_ok d" and "GetSingleton d = Inr institution"
    and "Principal_Validate who = None" and "pr_CredentialType who = CredentialSessionAccess"
    and "canDelegateActionsAtScope (sql_ports m d) (\<lambda>_. now) who actions (rb_ScopeType b) (rb_ScopeID b) = Inr True"
    and "List.member actions action" and "DefinitionForAction action = Some definit"
    and "Resource_Validate r = None" and "AcceptsResource definit (re_Type r)"
    and "resolve (sql_ports m d) r = Inr rr" and "roleBindingApplies b definit r rr"
  shows "Can (sql_ports m d) now now who action r = Inr True"
proof -
  let ?p = "sql_ports m d"
  obtain target rt where target: "roleScopeResource (rb_ScopeType b) (rb_ScopeID b) = Inr target" "resolve ?p target = Inr rt"
    and del: "delegable ?p (\<lambda>_. now) who (rb_ScopeType b) target rt actions = Inr True"
    using assms(5) by (auto simp: canDelegateActionsAtScope_def split: sum.splits)
  obtain c strict where c: "\<not> ad_RelationshipOnly definit" "authorizedScopesAt ?p who action (ad_ResourceType definit) now = Inr c"
    "delegationConstraintContains c target rt strict"
    using delegable_each [OF del, of action] assms(6,7) by (auto simp: List.member_iff)
  have single: "po_Singleton ?p = Inr institution" using assms(2) by (simp add: sql_ports_def)
  show ?thesis
    using sql_reads.session_delegation [where m = m and d = "Abs_wellformed_directory d", unfolded Rep_ok [OF assms(1)],
        OF assms(3,4,7) c(1) assms(8-10) single target c(2,3) assms(11)] .
qed

section \<open>The decision over the tables\<close>

text \<open>The unit that a resource belongs to, if it belongs to one.\<close>

definition owning_unit :: "directory \<Rightarrow> Resource \<Rightarrow> string option" where
  "owning_unit d r = (let i = re_ID r in case re_Type r of
       ResourceAcademicUnit \<Rightarrow> Some i
     | ResourceProgramme \<Rightarrow> (case Programme_Get d i of Inr p \<Rightarrow> Some (pg_AcademicUnitID p) | _ \<Rightarrow> None)
     | ResourceProgrammeLevel \<Rightarrow> (case ProgrammeLevel_Get d i of
         Inr l \<Rightarrow> (case Programme_Get d (pl_ProgrammeID l) of Inr p \<Rightarrow> Some (pg_AcademicUnitID p) | _ \<Rightarrow> None) | _ \<Rightarrow> None)
     | ResourceAcademicPeriod \<Rightarrow> (case AcademicPeriod_Get d i of
         Inr t \<Rightarrow> if IsValidOpaqueID (pe_OwnerInstitutionID t) then None else Some (pe_OwnerAcademicUnitID t) | _ \<Rightarrow> None)
     | ResourceClass \<Rightarrow> (case GetAcademicUnitID d i of Inr u \<Rightarrow> Some u | _ \<Rightarrow> None)
     | ResourceExam \<Rightarrow> (case Exam_Resolve d i of Inr x \<Rightarrow> Some (ex_AcademicUnitID x) | _ \<Rightarrow> None)
     | ResourceExamSitting \<Rightarrow> (case ExamSitting_Resolve d i of
         Inr s \<Rightarrow> (case Exam_Resolve d (es_ExamID s) of Inr x \<Rightarrow> Some (ex_AcademicUnitID x) | _ \<Rightarrow> None) | _ \<Rightarrow> None)
     | ResourceSubmission \<Rightarrow> (case ExamSubmission_Resolve d i of Inr a \<Rightarrow> Some (sa_AcademicUnitID a) | _ \<Rightarrow> None)
     | _ \<Rightarrow> None)"

text \<open>A unit covers a resource when it is above the resource's unit in the tree; an institution-owned
  period is open to every unit for viewing only.\<close>

definition unit_covers :: "directory \<Rightarrow> Action \<Rightarrow> Resource \<Rightarrow> string \<Rightarrow> bool" where
  "unit_covers d action r v \<longleftrightarrow> (case owning_unit d r of
       Some u \<Rightarrow> (u, v) \<in> (parent_edges (d_units d))\<^sup>*
     | None \<Rightarrow> re_Type r = ResourceAcademicPeriod \<and> action = ActionAcademicPeriodView)"

definition binding_covers :: "directory \<Rightarrow> ActionDefinition \<Rightarrow> Resource \<Rightarrow> RoleBinding \<Rightarrow> bool" where
  "binding_covers d definit r b \<longleftrightarrow>
     (rb_ScopeType b = RoleScopeInstitution \<and> ad_InheritInstitutionScope definit \<and> (\<exists>x. GetSingleton d = Inr x \<and> in_ID x = rb_ScopeID b))
   \<or> (rb_ScopeType b = RoleScopeAcademicUnit \<and> ad_InheritAcademicUnitScopes definit \<and> unit_covers d (ad_Action definit) r (rb_ScopeID b))
   \<or> (rb_ScopeType b = RoleScopeClass \<and> re_Type r = ResourceClass \<and> rb_ScopeID b = re_ID r)"

definition granted :: "directory \<Rightarrow> string \<Rightarrow> ActionDefinition \<Rightarrow> Resource \<Rightarrow> gtime \<Rightarrow> bool" where
  "granted d userID definit r now \<longleftrightarrow> (\<exists>b \<in> set (d_bindings d). rb_UserID b = userID \<and> IsActiveAt (Some b) now \<and> binding_covers d definit r b
     \<and> (\<exists>ro \<in> set (d_roles d). ro_ID ro = rb_RoleID b \<and> \<not> Role_IsArchived (Some ro) \<and> ad_Action definit \<in> set (ro_Permissions ro)))"

definition token_allows :: "directory \<Rightarrow> Principal \<Rightarrow> ActionDefinition \<Rightarrow> Resource \<Rightarrow> bool" where
  "token_allows d who definit r \<longleftrightarrow> \<not> ad_PersonalAccessTokenForbidden definit \<and> ad_Action definit \<in> set (pr_CredentialScopes who)
     \<and> (pr_AcademicUnitID who \<noteq> '''' \<longrightarrow> re_Type r \<noteq> ResourceExamSitting \<and> re_Type r \<noteq> ResourceSubmission
          \<and> unit_covers d (ad_Action definit) r (pr_AcademicUnitID who))"

definition allowed_by_tables :: "directory \<Rightarrow> Principal \<Rightarrow> ActionDefinition \<Rightarrow> Resource \<Rightarrow> gtime \<Rightarrow> bool" where
  "allowed_by_tables d who definit r now \<longleftrightarrow> (pr_CredentialType who = CredentialPersonalAccessToken \<longrightarrow> token_allows d who definit r)
     \<and> (self_access who (ad_Action definit) r \<or> granted d (pr_UserID who) definit r now)"

definition rows_ok :: "directory \<Rightarrow> bool" where
  "rows_ok d \<longleftrightarrow> (\<forall>b \<in> set (d_bindings d). RoleBinding_Validate (Some b) = None) \<and> (\<forall>ro \<in> set (d_roles d). Role_Validate (Some ro) = None)
     \<and> distinct (map ro_ID (d_roles d))"

lemma found_Inr [simp]: "found v = Inr y \<longleftrightarrow> (\<exists>x. v = Inr x \<and> y = Some x)"
  by (auto simp: found_def split: sum.splits)

lemma sql_ports_sel [simp]:
  "po_Institution (sql_ports m d) = Institution_Get d" "po_Singleton (sql_ports m d) = GetSingleton d"
  "po_Class (sql_ports m d) = Class_Get d" "po_ClassUnit (sql_ports m d) = GetAcademicUnitID d" "po_User (sql_ports m d) = User_Get d"
  "po_Exam (sql_ports m d) = Exam_Resolve d" "po_Sitting (sql_ports m d) i = found (ExamSitting_Resolve d i)"
  "po_Submission (sql_ports m d) i = found (ExamSubmission_Resolve d i)" "po_Period (sql_ports m d) i = found (AcademicPeriod_Get d i)"
  "po_Programmes (sql_ports m d) = Some (\<lambda>i. found (Programme_Get d i))" "po_Levels (sql_ports m d) = Some (\<lambda>i. found (ProgrammeLevel_Get d i))"
  "po_Bindings (sql_ports m d) = ListActiveByUser d" "po_Roles (sql_ports m d) = GetByIDs d"
  by (simp_all add: sql_ports_def)

text \<open>The resolved units are the units above the owning one.\<close>

lemma unit_target: "resolveAcademicUnitScope p u l n = Inr rr \<Longrightarrow> rr_targetAcademicUnitID rr = u \<and> chain_of p rr"
  by (simp add: unit_scope_chain)

lemma class_target: "resolveClass p i = Inr rr \<Longrightarrow> po_ClassUnit p i = Inr (rr_targetAcademicUnitID rr)"
  by (auto simp: resolveClass_def applyScopeAncestors_def split: sum.splits option.splits if_splits)

lemma resolved_owner:
  assumes "resolve (sql_ports m d) r = Inr rr"
  shows "(case owning_unit d r of
      Some u \<Rightarrow> rr_targetAcademicUnitID rr = u \<and> chain_of (sql_ports m d) rr
    | None \<Rightarrow> rr_academicUnitID rr = [] \<and> (rr_academicPeriodInstitutionOwned rr \<longleftrightarrow> re_Type r = ResourceAcademicPeriod))"
proof -
  have found_cases: "(case found v of Inl e \<Rightarrow> f e | Inr None \<Rightarrow> g | Inr (Some x) \<Rightarrow> h x) = (case v of Inl e \<Rightarrow> f e | Inr x \<Rightarrow> h x)" for v f g h
    by (auto simp: found_def split: sum.splits)
  show ?thesis
  proof (cases "re_Type r")
    case ResourceAcademicPeriod
    then show ?thesis using assms
      by (auto simp: resolve_def owning_unit_def resolveAcademicPeriod_def found_cases dest: unit_target split: sum.splits if_splits)
  next
    case ResourceClass
    then show ?thesis using assms by (auto simp: resolve_def owning_unit_def dest: class_chain class_target split: sum.splits)
  next
    case ResourceAcademicUnit
    then show ?thesis using assms by (auto simp: resolve_def owning_unit_def dest: unit_chain)
  next
    case ResourceProgramme
    then show ?thesis using assms
      by (auto simp: resolve_def owning_unit_def resolveProgramme_def found_cases dest: unit_target split: sum.splits if_splits)
  next
    case ResourceProgrammeLevel
    then show ?thesis using assms
      by (auto simp: resolve_def owning_unit_def resolveProgrammeLevel_def found_cases dest: unit_target split: sum.splits if_splits)
  next
    case ResourceExam
    then show ?thesis using assms by (auto simp: resolve_def owning_unit_def resolveExam_def dest: unit_target split: sum.splits)
  next
    case ResourceExamSitting
    then show ?thesis using assms
      by (auto simp: resolve_def owning_unit_def resolveExamSitting_def found_cases dest: unit_target split: sum.splits)
  next
    case ResourceSubmission
    then show ?thesis using assms
      by (auto simp: resolve_def owning_unit_def resolveSubmission_def found_cases dest: unit_target split: sum.splits if_splits)
  next
    case ResourceInstitution
    then show ?thesis using assms by (auto simp: resolve_def owning_unit_def at_institution_def dest: institution_at)
  next
    case ResourceUser
    then show ?thesis using assms by (auto simp: resolve_def owning_unit_def at_institution_def dest: user_at)
  qed (use assms in \<open>simp_all add: resolve_def\<close>)
qed

lemma unit_covers_resolved:
  assumes "directory_ok d" and "resolve (sql_ports m d) r = Inr rr"
  shows "unit_covers d action r v \<longleftrightarrow> (if re_Type r = ResourceAcademicPeriod \<and> rr_academicPeriodInstitutionOwned rr then action = ActionAcademicPeriodView
    else v \<in> set (rr_academicUnitID rr))"
proof (cases "owning_unit d r")
  case None
  then show ?thesis using resolved_owner [OF assms(2)] by (auto simp: unit_covers_def)
next
  case (Some u)
  then have u: "rr_targetAcademicUnitID rr = u" "chain_of (sql_ports m d) rr" using resolved_owner [OF assms(2)] by auto
  then obtain us where "po_ListAncestors (sql_ports m d) u = Inr us" "rr_academicUnitID rr = map au_ID us" by (auto simp: chain_of_def)
  then have "set (rr_academicUnitID rr) = {j. (u, j) \<in> (parent_edges (d_units d))\<^sup>*}" using sql_ancestors [OF assms(1)] by auto
  then show ?thesis using Some chain_not_owned [OF u(2)] by (simp add: unit_covers_def)
qed

lemma applies_iff_binding_covers:
  assumes ok: "directory_ok d" and single: "GetSingleton d = Inr institution" and r: "resolve (sql_ports m d) r = Inr rr"
  shows "roleBindingApplies b definit r rr \<longleftrightarrow> binding_covers d definit r b"
proof -
  have "rr_institutionID rr = in_ID institution"
    using sql_reads.resolved_institution [where m = m and d = "Abs_wellformed_directory d", unfolded Rep_ok [OF ok], OF r]
      institution_of_live [OF ok singleton_read [OF single]] by simp
  moreover have "re_Type r = ResourceClass \<Longrightarrow> rr_classID rr = re_ID r" using resolve_chain [OF r] by simp
  ultimately show ?thesis
    using single unit_covers_resolved [OF ok r] by (cases "rb_ScopeType b") (auto simp: applies_at binding_covers_def roleBindingApplies_def)
qed

lemma active_bindings_read:
  assumes "rows_ok d"
  shows "\<exists>bs. ListActiveByUser d userID (TimeUTC now) = Inr bs
    \<and> set bs = {b \<in> set (d_bindings d). rb_UserID b = userID \<and> IsActiveAt (Some b) now}"
proof -
  let ?bs = "sort_key (\<lambda>r. (scope_text (rb_ScopeType r), rb_ScopeID r, rb_ID r))
       (filter (\<lambda>r. rb_UserID r = userID \<and> \<not> ot_Valid (rb_ArchivedAt r) \<and> \<not> After (rb_StartsAt r) (TimeUTC now)
          \<and> (\<not> ot_Valid (rb_EndsAt r) \<or> After (ot_Time (rb_EndsAt r)) (TimeUTC now))) (d_bindings d))"
  have "list_all (\<lambda>b. roleBindingRow_model b = Inr b) ?bs"
    using assms by (auto simp: list_all_iff rows_ok_def roleBindingRow_model_def validatePersistedModel_def)
  then have "ListActiveByUser d userID (TimeUTC now) = Inr ?bs" by (simp add: ListActiveByUser_def rehydrate_ok)
  then show ?thesis by (auto simp: IsActiveAt_def RoleBinding_IsArchived_def Before_def After_def)
qed

lemma roles_read:
  assumes "rows_ok d"
  shows "\<exists>roles. GetByIDs d ids = Inr roles
    \<and> (\<forall>i action. role_grants roles i action \<longleftrightarrow> i \<in> set ids \<and> (\<exists>ro \<in> set (d_roles d). ro_ID ro = i \<and> \<not> Role_IsArchived (Some ro) \<and> action \<in> set (ro_Permissions ro)))"
proof -
  let ?rs = "sort_key (\<lambda>r. (ro_Name r, ro_ID r)) (filter (\<lambda>r. List.member ids (ro_ID r) \<and> \<not> ot_Valid (ro_ArchivedAt r)) (d_roles d))"
  have "list_all (\<lambda>r. roleRow_model r = Inr r) ?rs"
    using assms by (auto simp: list_all_iff rows_ok_def roleRow_model_def validatePersistedModel_def)
  then have read: "GetByIDs d ids = Inr ?rs" by (auto simp: GetByIDs_def rehydrate_ok)
  have one: "x = y" if "x \<in> set (d_roles d)" "y \<in> set (d_roles d)" "ro_ID x = ro_ID y" for x y
    using assms that by (auto simp: rows_ok_def distinct_map inj_on_def)
  have "role_grants ?rs i action \<longleftrightarrow> i \<in> set ids \<and> (\<exists>ro \<in> set (d_roles d). ro_ID ro = i \<and> \<not> Role_IsArchived (Some ro) \<and> action \<in> set (ro_Permissions ro))" for i action
  proof (cases "find (\<lambda>r. ro_ID r = i) (rev ?rs)")
    case None
    then have "\<forall>ro \<in> set ?rs. ro_ID ro \<noteq> i" by (auto simp: find_None_iff)
    then show ?thesis using None by (auto simp: role_grants_def Role_IsArchived_def List.member_iff)
  next
    case (Some ro)
    then have "ro \<in> set (rev ?rs)" "ro_ID ro = i" by (auto simp: find_Some_iff simp del: set_rev intro: nth_mem)
    then have "ro \<in> set (d_roles d)" "i \<in> set ids" "\<not> ot_Valid (ro_ArchivedAt ro)" "ro_ID ro = i" by (auto simp: List.member_iff)
    then show ?thesis using Some one by (auto simp: role_grants_def Role_IsArchived_def List.member_iff)
  qed
  then show ?thesis using read by blast
qed

lemma no_unit_covers:
  "re_Type r = ResourceInstitution \<Longrightarrow> \<not> unit_covers d action r v" "re_Type r = ResourceUser \<Longrightarrow> \<not> unit_covers d action r v"
  "re_Type r = ResourceMailDelivery \<Longrightarrow> \<not> unit_covers d action r v" "re_Type r = ResourceOther t \<Longrightarrow> \<not> unit_covers d action r v"
  by (simp_all add: unit_covers_def owning_unit_def)

lemma decision_read:
  assumes ok: "directory_ok d" "rows_ok d" and single: "GetSingleton d = Inr institution" and r: "resolve (sql_ports m d) r = Inr rr"
    and act: "ad_Action definit = action"
    and pat: "pr_CredentialType who = CredentialPersonalAccessToken \<longrightarrow> \<not> ad_PersonalAccessTokenForbidden definit"
  shows "evaluateResolved (sql_ports m d) now who action r definit rr = Inr (allowed_by_tables d who definit r now)"
proof -
  obtain bs where bs: "ListActiveByUser d (pr_UserID who) (TimeUTC now) = Inr bs"
    "set bs = {b \<in> set (d_bindings d). rb_UserID b = pr_UserID who \<and> IsActiveAt (Some b) now}"
    using active_bindings_read [OF ok(2)] by blast
  obtain roles where roles: "GetByIDs d (first_occurrences (map rb_RoleID bs)) = Inr roles"
    "\<And>i a. role_grants roles i a \<longleftrightarrow> i \<in> rb_RoleID ` set bs \<and> (\<exists>ro \<in> set (d_roles d). ro_ID ro = i \<and> \<not> Role_IsArchived (Some ro) \<and> a \<in> set (ro_Permissions ro))"
    using roles_read [OF ok(2), of "first_occurrences (map rb_RoleID bs)"] by (auto simp: first_occurrences_def)
  have grant: "list_ex (\<lambda>b. roleBindingApplies b definit r rr \<and> role_grants roles (rb_RoleID b) action) bs \<longleftrightarrow> granted d (pr_UserID who) definit r now"
    unfolding list_ex_iff granted_def applies_iff_binding_covers [OF ok(1) single r] roles(2) bs(2) act by blast
  have token: "personalAccessTokenAllows who action r rr \<longleftrightarrow> token_allows d who definit r"
    if "pr_CredentialType who = CredentialPersonalAccessToken"
    using pat that act unit_covers_resolved [OF ok(1) r, of action "pr_AcademicUnitID who"] resolve_chain [OF r]
    by (cases "re_Type r") (auto simp: personalAccessTokenAllows_def token_allows_def List.member_iff at_institution_def no_unit_covers)
  show ?thesis using bs(1) roles(1) grant token act
    by (auto simp: evaluateResolved_def allowed_by_tables_def self_access_def)
qed


section \<open>Nothing is decided without a record\<close>

definition records ::
    "AuditEvent \<Rightarrow> Principal \<Rightarrow> string \<Rightarrow> Resource \<Rightarrow> RoleScopeType \<times> string \<Rightarrow> bool \<Rightarrow> bool" where
  "records event who action r scope allowed \<longleftrightarrow> av_ActorID event = pr_UserID who \<and> av_SessionID event = pr_SessionID who
     \<and> av_Action event = TrimSpace action \<and> av_Resource event = r \<and> av_ScopeType event = fst scope \<and> av_ScopeID event = snd scope
     \<and> av_Status event = (if allowed then AuditStatusSuccess else AuditStatusFail)"

lemma insert_row_event:
  "insert_row jsonb event db = Inr db' \<Longrightarrow> \<exists>row. newAuditRow jsonb event = Some row \<and> db' = db\<lparr>adb_events := adb_events db @ [row]\<rparr>"
  by (auto simp: insert_row_def split: option.splits)

lemma newAuditRow_core:
  "newAuditRow jsonb event = Some row \<Longrightarrow> av_ActorID row = av_ActorID event \<and> av_SessionID row = av_SessionID event \<and> av_Action row = av_Action event
     \<and> av_Resource row = av_Resource event \<and> av_ScopeType row = av_ScopeType event \<and> av_ScopeID row = av_ScopeID event \<and> av_Status row = av_Status event"
  by (auto simp: newAuditRow_def split: option.splits)

lemma recordDecision_cases:
  "recordDecision env who action r scope metadata allowed db = (db, Some authorizationUnavailableError)
   \<or> (\<exists>row. records row who action r scope allowed \<and> IsValidOpaqueID (snd scope)
        \<and> recordDecision env who action r scope metadata allowed db = (db\<lparr>adb_events := adb_events db @ [row]\<rparr>, None))"
proof -
  define candidate where "candidate = AuditEvent_PrepareUpdate (AuditEvent_PrepareCreate (decision_event env who action r scope metadata allowed)
    (ae_newID env) (TimeUTC (ae_now env))) (TimeUTC (ae_now env))"
  have core: "records candidate who action r scope allowed"
    by (simp add: candidate_def records_def AuditEvent_PrepareUpdate_def AuditEvent_PrepareCreate_def AuditEvent_normalize_def decision_event_def)
  have saved: "AuditStore_Save (ae_jsonb env) (ae_order env) (ae_newID env) (ae_now env) (Some (decision_event env who action r scope metadata allowed)) db
      = (case AuditEvent_Validate (ae_order env) (Some candidate) of Some invalid \<Rightarrow> (db, Inl invalid)
         | None \<Rightarrow> (case insert_row (ae_jsonb env) candidate db of Inl err \<Rightarrow> (db, Inl err) | Inr db' \<Rightarrow> (db', Inr candidate)))"
    by (simp add: AuditStore_Save_def insertAuditEventBetween_def candidate_def [symmetric] Let_def) (simp add: decision_event_def)
  show ?thesis
  proof (cases "ae_Configured env \<and> AuditEvent_Validate (ae_order env) (Some candidate) = None")
    case False
    then show ?thesis by (auto simp: recordDecision_def saved split: option.splits)
  next
    case True
    show ?thesis
    proof (cases "insert_row (ae_jsonb env) candidate db")
      case (Inl e)
      then show ?thesis using True by (simp add: recordDecision_def saved)
    next
      case (Inr db')
      then obtain row where row: "newAuditRow (ae_jsonb env) candidate = Some row" "db' = db\<lparr>adb_events := adb_events db @ [row]\<rparr>"
        using insert_row_event by blast
      moreover have "records row who action r scope allowed" using core newAuditRow_core [OF row(1)] by (simp add: records_def)
      moreover have "IsValidOpaqueID (snd scope)" using True core by (simp add: AuditEvent_Validate_ok records_def)
      ultimately show ?thesis using True Inr by (auto simp: recordDecision_def saved)
    qed
  qed
qed

text \<open>C11. No decision without its record.  When the evaluation fails, its error is returned and nothing is
  written.  Otherwise the request is allowed, or refused as denied, only with a new event at the end of
  the audit trail that names the user, the session, the action, the resource, the scope of the decision
  and its outcome; if the event cannot be written, the request is refused as unavailable and nothing is
  written.\<close>
theorem decisions_recorded:
  "case evaluate p coarseNow now (iv_Principal invocation) action r of
     Inl e \<Rightarrow> Authorize p env coarseNow now invocation action r db = (db, Some e)
   | Inr (allowed, resolved) \<Rightarrow>
       Authorize p env coarseNow now invocation action r db = (db, Some authorizationUnavailableError)
       \<or> (\<exists>event. records event (iv_Principal invocation) action r (authorizationAuditScope r resolved) allowed
            \<and> Authorize p env coarseNow now invocation action r db
                = (db\<lparr>adb_events := adb_events db @ [event]\<rparr>, if allowed then None else Some authorizationDeniedError))"
proof (cases "evaluate p coarseNow now (iv_Principal invocation) action r")
  case (Inl e)
  then show ?thesis by (simp add: Authorize_def authorizeCurrentStateWithScope_def no_result_def)
next
  case (Inr v)
  then obtain allowed resolved where v: "evaluate p coarseNow now (iv_Principal invocation) action r = Inr (allowed, resolved)" by (cases v) auto
  show ?thesis
    using recordDecision_cases [of env "iv_Principal invocation" action r "authorizationAuditScope r resolved" "iv_RequestMetadata invocation" allowed db]
    by (auto simp: v Authorize_def authorizeCurrentStateWithScope_def no_result_def after_record_def Let_def)
qed

text \<open>A refusal that is never recorded.  The early return for an action that is closed to personal access
  tokens leaves the resource unresolved, so the scope of the record is the empty identifier, which the
  event's validation rejects: the caller sees the service as unavailable instead of a denial, and the
  audit trail has no trace of the attempt.  Units and classes, whose scope is the resource itself, are
  recorded.\<close>
lemma forbidden_token_unrecorded:
  assumes "Principal_Validate (iv_Principal invocation) = None" and "pr_CredentialType (iv_Principal invocation) = CredentialPersonalAccessToken"
    and "DefinitionForAction action = Some definit" and "\<not> ad_RelationshipOnly definit" and "ad_PersonalAccessTokenForbidden definit"
    and "Resource_Validate r = None" and "AcceptsResource definit (re_Type r)"
    and "re_Type r \<noteq> ResourceAcademicUnit" and "re_Type r \<noteq> ResourceClass"
  shows "Authorize p env coarseNow now invocation action r db = (db, Some authorizationUnavailableError)"
proof -
  have e: "evaluate p coarseNow now (iv_Principal invocation) action r = Inr (False, unresolved)" using assms by (simp add: evaluate_def)
  have scope: "snd (authorizationAuditScope r unresolved) = ''''"
    using assms(8,9) by (cases "re_Type r") (simp_all add: authorizationAuditScope_def)
  have "\<not> IsValidOpaqueID ''''" by (simp add: IsValidOpaqueID_def IDLength_def)
  then have "recordDecision env (iv_Principal invocation) action r (authorizationAuditScope r unresolved) (iv_RequestMetadata invocation) False db
      = (db, Some authorizationUnavailableError)"
    using recordDecision_cases scope by metis
  then show ?thesis by (simp add: Authorize_def authorizeCurrentStateWithScope_def e after_record_def no_result_def Let_def)
qed

section \<open>A sample directory\<close>

text \<open>One institution, a faculty with a department, an exam of the department, and a user whose role for
  viewing exams is bound at the faculty.\<close>

abbreviation sample_id :: "char \<Rightarrow> string" where "sample_id c \<equiv> replicate 26 c"

definition sample_role :: Role where
  "sample_role = \<lparr>ro_ID = sample_id CHR ''r'', ro_CreatedAt = sample_instant 1, ro_UpdatedAt = sample_instant 1, ro_ArchivedAt = no_time,
     ro_Name = ''examiner'', ro_DisplayName = ''Examiner'', ro_Description = '''', ro_Permissions = [ActionExamView], ro_BuiltIn = False\<rparr>"

definition sample_binding :: "string \<Rightarrow> RoleBinding" where
  "sample_binding scope = \<lparr>rb_ID = sample_id CHR ''b'', rb_CreatedAt = sample_instant 1, rb_UpdatedAt = sample_instant 1, rb_ArchivedAt = no_time,
     rb_UserID = sample_id CHR ''u'', rb_RoleID = sample_id CHR ''r'', rb_OriginInvitationID = '''', rb_OriginAcademicUnitMemberID = '''',
     rb_ScopeType = RoleScopeAcademicUnit, rb_ScopeID = scope, rb_StartsAt = sample_instant 1, rb_EndsAt = no_time\<rparr>"

definition sample_access :: directory where
  "sample_access = (sample_directory [sample_faculty, sample_department])\<lparr>
     d_exams := [\<lparr>ex_ID = sample_id CHR ''x'', ex_AcademicUnitID = sample_id CHR ''d''\<rparr>],
     d_roles := [sample_role], d_bindings := [sample_binding (sample_id CHR ''f'')]\<rparr>"

definition sample_principal :: Principal where
  "sample_principal = \<lparr>pr_UserID = sample_id CHR ''u'', pr_AuthenticationGeneration = 1, pr_MFARecoveryRequired = False, pr_SessionID = sample_id CHR ''s'',
     pr_CredentialID = sample_id CHR ''s'', pr_CredentialType = CredentialSessionAccess, pr_AuthenticationMethod = ''password'',
     pr_AuthenticationProviderID = '''', pr_ExternalIdentityID = '''', pr_AuthenticationStrength = AuthenticationSingleFactor,
     pr_ClientType = SessionClientWeb, pr_DesktopRegistrationID = '''', pr_DPoPKeyThumbprint = '''', pr_RegisteredDesktopKey = False,
     pr_DesktopRelease = '''', pr_DesktopBuildID = '''', pr_DesktopPlatform = DesktopPlatformOther '''',
     pr_DesktopArchitecture = DesktopArchitectureOther '''', pr_DesktopRealtimeProtocol = 0, pr_AuthenticatedAt = sample_instant 1,
     pr_ReauthenticatedAt = no_time, pr_MFACompletedAt = no_time, pr_CredentialScopes = [], pr_AcademicUnitID = ''''\<rparr>"

definition sample_exam :: Resource where
  "sample_exam = \<lparr>re_Type = ResourceExam, re_ID = sample_id CHR ''x''\<rparr>"

definition sample_match :: "string \<Rightarrow> UserVisibilityScope \<Rightarrow> go_error + RoleScopeType \<times> string" where
  "sample_match userID v = Inl (StoreError ErrNotFound ''user'' userID)"

definition sample_definition :: ActionDefinition where
  "sample_definition = (action_def ActionExamView ResourceExam)\<lparr>ad_InheritInstitutionScope := True, ad_InheritAcademicUnitScopes := True\<rparr>"

definition sample_resolved :: resolvedAuthorizationResource where
  "sample_resolved = \<lparr>rr_institutionID = sample_id CHR ''i'', rr_academicUnitID = [sample_id CHR ''d'', sample_id CHR ''f''],
     rr_targetAcademicUnitID = sample_id CHR ''d'', rr_classID = '''', rr_academicPeriodInstitutionOwned = False\<rparr>"

lemma sample_access_ids [simp]:
  "IsValidOpaqueID (sample_id CHR ''x'')" "IsValidOpaqueID (sample_id CHR ''d'')" "IsValidOpaqueID (sample_id CHR ''f'')"
  "IsValidOpaqueID (sample_id CHR ''u'')" "IsValidOpaqueID (sample_id CHR ''s'')" "IsValidOpaqueID (sample_id CHR ''r'')"
  "IsValidOpaqueID (sample_id CHR ''b'')"
  by (rule IsValidOpaqueID_repeat, simp add: IDAlphabet_def)+

lemma sample_times [simp]: "\<not> IsZero (sample_instant 1)" "\<not> Before (sample_instant 1) (sample_instant 1)" "\<not> ot_Valid no_time"
  by (simp_all add: sample_instant_def IsZero_def Before_def zero_time_def no_time_def)

lemma sample_principal_valid: "Principal_Validate sample_principal = None"
  by (simp add: Principal_Validate_def Principal_validateIdentity_def validate_session_principal_def no_desktop_def sample_principal_def
      SessionClientType_IsValid_def AuthenticationStrength_IsValid_def)

lemma sample_name_valid: "validateNamed ''Role.Validate'' ''role'' i ''examiner'' ''Examiner'' '''' = None"
proof -
  have "length ''examiner'' \<le> NameMaxLength \<and> validName ''examiner'' \<and> RuneCountInString ''Examiner'' = 8 \<and> RuneCountInString '''' = 0" by code_simp
  then show ?thesis by (simp add: validateNamed_def Let_def DisplayNameMaxRunes_def DescriptionMaxRunes_def)
qed

lemma sample_rows_valid: "Role_Validate (Some sample_role) = None \<and> RoleBinding_Validate (Some (sample_binding (sample_id CHR ''f''))) = None"
proof
  have "validPermission ActionExamView \<and> length ActionExamView \<le> RolePermissionMaxLength" by code_simp
  then show "Role_Validate (Some sample_role) = None"
    by (simp add: Role_Validate_def sample_role_def Let_def sample_name_valid RolePermissionMaxCount_def)
  show "RoleBinding_Validate (Some (sample_binding (sample_id CHR ''f''))) = None"
    by (simp add: RoleBinding_Validate_def sample_binding_def Let_def RoleScopeType_IsValid_def validateEffectiveInterval_def)
qed

lemma sample_definition_found: "DefinitionForAction ActionExamView = Some sample_definition"
  by (simp add: DefinitionForAction_iff sample_definition_def actionDefinitions_def examActions_def action_def_def)

lemma sample_directory_ok: "directory_ok sample_access"
  using hierarchy_reachable_ok [OF sample_hierarchy_reachable]
  by (auto simp: directory_ok_def sample_access_def sample_directory_def live_institutions_def sample_faculty_def sample_department_def sample_unit_def
      no_time_def)

lemma sample_rows_ok: "rows_ok sample_access"
  using sample_rows_valid by (simp add: rows_ok_def sample_access_def sample_directory_def)

lemma sample_singleton: "GetSingleton sample_access = Inr \<lparr>in_ID = sample_id CHR ''i'', in_ArchivedAt = no_time\<rparr>"
  by (simp add: GetSingleton_def sample_access_def sample_directory_def no_time_def)

lemma sample_ancestors:
  "ListAncestors (d_units sample_access) (sample_id CHR ''d'') = Some (Inr [sample_department, sample_faculty])"
  "ListAncestors (d_units sample_access) (sample_id CHR ''f'') = Some (Inr [sample_faculty])"
  using sample_units_valid
  by (simp_all add: ListAncestors_def ancestor_rows.simps sample_access_def sample_directory_def live_unit_def sample_department_def sample_faculty_def
      sample_unit_def no_time_def academicUnitRow_model_def validatePersistedModel_def)

lemma sample_resolves:
  "resolve (sql_ports sample_match sample_access) sample_exam = Inr sample_resolved"
  "resolve (sql_ports sample_match sample_access) \<lparr>re_Type = ResourceAcademicUnit, re_ID = sample_id CHR ''d''\<rparr> = Inr sample_resolved"
  "\<exists>rr. resolve (sql_ports sample_match sample_access) \<lparr>re_Type = ResourceAcademicUnit, re_ID = sample_id CHR ''f''\<rparr> = Inr rr"
proof -
  have a: "po_ListAncestors (sql_ports sample_match sample_access) (sample_id CHR ''d'') = Inr [sample_department, sample_faculty]"
    "po_ListAncestors (sql_ports sample_match sample_access) (sample_id CHR ''f'') = Inr [sample_faculty]"
    by (simp_all add: sql_ports_def sample_ancestors)
  have e: "Exam_Resolve sample_access (sample_id CHR ''x'') = Inr \<lparr>ex_ID = sample_id CHR ''x'', ex_AcademicUnitID = sample_id CHR ''d''\<rparr>"
    by (simp add: Exam_Resolve_def sample_access_def)
  note defs = resolve_def resolveAcademicUnit_def applyScopeAncestors_def AcademicUnit_IsArchived_def a sample_department_def sample_faculty_def
    sample_unit_def sample_resolved_def unresolved_def
  show "resolve (sql_ports sample_match sample_access) sample_exam = Inr sample_resolved"
    using a by (simp add: sample_exam_def resolve_def resolveExam_def e resolveAcademicUnitScope_def listScopeAncestors_def applyScopeAncestors_def
        AcademicUnit_IsArchived_def) (simp add: defs)
  show "resolve (sql_ports sample_match sample_access) \<lparr>re_Type = ResourceAcademicUnit, re_ID = sample_id CHR ''d''\<rparr> = Inr sample_resolved"
    using a by (simp add: resolve_def resolveAcademicUnit_def applyScopeAncestors_def AcademicUnit_IsArchived_def) (simp add: defs)
  show "\<exists>rr. resolve (sql_ports sample_match sample_access) \<lparr>re_Type = ResourceAcademicUnit, re_ID = sample_id CHR ''f''\<rparr> = Inr rr"
    using a by (simp add: resolve_def resolveAcademicUnit_def applyScopeAncestors_def AcademicUnit_IsArchived_def) (simp add: defs)
qed

lemma sample_reads:
  "ListActiveByUser sample_access (sample_id CHR ''u'') (sample_instant 2) = Inr [sample_binding (sample_id CHR ''f'')]"
  "GetByIDs sample_access [sample_id CHR ''r''] = Inr [sample_role]"
  using sample_rows_valid
  by (simp_all add: ListActiveByUser_def GetByIDs_def sample_access_def roleBindingRow_model_def roleRow_model_def validatePersistedModel_def
      sample_binding_def sample_role_def After_def sample_instant_def)

lemma sample_scopes:
  "\<exists>c. authorizedScopesAt (sql_ports sample_match sample_access) sample_principal ActionExamView ResourceExam (sample_instant 2) = Inr c
     \<and> \<not> sc_InstitutionWide c \<and> sc_AcademicUnitRootIDs c = [sample_id CHR ''f'']"
proof -
  obtain rr where rr: "resolve (sql_ports sample_match sample_access) \<lparr>re_Type = ResourceAcademicUnit, re_ID = sample_id CHR ''f''\<rparr> = Inr rr"
    using sample_resolves(3) by blast
  have u: "pr_UserID sample_principal = sample_id CHR ''u''" "pr_CredentialType sample_principal = CredentialSessionAccess" "pr_AcademicUnitID sample_principal = ''''"
    by (simp_all add: sample_principal_def)
  have b: "rb_RoleID (sample_binding s) = sample_id CHR ''r''" "rb_ScopeType (sample_binding s) = RoleScopeAcademicUnit" "rb_ScopeID (sample_binding s) = s" for s
    by (simp_all add: sample_binding_def)
  have g: "role_grants [sample_role] (sample_id CHR ''r'') ActionExamView" by (simp add: role_grants_def sample_role_def)
  have d: "AcceptsResource sample_definition ResourceExam" "ad_InheritAcademicUnitScopes sample_definition"
    by (simp_all add: sample_definition_def AcceptsResource_def action_def_def)
  show ?thesis
    by (simp add: authorizedScopesAt_def sample_principal_valid sample_definition_found d u activeBindingGrants_def sample_reads first_occurrences_def b g
        accumulateBindingScope_def rr no_scopes_def)
qed


theorem delegation_no_escalation_witness:
  "Can (sql_ports sample_match sample_access) (sample_instant 2) (sample_instant 2) sample_principal ActionExamView sample_exam = Inr True"
proof -
  let ?b = "sample_binding (sample_id CHR ''d'')"
  have b: "rb_ScopeType ?b = RoleScopeAcademicUnit" "rb_ScopeID ?b = sample_id CHR ''d''" by (simp_all add: sample_binding_def)
  have d: "AcceptsResource sample_definition (re_Type sample_exam)" "ad_InheritAcademicUnitScopes sample_definition" "\<not> ad_RelationshipOnly sample_definition"
      "ad_Action sample_definition = ActionExamView" "ad_ResourceType sample_definition = ResourceExam"
    by (simp_all add: sample_definition_def AcceptsResource_def action_def_def sample_exam_def)
  have "canDelegateActionsAtScope (sql_ports sample_match sample_access) (\<lambda>_. sample_instant 2) sample_principal [ActionExamView] (rb_ScopeType ?b) (rb_ScopeID ?b) = Inr True"
    using sample_scopes sample_resolves(2)
    by (auto simp: b canDelegateActionsAtScope_def roleScopeResource_def sample_definition_found d delegationConstraintContains_def sample_resolved_def
        protectedDelegationAction_def)
  moreover have "roleBindingApplies ?b sample_definition sample_exam sample_resolved" "Resource_Validate sample_exam = None"
      "pr_CredentialType sample_principal = CredentialSessionAccess" "List.member [ActionExamView] ActionExamView"
    by (simp_all add: applies_at(2) [OF b(1)] b d sample_resolved_def Resource_Validate_def sample_exam_def sample_principal_def)
  ultimately show ?thesis
    by (intro delegation_no_escalation [OF sample_directory_ok sample_singleton sample_principal_valid _ _ _ sample_definition_found _ d(1) sample_resolves(1)])
qed


end
