(* ===== verification/Spec2Isabelle.thy ===== *)
theory Spec2Isabelle
  imports ExamSitting AttemptClosure Workspace ExamSubmission CacheProperties JobQueue
    AccessProperties
begin

text \<open>
  A verification development for Proctor, a server for supervised examinations (Go, under
  \<^verbatim>\<open>src/server\<close> and \<^verbatim>\<open>src/packages\<close>).

  \<^bold>\<open>The program.\<close>  A manager schedules a Sitting of an Exam; candidates are admitted to it, each with one
  Attempt.  A candidate's client holds the Attempt through a Participation (a lease that it renews) and
  a Connection; it edits files in an Attempt Workspace that was filled from the Exam's Starter
  Workspace; at the end the Workspace is sealed into a Submission with a manifest.  Work that must
  survive a crash (closing Sittings, mail, exports, retention) runs as durable Jobs in a queue kept in
  the database.  Short-lived state (rate limits, cached reads) is in a cache.  Who may do what follows from
  roles that are bound to users at the institution, at an academic unit or at a class; units form a tree
  and a binding reaches what is below it.  Every decision and every change is audited.  The domain rules are the
  package \<^verbatim>\<open>server/model\<close>; the persistence layer is \<^verbatim>\<open>server/store/sqlstore\<close>; the services of
  \<^verbatim>\<open>server/app\<close> call both and are called by \<^verbatim>\<open>server/httpapi\<close> and the job workers.

  \<^bold>\<open>Representation.\<close>  A struct is a record with the struct's fields, an enumeration of strings a datatype
  with one more constructor for every other string, a method with a pointer receiver a function of an
  optional value (\<^verbatim>\<open>nil\<close> is \<open>None\<close>).  A method that changes its receiver returns the receiver after the call
  together with the error; a method that returns a changed copy returns the copy and the error.
  Errors are values of \<open>go_error\<close>.  An \<^verbatim>\<open>int64\<close> is an integer with the wrap-around written out
  (\<open>wrap64\<close>, \<open>inc64\<close>); a time is an instant in nanoseconds with its location (theory Instants); a
  Go string is a list of bytes, decoded where the code decodes it (theory Utf8).  Clocks, random bytes
  and fresh identifiers are arguments.

  \<^bold>\<open>Theories and sources.\<close>

    \<^item> Prelude: \<^verbatim>\<open>model/validation_error.go\<close>, 64-bit arithmetic, the commit idiom, runs of operations, and
      the interfaces \<open>aggregate\<close> (operations that keep a well-formed value well-formed and leave it
      unchanged on error), \<open>versioned_aggregate\<close> (a revision that counts the changes) and \<open>lifecycle\<close>
      (a state that moves along given edges and has final states).  Each aggregate below interprets them.
    \<^item> Instants (\<^verbatim>\<open>model/time.go\<close>), Utf8 (what the code uses of \<^verbatim>\<open>unicode/utf8\<close> and \<^verbatim>\<open>strings\<close>),
      Text (\<^verbatim>\<open>model/utils.go\<close>, \<^verbatim>\<open>named.go\<close>, \<^verbatim>\<open>credential.go\<close>), Sha256 (\<^verbatim>\<open>crypto/sha256\<close>,
      \<^verbatim>\<open>encoding/hex\<close>), Json (the scanner behind \<^verbatim>\<open>json.Valid\<close>).
    \<^item> ExamSitting (\<^verbatim>\<open>model/exam_sitting.go\<close>): the Sitting and its nine operations.  On well-formed
      Sittings they implement a transition system exactly; histories keep identity, opening time and
      deadlines; construction establishes the invariant.
    \<^item> ExamAttempt (\<^verbatim>\<open>model/exam_attempt.go\<close>): Attempt, Participation, Connection, Suspension and
      integrity flags.  Lease renewal is characterised on every branch; histories are safe; a Suspension
      is lifted once.
    \<^item> AttemptClosure (\<^verbatim>\<open>model/exam_submission.go\<close>, \<^verbatim>\<open>exam_attempt_manual_suspension.go\<close>,
      \<^verbatim>\<open>focus_loss.go\<close>): the operations that act on Attempt, Participation and Connection together; each
      is all or nothing, and a submitted or ended Attempt stays so with nothing live left behind.
    \<^item> Workspace (\<^verbatim>\<open>model/exam_starter_workspace.go\<close>, \<^verbatim>\<open>exam_attempt_workspace.go\<close>,
      \<^verbatim>\<open>file.go\<close>, \<^verbatim>\<open>exam_capacity_policy.go\<close>): logical paths, content objects, the
      Workspace and its cursor.
    \<^item> ExamSubmission (\<^verbatim>\<open>model/exam_submission.go\<close>, \<^verbatim>\<open>browser_submission_settlement.go\<close>): the manifest, its
      canonical order, totals and digest, and the Submission made from it.  The digest encoding is
      injective, so equal digests are equal manifests or a SHA-256 collision.
    \<^item> Cache, GoHeap, CacheMemory, CacheRefinement, CacheProperties (\<^verbatim>\<open>packages/cache\<close>,
      \<^verbatim>\<open>packages/cache/memory\<close>): the in-process cache with its hash map, recency list and expiry heap over
      an explicit store of entries.  It refines an abstract cache without addresses; every call returns;
      eviction is least-recently-used and never takes a live counter.  GoHeap is \<^verbatim>\<open>container/heap\<close> over an
      interface that the cache's expiry heap implements.
    \<^item> Job (\<^verbatim>\<open>model/job.go\<close>), JobStore (\<^verbatim>\<open>store/sqlstore/job_store.go\<close>, \<^verbatim>\<open>store/job.go\<close>), JobLedger (the
      invariant of the tables), JobQueue (the calls of workers and operators as a step relation, and what
      holds in every reachable database): exclusive execution, fencing of workers that lost their lease,
      an append-only record, work budgets, deduplication, progress of claims, paged listings.
    \<^item> SqlTransactions (\<^verbatim>\<open>store/sqlstore/transaction_execution.go\<close>, \<^verbatim>\<open>rehydration.go\<close>): what the stores share.
    \<^item> AcademicUnit (\<^verbatim>\<open>model/academic_unit.go\<close>), Authorization (\<^verbatim>\<open>model/authorization.go\<close>, \<^verbatim>\<open>role.go\<close>,
      \<^verbatim>\<open>role_binding.go\<close>: every action with its definition, roles, bindings), Principal
      (\<^verbatim>\<open>model/principal.go\<close> and the identities it checks), AuditEvent (\<^verbatim>\<open>model/audit_event.go\<close>).
    \<^item> Directory: the tables that authorization reads, restricted to the columns it uses, and those reads.
      AcademicHierarchy (\<^verbatim>\<open>store/sqlstore/academic_unit_store.go\<close>): the transactions on the tree of units;
      its live units are a forest in every reachable directory, so its recursive queries end.
    \<^item> AuditStore (\<^verbatim>\<open>store/sqlstore/audit_store.go\<close> and every other statement on the table): the audit
      trail cannot be rewritten.
    \<^item> AccessControl (\<^verbatim>\<open>app/authorization.go\<close>, \<^verbatim>\<open>app/access_scope.go\<close>, \<^verbatim>\<open>app/audit.go\<close>,
      \<^verbatim>\<open>app/apperror/store.go\<close>): resolution of a resource, the decision, its record, list scopes,
      preflights and delegation, over a record of reads; AccessProperties: the interface \<open>scope_reads\<close>
      that these reads promise, its interpretation by the SQL reads of a well-formed directory, and the
      theorems: the decision is what the tables say, lists agree with single decisions, delegation does
      not escalate, and nothing is decided without a record.

  \<^bold>\<open>Persistence.\<close>  A transaction is a function on the tables it touches that returns the new tables or an
  error, and an error rolls back.  Concurrent transactions are interleaved as wholes: the code locks the
  rows that it changes.  The clock of a transaction is an arbitrary argument, so clocks may disagree and go
  back between calls.  Rows that other transactions hold locked, which \<^verbatim>\<open>SKIP LOCKED\<close> passes over, are an
  arbitrary argument too.  How the database stores a JSON document is the parameter \<open>jsonb\<close>, of which the
  theorems use the documented behaviour \<open>jsonb_doc\<close>: what it returns is valid JSON that it returns unchanged
  when it is stored again.

  \<^bold>\<open>Loops.\<close>  Loops over data are structural recursions.  The sift loops of the heap, the blocks of SHA-256 and
  the decoding of UTF-8 are total functions with termination proofs.  The two loops of the cache that run
  until a condition holds are partial functions whose value \<open>None\<close> also stands for a panic; the theorem
  \<open>cache_runs_bounded\<close> shows that they always return.  The recursive queries over the tree of units are
  partial functions too, and \<open>hierarchy_forest\<close> shows that they return.  There is no fuel anywhere.

  \<^bold>\<open>Not modelled.\<close>  Transports, rendering and wiring (\<^verbatim>\<open>httpapi\<close>, \<^verbatim>\<open>websocket\<close>, \<^verbatim>\<open>webui\<close>,
  \<^verbatim>\<open>webapp\<close>, \<^verbatim>\<open>cmd\<close>, \<^verbatim>\<open>config\<close>, \<^verbatim>\<open>platform\<close>, logging, metrics, tracing, localization), which carry
  no state of their own that a theorem here would be about; the other SQL stores and the application
  services apart from access control, which follow the same patterns (authorize, then a fenced and audited
  transaction) over many more tables; the filtered listing of audit events and the query that matches a
  user with a visibility scope, which is an argument; the authorization of an academic period that is not
  stored yet;
  mail, virtual file systems, external identity providers, the Redis cache and cluster transport, which
  are clients of services outside the repository.  Errors of the database connection are left out
  of the transactions: they roll back like every other error.  The reads of one access decision see one
  state of the database; a change between two of them is not modelled.
\<close>

end
